(* ===== verification/Prelude.thy ===== *)
theory Prelude
  imports Complex_Main "HOL-Library.AList" "HOL-Library.Sublist"
begin

text \<open>
  What every component shares: the collections of rewrite rules, results that are an error or a
  value, actions that pass a state and may fail, the rules that compose facts about actions, and
  the generic lemmas on lists and association lists.
\<close>

named_theorems go_defs \<open>definitions that unfold when a concrete input is evaluated\<close>
named_theorems act_simps \<open>how the action combinators compute\<close>

section \<open>Results\<close>

text \<open>A Go function that returns a value and an error: \<open>Inl\<close> is the non-nil error.\<close>

type_synonym ('e, 'a) result = "'e + 'a"

definition res_bind :: "('e, 'a) result \<Rightarrow> ('a \<Rightarrow> ('e, 'b) result) \<Rightarrow> ('e, 'b) result" where
  "res_bind r f = (case r of Inl e \<Rightarrow> Inl e | Inr a \<Rightarrow> f a)"

lemma res_bind_simps [simp]:
  "res_bind (Inl e) f = Inl e"
  "res_bind (Inr a) f = f a"
  by (simp_all add: res_bind_def)

lemma res_bind_Inr_iff [simp]:
  "res_bind r f = Inr b \<longleftrightarrow> (\<exists>a. r = Inr a \<and> f a = Inr b)"
  by (cases r) auto

lemma res_bind_Inl_iff:
  "res_bind r f = Inl e \<longleftrightarrow> r = Inl e \<or> (\<exists>a. r = Inr a \<and> f a = Inl e)"
  by (cases r) auto

section \<open>Actions\<close>

text \<open>
  Stateful code that may return early with an error. The state after the error is kept: whether
  it is discarded is a matter of the caller's transaction, not of the statement that failed.
\<close>

type_synonym ('s, 'e, 'a) action = "'s \<Rightarrow> ('e + 'a) \<times> 's"

definition ret :: "'a \<Rightarrow> ('s, 'e, 'a) action" where
  "ret a s = (Inr a, s)"

definition fail :: "'e \<Rightarrow> ('s, 'e, 'a) action" where
  "fail e s = (Inl e, s)"

definition and_then ::
  "('s, 'e, 'a) action \<Rightarrow> ('a \<Rightarrow> ('s, 'e, 'b) action) \<Rightarrow> ('s, 'e, 'b) action" where
  "and_then m f s = (case m s of (Inl e, t) \<Rightarrow> (Inl e, t) | (Inr a, t) \<Rightarrow> f a t)"

definition lift_res :: "('e, 'a) result \<Rightarrow> ('s, 'e, 'a) action" where
  "lift_res r s = (r, s)"

text \<open>\<open>reject c e\<close> is the guard \<open>if c { return e }\<close>.\<close>

definition reject :: "bool \<Rightarrow> 'e \<Rightarrow> ('s, 'e, unit) action" where
  "reject c e = (if c then fail e else ret ())"

fun for_each :: "'i list \<Rightarrow> ('i \<Rightarrow> ('s, 'e, unit) action) \<Rightarrow> ('s, 'e, unit) action" where
  "for_each [] f = ret ()"
| "for_each (x # xs) f = and_then (f x) (\<lambda>_. for_each xs f)"

lemma ret_run [act_simps]: "ret a s = (Inr a, s)"
  by (simp add: ret_def)

lemma fail_run [act_simps]: "fail e s = (Inl e, s)"
  by (simp add: fail_def)

lemma and_then_run [act_simps]:
  "and_then m f s = (case m s of (Inl e, t) \<Rightarrow> (Inl e, t) | (Inr a, t) \<Rightarrow> f a t)"
  by (simp add: and_then_def)

lemma lift_res_run [act_simps]: "lift_res r s = (r, s)"
  by (simp add: lift_res_def)

lemma reject_run [act_simps]: "reject c e s = (if c then (Inl e, s) else (Inr (), s))"
  by (simp add: reject_def ret_def fail_def)

lemma and_then_InrE:
  assumes "and_then m f s = (Inr b, u)"
  obtains a t where "m s = (Inr a, t)" and "f a t = (Inr b, u)"
  using assms by (auto simp: and_then_def split: prod.splits sum.splits)

lemma reject_Inr [simp]: "reject c e s = (Inr x, t) \<longleftrightarrow> \<not> c \<and> t = s"
  by (auto simp: reject_def ret_def fail_def)

section \<open>Lists\<close>

lemma find_Some_mem: "List.find P xs = Some x \<Longrightarrow> x \<in> set xs \<and> P x"
  by (induction xs) (auto split: if_splits)

lemma find_None_iff_all: "List.find P xs = None \<longleftrightarrow> (\<forall>x\<in>set xs. \<not> P x)"
  by (induction xs) auto

lemma sum_list_filter_le_nat:
  fixes f :: "'a \<Rightarrow> nat"
  shows "sum_list (map f (filter P xs)) \<le> sum_list (map f xs)"
  by (induction xs) auto

text \<open>Rows are rewritten in place, one field set at a time, the way an UPDATE with a WHERE does.\<close>

definition update_where :: "('r \<Rightarrow> bool) \<Rightarrow> ('r \<Rightarrow> 'r) \<Rightarrow> 'r list \<Rightarrow> 'r list" where
  "update_where p f rows = map (\<lambda>r. if p r then f r else r) rows"

definition rows_affected :: "('r \<Rightarrow> bool) \<Rightarrow> 'r list \<Rightarrow> nat" where
  "rows_affected p rows = length (filter p rows)"

lemma update_where_simps [simp]:
  "update_where p f [] = []"
  "update_where p f (r # rs) = (if p r then f r else r) # update_where p f rs"
  by (simp_all add: update_where_def)

lemma length_update_where [simp]: "length (update_where p f rows) = length rows"
  by (simp add: update_where_def)

lemma in_update_where:
  "r \<in> set (update_where p f rows) \<longleftrightarrow> (\<exists>q\<in>set rows. r = (if p q then f q else q))"
  by (auto simp: update_where_def)

lemma map_update_where_same:
  "(\<And>r. p r \<Longrightarrow> g (f r) = g r) \<Longrightarrow> map g (update_where p f rows) = map g rows"
  by (induction rows) auto

lemma update_where_no_match: "(\<forall>r\<in>set rows. \<not> p r) \<Longrightarrow> update_where p f rows = rows"
  by (induction rows) auto

end
