(* ===== verification/GoStd.thy ===== *)
theory GoStd
  imports Prelude "HOL-Library.Word"
begin

text \<open>
  What the modelled code uses of Go and its standard library. A Go string is a sequence of bytes,
  here \<open>string\<close> with its 8-bit characters. UTF-8 is decoded the way package \<open>unicode/utf8\<close>
  does it, \<open>strings.TrimSpace\<close> knows every Unicode space, \<open>strings.ToLower\<close> maps the ASCII letters
  (other letters are left alone: the code compares its results with ASCII constants only). A
  \<open>uuid.UUID\<close> is 128 bits with \<open>uuid.Nil\<close> zero, a \<open>time.Time\<close> is its instant in nanoseconds since
  the Unix epoch, an \<open>int64\<close> is an \<open>int\<close> with the wrap-around written out.
\<close>

section \<open>Identifiers, instants, machine integers\<close>

type_synonym uuid = "128 word"

abbreviation nil_uuid :: uuid where "nil_uuid \<equiv> 0"

type_synonym time = int

text \<open>\<open>time.Time{}\<close> is the first of January of year 1, UTC.\<close>

definition zero_time :: time where
  "zero_time = - (62135596800 * 1000000000)"

abbreviation is_zero_time :: "time \<Rightarrow> bool" where "is_zero_time t \<equiv> t = zero_time"

text \<open>\<open>p != nil && p.After(now)\<close>.\<close>

definition later :: "time option \<Rightarrow> time \<Rightarrow> bool" where
  "later p now = (case p of None \<Rightarrow> False | Some t \<Rightarrow> now < t)"

definition minute :: int where "minute = 60000000000"

definition max_i64 :: int where "max_i64 = 2 ^ 63 - 1"
definition min_i64 :: int where "min_i64 = - (2 ^ 63)"

definition wrap64 :: "int \<Rightarrow> int" where
  "wrap64 x = (x + 2 ^ 63) mod 2 ^ 64 - 2 ^ 63"

definition in_i64 :: "int \<Rightarrow> bool" where
  "in_i64 x \<longleftrightarrow> min_i64 \<le> x \<and> x \<le> max_i64"

lemma wrap64_id [simp]: "in_i64 x \<Longrightarrow> wrap64 x = x"
  by (simp add: wrap64_def in_i64_def min_i64_def max_i64_def)

lemma wrap64_range: "in_i64 (wrap64 x)"
  by (simp add: wrap64_def in_i64_def min_i64_def max_i64_def)

text \<open>Go's \<open>/\<close> truncates towards zero.\<close>

definition quot :: "int \<Rightarrow> int \<Rightarrow> int" where
  "quot a b = sgn a * sgn b * (\<bar>a\<bar> div \<bar>b\<bar>)"

lemma quot_nonneg: "0 \<le> a \<Longrightarrow> 0 < b \<Longrightarrow> quot a b = a div b"
  by (cases "a = 0") (simp_all add: quot_def)

text \<open>\<open>time.Sub\<close> saturates.\<close>

definition sub_time :: "time \<Rightarrow> time \<Rightarrow> int" where
  "sub_time a b = max min_i64 (min max_i64 (a - b))"

text \<open>\<open>base.Add(time.Duration(m) * time.Minute)\<close>.\<close>

definition add_minutes :: "time \<Rightarrow> int \<Rightarrow> time" where
  "add_minutes t m = t + wrap64 (m * minute)"

lemma add_minutes_exact:
  "\<bar>m\<bar> \<le> 100000000 \<Longrightarrow> add_minutes t m = t + m * minute"
proof -
  assume "\<bar>m\<bar> \<le> 100000000"
  then have "in_i64 (m * minute)"
    unfolding in_i64_def min_i64_def max_i64_def minute_def by simp linarith
  then show ?thesis by (simp add: add_minutes_def)
qed

section \<open>Floating point and dynamic values\<close>

text \<open>A \<open>float64\<close> is not a number, an infinity, or a rational.\<close>

datatype float64 = NaN | PosInf | NegInf | Fin rat

fun float_pos :: "float64 \<Rightarrow> bool" where
  "float_pos (Fin q) = (0 < q)"
| "float_pos PosInf = True"
| "float_pos _ = False"

fun float_eq :: "float64 \<Rightarrow> float64 \<Rightarrow> bool" where
  "float_eq NaN _ = False"
| "float_eq _ NaN = False"
| "float_eq a b = (a = b)"

text \<open>
  \<open>any\<close>: the dynamic values the code's type switches tell apart. A \<open>map[string]any\<close> is an
  association list with distinct keys; \<open>Opaque\<close> is a value of any other Go type.
\<close>

datatype any =
    Null
  | Boolean bool
  | Integer int
  | Int32 int
  | Int64 int
  | Float float64
  | Number string
  | Str string
  | Strings "string list"
  | Array "any list"
  | Object "(string \<times> any) list"
  | Opaque nat

type_synonym jsonb = "(string \<times> any) list"

section \<open>Strings\<close>

abbreviation "code \<equiv> (of_char :: char \<Rightarrow> nat)"

definition lower_char :: "char \<Rightarrow> char" where
  "lower_char c = (if 65 \<le> code c \<and> code c \<le> 90 then char_of (code c + 32) else c)"

definition to_lower :: "string \<Rightarrow> string" where
  "to_lower s = map lower_char s"

definition upper_char :: "char \<Rightarrow> char" where
  "upper_char c = (if 97 \<le> code c \<and> code c \<le> 122 then char_of (code c - 32) else c)"

definition to_upper :: "string \<Rightarrow> string" where
  "to_upper s = map upper_char s"

text \<open>For evaluation: letters change case on binary integers.\<close>

lemma of_char_int: "(of_char c :: int) = int (code c)"
  by (simp add: of_nat_of_char)

lemma lower_char_code [code]:
  "lower_char c = (let n = (of_char c :: int) in if 65 \<le> n \<and> n \<le> 90 then char_of (n + 32) else c)"
proof -
  have "char_of (int (code c) + 32) = (char_of (code c + 32) :: char)"
    using char_of_nat [of "code c + 32", where 'a = int] by simp
  then show ?thesis unfolding lower_char_def Let_def of_char_int by simp
qed

lemma upper_char_code [code]:
  "upper_char c = (let n = (of_char c :: int) in if 97 \<le> n \<and> n \<le> 122 then char_of (n - 32) else c)"
proof (cases "97 \<le> code c")
  case True
  then have "char_of (int (code c) - 32) = (char_of (code c - 32) :: char)"
    using char_of_nat [of "code c - 32", where 'a = int] by (simp add: of_nat_diff)
  then show ?thesis unfolding upper_char_def Let_def of_char_int by simp
qed (simp add: upper_char_def Let_def of_char_int)

text \<open>
  \<open>strings.ToLower\<close> and \<open>strings.ToUpper\<close> as far as they make ASCII letters of other ones (the dotted I and the
  Kelvin sign; the dotless i and the long s), and the case folding of \<open>strings.EqualFold\<close> and of JSON keys
  on the letters that fold to an ASCII letter. The other letters are left alone.
\<close>

fun lower_text :: "string \<Rightarrow> string" where
  "lower_text [] = []"
| "lower_text (c # s) =
     (if c = CHR 0xE2 \<and> take 2 s = [CHR 0x84, CHR 0xAA] then CHR ''k'' # lower_text (drop 2 s)
      else if c = CHR 0xC4 \<and> take 1 s = [CHR 0xB0] then CHR ''i'' # lower_text (drop 1 s)
      else lower_char c # lower_text s)"

fun upper_text :: "string \<Rightarrow> string" where
  "upper_text [] = []"
| "upper_text (c # s) =
     (if c = CHR 0xC4 \<and> take 1 s = [CHR 0xB1] then CHR ''I'' # upper_text (drop 1 s)
      else if c = CHR 0xC5 \<and> take 1 s = [CHR 0xBF] then CHR ''S'' # upper_text (drop 1 s)
      else upper_char c # upper_text s)"

fun fold_key :: "string \<Rightarrow> string" where
  "fold_key [] = []"
| "fold_key (c # s) =
     (if c = CHR 0xE2 \<and> take 2 s = [CHR 0x84, CHR 0xAA] then CHR ''k'' # fold_key (drop 2 s)
      else if c = CHR 0xC5 \<and> take 1 s = [CHR 0xBF] then CHR ''s'' # fold_key (drop 1 s)
      else lower_char c # fold_key s)"

definition equal_fold :: "string \<Rightarrow> string \<Rightarrow> bool" where
  "equal_fold a b \<longleftrightarrow> fold_key a = fold_key b"

text \<open>\<open>strings.HasPrefix\<close>, \<open>strings.Contains\<close> and \<open>strings.Index\<close>.\<close>

fun has_prefix :: "string \<Rightarrow> string \<Rightarrow> bool" where
  "has_prefix s [] = True"
| "has_prefix [] (p # ps) = False"
| "has_prefix (c # s) (p # ps) = (c = p \<and> has_prefix s ps)"

fun index_of :: "string \<Rightarrow> string \<Rightarrow> nat option" where
  "index_of [] sub = (if sub = [] then Some 0 else None)"
| "index_of (c # s) sub =
     (if has_prefix (c # s) sub then Some 0 else map_option Suc (index_of s sub))"

definition contains :: "string \<Rightarrow> string \<Rightarrow> bool" where
  "contains s sub \<longleftrightarrow> index_of s sub \<noteq> None"

lemma has_prefix_iff: "has_prefix s p \<longleftrightarrow> prefix p s"
  by (induction s p rule: has_prefix.induct) auto

lemma has_prefix_append: "has_prefix s p \<Longrightarrow> has_prefix (s @ t) p"
  by (simp add: has_prefix_iff)

lemma index_of_Some:
  "index_of s sub = Some i \<Longrightarrow> \<exists>rest. s = take i s @ sub @ rest \<and> i + length sub \<le> length s"
proof (induction s sub arbitrary: i rule: index_of.induct)
  case (1 sub)
  then show ?case by (auto split: if_splits)
next
  case (2 c s sub)
  show ?case
  proof (cases "has_prefix (c # s) sub")
    case True
    with 2 obtain rest where "c # s = sub @ rest" "i = 0"
      by (auto simp: has_prefix_iff prefix_def)
    then show ?thesis by (metis append_Nil le_add1 length_append plus_nat.add_0 take_0)
  next
    case False
    with 2 obtain j where "index_of s sub = Some j" "i = Suc j" by auto
    with 2 False show ?thesis by auto
  qed
qed

text \<open>Unicode white space, in UTF-8.\<close>

definition space_runes :: "string list" where
  "space_runes =
     [[CHR 0x09], [CHR 0x0A], [CHR 0x0B], [CHR 0x0C], [CHR 0x0D], [CHR 0x20],
      [CHR 0xC2, CHR 0x85], [CHR 0xC2, CHR 0xA0], [CHR 0xE1, CHR 0x9A, CHR 0x80],
      [CHR 0xE2, CHR 0x80, CHR 0x80], [CHR 0xE2, CHR 0x80, CHR 0x81],
      [CHR 0xE2, CHR 0x80, CHR 0x82], [CHR 0xE2, CHR 0x80, CHR 0x83],
      [CHR 0xE2, CHR 0x80, CHR 0x84], [CHR 0xE2, CHR 0x80, CHR 0x85],
      [CHR 0xE2, CHR 0x80, CHR 0x86], [CHR 0xE2, CHR 0x80, CHR 0x87],
      [CHR 0xE2, CHR 0x80, CHR 0x88], [CHR 0xE2, CHR 0x80, CHR 0x89],
      [CHR 0xE2, CHR 0x80, CHR 0x8A], [CHR 0xE2, CHR 0x80, CHR 0xA8],
      [CHR 0xE2, CHR 0x80, CHR 0xA9], [CHR 0xE2, CHR 0x80, CHR 0xAF],
      [CHR 0xE2, CHR 0x81, CHR 0x9F], [CHR 0xE3, CHR 0x80, CHR 0x80]]"

text \<open>Drop the patterns of \<open>ps\<close> from the front as long as one of them is there.\<close>

fun leading :: "string list \<Rightarrow> string \<Rightarrow> nat" where
  "leading [] s = 0"
| "leading (p # ps) s = (if has_prefix s p then length p else leading ps s)"

lemma leading_le: "leading ps s \<le> length s"
  by (induction ps) (auto simp: has_prefix_iff prefix_length_le)

function strip :: "string list \<Rightarrow> string \<Rightarrow> string" where
  "strip ps s = (if leading ps s = 0 then s else strip ps (drop (leading ps s) s))"
  by pat_completeness auto

termination
proof (relation "measure (\<lambda>(ps, s). length s)")
  fix ps :: "string list" and s :: string
  assume "leading ps s \<noteq> 0"
  with leading_le [of ps s] show "((ps, drop (leading ps s) s), ps, s) \<in> measure (\<lambda>(ps, s). length s)"
    by auto
qed simp

declare strip.simps [simp del]

definition trim_space :: "string \<Rightarrow> string" where
  "trim_space s = rev (strip (map rev space_runes) (rev (strip space_runes s)))"

lemma leading_strip: "leading ps (strip ps s) = 0"
proof (induction ps s rule: strip.induct)
  case (1 ps s)
  then show ?case by (cases "leading ps s = 0") (simp_all add: strip.simps [of ps s])
qed

lemma strip_id: "leading ps s = 0 \<Longrightarrow> strip ps s = s"
  by (simp add: strip.simps)

lemma strip_suffix: "suffix (strip ps s) s"
proof (induction ps s rule: strip.induct)
  case (1 ps s)
  then show ?case
    by (cases "leading ps s = 0")
      (auto simp: strip.simps [of ps s] intro: suffix_order.trans suffix_drop)
qed

lemma leading_prefix:
  assumes "leading ps s = 0" and "prefix t s"
  shows "leading ps t = 0"
  using assms
proof (induction ps)
  case (Cons p ps)
  then show ?case by (auto simp: has_prefix_iff split: if_splits dest: prefix_order.trans)
qed simp

lemma leading_trim: "leading space_runes (trim_space s) = 0"
proof -
  have "prefix (trim_space s) (strip space_runes s)"
    unfolding trim_space_def
    using strip_suffix [of "map rev space_runes" "rev (strip space_runes s)"]
    by (simp add: suffix_to_prefix)
  then show ?thesis using leading_strip leading_prefix by blast
qed

lemma trim_space_idem [simp]: "trim_space (trim_space s) = trim_space s"
proof -
  have "leading (map rev space_runes) (rev (trim_space s)) = 0"
    by (simp add: trim_space_def leading_strip)
  then show ?thesis
    using strip_id [OF leading_trim, of s]
    by (simp add: trim_space_def [of "trim_space s"] strip_id)
qed

lemma trim_space_Nil [simp]: "trim_space [] = []"
  by (simp add: trim_space_def strip_id space_runes_def)

section \<open>Runes\<close>

text \<open>
  How many bytes the first rune takes, and whether it is well formed: the accept ranges of
  \<open>utf8.DecodeRune\<close>. An ill-formed byte is a rune of one byte (\<open>utf8.RuneError\<close>).
\<close>

definition cont :: "nat \<Rightarrow> nat \<Rightarrow> string \<Rightarrow> nat \<Rightarrow> bool" where
  "cont lo hi s i \<longleftrightarrow> i < length s \<and> lo \<le> code (s ! i) \<and> code (s ! i) \<le> hi"

definition rune_lead :: "nat \<Rightarrow> nat \<times> nat \<times> nat" where
  "rune_lead b =
     (if b < 0x80 then (1, 0, 0)
      else if b < 0xC2 then (0, 0, 0)
      else if b \<le> 0xDF then (2, 0x80, 0xBF)
      else if b = 0xE0 then (3, 0xA0, 0xBF)
      else if b = 0xED then (3, 0x80, 0x9F)
      else if b \<le> 0xEF then (3, 0x80, 0xBF)
      else if b = 0xF0 then (4, 0x90, 0xBF)
      else if b \<le> 0xF3 then (4, 0x80, 0xBF)
      else if b = 0xF4 then (4, 0x80, 0x8F)
      else (0, 0, 0))"

definition rune_width :: "string \<Rightarrow> nat" where
  "rune_width s =
     (case rune_lead (code (hd s)) of (w, lo, hi) \<Rightarrow>
        if (2 \<le> w \<longrightarrow> cont lo hi s 1) \<and> (3 \<le> w \<longrightarrow> cont 0x80 0xBF s 2)
           \<and> (4 \<le> w \<longrightarrow> cont 0x80 0xBF s 3)
        then w else 0)"

definition replacement_rune :: string where
  "replacement_rune = [CHR 0xEF, CHR 0xBF, CHR 0xBD]"

text \<open>\<open>[]rune(s)\<close>, each rune as the bytes \<open>string(rune)\<close> writes.\<close>

function runes :: "string \<Rightarrow> string list" where
  "runes [] = []"
| "runes (c # s) =
     (if rune_width (c # s) = 0 then replacement_rune # runes s
      else take (rune_width (c # s)) (c # s) # runes (drop (rune_width (c # s)) (c # s)))"
  by pat_completeness auto
termination
  by (relation "measure length") auto

definition rune_count :: "string \<Rightarrow> nat" where
  "rune_count s = length (runes s)"

text \<open>Well-formed UTF-8, as every string decoded from JSON or read from PostgreSQL is.\<close>

function valid_utf8 :: "string \<Rightarrow> bool" where
  "valid_utf8 [] = True"
| "valid_utf8 (c # s) =
     (if rune_width (c # s) = 0 then False
      else valid_utf8 (drop (rune_width (c # s)) (c # s)))"
  by pat_completeness auto
termination
  by (relation "measure length") auto

declare runes.simps(2) [simp del] valid_utf8.simps(2) [simp del]

text \<open>For evaluation: a byte below 128 is a rune of its own, and letters change case on integers.\<close>

lemma ascii_iff: "\<not> digit7 c \<longleftrightarrow> code c < 128"
  by (cases c) (simp add: of_char_def)

lemma rune_width_ascii: "\<not> digit7 c \<Longrightarrow> rune_width (c # s) = 1"
  by (simp add: ascii_iff rune_width_def rune_lead_def)

lemma runes_code [code]:
  "runes [] = []"
  "runes (c # s) =
     (if \<not> digit7 c then [c] # runes s
      else let w = rune_width (c # s) in
        if w = 0 then replacement_rune # runes s else take w (c # s) # runes (drop w (c # s)))"
  by (simp_all add: runes.simps(2) rune_width_ascii Let_def)

lemma valid_utf8_code [code]:
  "valid_utf8 [] = True"
  "valid_utf8 (c # s) =
     (if \<not> digit7 c then valid_utf8 s
      else let w = rune_width (c # s) in w \<noteq> 0 \<and> valid_utf8 (drop w (c # s)))"
  by (simp_all add: valid_utf8.simps(2) rune_width_ascii Let_def)

lemma cont_length: "cont lo hi s i \<Longrightarrow> Suc i \<le> length s"
  by (simp add: cont_def)

lemma rune_lead_cases:
  assumes "rune_lead b = (w, lo, hi)"
  shows "w \<le> 4" and "2 \<le> w \<Longrightarrow> 0x80 \<le> lo \<and> hi \<le> 0xBF"
    and "0 < w \<Longrightarrow> b < 0x80 \<or> 0xBF < b"
  using assms unfolding rune_lead_def by (simp_all split: if_splits)

lemma rune_width_le:
  assumes "s \<noteq> []"
  shows "rune_width s \<le> length s"
proof -
  obtain w lo hi where l: "rune_lead (code (hd s)) = (w, lo, hi)" by (metis prod_cases3)
  have one: "1 \<le> length s" using assms by (cases s) auto
  from rune_lead_cases(1) [OF l] consider "w \<le> 1" | "w = 2" | "w = 3" | "w = 4" by linarith
  then show ?thesis
    using cont_length [of lo hi s 1] cont_length [of "0x80" "0xBF" s 2] cont_length [of "0x80" "0xBF" s 3] one
    by cases (auto simp: rune_width_def l)
qed

lemma rune_count_Nil_iff [simp]: "rune_count s = 0 \<longleftrightarrow> s = []"
  by (cases s) (auto simp: rune_count_def runes.simps(2))

lemma runes_neq_Nil [simp]: "runes s = [] \<longleftrightarrow> s = []"
  by (cases s) (auto simp: runes.simps(2))

lemma runes_nonempty: "r \<in> set (runes s) \<Longrightarrow> r \<noteq> []"
proof (induction s rule: runes.induct)
  case (2 c s)
  then show ?case
    by (auto simp: runes.simps(2) replacement_rune_def split: if_splits)
qed simp

lemma concat_runes: "valid_utf8 s \<Longrightarrow> concat (runes s) = s"
proof (induction s rule: runes.induct)
  case (2 c s)
  then show ?case
    by (auto simp: runes.simps(2) valid_utf8.simps(2) split: if_splits)
qed simp

section \<open>Numbers in text\<close>

definition is_digit :: "char \<Rightarrow> bool" where
  "is_digit c \<longleftrightarrow> 48 \<le> code c \<and> code c \<le> 57"

definition digits_value :: "string \<Rightarrow> int" where
  "digits_value s = foldl (\<lambda>n c. 10 * n + (int (code c) - 48)) 0 s"

text \<open>\<open>strconv.ParseInt(s, 10, 64)\<close>: an optional sign, then digits, within the range.\<close>

definition parse_int64 :: "string \<Rightarrow> int option" where
  "parse_int64 s =
     (let (neg, body) = (case s of
        c # r \<Rightarrow> if c = CHR ''-'' then (True, r) else if c = CHR ''+'' then (False, r) else (False, s)
      | [] \<Rightarrow> (False, []));
          v = (if neg then - digits_value body else digits_value body)
      in if body = [] \<or> \<not> list_all is_digit body \<or> \<not> in_i64 v then None else Some v)"

lemma parse_int64_range: "parse_int64 s = Some v \<Longrightarrow> in_i64 v"
  by (auto simp: parse_int64_def Let_def split: prod.splits if_splits)

text \<open>
  \<open>strconv.Itoa\<close> on a number that is not negative.
\<close>

fun show_nat :: "nat \<Rightarrow> string" where
  "show_nat n = (if n < 10 then [char_of (48 + n)] else show_nat (n div 10) @ [char_of (48 + n mod 10)])"

declare show_nat.simps [simp del]

section \<open>Order of strings\<close>

text \<open>Go compares strings byte by byte; \<open>sort.Strings\<close> sorts by that order.\<close>

fun str_le :: "string \<Rightarrow> string \<Rightarrow> bool" where
  "str_le [] t = True"
| "str_le (c # s) [] = False"
| "str_le (c # s) (d # t) = (code c < code d \<or> (c = d \<and> str_le s t))"

fun insert_str :: "string \<Rightarrow> string list \<Rightarrow> string list" where
  "insert_str x [] = [x]"
| "insert_str x (y # ys) = (if str_le x y then x # y # ys else y # insert_str x ys)"

definition sort_strings :: "string list \<Rightarrow> string list" where
  "sort_strings xs = foldr insert_str xs []"

lemma str_le_refl: "str_le s s"
  by (induction s) auto

lemma str_le_total: "str_le s t \<or> str_le t s"
  by (induction s t rule: str_le.induct) (auto simp: less_le)

lemma str_le_trans: "str_le s t \<Longrightarrow> str_le t u \<Longrightarrow> str_le s u"
proof (induction s t arbitrary: u rule: str_le.induct)
  case (3 c s d t)
  then show ?case by (cases u) auto
qed auto

lemma set_insert_str [simp]: "set (insert_str x xs) = insert x (set xs)"
  by (induction xs) auto

lemma length_insert_str [simp]: "length (insert_str x xs) = Suc (length xs)"
  by (induction xs) auto

lemma set_sort_strings [simp]: "set (sort_strings xs) = set xs"
  by (induction xs) (auto simp: sort_strings_def)

lemma length_sort_strings [simp]: "length (sort_strings xs) = length xs"
  by (induction xs) (auto simp: sort_strings_def)

lemma sort_strings_Nil_iff [simp]: "sort_strings xs = [] \<longleftrightarrow> xs = []"
  by (metis length_0_conv length_sort_strings)

lemma sorted_insert_str: "sorted_wrt str_le xs \<Longrightarrow> sorted_wrt str_le (insert_str x xs)"
proof (induction xs)
  case (Cons y ys)
  then show ?case
    using str_le_total [of x y] by (auto intro: str_le_trans)
qed simp

lemma sorted_sort_strings: "sorted_wrt str_le (sort_strings xs)"
  by (induction xs) (auto simp: sort_strings_def sorted_insert_str)

lemma distinct_insert_str [simp]: "distinct (insert_str x xs) \<longleftrightarrow> x \<notin> set xs \<and> distinct xs"
  by (induction xs) auto

lemma distinct_sort_strings [simp]: "distinct (sort_strings xs) \<longleftrightarrow> distinct xs"
proof (induction xs)
  case (Cons x xs)
  then show ?case using set_sort_strings [of xs] by (simp add: sort_strings_def)
qed (simp add: sort_strings_def)

end
