(* ===== verification/FlowGraph.thy ===== *)
theory FlowGraph
  imports GoStd
begin

text \<open>
  \<^verbatim>\<open>internal/flowgraph/flowgraph.go\<close>: the graph shared by the chatbot and the IVR engines, its two
  lookup indexes and the edge resolution, and \<^verbatim>\<open>parseChatGraph\<close> of
  \<^verbatim>\<open>internal/handlers/chatbot_graph_types.go\<close>, which admits a graph for execution.
\<close>

section \<open>The graph\<close>

record position =
  pos_x :: float64
  pos_y :: float64

record edge =
  from_node :: string
  to_node :: string
  edge_condition :: string

record 't flow_node =
  node_id :: string
  node_type :: 't
  node_label :: string
  node_position :: position
  node_config :: jsonb

record 't flow_graph =
  version :: int
  nodes :: "'t flow_node list"
  edges :: "edge list"
  entry_node :: string
  node_map :: "string \<rightharpoonup> 't flow_node"
  edge_map :: "string \<Rightarrow> edge list"

text \<open>
  \<open>BuildMaps\<close>: a later node overwrites an earlier one of the same identifier; the outgoing edges
  keep the order of the list. A missing key of \<open>edgeMap\<close> reads as the empty slice.
\<close>

definition build_maps :: "'t flow_graph \<Rightarrow> 't flow_graph" where
  "build_maps g = g\<lparr>
     node_map := foldl (\<lambda>m n. m(node_id n \<mapsto> n)) Map.empty (nodes g),
     edge_map := foldl (\<lambda>m e. m(from_node e := m (from_node e) @ [e])) (\<lambda>_. []) (edges g)\<rparr>"

definition graph_node :: "'t flow_graph \<Rightarrow> string \<Rightarrow> 't flow_node option" where
  "graph_node g i = node_map g i"

definition outgoing_edges :: "'t flow_graph \<Rightarrow> string \<Rightarrow> edge list" where
  "outgoing_edges g i = edge_map g i"

text \<open>The loop of \<open>ResolveEdge\<close>: \<open>def\<close> is the target of the last default edge seen.\<close>

fun resolve_loop :: "edge list \<Rightarrow> string \<Rightarrow> string \<Rightarrow> string" where
  "resolve_loop [] outcome def = def"
| "resolve_loop (e # es) outcome def =
     (if edge_condition e = outcome then to_node e
      else resolve_loop es outcome (if edge_condition e = ''default'' then to_node e else def))"

definition resolve_edge :: "'t flow_graph \<Rightarrow> string \<Rightarrow> string \<Rightarrow> string" where
  "resolve_edge g i outcome = resolve_loop (edge_map g i) outcome []"

section \<open>The indexes agree with the lists\<close>

lemma foldl_node_map:
  "foldl (\<lambda>m n. m(node_id n \<mapsto> n)) m ns i =
     (case List.find (\<lambda>n. node_id n = i) (rev ns) of None \<Rightarrow> m i | Some n \<Rightarrow> Some n)"
  by (induction ns rule: rev_induct) auto

lemma foldl_edge_map:
  "foldl (\<lambda>m e. m(from_node e := m (from_node e) @ [e])) m es i =
     m i @ filter (\<lambda>e. from_node e = i) es"
  by (induction es arbitrary: m) auto

lemma graph_node_built:
  "graph_node (build_maps g) i = List.find (\<lambda>n. node_id n = i) (rev (nodes g))"
  by (simp add: graph_node_def build_maps_def foldl_node_map split: option.split)

lemma outgoing_built:
  "outgoing_edges (build_maps g) i = filter (\<lambda>e. from_node e = i) (edges g)"
  by (simp add: outgoing_edges_def build_maps_def foldl_edge_map)

lemma edge_map_built [simp]:
  "edge_map (build_maps g) i = filter (\<lambda>e. from_node e = i) (edges g)"
  using outgoing_built by (simp add: outgoing_edges_def)

lemma build_maps_lists [simp]:
  "nodes (build_maps g) = nodes g" "edges (build_maps g) = edges g"
  "entry_node (build_maps g) = entry_node g" "version (build_maps g) = version g"
  by (simp_all add: build_maps_def)

lemma graph_node_SomeD:
  "graph_node (build_maps g) i = Some n \<Longrightarrow> n \<in> set (nodes g) \<and> node_id n = i"
  unfolding graph_node_built by (drule find_Some_mem) simp

lemma graph_node_defined_iff:
  "graph_node (build_maps g) i \<noteq> None \<longleftrightarrow> i \<in> node_id ` set (nodes g)"
  unfolding graph_node_built by (auto simp: find_None_iff_all)

section \<open>Edge resolution\<close>

text \<open>The contract: the first edge with the outcome, else the last default edge, else nothing.\<close>

definition resolve_spec :: "edge list \<Rightarrow> string \<Rightarrow> string \<Rightarrow> string" where
  "resolve_spec es outcome none =
     (case List.find (\<lambda>e. edge_condition e = outcome) es of
        Some e \<Rightarrow> to_node e
      | None \<Rightarrow> (case List.find (\<lambda>e. edge_condition e = ''default'') (rev es) of
          Some e \<Rightarrow> to_node e
        | None \<Rightarrow> none))"

lemma find_append:
  "List.find P (xs @ ys) = (case List.find P xs of None \<Rightarrow> List.find P ys | Some x \<Rightarrow> Some x)"
  by (induction xs) auto

lemma resolve_loop_spec: "resolve_loop es outcome def = resolve_spec es outcome def"
  by (induction es outcome def rule: resolve_loop.induct)
    (auto simp: resolve_spec_def find_append split: option.splits)

lemma resolve_spec_cases:
  "resolve_spec es outcome none = none \<or> (\<exists>e\<in>set es. to_node e = resolve_spec es outcome none
     \<and> (edge_condition e = outcome \<or> edge_condition e = ''default''))"
  by (auto simp: resolve_spec_def split: option.splits dest!: find_Some_mem)

text \<open>
  C21: on a graph whose indexes are built, \<open>ResolveEdge\<close> returns the target of the first edge out of
  the node that carries the outcome, else that of the last \<open>default\<close> edge out of it, else the empty
  string; whatever it returns is the target of an edge of the graph or empty.
\<close>
theorem resolve_edge_correct:
  fixes g :: "'t flow_graph"
  shows "resolve_edge (build_maps g) i outcome
      = resolve_spec (filter (\<lambda>e. from_node e = i) (edges g)) outcome []
    \<and> resolve_edge (build_maps g) i outcome \<in> insert [] (to_node ` set (edges g))"
proof -
  have eq: "resolve_edge (build_maps g) i outcome
      = resolve_spec (filter (\<lambda>e. from_node e = i) (edges g)) outcome []" (is "_ = ?r")
    by (simp add: resolve_edge_def resolve_loop_spec)
  have "?r = [] \<or> (\<exists>e\<in>set (edges g). to_node e = ?r)"
    using resolve_spec_cases [of "filter (\<lambda>e. from_node e = i) (edges g)" outcome "[]"]
    by (meson filter_is_subset subsetD)
  then show ?thesis unfolding eq by (metis image_eqI insert_iff)
qed

section \<open>Admission of a chatbot graph\<close>

datatype graph_error =
    MarshalGraph string
  | UnmarshalGraph string
  | UnsupportedVersion int
  | MissingEntryNode
  | EntryNodeNotFound string

text \<open>
  \<open>parseChatGraph\<close>: \<open>decode\<close> is the JSON round trip of the stored blob into the struct (an encoder
  or decoder failure is its \<open>Inl\<close>); a nil blob is no graph.
\<close>

definition parse_chat_graph ::
  "(jsonb \<Rightarrow> (graph_error, 't flow_graph) result) \<Rightarrow> jsonb option
     \<Rightarrow> (graph_error, 't flow_graph option) result" where
  "parse_chat_graph decode raw =
     (case raw of
        None \<Rightarrow> Inr None
      | Some blob \<Rightarrow> res_bind (decode blob) (\<lambda>g.
          if version g \<noteq> 2 then Inl (UnsupportedVersion (version g))
          else if entry_node g = [] then Inl MissingEntryNode
          else (let h = build_maps g in
            if graph_node h (entry_node h) = None then Inl (EntryNodeNotFound (entry_node h))
            else Inr (Some h))))"

lemma parse_chat_graph_SomeD:
  assumes "parse_chat_graph decode raw = Inr (Some h)"
  obtains blob g where "raw = Some blob" "decode blob = Inr g" "h = build_maps g" "version g = 2"
    "entry_node g \<noteq> []" "graph_node (build_maps g) (entry_node g) \<noteq> None"
  using assms by (auto simp: parse_chat_graph_def Let_def split: option.splits if_splits)

end
