(* ===== verification/AutomationConfig.thy ===== *)
theory AutomationConfig
  imports GoStd
begin

text \<open>
  \<^verbatim>\<open>internal/handlers/automation_graph.go\<close>, first part: the graph of an automation policy, the
  accessors of a node's configuration, and the validation of one node of each type. A
  configuration is a JSON object, an association list with distinct keys.
\<close>

section \<open>Limits and vocabulary\<close>

definition max_nodes :: nat where "max_nodes = 50"
definition max_edges :: nat where "max_edges = 100"
definition max_action_nodes :: nat where "max_action_nodes = 10"
definition max_node_id_length :: nat where "max_node_id_length = 100"
definition max_description_length :: nat where "max_description_length = 4000"
definition max_condition_value_size :: nat where "max_condition_value_size = 500"
definition max_delay_minutes :: int where "max_delay_minutes = 43200"
definition max_task_minutes :: int where "max_task_minutes = 525600"
definition max_canvas_coordinate :: rat where "max_canvas_coordinate = 100000"

lemmas automation_limits = max_nodes_def max_edges_def max_action_nodes_def max_node_id_length_def
  max_description_length_def max_condition_value_size_def max_delay_minutes_def
  max_task_minutes_def max_canvas_coordinate_def

definition allowed_event_types :: "string list" where
  "allowed_event_types =
     [''contact.created'', ''contact.updated'', ''contact.merged'', ''message.incoming'',
      ''crm.lead.created'', ''crm.lead.updated'', ''crm.lead.stage_moved'', ''task.completed'',
      ''booking.created'', ''booking.status_changed'', ''package.sold'', ''package.balance_low'',
      ''package.expiring'', ''invoice.created'', ''invoice.overdue'', ''invoice.paid'',
      ''payment.recorded'', ''consent.opted_out'']"

definition allowed_condition_fields :: "string list" where
  "allowed_condition_fields =
     [''event.event_type'', ''event.category'', ''event.source_type'', ''event.actor_type'',
      ''event.title'', ''event.summary'', ''event.metadata.to_status'',
      ''contact.marketing_opt_out'']"

definition allowed_condition_operators :: "string list" where
  "allowed_condition_operators = [''equals'', ''not_equals'', ''exists'', ''in'']"

definition allowed_template_tokens :: "string list" where
  "allowed_template_tokens =
     [''{{event.title}}'', ''{{event.summary}}'', ''{{event.type}}'', ''{{contact.name}}'']"

section \<open>Messages\<close>

text \<open>The texts shown to the author of a policy, with the limits filled in.\<close>

definition msg_task_created_cannot_trigger_a :: string where
  "msg_task_created_cannot_trigger_a = ''task.created cannot trigger a create_task automation''"

definition msg_trigger_contains_an_unsupported_customer :: string where
  "msg_trigger_contains_an_unsupported_customer = ''trigger contains an unsupported customer activity event type''"

definition msg_trigger_event_types_must_be :: string where
  "msg_trigger_event_types_must_be = ''trigger event types must be unique''"

definition msg_trigger_must_use_event_types :: string where
  "msg_trigger_must_use_event_types = ''trigger must use event_types or event_type, not both''"

definition msg_trigger_event_types_entries_must :: string where
  "msg_trigger_event_types_entries_must = ''trigger event_types entries must be strings''"

definition msg_trigger_event_types_must_be_2 :: string where
  "msg_trigger_event_types_must_be_2 = ''trigger event_types must be an array''"

definition msg_trigger_event_type_must_be :: string where
  "msg_trigger_event_type_must_be = ''trigger event_type must be a string''"

definition msg_trigger_requires_between_1_and :: string where
  "msg_trigger_requires_between_1_and = ''trigger requires between 1 and 10 event types''"

definition msg_in_requires_between_1_and :: string where
  "msg_in_requires_between_1_and = ''in requires between 1 and 100 scalar string values''"

definition msg_in_requires_bounded_scalar_string :: string where
  "msg_in_requires_bounded_scalar_string = ''in requires bounded scalar string values''"

definition msg_contact_marketing_opt_out_supports :: string where
  "msg_contact_marketing_opt_out_supports = ''contact.marketing_opt_out supports equals, not_equals, or exists''"

definition msg_condition_requires_a_boolean_value :: string where
  "msg_condition_requires_a_boolean_value = ''condition requires a boolean value''"

definition msg_contact_marketing_opt_out_requires :: string where
  "msg_contact_marketing_opt_out_requires = ''contact.marketing_opt_out requires a boolean value''"

definition msg_condition_requires_a_scalar_value :: string where
  "msg_condition_requires_a_scalar_value = ''condition requires a scalar value''"

definition msg_condition_value_is_too_large :: string where
  "msg_condition_value_is_too_large = ''condition value is too large''"

definition msg_event_condition_fields_require_a :: string where
  "msg_event_condition_fields_require_a = ''event condition fields require a string value''"

definition msg_condition_field_is_not_supported :: string where
  "msg_condition_field_is_not_supported = ''condition field is not supported''"

definition msg_condition_operator_is_not_supported :: string where
  "msg_condition_operator_is_not_supported = ''condition operator is not supported''"

definition msg_exists_operators_cannot_include_a :: string where
  "msg_exists_operators_cannot_include_a = ''exists operators cannot include a value''"

definition msg_delay_minutes_must_be_an :: string where
  "msg_delay_minutes_must_be_an = ''delay minutes must be an integer between 0 and 43200''"

definition msg_create_task_title_is_required :: string where
  "msg_create_task_title_is_required = ''create_task title is required and cannot exceed 255 characters''"

definition msg_create_task_title_contains_an :: string where
  "msg_create_task_title_contains_an = ''create_task title contains an unsupported template token''"

definition msg_create_task_description_cannot_exceed :: string where
  "msg_create_task_description_cannot_exceed = ''create_task description cannot exceed 4000 characters''"

definition msg_create_task_description_contains_an :: string where
  "msg_create_task_description_contains_an = ''create_task description contains an unsupported template token''"

definition msg_create_task_priority_is_invalid :: string where
  "msg_create_task_priority_is_invalid = ''create_task priority is invalid''"

definition msg_must_be_an_integer_between :: string where
  "msg_must_be_an_integer_between = '' must be an integer between 0 and 525600''"

definition msg_remind_in_minutes_cannot_be :: string where
  "msg_remind_in_minutes_cannot_be = ''remind_in_minutes cannot be after due_in_minutes''"

definition msg_create_task_owner_must_be :: string where
  "msg_create_task_owner_must_be = ''create_task owner must be unassigned or contact_owner''"

definition msg_create_task_owner_is_invalid :: string where
  "msg_create_task_owner_is_invalid = ''create_task owner is invalid''"

definition msg_owner_user_id_is_outside :: string where
  "msg_owner_user_id_is_outside = ''owner_user_id is outside the v1 automation contract''"

definition msg_contains_unsupported_config_key :: string where
  "msg_contains_unsupported_config_key = '' contains unsupported config key ''"

definition msg_dynamic_task_text_is_safely :: string where
  "msg_dynamic_task_text_is_safely = ''dynamic task text is safely truncated if customer data exceeds field limits''"

definition msg_node_type_must_be_trigger :: string where
  "msg_node_type_must_be_trigger = ''node type must be trigger, condition, delay, or create_task''"

definition msg_node_id_and_type_must :: string where
  "msg_node_id_and_type_must = ''node id and type must already be trimmed lowercase canonical values''"

definition msg_node_id_is_required_and :: string where
  "msg_node_id_is_required_and = ''node id is required and cannot exceed 100 characters''"

definition msg_node_ids_must_be_unique :: string where
  "msg_node_ids_must_be_unique = ''node ids must be unique''"

definition msg_node_position_must_be_finite :: string where
  "msg_node_position_must_be_finite = ''node position must be finite and within +/- 100000''"

definition msg_condition_edges_must_declare_branch :: string where
  "msg_condition_edges_must_declare_branch = ''condition edges must declare branch true or false''"

definition msg_only_condition_edges_can_declare :: string where
  "msg_only_condition_edges_can_declare = ''only condition edges can declare true or false branches''"

definition msg_edge_source_target_and_branch :: string where
  "msg_edge_source_target_and_branch = ''edge source, target, and branch must use canonical values''"

definition msg_a_node_cannot_connect_to :: string where
  "msg_a_node_cannot_connect_to = ''a node cannot connect to itself''"

definition msg_edge_source_and_target_must :: string where
  "msg_edge_source_and_target_must = ''edge source and target must reference existing nodes''"

definition msg_a_condition_can_have_at :: string where
  "msg_a_condition_can_have_at = ''a condition can have at most one true and one false edge''"

definition msg_trigger_cannot_have_an_incoming :: string where
  "msg_trigger_cannot_have_an_incoming = ''trigger cannot have an incoming edge''"

definition msg_every_non_trigger_node_must :: string where
  "msg_every_non_trigger_node_must = ''every non-trigger node must have exactly one incoming edge''"

definition msg_trigger_and_delay_nodes_must :: string where
  "msg_trigger_and_delay_nodes_must = ''trigger and delay nodes must have exactly one outgoing edge''"

definition msg_create_task_nodes_cannot_have :: string where
  "msg_create_task_nodes_cannot_have = ''create_task nodes cannot have outgoing edges''"

definition msg_a_condition_can_have_at_2 :: string where
  "msg_a_condition_can_have_at_2 = ''a condition can have at most two outgoing edges''"

definition msg_a_condition_must_have_at :: string where
  "msg_a_condition_must_have_at = ''a condition must have at least one outgoing branch''"

definition msg_graph_must_not_contain_a :: string where
  "msg_graph_must_not_contain_a = ''graph must not contain a cycle''"

definition msg_cumulative_delay_on_every_path :: string where
  "msg_cumulative_delay_on_every_path = ''cumulative delay on every path cannot exceed 43200 minutes''"

definition msg_graph_cannot_contain_more_than :: string where
  "msg_graph_cannot_contain_more_than = ''graph cannot contain more than 50 nodes''"

definition msg_graph_cannot_contain_more_than_2 :: string where
  "msg_graph_cannot_contain_more_than_2 = ''graph cannot contain more than 100 edges''"

definition msg_graph_must_contain_nodes :: string where
  "msg_graph_must_contain_nodes = ''graph must contain nodes''"

definition msg_graph_cannot_contain_more_than_2_2 :: string where
  "msg_graph_cannot_contain_more_than_2_2 = ''graph cannot contain more than 10 create_task nodes''"

definition msg_graph_must_contain_exactly_one :: string where
  "msg_graph_must_contain_exactly_one = ''graph must contain exactly one trigger node''"

definition msg_graph_must_contain_at_least :: string where
  "msg_graph_must_contain_at_least = ''graph must contain at least one create_task node''"

definition msg_every_node_must_be_reachable :: string where
  "msg_every_node_must_be_reachable = ''every node must be reachable from the trigger''"

section \<open>The graph\<close>

record canvas_position =
  px :: float64
  py :: float64

record anode =
  nid :: string
  ntype :: string
  nconfig :: jsonb
  nposition :: "canvas_position option"

record aedge =
  src :: string
  tgt :: string
  branch :: string

record agraph =
  anodes :: "anode list"
  aedges :: "aedge list"

text \<open>A validation issue: its code, the node it names, the index of the edge it names, the message.\<close>

record issue =
  icode :: string
  inode :: string
  iedge :: nat
  imessage :: string

definition mk_issue :: "string \<Rightarrow> string \<Rightarrow> issue" where
  "mk_issue c m = \<lparr>icode = c, inode = [], iedge = 0, imessage = m\<rparr>"

section \<open>Configuration accessors\<close>

definition config_raw_string :: "jsonb \<Rightarrow> string \<Rightarrow> string \<times> bool" where
  "config_raw_string config key =
     (case map_of config key of Some (Str text) \<Rightarrow> (trim_space text, True) | _ \<Rightarrow> ([], False))"

definition config_normalized_string :: "jsonb \<Rightarrow> string \<Rightarrow> string \<times> bool" where
  "config_normalized_string config key =
     (let (text, ok) = config_raw_string config key in (to_lower text, ok))"

text \<open>
  Converting a \<open>float64\<close> to \<open>int\<close>: \<open>math.MaxInt\<close> rounds to \<open>2 ^ 63\<close> as a \<open>float64\<close>, so that one
  value passes the test and does not fit; the conversion then gives the least \<open>int64\<close> (amd64).
\<close>

definition float_to_int :: "rat \<Rightarrow> int option" where
  "float_to_int q =
     (let i = \<lfloor>q\<rfloor> in
      if of_int i \<noteq> q \<or> i > 2 ^ 63 \<or> i < min_i64 then None
      else Some (if i = 2 ^ 63 then min_i64 else i))"

definition config_int :: "jsonb \<Rightarrow> string \<Rightarrow> int option" where
  "config_int config key =
     (case map_of config key of
        Some (Integer i) \<Rightarrow> Some i
      | Some (Int32 i) \<Rightarrow> Some i
      | Some (Int64 i) \<Rightarrow> (if i > max_i64 \<or> i < min_i64 then None else Some i)
      | Some (Float (Fin q)) \<Rightarrow> float_to_int q
      | Some (Number text) \<Rightarrow> parse_int64 text
      | _ \<Rightarrow> None)"

definition is_scalar :: "any \<Rightarrow> bool" where
  "is_scalar v =
     (case v of
        Null \<Rightarrow> True | Boolean _ \<Rightarrow> True | Str _ \<Rightarrow> True | Number _ \<Rightarrow> True
      | Float f \<Rightarrow> (case f of Fin _ \<Rightarrow> True | _ \<Rightarrow> False)
      | Integer _ \<Rightarrow> True | Int32 _ \<Rightarrow> True | Int64 _ \<Rightarrow> True
      | _ \<Rightarrow> False)"

text \<open>
  \<open>automationTemplateTokensValid\<close>: every pair of opening braces starts an allowed token, and no
  closing braces stand outside one.
\<close>

function template_tokens_valid :: "string \<Rightarrow> bool" where
  "template_tokens_valid value =
     (case index_of value ''{{'' of
        None \<Rightarrow> \<not> contains value ''}}''
      | Some start \<Rightarrow>
          (case index_of (drop (start + 2) value) ''}}'' of
             None \<Rightarrow> False
           | Some end_offset \<Rightarrow>
               (let end = start + 2 + end_offset + 2 in
                if take (end - start) (drop start value) \<in> set allowed_template_tokens
                then template_tokens_valid (drop end value) else False)))"
  by pat_completeness auto
termination
proof (relation "measure length")
  fix t :: string and s e x :: nat
  assume s: "index_of t ''{{'' = Some s" and x: "x = s + 2 + e + 2"
  from index_of_Some [OF s] have "t \<noteq> []" by auto
  with x show "(drop x t, t) \<in> measure length" by auto
qed simp

declare template_tokens_valid.simps [simp del]

text \<open>The least key of the configuration that is not allowed, or the empty string.\<close>

definition unknown_config_key :: "jsonb \<Rightarrow> string list \<Rightarrow> string" where
  "unknown_config_key config allowed =
     (case sort_strings (filter (\<lambda>k. k \<notin> set allowed) (map fst config)) of
        [] \<Rightarrow> [] | k # _ \<Rightarrow> k)"

definition node_uses_dynamic_template :: "anode \<Rightarrow> bool" where
  "node_uses_dynamic_template n =
     (let title = fst (config_raw_string (nconfig n) ''title'');
          description = fst (config_raw_string (nconfig n) ''description'')
      in list_ex (\<lambda>token. contains title token \<or> contains description token)
           allowed_template_tokens)"

definition valid_task_priority :: "string \<Rightarrow> bool" where
  "valid_task_priority p \<longleftrightarrow> p \<in> {''low'', ''normal'', ''high'', ''urgent''}"

definition valid_condition_field :: "string \<Rightarrow> bool" where
  "valid_condition_field field \<longleftrightarrow>
     to_lower (trim_space field) \<in> set allowed_condition_fields"

section \<open>One node of each type\<close>

text \<open>The trigger's event types, sorted, or the first thing wrong with them.\<close>

fun strings_of :: "any list \<Rightarrow> string list option" where
  "strings_of [] = Some []"
| "strings_of (Str s # vs) = map_option ((#) s) (strings_of vs)"
| "strings_of (_ # vs) = None"

fun check_event_types :: "string list \<Rightarrow> string list \<Rightarrow> issue option" where
  "check_event_types seen [] = None"
| "check_event_types seen (v # vs) =
     (if v = ''task.created'' then
        Some (mk_issue ''recursive_trigger_forbidden''
          msg_task_created_cannot_trigger_a)
      else if v \<notin> set allowed_event_types then
        Some (mk_issue ''unsupported_trigger_event''
          msg_trigger_contains_an_unsupported_customer)
      else if v \<in> set seen then
        Some (mk_issue ''duplicate_trigger_event'' msg_trigger_event_types_must_be)
      else check_event_types (v # seen) vs)"

definition trigger_values :: "jsonb \<Rightarrow> (issue, string list) result" where
  "trigger_values config =
     (case (map_of config ''event_types'', map_of config ''event_type'') of
        (Some _, Some _) \<Rightarrow> Inl (mk_issue ''ambiguous_trigger_config''
          msg_trigger_must_use_event_types)
      | (Some (Array items), None) \<Rightarrow> (case strings_of items of
          Some vs \<Rightarrow> Inr vs
        | None \<Rightarrow> Inl (mk_issue ''invalid_trigger_events''
            msg_trigger_event_types_entries_must))
      | (Some (Strings typed), None) \<Rightarrow> Inr typed
      | (Some _, None) \<Rightarrow> Inl (mk_issue ''invalid_trigger_events''
          msg_trigger_event_types_must_be_2)
      | (None, Some (Str v)) \<Rightarrow> Inr [v]
      | (None, Some _) \<Rightarrow> Inl (mk_issue ''invalid_trigger_events''
          msg_trigger_event_type_must_be)
      | (None, None) \<Rightarrow> Inr [])"

definition trigger_event_types :: "anode \<Rightarrow> (issue, string list) result" where
  "trigger_event_types n =
     res_bind (trigger_values (nconfig n)) (\<lambda>raw.
       if raw = [] \<or> length raw > 10 then
         Inl (mk_issue ''invalid_trigger_events'' msg_trigger_requires_between_1_and)
       else
         (let values = map (\<lambda>v. to_lower (trim_space v)) raw in
          case check_event_types [] values of
            Some i \<Rightarrow> Inl i
          | None \<Rightarrow> Inr (sort_strings values)))"


text \<open>
  The length of \<open>json.Marshal\<close> of a string: two quotes, and per rune its bytes or its escape.
\<close>

definition json_rune_length :: "string \<Rightarrow> nat" where
  "json_rune_length r =
     (case r of
        [c] \<Rightarrow>
          (if c \<in> {CHR 0x22, CHR 0x5C, CHR 0x08, CHR 0x0C, CHR 0x0A, CHR 0x0D, CHR 0x09} then 2
           else if code c < 0x20 \<or> c \<in> {CHR ''<'', CHR ''>'', CHR ''&''} then 6
           else 1)
      | _ \<Rightarrow>
          (if r \<in> {[CHR 0xE2, CHR 0x80, CHR 0xA8], [CHR 0xE2, CHR 0x80, CHR 0xA9]} then 6
           else length r))"

function json_string_body :: "string \<Rightarrow> nat" where
  "json_string_body [] = 0"
| "json_string_body (c # s) =
     (if rune_width (c # s) = 0 then 6 + json_string_body s
      else json_rune_length (take (rune_width (c # s)) (c # s))
        + json_string_body (drop (rune_width (c # s)) (c # s)))"
  by pat_completeness auto
termination
  by (relation "measure length") auto

declare json_string_body.simps(2) [simp del]

definition json_string_length :: "string \<Rightarrow> nat" where
  "json_string_length s = 2 + json_string_body s"

text \<open>A condition node: \<open>None\<close> when nothing is wrong with it.\<close>

definition validate_in_list :: "any option \<Rightarrow> issue option" where
  "validate_in_list v =
     (case v of
        Some (Array items) \<Rightarrow>
          if items = [] \<or> length items > 100 then
            Some (mk_issue ''invalid_condition_list''
              msg_in_requires_between_1_and)
          else if list_all (\<lambda>i. case i of Str t \<Rightarrow> length t \<le> max_condition_value_size | _ \<Rightarrow> False) items
          then None
          else Some (mk_issue ''invalid_condition_list'' msg_in_requires_bounded_scalar_string)
      | _ \<Rightarrow> Some (mk_issue ''invalid_condition_list''
               msg_in_requires_between_1_and))"

definition validate_opt_out_value :: "string \<Rightarrow> any option \<Rightarrow> issue option" where
  "validate_opt_out_value operator v =
     (if operator = ''in'' then
        Some (mk_issue ''invalid_condition_operator''
          msg_contact_marketing_opt_out_supports)
      else case v of
        None \<Rightarrow> Some (mk_issue ''condition_value_required'' msg_condition_requires_a_boolean_value)
      | Some (Boolean _) \<Rightarrow> None
      | Some _ \<Rightarrow> Some (mk_issue ''invalid_condition_value''
          msg_contact_marketing_opt_out_requires))"

definition validate_text_value :: "any option \<Rightarrow> issue option" where
  "validate_text_value v =
     (case v of
        None \<Rightarrow> Some (mk_issue ''condition_value_required'' msg_condition_requires_a_scalar_value)
      | Some w \<Rightarrow>
          if \<not> is_scalar w then
            Some (mk_issue ''condition_value_required'' msg_condition_requires_a_scalar_value)
          else (case w of
              Str text \<Rightarrow>
                if json_string_length text > max_condition_value_size then
                  Some (mk_issue ''condition_value_too_large'' msg_condition_value_is_too_large)
                else None
            | _ \<Rightarrow> Some (mk_issue ''invalid_condition_value''
                     msg_event_condition_fields_require_a)))"

definition validate_condition_node :: "anode \<Rightarrow> issue option" where
  "validate_condition_node n =
     (let (field, field_ok) = config_normalized_string (nconfig n) ''field'';
          (operator, operator_ok) = config_normalized_string (nconfig n) ''operator'';
          v = map_of (nconfig n) ''value''
      in if \<not> field_ok \<or> \<not> valid_condition_field field then
           Some (mk_issue ''invalid_condition_field'' msg_condition_field_is_not_supported)
         else if \<not> operator_ok \<or> operator \<notin> set allowed_condition_operators then
           Some (mk_issue ''invalid_condition_operator'' msg_condition_operator_is_not_supported)
         else if operator = ''exists'' then
           (if v \<noteq> None \<and> v \<noteq> Some Null then
              Some (mk_issue ''unexpected_condition_value'' msg_exists_operators_cannot_include_a)
            else None)
         else if field = ''contact.marketing_opt_out'' then validate_opt_out_value operator v
         else if operator = ''in'' then validate_in_list v
         else validate_text_value v)"

definition validate_delay_node :: "anode \<Rightarrow> issue option" where
  "validate_delay_node n =
     (case config_int (nconfig n) ''minutes'' of
        Some minutes \<Rightarrow>
          if minutes < 0 \<or> minutes > max_delay_minutes then
            Some (mk_issue ''invalid_delay'' msg_delay_minutes_must_be_an)
          else None
      | None \<Rightarrow> Some (mk_issue ''invalid_delay''
          msg_delay_minutes_must_be_an))"

text \<open>A task node, check by check in the order of the code.\<close>

definition validate_task_title :: "jsonb \<Rightarrow> issue option" where
  "validate_task_title config =
     (let (title, ok) = config_raw_string config ''title'' in
      if \<not> ok \<or> trim_space title = [] \<or> rune_count title > 255 then
        Some (mk_issue ''invalid_task_title''
          msg_create_task_title_is_required)
      else if \<not> template_tokens_valid title then
        Some (mk_issue ''invalid_task_template''
          msg_create_task_title_contains_an)
      else None)"

definition validate_task_description :: "jsonb \<Rightarrow> issue option" where
  "validate_task_description config =
     (case map_of config ''description'' of
        None \<Rightarrow> None
      | Some (Str text) \<Rightarrow>
          if rune_count text > max_description_length then
            Some (mk_issue ''invalid_task_description''
              msg_create_task_description_cannot_exceed)
          else if \<not> template_tokens_valid text then
            Some (mk_issue ''invalid_task_template''
              msg_create_task_description_contains_an)
          else None
      | Some _ \<Rightarrow> Some (mk_issue ''invalid_task_description''
          msg_create_task_description_cannot_exceed))"

definition validate_task_priority :: "jsonb \<Rightarrow> issue option" where
  "validate_task_priority config =
     (case map_of config ''priority'' of
        None \<Rightarrow> None
      | Some (Str text) \<Rightarrow>
          if valid_task_priority (to_lower (trim_space text)) then None
          else Some (mk_issue ''invalid_task_priority'' msg_create_task_priority_is_invalid)
      | Some _ \<Rightarrow> Some (mk_issue ''invalid_task_priority'' msg_create_task_priority_is_invalid))"

definition validate_task_minutes :: "jsonb \<Rightarrow> string \<Rightarrow> issue option" where
  "validate_task_minutes config key =
     (if map_of config key = None then None
      else case config_int config key of
        Some v \<Rightarrow>
          if v < 0 \<or> v > max_task_minutes then
            Some (mk_issue ''invalid_task_schedule''
              (key @ msg_must_be_an_integer_between))
          else None
      | None \<Rightarrow> Some (mk_issue ''invalid_task_schedule''
          (key @ msg_must_be_an_integer_between)))"

definition validate_task_reminder :: "jsonb \<Rightarrow> issue option" where
  "validate_task_reminder config =
     (case (config_int config ''due_in_minutes'', config_int config ''remind_in_minutes'') of
        (Some due, Some remind) \<Rightarrow>
          if remind > due then
            Some (mk_issue ''invalid_task_schedule''
              msg_remind_in_minutes_cannot_be)
          else None
      | _ \<Rightarrow> None)"

definition validate_task_owner :: "jsonb \<Rightarrow> issue option" where
  "validate_task_owner config =
     (case map_of config ''owner'' of
        Some (Str owner) \<Rightarrow>
          if to_lower (trim_space owner) \<noteq> ''unassigned''
             \<and> to_lower (trim_space owner) \<noteq> ''contact_owner'' then
            Some (mk_issue ''invalid_task_owner''
              msg_create_task_owner_must_be)
          else None
      | Some _ \<Rightarrow> Some (mk_issue ''invalid_task_owner'' msg_create_task_owner_is_invalid)
      | None \<Rightarrow> None)"

fun first_issue :: "issue option list \<Rightarrow> issue option" where
  "first_issue [] = None"
| "first_issue (Some i # _) = Some i"
| "first_issue (None # rest) = first_issue rest"

lemma first_issue_None_iff: "first_issue xs = None \<longleftrightarrow> (\<forall>x\<in>set xs. x = None)"
  by (induction xs rule: first_issue.induct) auto

definition validate_create_task_node :: "anode \<Rightarrow> uuid option \<times> issue option" where
  "validate_create_task_node n =
     (let config = nconfig n in
      (None, first_issue
        [validate_task_title config,
         validate_task_description config,
         validate_task_priority config,
         validate_task_minutes config ''due_in_minutes'',
         validate_task_minutes config ''remind_in_minutes'',
         validate_task_reminder config,
         validate_task_owner config,
         (if map_of config ''owner_user_id'' \<noteq> None then
            Some (mk_issue ''invalid_task_owner''
              msg_owner_user_id_is_outside)
          else None)]))"

section \<open>What a valid node guarantees\<close>

lemma validate_delay_node_None:
  "validate_delay_node n = None \<longleftrightarrow>
     (\<exists>m. config_int (nconfig n) ''minutes'' = Some m \<and> 0 \<le> m \<and> m \<le> max_delay_minutes)"
  by (auto simp: validate_delay_node_def split: option.splits if_splits)

lemma validate_task_minutes_None:
  "validate_task_minutes config key = None \<Longrightarrow> config_int config key = Some m \<Longrightarrow>
     0 \<le> m \<and> m \<le> max_task_minutes"
  by (auto simp: validate_task_minutes_def config_int_def split: option.splits if_splits)

lemma validate_condition_node_operator:
  assumes "validate_condition_node n = None"
  shows "fst (config_normalized_string (nconfig n) ''operator'') \<in> set allowed_condition_operators"
  using assms by (auto simp: validate_condition_node_def Let_def split: prod.splits if_splits)

lemma validate_condition_node_in:
  assumes "validate_condition_node n = None"
    and "fst (config_normalized_string (nconfig n) ''operator'') = ''in''"
  shows "\<exists>items. map_of (nconfig n) ''value'' = Some (Array items)"
  using assms
  by (auto simp: validate_condition_node_def Let_def validate_in_list_def validate_opt_out_value_def
      split: prod.splits if_splits option.splits any.splits)

end
