(* ===== verification/AutomationValidate.thy ===== *)
theory AutomationValidate
  imports AutomationConfig
begin

text \<open>
  \<^verbatim>\<open>validateAutomationGraph\<close>: the scan of the nodes, the scan of the edges, the degree rules, the
  depth-first walk for cycles and unreachable nodes, and the longest-delay computation in
  topological order. Go visits a map in an unspecified order; the loop over the node map takes that
  order as the parameter \<open>order\<close>, a function that permutes the identifiers.
\<close>

section \<open>Results\<close>

record validation =
  verrors :: "issue list"
  vwarnings :: "issue list"
  vevents :: "string list"
  vowners :: "uuid list"

definition node_issue :: "string \<Rightarrow> string \<Rightarrow> string \<Rightarrow> issue" where
  "node_issue c n m = \<lparr>icode = c, inode = n, iedge = 0, imessage = m\<rparr>"

definition edge_issue :: "string \<Rightarrow> nat \<Rightarrow> string \<Rightarrow> issue" where
  "edge_issue c e m = \<lparr>icode = c, inode = [], iedge = e, imessage = m\<rparr>"

section \<open>The scan of the nodes\<close>

text \<open>
  \<open>known\<close> is the node map: its nodes in the order of insertion, so \<open>nodeOrder\<close> is \<open>map nid known\<close>.
\<close>

record scan =
  known :: "anode list"
  triggers :: "string list"
  actions :: nat
  owners :: "uuid list"
  serrors :: "issue list"
  swarnings :: "issue list"
  sevents :: "string list"

definition empty_scan :: scan where
  "empty_scan = \<lparr>known = [], triggers = [], actions = 0, owners = [], serrors = [],
     swarnings = [], sevents = []\<rparr>"

definition add_error :: "scan \<Rightarrow> string \<Rightarrow> string \<Rightarrow> string \<Rightarrow> scan" where
  "add_error s c n m = s\<lparr>serrors := serrors s @ [node_issue c n m]\<rparr>"

definition coordinate_bad :: "float64 \<Rightarrow> bool" where
  "coordinate_bad f = (case f of Fin q \<Rightarrow> \<bar>q\<bar> > max_canvas_coordinate | _ \<Rightarrow> True)"

definition position_bad :: "anode \<Rightarrow> bool" where
  "position_bad n =
     (case nposition n of None \<Rightarrow> False | Some p \<Rightarrow> coordinate_bad (px p) \<or> coordinate_bad (py p))"

definition check_config_keys :: "scan \<Rightarrow> anode \<Rightarrow> string \<Rightarrow> string list \<Rightarrow> scan" where
  "check_config_keys s n kind allowed =
     (let key = unknown_config_key (nconfig n) allowed in
      if key \<noteq> [] then
        add_error s ''unknown_node_config'' (nid n) (kind @ msg_contains_unsupported_config_key @ key)
      else s)"

definition add_issue :: "scan \<Rightarrow> anode \<Rightarrow> issue option \<Rightarrow> scan" where
  "add_issue s n i = (case i of None \<Rightarrow> s | Some x \<Rightarrow> add_error s (icode x) (nid n) (imessage x))"

definition note_trigger :: "scan \<Rightarrow> anode \<Rightarrow> scan" where
  "note_trigger s n = s\<lparr>triggers := triggers s @ [nid n]\<rparr>"

definition note_events :: "scan \<Rightarrow> anode \<Rightarrow> scan" where
  "note_events s n =
     (case trigger_event_types n of
        Inl i \<Rightarrow> add_error s (icode i) (nid n) (imessage i)
      | Inr types \<Rightarrow> s\<lparr>sevents := sevents s @ types\<rparr>)"

definition scan_trigger :: "scan \<Rightarrow> anode \<Rightarrow> scan" where
  "scan_trigger s n =
     note_events (note_trigger (check_config_keys s n ''trigger'' [''event_type'', ''event_types'']) n) n"

definition count_action :: "scan \<Rightarrow> scan" where
  "count_action s = s\<lparr>actions := Suc (actions s)\<rparr>"

definition note_owner :: "scan \<Rightarrow> uuid option \<Rightarrow> scan" where
  "note_owner s u = (case u of None \<Rightarrow> s | Some x \<Rightarrow> s\<lparr>owners := List.insert x (owners s)\<rparr>)"

definition warn_dynamic :: "scan \<Rightarrow> anode \<Rightarrow> scan" where
  "warn_dynamic s n =
     (if node_uses_dynamic_template n then
        s\<lparr>swarnings := swarnings s
            @ [node_issue ''dynamic_template_truncation'' (nid n) msg_dynamic_task_text_is_safely]\<rparr>
      else s)"

definition task_config_keys :: "string list" where
  "task_config_keys =
     [''title'', ''description'', ''priority'', ''due_in_minutes'', ''remind_in_minutes'', ''owner'']"

definition scan_create_task :: "scan \<Rightarrow> anode \<Rightarrow> scan" where
  "scan_create_task s n =
     (case validate_create_task_node n of (owner, i) \<Rightarrow>
        warn_dynamic
          (note_owner
            (add_issue (count_action (check_config_keys s n ''create_task'' task_config_keys)) n i)
            owner) n)"

definition scan_content :: "scan \<Rightarrow> anode \<Rightarrow> scan" where
  "scan_content s n =
     (if ntype n = ''trigger'' then scan_trigger s n
      else if ntype n = ''condition'' then
        add_issue (check_config_keys s n ''condition'' [''field'', ''operator'', ''value'']) n
          (validate_condition_node n)
      else if ntype n = ''delay'' then
        add_issue (check_config_keys s n ''delay'' [''minutes'']) n (validate_delay_node n)
      else if ntype n = ''create_task'' then scan_create_task s n
      else add_error s ''unsupported_node_type'' (nid n)
             msg_node_type_must_be_trigger)"

definition check_position :: "scan \<Rightarrow> anode \<Rightarrow> scan" where
  "check_position s n =
     (if position_bad n then
        add_error s ''invalid_position'' (nid n) msg_node_position_must_be_finite
      else s)"

definition remember :: "scan \<Rightarrow> anode \<Rightarrow> scan" where
  "remember s n = s\<lparr>known := known s @ [n]\<rparr>"

definition scan_node :: "scan \<Rightarrow> anode \<Rightarrow> scan" where
  "scan_node s n =
     (if nid n \<noteq> trim_space (nid n) \<or> ntype n \<noteq> to_lower (trim_space (ntype n)) then
        add_error s ''noncanonical_node'' (trim_space (nid n)) msg_node_id_and_type_must
      else if nid n = [] \<or> length (nid n) > max_node_id_length then
        add_error s ''invalid_node_id'' (nid n) msg_node_id_is_required_and
      else if nid n \<in> set (map nid (known s)) then
        add_error s ''duplicate_node_id'' (nid n) msg_node_ids_must_be_unique
      else scan_content (remember (check_position s n) n) n)"

section \<open>The scan of the edges\<close>

text \<open>
  \<open>accepted\<close> holds the edges that reach \<open>incoming[...]++\<close> and \<open>outgoing[...] = append(...)\<close>; the two
  maps are its projections.
\<close>

record edge_scan =
  accepted :: "aedge list"
  eerrors :: "issue list"

definition incoming :: "aedge list \<Rightarrow> string \<Rightarrow> nat" where
  "incoming es i = length (filter (\<lambda>e. tgt e = i) es)"

definition outgoing :: "aedge list \<Rightarrow> string \<Rightarrow> aedge list" where
  "outgoing es i = filter (\<lambda>e. src e = i) es"

definition lookup_node :: "anode list \<Rightarrow> string \<Rightarrow> anode option" where
  "lookup_node ns i = List.find (\<lambda>n. nid n = i) ns"

definition add_edge_error :: "edge_scan \<Rightarrow> string \<Rightarrow> nat \<Rightarrow> string \<Rightarrow> edge_scan" where
  "add_edge_error s c k m = s\<lparr>eerrors := eerrors s @ [edge_issue c k m]\<rparr>"

definition branch_check :: "anode \<Rightarrow> aedge \<Rightarrow> nat \<Rightarrow> edge_scan \<Rightarrow> edge_scan" where
  "branch_check source e k s =
     (if ntype source = ''condition'' then
        (if branch e \<noteq> ''true'' \<and> branch e \<noteq> ''false'' then
           add_edge_error s ''condition_branch_required'' k msg_condition_edges_must_declare_branch
         else s)
      else if branch e \<noteq> [] \<and> branch e \<noteq> ''always'' then
        add_edge_error s ''unexpected_edge_branch'' k msg_only_condition_edges_can_declare
      else s)"

definition accept_edge :: "edge_scan \<Rightarrow> aedge \<Rightarrow> edge_scan" where
  "accept_edge s e = s\<lparr>accepted := accepted s @ [e]\<rparr>"

definition canonical_edge :: "aedge \<Rightarrow> aedge" where
  "canonical_edge e = \<lparr>src = trim_space (src e), tgt = trim_space (tgt e),
     branch = to_lower (trim_space (branch e))\<rparr>"

definition scan_edge :: "anode list \<Rightarrow> nat \<Rightarrow> aedge \<Rightarrow> edge_scan \<Rightarrow> edge_scan" where
  "scan_edge ns k e s =
     (if e \<noteq> canonical_edge e then
        add_edge_error s ''noncanonical_edge'' k msg_edge_source_target_and_branch
      else case (lookup_node ns (src e), lookup_node ns (tgt e)) of
        (Some source, Some _) \<Rightarrow>
          if src e = tgt e then
            add_edge_error s ''self_edge'' k msg_a_node_cannot_connect_to
          else accept_edge (branch_check source e k s) e
      | _ \<Rightarrow> add_edge_error s ''unknown_edge_node'' k msg_edge_source_and_target_must)"

fun scan_edges :: "anode list \<Rightarrow> nat \<Rightarrow> aedge list \<Rightarrow> edge_scan \<Rightarrow> edge_scan" where
  "scan_edges ns k [] s = s"
| "scan_edges ns k (e # es) s = scan_edges ns (Suc k) es (scan_edge ns k e s)"

section \<open>The degree rules\<close>

fun branch_duplicates :: "string \<Rightarrow> string list \<Rightarrow> aedge list \<Rightarrow> issue list" where
  "branch_duplicates i seen [] = []"
| "branch_duplicates i seen (e # es) =
     (if branch e \<in> set seen then
        [node_issue ''duplicate_condition_branch'' i
           msg_a_condition_can_have_at]
      else []) @ branch_duplicates i (branch e # seen) es"

definition degree_issues :: "bool \<Rightarrow> aedge list \<Rightarrow> anode \<Rightarrow> issue list" where
  "degree_issues activation es n =
     (let i = nid n; out = outgoing es i in
      (if ntype n = ''trigger'' \<and> incoming es i \<noteq> 0 then
         [node_issue ''trigger_has_incoming'' i msg_trigger_cannot_have_an_incoming] else [])
      @ (if ntype n \<noteq> ''trigger'' \<and> activation \<and> incoming es i \<noteq> 1 then
           [node_issue ''invalid_incoming_count'' i
              msg_every_non_trigger_node_must] else [])
      @ (if ntype n = ''trigger'' \<or> ntype n = ''delay'' then
           (if length out > 1 \<or> (activation \<and> length out \<noteq> 1) then
              [node_issue ''ambiguous_outgoing_edges'' i
                 msg_trigger_and_delay_nodes_must] else [])
         else if ntype n = ''create_task'' then
           (if length out \<noteq> 0 then
              [node_issue ''action_has_outgoing'' i msg_create_task_nodes_cannot_have]
            else [])
         else if ntype n = ''condition'' then
           branch_duplicates i [] out
           @ (if length out > 2 then
                [node_issue ''too_many_condition_branches'' i
                   msg_a_condition_can_have_at_2] else [])
           @ (if activation \<and> length out = 0 then
                [node_issue ''condition_branch_required'' i
                   msg_a_condition_must_have_at] else [])
         else []))"

section \<open>The walk for cycles\<close>

text \<open>
  \<open>active\<close> is the path to the node: the code sets its flag before the loop over the edges and clears
  it after. The first argument bounds the depth; \<open>None\<close> is running out of it.
\<close>

type_synonym walk_state = "string list \<times> issue list"

fun walk :: "nat \<Rightarrow> aedge list \<Rightarrow> string list \<Rightarrow> string \<Rightarrow> walk_state \<Rightarrow> walk_state option"
  and walk_targets :: "nat \<Rightarrow> aedge list \<Rightarrow> string list \<Rightarrow> aedge list \<Rightarrow> walk_state \<Rightarrow> walk_state option"
where
  "walk 0 es active i st = None"
| "walk (Suc d) es active i (visited, errs) =
     (if i \<in> set active then
        Some (visited, errs @ [node_issue ''cycle_detected'' i msg_graph_must_not_contain_a])
      else if i \<in> set visited then Some (visited, errs)
      else (case walk_targets d es (i # active) (outgoing es i) (visited, errs) of
              None \<Rightarrow> None
            | Some (visited', errs') \<Rightarrow> Some (i # visited', errs')))"
| "walk_targets d es active [] st = Some st"
| "walk_targets d es active (e # rest) st =
     (case walk d es active (tgt e) st of
        None \<Rightarrow> None
      | Some st' \<Rightarrow> walk_targets d es active rest st')"

section \<open>The longest delay in topological order\<close>

text \<open>
  The maps \<open>remainingIncoming\<close>, \<open>bestDelay\<close> and \<open>delayReachable\<close>; a missing key reads as zero or
  false. One turn of the loop takes the head of the queue.
\<close>

record delay_state =
  remaining :: "string \<Rightarrow> int"
  best :: "string \<Rightarrow> int"
  reached :: "string \<Rightarrow> bool"
  dqueue :: "string list"
  derrors :: "issue list"

fun relax :: "bool \<Rightarrow> int \<Rightarrow> aedge list \<Rightarrow> delay_state \<Rightarrow> delay_state" where
  "relax r cumulative [] s = s"
| "relax r cumulative (e # es) s =
     (let s1 = (if r then
            s\<lparr>reached := (reached s)(tgt e := True),
              best := (if cumulative > best s (tgt e) then (best s)(tgt e := cumulative) else best s)\<rparr>
          else s);
          s2 = s1\<lparr>remaining := (remaining s1)(tgt e := remaining s1 (tgt e) - 1)\<rparr>;
          s3 = (if remaining s2 (tgt e) = 0 then s2\<lparr>dqueue := dqueue s2 @ [tgt e]\<rparr> else s2)
      in relax r cumulative es s3)"

definition node_delay :: "anode list \<Rightarrow> string \<Rightarrow> int option" where
  "node_delay ns i =
     (case lookup_node ns i of
        Some n \<Rightarrow> if ntype n = ''delay'' then config_int (nconfig n) ''minutes'' else None
      | None \<Rightarrow> None)"

definition delay_turn :: "anode list \<Rightarrow> aedge list \<Rightarrow> string \<Rightarrow> delay_state \<Rightarrow> delay_state" where
  "delay_turn ns es i s =
     (let cumulative0 = best s i; r = reached s i;
          (cumulative, errs) =
            (case (if r then node_delay ns i else None) of
               None \<Rightarrow> (cumulative0, [])
             | Some m \<Rightarrow>
                 (cumulative0 + m,
                  (if cumulative0 + m > max_delay_minutes then
                     [node_issue ''cumulative_delay_exceeded'' i
                        msg_cumulative_delay_on_every_path]
                   else [])))
      in relax r cumulative (outgoing es i) (s\<lparr>derrors := derrors s @ errs\<rparr>))"

fun delay_loop :: "nat \<Rightarrow> anode list \<Rightarrow> aedge list \<Rightarrow> delay_state \<Rightarrow> delay_state option" where
  "delay_loop 0 ns es s = (if dqueue s = [] then Some s else None)"
| "delay_loop (Suc k) ns es s =
     (case dqueue s of
        [] \<Rightarrow> Some s
      | i # q \<Rightarrow> delay_loop k ns es (delay_turn ns es i (s\<lparr>dqueue := q\<rparr>)))"

definition delay_start :: "anode list \<Rightarrow> aedge list \<Rightarrow> string \<Rightarrow> delay_state" where
  "delay_start ns es start =
     \<lparr>remaining = (\<lambda>i. int (incoming es i)), best = (\<lambda>_. 0), reached = (\<lambda>i. i = start),
      dqueue = filter (\<lambda>i. incoming es i = 0) (map nid ns), derrors = []\<rparr>"

section \<open>The whole validation\<close>

definition unique_sorted_strings :: "string list \<Rightarrow> string list" where
  "unique_sorted_strings xs = sort_strings (remdups (filter (\<lambda>v. v \<noteq> []) xs))"

definition size_issues :: "bool \<Rightarrow> agraph \<Rightarrow> issue list" where
  "size_issues activation g =
     (if length (anodes g) > max_nodes then
        [node_issue ''too_many_nodes'' [] msg_graph_cannot_contain_more_than] else [])
     @ (if length (aedges g) > max_edges then
          [node_issue ''too_many_edges'' [] msg_graph_cannot_contain_more_than_2] else [])
     @ (if activation \<and> anodes g = [] then
          [node_issue ''nodes_required'' [] msg_graph_must_contain_nodes] else [])"

definition count_issues :: "bool \<Rightarrow> scan \<Rightarrow> issue list" where
  "count_issues activation s =
     (if actions s > max_action_nodes then
        [node_issue ''too_many_actions'' [] msg_graph_cannot_contain_more_than_2_2]
      else [])
     @ (if activation \<and> length (triggers s) \<noteq> 1 then
          [node_issue ''single_trigger_required'' [] msg_graph_must_contain_exactly_one]
        else [])
     @ (if activation \<and> actions s = 0 then
          [node_issue ''action_required'' [] msg_graph_must_contain_at_least]
        else [])"

definition reach_issues ::
  "anode list \<Rightarrow> aedge list \<Rightarrow> string \<Rightarrow> issue list option" where
  "reach_issues ns es start =
     (case walk (Suc (length ns)) es [] start ([], []) of
        None \<Rightarrow> None
      | Some (visited, errs) \<Rightarrow>
          (case delay_loop (length ns) ns es (delay_start ns es start) of
             None \<Rightarrow> None
           | Some s \<Rightarrow> Some
               (errs
                @ map (\<lambda>i. node_issue ''unreachable_node'' i
                     msg_every_node_must_be_reachable)
                   (filter (\<lambda>i. i \<notin> set visited) (map nid ns))
                @ derrors s)))"

definition validate_automation_graph ::
  "(string list \<Rightarrow> string list) \<Rightarrow> bool \<Rightarrow> agraph \<Rightarrow> validation option" where
  "validate_automation_graph order activation g =
     (let s = foldl scan_node empty_scan (anodes g);
          es = scan_edges (known s) 0 (aedges g) \<lparr>accepted = [], eerrors = []\<rparr>;
          visit = map (\<lambda>i. lookup_node (known s) i) (order (map nid (known s)));
          degree = concat (map (\<lambda>v. case v of None \<Rightarrow> [] | Some n \<Rightarrow> degree_issues activation (accepted es) n)
            visit);
          structure = (if activation \<and> length (triggers s) = 1
            then reach_issues (known s) (accepted es) (hd (triggers s)) else Some [])
      in map_option (\<lambda>structural.
           \<lparr>verrors = size_issues activation g @ serrors s @ count_issues activation s @ eerrors es
              @ degree @ structural,
            vwarnings = swarnings s,
            vevents = unique_sorted_strings (sevents s),
            vowners = sort (owners s)\<rparr>) structure)"

end
