(* ===== verification/AutomationEvaluate.thy ===== *)
theory AutomationEvaluate
  imports AutomationValidate
begin

text \<open>
  \<^verbatim>\<open>evaluateAutomationGraph\<close> and what it calls: conditions over an event, the rendering of a task's
  text, the planned task, and the queue that runs the graph.
\<close>

section \<open>Events and contacts\<close>

record activity_event =
  event_type :: string
  category :: string
  source_object_type :: string
  actor_type :: string
  title :: string
  summary :: string
  metadata :: jsonb

record acontact =
  marketing_opt_out :: bool
  profile_name :: string
  phone_number :: string

datatype step_status = StepCompleted | StepSkipped | StepPending

record eval_step =
  st_node :: string
  st_type :: string
  st_status :: step_status
  st_branch :: string
  st_scheduled :: "time option"
  st_detail :: string
  st_output :: jsonb

record planned_task =
  pt_node :: string
  pt_title :: string
  pt_description :: string
  pt_priority :: string
  pt_owner_mode :: string
  pt_owner :: "uuid option"
  pt_scheduled :: time
  pt_due :: "time option"
  pt_remind :: "time option"

record evaluation =
  steps :: "eval_step list"
  planned :: "planned_task list"

section \<open>Conditions\<close>

text \<open>\<open>reflect.DeepEqual\<close> on two dynamic values; values of different types differ.\<close>

fun deep_equal :: "any \<Rightarrow> any \<Rightarrow> bool"
  and deep_equal_list :: "any list \<Rightarrow> any list \<Rightarrow> bool"
  and deep_equal_object :: "(string \<times> any) list \<Rightarrow> jsonb \<Rightarrow> bool"
where
  "deep_equal (Float a) w = (case w of Float b \<Rightarrow> float_eq a b | _ \<Rightarrow> False)"
| "deep_equal (Array xs) w = (case w of Array ys \<Rightarrow> deep_equal_list xs ys | _ \<Rightarrow> False)"
| "deep_equal (Object xs) w =
     (case w of Object ys \<Rightarrow> length xs = length ys \<and> deep_equal_object xs ys | _ \<Rightarrow> False)"
| "deep_equal v w = (v = w)"
| "deep_equal_list [] ys = (ys = [])"
| "deep_equal_list (x # xs) ys =
     (case ys of [] \<Rightarrow> False | y # ys' \<Rightarrow> deep_equal x y \<and> deep_equal_list xs ys')"
| "deep_equal_object [] m = True"
| "deep_equal_object ((k, v) # r) m =
     (case map_of m k of None \<Rightarrow> False | Some w \<Rightarrow> deep_equal v w \<and> deep_equal_object r m)"

definition scalar_equal :: "any \<Rightarrow> any \<Rightarrow> bool" where
  "scalar_equal left right =
     (if left = Null \<or> right = Null then left = Null \<and> right = Null else deep_equal left right)"

text \<open>The value and whether it exists; a missing value is the nil interface.\<close>

definition condition_field_value ::
  "string \<Rightarrow> activity_event \<Rightarrow> acontact option \<Rightarrow> any \<times> bool" where
  "condition_field_value field ev ct =
     (let f = to_lower (trim_space field) in
      if f = ''event.event_type'' then (Str (event_type ev), True)
      else if f = ''event.category'' then (Str (category ev), True)
      else if f = ''event.source_type'' then (Str (source_object_type ev), True)
      else if f = ''event.actor_type'' then (Str (actor_type ev), True)
      else if f = ''event.title'' then (Str (title ev), True)
      else if f = ''event.summary'' then (Str (summary ev), True)
      else if f = ''contact.marketing_opt_out'' then
        (case ct of None \<Rightarrow> (Null, False) | Some c \<Rightarrow> (Boolean (marketing_opt_out c), True))
      else if has_prefix (to_lower field) ''event.metadata.'' then
        (case map_of (metadata ev) (drop 15 field) of None \<Rightarrow> (Null, False) | Some v \<Rightarrow> (v, True))
      else (Null, False))"

definition evaluate_condition ::
  "anode \<Rightarrow> activity_event \<Rightarrow> acontact option \<Rightarrow> (string, bool) result" where
  "evaluate_condition n ev ct =
     (let field = fst (config_normalized_string (nconfig n) ''field'');
          operator = fst (config_normalized_string (nconfig n) ''operator'');
          (actual, exists) = condition_field_value field ev ct;
          expected = (case map_of (nconfig n) ''value'' of None \<Rightarrow> Null | Some v \<Rightarrow> v)
      in if operator = ''exists'' then Inr (exists \<and> actual \<noteq> Null)
         else if operator = ''equals'' then Inr (scalar_equal actual expected)
         else if operator = ''not_equals'' then Inr (\<not> scalar_equal actual expected)
         else if operator = ''in'' then
           (case expected of
              Array items \<Rightarrow> Inr (list_ex (\<lambda>item. scalar_equal actual item) items)
            | _ \<Rightarrow> Inl ''condition in value is invalid'')
         else Inl ''unsupported condition operator'')"

section \<open>Task text\<close>

text \<open>
  \<open>strings.NewReplacer(...).Replace\<close>: at each position the first pair whose old string is there.
  None of the old strings used is a prefix of another, so the order of the pairs does not matter.
\<close>

fun replace_all :: "(string \<times> string) list \<Rightarrow> string \<Rightarrow> string" where
  "replace_all ps [] = []"
| "replace_all ps (c # s) =
     (case List.find (\<lambda>(old, new). has_prefix (c # s) old) ps of
        None \<Rightarrow> c # replace_all ps s
      | Some (old, new) \<Rightarrow> new @ replace_all ps (drop (length old - 1) s))"

definition or_else :: "string \<Rightarrow> string \<Rightarrow> string" where
  "or_else s d = (if s = [] then d else s)"

definition display_title :: "activity_event \<Rightarrow> string" where
  "display_title ev = or_else (trim_space (title ev)) (event_type ev)"

definition display_summary :: "activity_event \<Rightarrow> string" where
  "display_summary ev = or_else (trim_space (summary ev)) (display_title ev)"

definition display_contact :: "acontact option \<Rightarrow> string" where
  "display_contact ct =
     (case ct of
        None \<Rightarrow> ''Customer''
      | Some c \<Rightarrow> or_else (trim_space (profile_name c)) (or_else (trim_space (phone_number c)) ''Customer''))"

definition template_pairs :: "acontact option \<Rightarrow> activity_event \<Rightarrow> (string \<times> string) list" where
  "template_pairs ct ev =
     [(''{{event.title}}'', display_title ev), (''{{event.summary}}'', display_summary ev),
      (''{{event.type}}'', event_type ev), (''{{contact.name}}'', display_contact ct)]"

definition render_template :: "string \<Rightarrow> acontact option \<Rightarrow> activity_event \<Rightarrow> string" where
  "render_template text ct ev = trim_space (replace_all (template_pairs ct ev) text)"

definition truncate_runes :: "string \<Rightarrow> nat \<Rightarrow> string" where
  "truncate_runes text maximum =
     (if maximum = 0 then []
      else if length (runes text) \<le> maximum then text
      else concat (take maximum (runes text)))"

definition task_from_node ::
  "anode \<Rightarrow> acontact option \<Rightarrow> activity_event \<Rightarrow> time \<Rightarrow> int \<Rightarrow> (string, planned_task) result" where
  "task_from_node n ct ev base delay =
     (let config = nconfig n;
          text = fst (config_raw_string config ''title'');
          description = fst (config_raw_string config ''description'');
          priority = or_else (fst (config_normalized_string config ''priority'')) ''normal'';
          owner = or_else (fst (config_normalized_string config ''owner'')) ''unassigned'';
          scheduled = add_minutes base delay;
          due = map_option (add_minutes scheduled) (config_int config ''due_in_minutes'');
          remind = map_option (add_minutes scheduled) (config_int config ''remind_in_minutes'');
          rendered_title = truncate_runes (render_template text ct ev) 255;
          rendered_description =
            truncate_runes (render_template description ct ev) max_description_length
      in if (case (due, remind) of (Some d, Some r) \<Rightarrow> d < r | _ \<Rightarrow> False) then
           Inl ''task reminder cannot be after its due time''
         else if rendered_title = [] then Inl ''rendered task title is empty''
         else Inr \<lparr>pt_node = nid n, pt_title = rendered_title,
           pt_description = rendered_description, pt_priority = priority,
           pt_owner_mode = owner, pt_owner = None, pt_scheduled = scheduled, pt_due = due,
           pt_remind = remind\<rparr>)"

section \<open>The queue\<close>

definition show_int :: "int \<Rightarrow> string" where
  "show_int i = (if i < 0 then ''-'' @ show_nat (nat (- i)) else show_nat (nat i))"

definition show_bool :: "bool \<Rightarrow> string" where
  "show_bool b = (if b then ''true'' else ''false'')"

definition blank_step :: "anode \<Rightarrow> eval_step" where
  "blank_step n = \<lparr>st_node = nid n, st_type = ntype n, st_status = StepCompleted, st_branch = [],
     st_scheduled = None, st_detail = [], st_output = []\<rparr>"

definition zero_node :: anode where
  "zero_node = \<lparr>nid = [], ntype = [], nconfig = [], nposition = None\<rparr>"

text \<open>The node map of the evaluation: a later node of the same identifier overwrites an earlier one.\<close>

definition node_at :: "agraph \<Rightarrow> string \<Rightarrow> anode" where
  "node_at g i = (case List.find (\<lambda>n. nid n = i) (rev (anodes g)) of None \<Rightarrow> zero_node | Some n \<Rightarrow> n)"

definition trigger_node :: "agraph \<Rightarrow> anode" where
  "trigger_node g =
     (case List.find (\<lambda>n. ntype n = ''trigger'') (rev (anodes g)) of None \<Rightarrow> zero_node | Some n \<Rightarrow> n)"

definition default_branch :: "aedge \<Rightarrow> aedge" where
  "default_branch e = (if branch e = [] then e\<lparr>branch := ''always''\<rparr> else e)"

definition edges_from :: "agraph \<Rightarrow> string \<Rightarrow> aedge list" where
  "edges_from g i = filter (\<lambda>e. src e = i) (map default_branch (aedges g))"

text \<open>
  What a node does: its step, the delay its successors inherit, the edges to follow, the task it
  plans. \<open>next\<close> is \<open>outgoing[node.ID]\<close>.
\<close>

record node_run =
  run_step :: eval_step
  run_delay :: int
  run_next :: "aedge list"
  run_task :: "planned_task option"

definition run_node ::
  "anode \<Rightarrow> aedge list \<Rightarrow> int \<Rightarrow> activity_event \<Rightarrow> acontact option \<Rightarrow> time
     \<Rightarrow> (string, node_run) result" where
  "run_node n next delay ev ct base =
     (let step = blank_step n in
      if ntype n = ''trigger'' then
        Inr \<lparr>run_step = step\<lparr>st_detail := ''trigger matched '' @ event_type ev\<rparr>,
          run_delay = delay, run_next = next, run_task = None\<rparr>
      else if ntype n = ''condition'' then
        res_bind (evaluate_condition n ev ct) (\<lambda>matched.
          (let b = show_bool matched;
               selected = filter (\<lambda>e. branch e = b) next
           in Inr \<lparr>run_step = step\<lparr>st_branch := b, st_detail := ''condition evaluated '' @ b,
                st_output := [(''matched'', Boolean matched), (''reason_code'', Str (''condition_'' @ b))]
                  @ (if selected = [] then [(''stop_reason'', Str ''condition_branch_omitted'')] else [])\<rparr>,
              run_delay = delay, run_next = selected, run_task = None\<rparr>))
      else if ntype n = ''delay'' then
        (let minutes = (case config_int (nconfig n) ''minutes'' of None \<Rightarrow> 0 | Some m \<Rightarrow> m);
             total = delay + minutes
         in if total > max_delay_minutes then Inl ''cumulative delay exceeds maximum''
            else Inr \<lparr>run_step = step\<lparr>st_scheduled := Some (add_minutes base total),
                st_output := [(''delay_minutes'', Integer minutes),
                  (''cumulative_delay_minutes'', Integer total)],
                st_detail := ''wait '' @ show_int minutes @ '' minutes''\<rparr>,
              run_delay = total, run_next = next, run_task = None\<rparr>)
      else if ntype n = ''create_task'' then
        res_bind (task_from_node n ct ev base delay) (\<lambda>task.
          Inr \<lparr>run_step = step\<lparr>st_status := StepPending, st_scheduled := Some (pt_scheduled task),
              st_detail := ''task scheduled''\<rparr>,
            run_delay = delay, run_next = next, run_task = Some task\<rparr>)
      else Inr \<lparr>run_step = step, run_delay = delay, run_next = next, run_task = None\<rparr>)"

text \<open>
  The selected edges of a condition are collected in the front of the very slice that is being
  filtered (\<open>nextEdges[:0]\<close>), so the map of outgoing edges changes with it.
\<close>

definition overwrite_front :: "aedge list \<Rightarrow> aedge list \<Rightarrow> aedge list" where
  "overwrite_front selected es = selected @ drop (length selected) es"

type_synonym queue_item = "string \<times> int"

text \<open>The loop over the queue. The first argument bounds the turns; \<open>None\<close> is running out of them.\<close>

fun eval_loop ::
  "nat \<Rightarrow> agraph \<Rightarrow> (string \<Rightarrow> aedge list) \<Rightarrow> activity_event \<Rightarrow> acontact option \<Rightarrow> time
     \<Rightarrow> queue_item list \<Rightarrow> evaluation \<Rightarrow> (string, evaluation) result option" where
  "eval_loop 0 g out ev ct base q r = (if q = [] then Some (Inr r) else None)"
| "eval_loop (Suc k) g out ev ct base q r =
     (case q of
        [] \<Rightarrow> Some (Inr r)
      | (i, delay) # rest \<Rightarrow>
          (let n = node_at g i in
           case run_node n (out (nid n)) delay ev ct base of
             Inl e \<Rightarrow> Some (Inl e)
           | Inr x \<Rightarrow>
               (let out' = (if ntype n = ''condition''
                      then out(nid n := overwrite_front (run_next x) (out (nid n))) else out);
                    r' = r\<lparr>steps := steps r @ [run_step x],
                           planned := planned r @ (case run_task x of None \<Rightarrow> [] | Some t \<Rightarrow> [t])\<rparr>
                in eval_loop k g out' ev ct base
                     (rest @ map (\<lambda>e. (tgt e, run_delay x)) (run_next x)) r')))"

definition mismatch_evaluation :: "anode \<Rightarrow> evaluation" where
  "mismatch_evaluation trigger =
     \<lparr>steps = [(blank_step trigger)\<lparr>st_status := StepSkipped,
        st_detail := ''event type does not match the trigger'',
        st_output := [(''reason_code'', Str ''trigger_mismatch'')]\<rparr>], planned = []\<rparr>"

definition trigger_types :: "agraph \<Rightarrow> string list" where
  "trigger_types g = (case trigger_event_types (trigger_node g) of Inl _ \<Rightarrow> [] | Inr ts \<Rightarrow> ts)"

text \<open>\<open>now\<close> is the clock, read when the base time is zero.\<close>

definition evaluate_automation_graph ::
  "(string list \<Rightarrow> string list) \<Rightarrow> agraph \<Rightarrow> activity_event option \<Rightarrow> acontact option \<Rightarrow> time \<Rightarrow> time
     \<Rightarrow> (string, evaluation) result option" where
  "evaluate_automation_graph order g event ct base_time now =
     (case validate_automation_graph order True g of
        None \<Rightarrow> None
      | Some v \<Rightarrow>
          if verrors v \<noteq> [] then Some (Inl ''automation graph is invalid'')
          else (case event of
              None \<Rightarrow> Some (Inr (mismatch_evaluation (trigger_node g)))
            | Some ev \<Rightarrow>
                if event_type ev \<notin> set (trigger_types g) then
                  Some (Inr (mismatch_evaluation (trigger_node g)))
                else eval_loop (length (anodes g)) g (edges_from g) ev ct
                       (if is_zero_time base_time then now else base_time)
                       [(nid (trigger_node g), 0)] \<lparr>steps = [], planned = []\<rparr>))"

end
