(* ===== verification/AutomationShape.thy ===== *)
theory AutomationShape
  imports AutomationEvaluate
begin

text \<open>
  The shape of a graph that validation accepts for activation: the abstract specification
  \<open>publishable\<close>, and the proof that a validation without errors establishes it.
\<close>

section \<open>Nodes\<close>

definition node_ok :: "anode \<Rightarrow> bool" where
  "node_ok n \<longleftrightarrow>
     nid n = trim_space (nid n) \<and> ntype n = to_lower (trim_space (ntype n))
     \<and> nid n \<noteq> [] \<and> length (nid n) \<le> max_node_id_length \<and> \<not> position_bad n
     \<and> ntype n \<in> {''trigger'', ''condition'', ''delay'', ''create_task''}
     \<and> (ntype n = ''trigger'' \<longrightarrow> (\<exists>ts. trigger_event_types n = Inr ts))
     \<and> (ntype n = ''condition'' \<longrightarrow> validate_condition_node n = None)
     \<and> (ntype n = ''delay'' \<longrightarrow> validate_delay_node n = None)
     \<and> (ntype n = ''create_task'' \<longrightarrow> snd (validate_create_task_node n) = None)"

definition kind_ids :: "string \<Rightarrow> anode list \<Rightarrow> string list" where
  "kind_ids k ns = map nid (filter (\<lambda>n. ntype n = k) ns)"

lemma add_error_fields [simp]:
  "known (add_error s c n m) = known s" "triggers (add_error s c n m) = triggers s"
  "actions (add_error s c n m) = actions s" "sevents (add_error s c n m) = sevents s"
  "serrors (add_error s c n m) = serrors s @ [node_issue c n m]"
  by (simp_all add: add_error_def)

lemma check_config_keys_fields [simp]:
  "known (check_config_keys s n k a) = known s" "triggers (check_config_keys s n k a) = triggers s"
  "actions (check_config_keys s n k a) = actions s" "sevents (check_config_keys s n k a) = sevents s"
  by (simp_all add: check_config_keys_def Let_def)

lemma check_config_keys_errors [simp]:
  "serrors (check_config_keys s n k a) = [] \<longleftrightarrow>
     serrors s = [] \<and> unknown_config_key (nconfig n) a = []"
  by (simp add: check_config_keys_def Let_def)

lemma add_issue_fields [simp]:
  "known (add_issue s n i) = known s" "triggers (add_issue s n i) = triggers s"
  "actions (add_issue s n i) = actions s" "sevents (add_issue s n i) = sevents s"
  "serrors (add_issue s n i) = [] \<longleftrightarrow> serrors s = [] \<and> i = None"
  by (simp_all add: add_issue_def split: option.split)

lemma scan_update_fields [simp]:
  "known (note_trigger s n) = known s" "triggers (note_trigger s n) = triggers s @ [nid n]"
  "actions (note_trigger s n) = actions s" "serrors (note_trigger s n) = serrors s"
  "known (count_action s) = known s" "triggers (count_action s) = triggers s"
  "actions (count_action s) = Suc (actions s)" "serrors (count_action s) = serrors s"
  "known (remember s n) = known s @ [n]" "triggers (remember s n) = triggers s"
  "actions (remember s n) = actions s" "serrors (remember s n) = serrors s"
  by (simp_all add: note_trigger_def count_action_def remember_def)

lemma note_owner_fields [simp]:
  "known (note_owner s u) = known s" "triggers (note_owner s u) = triggers s"
  "actions (note_owner s u) = actions s" "serrors (note_owner s u) = serrors s"
  by (simp_all add: note_owner_def split: option.split)

lemma warn_dynamic_fields [simp]:
  "known (warn_dynamic s n) = known s" "triggers (warn_dynamic s n) = triggers s"
  "actions (warn_dynamic s n) = actions s" "serrors (warn_dynamic s n) = serrors s"
  by (simp_all add: warn_dynamic_def)

lemma note_events_fields [simp]:
  "known (note_events s n) = known s" "triggers (note_events s n) = triggers s"
  "actions (note_events s n) = actions s"
  "serrors (note_events s n) = [] \<longleftrightarrow> serrors s = [] \<and> (\<exists>ts. trigger_event_types n = Inr ts)"
  by (simp_all add: note_events_def split: sum.split)

lemma check_position_fields [simp]:
  "known (check_position s n) = known s" "triggers (check_position s n) = triggers s"
  "actions (check_position s n) = actions s"
  "serrors (check_position s n) = [] \<longleftrightarrow> serrors s = [] \<and> \<not> position_bad n"
  by (simp_all add: check_position_def)

lemma scan_create_task_fields [simp]:
  "known (scan_create_task s n) = known s" "triggers (scan_create_task s n) = triggers s"
  "actions (scan_create_task s n) = Suc (actions s)"
  "serrors (scan_create_task s n) = [] \<longleftrightarrow>
     serrors s = [] \<and> unknown_config_key (nconfig n) task_config_keys = []
     \<and> snd (validate_create_task_node n) = None"
  by (simp_all add: scan_create_task_def split: prod.split)

lemma scan_trigger_fields [simp]:
  "known (scan_trigger s n) = known s" "triggers (scan_trigger s n) = triggers s @ [nid n]"
  "actions (scan_trigger s n) = actions s"
  "serrors (scan_trigger s n) = [] \<longleftrightarrow>
     serrors s = [] \<and> unknown_config_key (nconfig n) [''event_type'', ''event_types''] = []
     \<and> (\<exists>ts. trigger_event_types n = Inr ts)"
  by (simp_all add: scan_trigger_def)

lemma scan_content_fields:
  "known (scan_content s n) = known s"
  "triggers (scan_content s n) = triggers s @ kind_ids ''trigger'' [n]"
  "actions (scan_content s n) = actions s + length (kind_ids ''create_task'' [n])"
  by (simp_all add: scan_content_def kind_ids_def)

lemma scan_content_errors:
  assumes "serrors (scan_content s n) = []"
  shows "serrors s = []
     \<and> ntype n \<in> {''trigger'', ''condition'', ''delay'', ''create_task''}
     \<and> (ntype n = ''trigger'' \<longrightarrow> (\<exists>ts. trigger_event_types n = Inr ts))
     \<and> (ntype n = ''condition'' \<longrightarrow> validate_condition_node n = None)
     \<and> (ntype n = ''delay'' \<longrightarrow> validate_delay_node n = None)
     \<and> (ntype n = ''create_task'' \<longrightarrow> snd (validate_create_task_node n) = None)"
  using assms by (simp add: scan_content_def split: if_splits)

lemma scan_node_ok:
  assumes "serrors (scan_node s n) = []"
  shows "serrors s = []" and "node_ok n" and "nid n \<notin> set (map nid (known s))"
    and "known (scan_node s n) = known s @ [n]"
    and "triggers (scan_node s n) = triggers s @ kind_ids ''trigger'' [n]"
    and "actions (scan_node s n) = actions s + length (kind_ids ''create_task'' [n])"
proof -
  have canon: "nid n = trim_space (nid n)" "ntype n = to_lower (trim_space (ntype n))"
    "nid n \<noteq> []" "length (nid n) \<le> max_node_id_length" "nid n \<notin> set (map nid (known s))"
    using assms by (simp_all add: scan_node_def split: if_splits)
  then have eq: "scan_node s n = scan_content (remember (check_position s n) n) n"
    by (simp add: scan_node_def)
  from assms have "serrors (scan_content (remember (check_position s n) n) n) = []"
    unfolding eq .
  note content = scan_content_errors [OF this]
  with canon show "serrors s = []" "node_ok n" "nid n \<notin> set (map nid (known s))"
    unfolding node_ok_def by simp_all
  show "known (scan_node s n) = known s @ [n]"
    "triggers (scan_node s n) = triggers s @ kind_ids ''trigger'' [n]"
    "actions (scan_node s n) = actions s + length (kind_ids ''create_task'' [n])"
    unfolding eq scan_content_fields by simp_all
qed

lemma scan_nodes_ok:
  assumes "serrors (foldl scan_node s ns) = []" and "distinct (map nid (known s))"
  shows "serrors s = [] \<and> (\<forall>n\<in>set ns. node_ok n) \<and> distinct (map nid (known s @ ns))
    \<and> known (foldl scan_node s ns) = known s @ ns
    \<and> triggers (foldl scan_node s ns) = triggers s @ kind_ids ''trigger'' ns
    \<and> actions (foldl scan_node s ns) = actions s + length (kind_ids ''create_task'' ns)"
  using assms
proof (induction ns rule: rev_induct)
  case Nil
  then show ?case by (simp add: kind_ids_def)
next
  case (snoc n ns)
  from snoc.prems have "serrors (scan_node (foldl scan_node s ns) n) = []" by simp
  note step = scan_node_ok [OF this]
  from snoc.IH [OF step(1)] snoc.prems(2) step show ?case
    by (auto simp: kind_ids_def)
qed

lemma scan_all_nodes_ok:
  assumes "serrors (foldl scan_node empty_scan ns) = []"
  shows "(\<forall>n\<in>set ns. node_ok n)" and "distinct (map nid ns)"
    and "known (foldl scan_node empty_scan ns) = ns"
    and "triggers (foldl scan_node empty_scan ns) = kind_ids ''trigger'' ns"
    and "actions (foldl scan_node empty_scan ns) = length (kind_ids ''create_task'' ns)"
  using scan_nodes_ok [OF assms] by (simp_all add: empty_scan_def)

section \<open>Edges\<close>

definition edge_ok :: "anode list \<Rightarrow> aedge \<Rightarrow> bool" where
  "edge_ok ns e \<longleftrightarrow>
     src e = trim_space (src e) \<and> tgt e = trim_space (tgt e)
     \<and> branch e = to_lower (trim_space (branch e)) \<and> src e \<noteq> tgt e
     \<and> tgt e \<in> nid ` set ns
     \<and> (\<exists>s. lookup_node ns (src e) = Some s
          \<and> (if ntype s = ''condition'' then branch e \<in> {''true'', ''false''}
             else branch e \<in> {[], ''always''}))"

lemma lookup_node_SomeD: "lookup_node ns i = Some n \<Longrightarrow> n \<in> set ns \<and> nid n = i"
  unfolding lookup_node_def by (drule find_Some_mem) simp

lemma lookup_node_defined: "i \<in> nid ` set ns \<Longrightarrow> \<exists>n. lookup_node ns i = Some n"
  unfolding lookup_node_def by (metis (mono_tags, lifting) find_None_iff_all image_iff not_Some_eq)

lemma lookup_node_distinct:
  "distinct (map nid ns) \<Longrightarrow> n \<in> set ns \<Longrightarrow> lookup_node ns (nid n) = Some n"
  unfolding lookup_node_def by (induction ns) auto

lemma add_edge_error_fields [simp]:
  "accepted (add_edge_error s c k m) = accepted s"
  "eerrors (add_edge_error s c k m) = eerrors s @ [edge_issue c k m]"
  by (simp_all add: add_edge_error_def)

lemma branch_check_fields [simp]:
  "accepted (branch_check n e k s) = accepted s"
  "eerrors (branch_check n e k s) = [] \<longleftrightarrow> eerrors s = []
     \<and> (if ntype n = ''condition'' then branch e \<in> {''true'', ''false''}
        else branch e \<in> {[], ''always''})"
  by (auto simp: branch_check_def)

lemma accept_edge_fields [simp]:
  "accepted (accept_edge s e) = accepted s @ [e]" "eerrors (accept_edge s e) = eerrors s"
  by (simp_all add: accept_edge_def)

lemma canonical_edge_fields:
  "e = canonical_edge e \<Longrightarrow>
     src e = trim_space (src e) \<and> tgt e = trim_space (tgt e) \<and> branch e = to_lower (trim_space (branch e))"
  by (cases e) (simp add: canonical_edge_def)

lemma scan_edge_ok:
  assumes "eerrors (scan_edge ns k e s) = []"
  shows "eerrors s = [] \<and> edge_ok ns e \<and> accepted (scan_edge ns k e s) = accepted s @ [e]"
proof -
  have canon: "e = canonical_edge e"
    using assms by (simp add: scan_edge_def split: if_splits)
  obtain n m where look: "lookup_node ns (src e) = Some n" "lookup_node ns (tgt e) = Some m"
    using assms canon by (auto simp: scan_edge_def split: option.splits if_splits)
  have diff: "src e \<noteq> tgt e" and eq: "scan_edge ns k e s = accept_edge (branch_check n e k s) e"
    using assms canon look by (auto simp: scan_edge_def split: if_splits)
  have "tgt e \<in> nid ` set ns" using lookup_node_SomeD [OF look(2)] by (metis image_eqI)
  then show ?thesis
    using assms diff look canonical_edge_fields [OF canon] unfolding eq edge_ok_def
    by (simp split: if_splits)
qed

lemma scan_edges_ok:
  assumes "eerrors (scan_edges ns k es s) = []"
  shows "eerrors s = [] \<and> (\<forall>e\<in>set es. edge_ok ns e) \<and> accepted (scan_edges ns k es s) = accepted s @ es"
  using assms
proof (induction ns k es s rule: scan_edges.induct)
  case (2 ns k e es s)
  then show ?case using scan_edge_ok [of ns k e s] by auto
qed simp

section \<open>Publishable graphs\<close>

text \<open>
  The specification: one trigger without incoming edges, every other node with exactly one incoming
  edge, the out-degrees of the node types, and at least one task.
\<close>

definition trigger_id :: "agraph \<Rightarrow> string" where
  "trigger_id g = hd (kind_ids ''trigger'' (anodes g))"

definition publishable :: "agraph \<Rightarrow> bool" where
  "publishable g \<longleftrightarrow>
     (\<forall>n\<in>set (anodes g). node_ok n) \<and> distinct (map nid (anodes g))
     \<and> (\<forall>e\<in>set (aedges g). edge_ok (anodes g) e)
     \<and> length (anodes g) \<le> max_nodes \<and> length (aedges g) \<le> max_edges
     \<and> kind_ids ''trigger'' (anodes g) = [trigger_id g]
     \<and> kind_ids ''create_task'' (anodes g) \<noteq> []
     \<and> length (kind_ids ''create_task'' (anodes g)) \<le> max_action_nodes
     \<and> (\<forall>n\<in>set (anodes g). degree_issues True (aedges g) n = [])"

definition valid_graph :: "(string list \<Rightarrow> string list) \<Rightarrow> agraph \<Rightarrow> bool" where
  "valid_graph order g \<longleftrightarrow> (\<exists>v. validate_automation_graph order True g = Some v \<and> verrors v = [])"

text \<open>Iterating over a map visits every key.\<close>

definition visits_all :: "(string list \<Rightarrow> string list) \<Rightarrow> bool" where
  "visits_all order \<longleftrightarrow> (\<forall>ks. set (order ks) = set ks)"

lemma validate_no_errors:
  assumes "validate_automation_graph order True g = Some v" and "verrors v = []"
    and "visits_all order"
  shows "publishable g"
    and "\<exists>vis dl. walk (Suc (length (anodes g))) (aedges g) [] (trigger_id g) ([], []) = Some (vis, [])
          \<and> set (map nid (anodes g)) \<subseteq> set vis
          \<and> delay_loop (length (anodes g)) (anodes g) (aedges g)
              (delay_start (anodes g) (aedges g) (trigger_id g)) = Some dl \<and> derrors dl = []"
proof -
  let ?s = "foldl scan_node empty_scan (anodes g)"
  let ?es = "scan_edges (known ?s) 0 (aedges g) \<lparr>accepted = [], eerrors = []\<rparr>"
  have parts: "size_issues True g = []" "serrors ?s = []" "count_issues True ?s = []"
    "eerrors ?es = []"
    and deg: "concat (map (\<lambda>v. case v of None \<Rightarrow> [] | Some n \<Rightarrow> degree_issues True (accepted ?es) n)
      (map (lookup_node (known ?s)) (order (map nid (known ?s))))) = []"
    and struct: "(if length (triggers ?s) = 1 then reach_issues (known ?s) (accepted ?es) (hd (triggers ?s))
        else Some []) = Some []"
    using assms(1,2) by (auto simp: validate_automation_graph_def Let_def)
  note nodes = scan_all_nodes_ok [OF parts(2)]
  have es: "\<forall>e\<in>set (aedges g). edge_ok (anodes g) e" "accepted ?es = aedges g"
    using scan_edges_ok [OF parts(4)] nodes(3) by simp_all
  have one: "length (kind_ids ''trigger'' (anodes g)) = 1"
    and act: "kind_ids ''create_task'' (anodes g) \<noteq> []"
      "length (kind_ids ''create_task'' (anodes g)) \<le> max_action_nodes"
    using parts(3) nodes by (auto simp: count_issues_def split: if_splits)
  have trig: "kind_ids ''trigger'' (anodes g) = [trigger_id g]"
    using one by (auto simp: trigger_id_def length_Suc_conv)
  have "degree_issues True (aedges g) n = []" if n: "n \<in> set (anodes g)" for n
  proof -
    have "nid n \<in> set (order (map nid (anodes g)))"
      using n assms(3) by (auto simp: visits_all_def)
    with deg es nodes n show ?thesis
      using lookup_node_distinct [OF nodes(2) n] by fastforce
  qed
  with nodes es trig act parts(1) show "publishable g"
    by (auto simp: publishable_def size_issues_def split: if_splits)
  show "\<exists>vis dl. walk (Suc (length (anodes g))) (aedges g) [] (trigger_id g) ([], []) = Some (vis, [])
          \<and> set (map nid (anodes g)) \<subseteq> set vis
          \<and> delay_loop (length (anodes g)) (anodes g) (aedges g)
              (delay_start (anodes g) (aedges g) (trigger_id g)) = Some dl \<and> derrors dl = []"
    using struct nodes es trig
    by (auto simp: reach_issues_def filter_empty_conv split: option.splits)
qed


section \<open>Degrees\<close>

lemma degree_issues_Nil:
  assumes "degree_issues True es n = []"
  shows "ntype n = ''trigger'' \<Longrightarrow> incoming es (nid n) = 0"
    and "ntype n \<noteq> ''trigger'' \<Longrightarrow> incoming es (nid n) = 1"
    and "ntype n = ''trigger'' \<or> ntype n = ''delay'' \<Longrightarrow> length (outgoing es (nid n)) = 1"
    and "ntype n = ''create_task'' \<Longrightarrow> outgoing es (nid n) = []"
    and "ntype n = ''condition'' \<Longrightarrow> outgoing es (nid n) \<noteq> [] \<and> length (outgoing es (nid n)) \<le> 2"
  using assms by (simp_all add: degree_issues_def Let_def split: if_splits)

lemma kind_ids_iff: "i \<in> set (kind_ids k ns) \<longleftrightarrow> (\<exists>n\<in>set ns. ntype n = k \<and> nid n = i)"
  by (auto simp: kind_ids_def)

lemma publishable_trigger:
  assumes "publishable g"
  shows "\<exists>n\<in>set (anodes g). ntype n = ''trigger'' \<and> nid n = trigger_id g"
    and "n \<in> set (anodes g) \<Longrightarrow> ntype n = ''trigger'' \<Longrightarrow> nid n = trigger_id g"
proof -
  have one: "kind_ids ''trigger'' (anodes g) = [trigger_id g]"
    using assms by (simp add: publishable_def)
  have "trigger_id g \<in> set (kind_ids ''trigger'' (anodes g))" unfolding one by simp
  then show "\<exists>n\<in>set (anodes g). ntype n = ''trigger'' \<and> nid n = trigger_id g"
    unfolding kind_ids_iff .
  assume "n \<in> set (anodes g)" "ntype n = ''trigger''"
  then have "nid n \<in> set (kind_ids ''trigger'' (anodes g))" unfolding kind_ids_iff by blast
  then show "nid n = trigger_id g" unfolding one by simp
qed

lemma publishable_incoming:
  assumes "publishable g"
  shows "incoming (aedges g) (trigger_id g) = 0"
    and "i \<in> nid ` set (anodes g) \<Longrightarrow> i \<noteq> trigger_id g \<Longrightarrow> incoming (aedges g) i = 1"
proof -
  have deg: "degree_issues True (aedges g) n = []" if "n \<in> set (anodes g)" for n
    using assms that by (simp add: publishable_def)
  show "incoming (aedges g) (trigger_id g) = 0"
    using publishable_trigger(1) [OF assms] deg degree_issues_Nil(1) by metis
  assume "i \<in> nid ` set (anodes g)" and "i \<noteq> trigger_id g"
  then obtain n where "n \<in> set (anodes g)" "nid n = i" "ntype n \<noteq> ''trigger''"
    using publishable_trigger(2) [OF assms] by blast
  then show "incoming (aedges g) i = 1" using deg degree_issues_Nil(2) by metis
qed

lemma publishable_edge:
  assumes "publishable g" and "e \<in> set (aedges g)"
  shows "tgt e \<in> nid ` set (anodes g)" and "incoming (aedges g) (tgt e) = 1"
    and "tgt e \<noteq> trigger_id g"
proof -
  show t: "tgt e \<in> nid ` set (anodes g)"
    using assms by (simp add: publishable_def edge_ok_def)
  have "e \<in> set (filter (\<lambda>x. tgt x = tgt e) (aedges g))" using assms(2) by simp
  then have pos: "incoming (aedges g) (tgt e) \<noteq> 0"
    unfolding incoming_def by (metis length_0_conv list.set(1) empty_iff)
  then show "tgt e \<noteq> trigger_id g" using publishable_incoming(1) [OF assms(1)] by metis
  then show "incoming (aedges g) (tgt e) = 1" using publishable_incoming(2) [OF assms(1) t] by simp
qed

end
