(* ===== verification/RootedGraphs.thy ===== *)
theory RootedGraphs
  imports Prelude
begin

text \<open>
  The interface of a graph that a queue traverses from its root: every node but the root has exactly
  one parent. A client that takes a node from the front of the queue and appends some of its
  successors never queues a node twice, so it takes at most as many turns as there are nodes. The
  nodes carry weights; \<open>arrives\<close> relates a node to the accumulated weight on the way to it.
\<close>

locale rooted_graphs =
  fixes ok :: "'g \<Rightarrow> bool"
    and nodes_of :: "'g \<Rightarrow> 'n list"
    and start :: "'g \<Rightarrow> 'n"
    and succs :: "'g \<Rightarrow> 'n \<Rightarrow> 'n list"
  assumes start_in: "ok g \<Longrightarrow> start g \<in> set (nodes_of g)"
    and distinct_nodes: "ok g \<Longrightarrow> distinct (nodes_of g)"
    and succs_in: "ok g \<Longrightarrow> y \<in> set (succs g x) \<Longrightarrow> y \<in> set (nodes_of g)"
    and start_no_parent: "ok g \<Longrightarrow> start g \<notin> set (succs g x)"
    and distinct_succs: "ok g \<Longrightarrow> distinct (succs g x)"
    and one_parent: "ok g \<Longrightarrow> y \<in> set (succs g x) \<Longrightarrow> y \<in> set (succs g x') \<Longrightarrow> x = x'"
begin

text \<open>What a traversal maintains of the nodes it has taken and those that wait.\<close>

definition frontier :: "'g \<Rightarrow> 'n list \<Rightarrow> 'n list \<Rightarrow> bool" where
  "frontier g taken queue \<longleftrightarrow>
     distinct (taken @ queue) \<and> set (taken @ queue) \<subseteq> set (nodes_of g)
     \<and> (\<forall>y\<in>set (taken @ queue). y = start g \<or> (\<exists>x\<in>set taken. y \<in> set (succs g x)))"

lemma frontier_start: "ok g \<Longrightarrow> frontier g [] [start g]"
  by (simp add: frontier_def start_in)

lemma frontier_step:
  assumes "ok g" and f: "frontier g taken (x # queue)"
    and sub: "set ys \<subseteq> set (succs g x)" and dist: "distinct ys"
  shows "frontier g (taken @ [x]) (queue @ ys)"
proof -
  have x: "x \<notin> set taken" using f by (auto simp: frontier_def)
  have new: "y \<notin> set (taken @ x # queue)" if "y \<in> set ys" for y
  proof
    assume "y \<in> set (taken @ x # queue)"
    moreover from that sub have y: "y \<in> set (succs g x)" by blast
    ultimately have "y = start g \<or> (\<exists>x'\<in>set taken. y \<in> set (succs g x'))"
      using f by (auto simp: frontier_def)
    then show False
      using y x one_parent [OF \<open>ok g\<close>] start_no_parent [OF \<open>ok g\<close>] by blast
  qed
  have "set ys \<subseteq> set (nodes_of g)" using sub succs_in [OF \<open>ok g\<close>] by blast
  then show ?thesis using f dist new sub by (auto simp: frontier_def)
qed

lemma frontier_bound:
  assumes "frontier g taken queue"
  shows "length taken + length queue \<le> length (nodes_of g)"
proof -
  have "card (set (taken @ queue)) \<le> card (set (nodes_of g))"
    using assms by (simp add: frontier_def card_mono)
  also have "\<dots> \<le> length (nodes_of g)" by (rule card_length)
  also have "card (set (taken @ queue)) = length (taken @ queue)"
    using assms by (simp only: frontier_def distinct_card)
  finally show ?thesis by simp
qed

lemma frontier_distinct: "frontier g taken queue \<Longrightarrow> distinct taken"
  by (simp add: frontier_def)

text \<open>The accumulated weight at a node, before its own weight is added.\<close>

inductive arrives :: "'g \<Rightarrow> ('n \<Rightarrow> int) \<Rightarrow> 'n \<Rightarrow> int \<Rightarrow> bool" for g w where
  at_start: "arrives g w (start g) 0"
| at_succ: "arrives g w x d \<Longrightarrow> y \<in> set (succs g x) \<Longrightarrow> arrives g w y (d + w x)"

lemma arrives_unique:
  assumes "ok g" and "arrives g w x d" and "arrives g w x d'"
  shows "d = d'"
  using assms(2,3)
proof (induction arbitrary: d' rule: arrives.induct)
  case at_start
  from at_start show ?case
    by (cases rule: arrives.cases) (use start_no_parent [OF assms(1)] in auto)
next
  case (at_succ x d y)
  from at_succ.prems show ?case
  proof (cases rule: arrives.cases)
    case at_start
    with at_succ.hyps start_no_parent [OF assms(1)] show ?thesis by blast
  next
    case (at_succ x' d'')
    with \<open>y \<in> set (succs g x)\<close> have "x' = x" using one_parent [OF assms(1)] by blast
    with at_succ \<open>\<And>d'. arrives g w x d' \<Longrightarrow> d = d'\<close> show ?thesis by blast
  qed
qed

end

end
