(* ===== verification/AutomationRun.thy ===== *)
theory AutomationRun
  imports AutomationShape RootedGraphs
begin

text \<open>
  A publishable graph is a rooted graph in the sense of \<open>rooted_graphs\<close>; from the interpretation
  follow the bounds of both queues, the one of the longest-delay computation and the one of the
  evaluation.
\<close>

section \<open>Publishable graphs are rooted\<close>

definition target_ids :: "agraph \<Rightarrow> string \<Rightarrow> string list" where
  "target_ids g i = map tgt (outgoing (aedges g) i)"

lemma target_ids_iff: "y \<in> set (target_ids g x) \<longleftrightarrow> (\<exists>e\<in>set (aedges g). src e = x \<and> tgt e = y)"
  by (auto simp: target_ids_def outgoing_def)

lemma single_filter:
  assumes "length (filter P xs) = 1" and "x \<in> set xs" "P x" "y \<in> set xs" "P y"
  shows "x = y"
proof -
  from assms(1) obtain z where z: "filter P xs = [z]"
    by (metis One_nat_def length_0_conv length_Suc_conv)
  have "x \<in> set (filter P xs)" "y \<in> set (filter P xs)" using assms by simp_all
  then show ?thesis unfolding z by simp
qed

lemma distinct_map_filter_single:
  assumes "\<And>e. e \<in> set xs \<Longrightarrow> P e \<Longrightarrow> length (filter (\<lambda>x. f x = f e) xs) \<le> 1"
  shows "distinct (map f (filter P xs))"
  using assms
proof (induction xs)
  case (Cons x xs)
  have "length (filter (\<lambda>y. f y = f e) xs) \<le> 1" if "e \<in> set xs" "P e" for e
    using Cons.prems [of e] that by (simp split: if_splits)
  then have "distinct (map f (filter P xs))" by (rule Cons.IH)
  moreover have "f x \<notin> f ` set (filter P xs)" if "P x"
  proof
    assume "f x \<in> f ` set (filter P xs)"
    then have "filter (\<lambda>y. f y = f x) xs \<noteq> []" by (auto simp: filter_empty_conv)
    with Cons.prems [of x] that show False by simp
  qed
  ultimately show ?case by auto
qed simp

lemma publishable_one_parent:
  assumes "publishable g" and "y \<in> set (target_ids g x)" and "y \<in> set (target_ids g x')"
  shows "x = x'"
proof -
  from assms obtain e e' where e: "e \<in> set (aedges g)" "src e = x" "tgt e = y"
    "e' \<in> set (aedges g)" "src e' = x'" "tgt e' = y"
    unfolding target_ids_iff by blast
  from publishable_edge(2) [OF assms(1) e(1)] e(3)
  have "length (filter (\<lambda>x. tgt x = y) (aedges g)) = 1" by (simp add: incoming_def)
  then have "e = e'" by (rule single_filter) (use e in simp_all)
  with e show ?thesis by simp
qed

lemma publishable_distinct_targets:
  assumes "publishable g"
  shows "distinct (target_ids g x)"
  unfolding target_ids_def outgoing_def
  by (rule distinct_map_filter_single)
    (use publishable_edge(2) [OF assms] in \<open>simp add: incoming_def le_Suc_eq\<close>)

lemma publishable_trigger_in: "publishable g \<Longrightarrow> trigger_id g \<in> nid ` set (anodes g)"
  using publishable_trigger(1) by (metis image_eqI)

interpretation ag: rooted_graphs publishable "\<lambda>g. map nid (anodes g)" trigger_id target_ids
proof
  fix g :: agraph and x x' y :: string
  assume g: "publishable g"
  show "trigger_id g \<in> set (map nid (anodes g))" using publishable_trigger_in [OF g] by simp
  show "distinct (map nid (anodes g))" using g by (simp add: publishable_def)
  show "trigger_id g \<notin> set (target_ids g x)"
    unfolding target_ids_iff using publishable_edge(3) [OF g] by blast
  show "distinct (target_ids g x)" by (rule publishable_distinct_targets [OF g])
  assume y: "y \<in> set (target_ids g x)"
  then show "y \<in> set (map nid (anodes g))"
    unfolding target_ids_iff using publishable_edge(1) [OF g] by auto
  assume "y \<in> set (target_ids g x')"
  with g y show "x = x'" by (rule publishable_one_parent)
qed

section \<open>The longest-delay computation\<close>

definition weight :: "agraph \<Rightarrow> string \<Rightarrow> int" where
  "weight g i = (case node_delay (anodes g) i of None \<Rightarrow> 0 | Some m \<Rightarrow> m)"

lemma node_delay_range:
  assumes "publishable g" and "node_delay (anodes g) i = Some m"
  shows "0 \<le> m \<and> m \<le> max_delay_minutes"
proof -
  from assms(2) obtain n where n: "lookup_node (anodes g) i = Some n" "ntype n = ''delay''"
    "config_int (nconfig n) ''minutes'' = Some m"
    by (auto simp: node_delay_def split: option.splits if_splits)
  then have "node_ok n" using assms(1) lookup_node_SomeD by (metis publishable_def)
  with n show ?thesis by (auto simp: node_ok_def validate_delay_node_None)
qed

lemma weight_nonneg: "publishable g \<Longrightarrow> 0 \<le> weight g i"
  using node_delay_range by (auto simp: weight_def split: option.split)

lemma arrives_nonneg: "publishable g \<Longrightarrow> ag.arrives g (weight g) i d \<Longrightarrow> 0 \<le> d"
  by (erule ag.arrives.induct) (use weight_nonneg in \<open>auto intro: add_nonneg_nonneg\<close>)

lemma relax_fresh:
  assumes "distinct (map tgt es)" and "0 \<le> c"
    and "\<And>e. e \<in> set es \<Longrightarrow> best s (tgt e) = 0 \<and> remaining s (tgt e) = 1"
  shows "relax True c es s = s\<lparr>reached := (\<lambda>i. i \<in> tgt ` set es \<or> reached s i),
    best := (\<lambda>i. if i \<in> tgt ` set es then c else best s i),
    remaining := (\<lambda>i. if i \<in> tgt ` set es then 0 else remaining s i),
    dqueue := dqueue s @ map tgt es\<rparr>"
  using assms
proof (induction es arbitrary: s)
  case Nil
  then show ?case by simp
next
  case (Cons e es)
  let ?s = "s\<lparr>reached := (reached s)(tgt e := True), best := (best s)(tgt e := c),
    remaining := (remaining s)(tgt e := 0), dqueue := dqueue s @ [tgt e]\<rparr>"
  from Cons.prems have be: "best s (tgt e) = 0" "remaining s (tgt e) = 1" by simp_all
  then have "(if c > best s (tgt e) then (best s)(tgt e := c) else best s) = (best s)(tgt e := c)"
    using Cons.prems(2) by auto
  then have "relax True c (e # es) s = relax True c es ?s"
    using be by (simp add: Let_def)
  also have "\<dots> = ?s\<lparr>reached := (\<lambda>i. i \<in> tgt ` set es \<or> reached ?s i),
    best := (\<lambda>i. if i \<in> tgt ` set es then c else best ?s i),
    remaining := (\<lambda>i. if i \<in> tgt ` set es then 0 else remaining ?s i),
    dqueue := dqueue ?s @ map tgt es\<rparr>"
    by (rule Cons.IH) (use Cons.prems in \<open>auto simp: image_iff\<close>)
  finally show ?case by (simp add: fun_eq_iff)
qed

text \<open>What the loop maintains: the queued nodes are known with their exact delay, the others untouched.\<close>

definition delay_inv :: "agraph \<Rightarrow> string list \<Rightarrow> delay_state \<Rightarrow> bool" where
  "delay_inv g taken s \<longleftrightarrow>
     ag.frontier g taken (dqueue s) \<and> trigger_id g \<in> set (taken @ dqueue s)
     \<and> (\<forall>x\<in>set taken. set (target_ids g x) \<subseteq> set (taken @ dqueue s))
     \<and> (\<forall>y\<in>set (taken @ dqueue s). reached s y \<and> ag.arrives g (weight g) y (best s y))
     \<and> (\<forall>y\<in>nid ` set (anodes g) - set (taken @ dqueue s). best s y = 0 \<and> remaining s y = 1)
     \<and> (\<forall>x\<in>set taken. \<forall>m. derrors s = [] \<longrightarrow> node_delay (anodes g) x = Some m
          \<longrightarrow> best s x + m \<le> max_delay_minutes)"

lemma filter_eq_single:
  assumes "distinct xs" and "a \<in> set xs"
  shows "filter (\<lambda>i. i = a) xs = [a]"
  using assms
proof (induction xs)
  case (Cons x xs)
  have "a \<notin> set xs \<Longrightarrow> filter (\<lambda>i. i = a) xs = []" by (auto simp: filter_empty_conv)
  with Cons show ?case by auto
qed simp

lemma delay_start_inv:
  assumes g: "publishable g"
  shows "delay_inv g [] (delay_start (anodes g) (aedges g) (trigger_id g))"
proof -
  have "filter (\<lambda>i. incoming (aedges g) i = 0) (map nid (anodes g)) = filter (\<lambda>i. i = trigger_id g) (map nid (anodes g))"
    using publishable_incoming [OF g] by (intro filter_cong) force+
  also have "\<dots> = [trigger_id g]"
    by (rule filter_eq_single [OF ag.distinct_nodes [OF g] ag.start_in [OF g]])
  finally have q: "dqueue (delay_start (anodes g) (aedges g) (trigger_id g)) = [trigger_id g]"
    by (simp add: delay_start_def)
  show ?thesis
    using ag.frontier_start [OF g] publishable_incoming [OF g]
    unfolding delay_inv_def q
    by (auto simp: delay_start_def intro: ag.arrives.intros)
qed


lemma delay_turn_eq:
  assumes g: "publishable g" and inv: "delay_inv g taken s" and q: "dqueue s = i # q"
    and c: "c = best s i + weight g i"
    and errs: "errs = (if node_delay (anodes g) i \<noteq> None \<and> c > max_delay_minutes then
                 [node_issue ''cumulative_delay_exceeded'' i msg_cumulative_delay_on_every_path] else [])"
  shows "delay_turn (anodes g) (aedges g) i (s\<lparr>dqueue := q\<rparr>) = s\<lparr>
      reached := (\<lambda>y. y \<in> set (target_ids g i) \<or> reached s y),
      best := (\<lambda>y. if y \<in> set (target_ids g i) then c else best s y),
      remaining := (\<lambda>y. if y \<in> set (target_ids g i) then 0 else remaining s y),
      dqueue := q @ target_ids g i, derrors := derrors s @ errs\<rparr>"
proof -
  let ?s = "s\<lparr>dqueue := q, derrors := derrors s @ errs\<rparr>"
  have i: "reached s i" "ag.arrives g (weight g) i (best s i)"
    and f: "ag.frontier g taken (i # q)"
    using inv unfolding delay_inv_def q by simp_all
  have pos: "0 \<le> c" using arrives_nonneg [OF g i(2)] weight_nonneg [OF g, of i] c by simp
  have fresh: "y \<notin> set (taken @ dqueue s)" if y: "y \<in> set (target_ids g i)" for y
  proof -
    have "ag.frontier g (taken @ [i]) (q @ [y])"
      by (rule ag.frontier_step [OF g f]) (use y in simp_all)
    then show ?thesis by (auto simp: ag.frontier_def q)
  qed
  have "delay_turn (anodes g) (aedges g) i (s\<lparr>dqueue := q\<rparr>) = relax True c (outgoing (aedges g) i) ?s"
    using i c errs by (auto simp: delay_turn_def weight_def split: option.split)
  also have "\<dots> = ?s\<lparr>reached := (\<lambda>y. y \<in> tgt ` set (outgoing (aedges g) i) \<or> reached ?s y),
    best := (\<lambda>y. if y \<in> tgt ` set (outgoing (aedges g) i) then c else best ?s y),
    remaining := (\<lambda>y. if y \<in> tgt ` set (outgoing (aedges g) i) then 0 else remaining ?s y),
    dqueue := dqueue ?s @ map tgt (outgoing (aedges g) i)\<rparr>"
  proof (rule relax_fresh [OF _ pos])
    show "distinct (map tgt (outgoing (aedges g) i))"
      using publishable_distinct_targets [OF g, of i] by (simp add: target_ids_def)
    fix e assume "e \<in> set (outgoing (aedges g) i)"
    then have y: "tgt e \<in> set (target_ids g i)" by (simp add: target_ids_def)
    have "tgt e \<in> nid ` set (anodes g)" using ag.succs_in [OF g y] by simp
    with fresh [OF y] inv show "best ?s (tgt e) = 0 \<and> remaining ?s (tgt e) = 1"
      by (simp add: delay_inv_def)
  qed
  finally show ?thesis by (simp add: target_ids_def cong: if_cong)
qed

lemma delay_turn_inv:
  assumes g: "publishable g" and inv: "delay_inv g taken s" and q: "dqueue s = i # q"
  shows "delay_inv g (taken @ [i]) (delay_turn (anodes g) (aedges g) i (s\<lparr>dqueue := q\<rparr>))"
proof -
  note turn = delay_turn_eq [OF g inv q refl refl]
  have i: "reached s i" "ag.arrives g (weight g) i (best s i)"
    and f: "ag.frontier g taken (i # q)"
    using inv unfolding delay_inv_def q by simp_all
  have f': "ag.frontier g (taken @ [i]) (q @ target_ids g i)"
    by (rule ag.frontier_step [OF g f]) (use publishable_distinct_targets [OF g] in simp_all)
  have step: "ag.arrives g (weight g) y (best s i + weight g i)" if "y \<in> set (target_ids g i)" for y
    by (rule ag.arrives.at_succ [OF i(2) that])
  have old: "y \<notin> set (target_ids g i)" if "y \<in> set (taken @ i # q)" for y
    using f' that by (auto simp: ag.frontier_def)
  have cum: "best s x + m \<le> max_delay_minutes"
    if "x \<in> set (taken @ [i])" "node_delay (anodes g) x = Some m"
      "derrors (delay_turn (anodes g) (aedges g) i (s\<lparr>dqueue := q\<rparr>)) = []" for x m
    using that inv unfolding turn delay_inv_def
    by (auto simp: weight_def split: if_splits)
  show ?thesis
    unfolding delay_inv_def
  proof (intro conjI ballI allI impI)
    show "ag.frontier g (taken @ [i]) (dqueue (delay_turn (anodes g) (aedges g) i (s\<lparr>dqueue := q\<rparr>)))"
      unfolding turn using f' by simp
    fix x m
    assume x: "x \<in> set (taken @ [i])" "node_delay (anodes g) x = Some m"
      and "derrors (delay_turn (anodes g) (aedges g) i (s\<lparr>dqueue := q\<rparr>)) = []"
    moreover have "best (delay_turn (anodes g) (aedges g) i (s\<lparr>dqueue := q\<rparr>)) x = best s x"
      unfolding turn using old [of x] x(1) by auto
    ultimately show "best (delay_turn (anodes g) (aedges g) i (s\<lparr>dqueue := q\<rparr>)) x + m \<le> max_delay_minutes"
      using cum by simp
  qed (use inv i step old in \<open>auto simp: delay_inv_def turn q\<close>)
qed

lemma delay_loop_inv:
  assumes g: "publishable g" and "delay_loop k (anodes g) (aedges g) s = Some s'"
    and "delay_inv g taken s"
  shows "\<exists>taken'. delay_inv g taken' s' \<and> dqueue s' = []"
  using assms(2,3)
proof (induction k arbitrary: s taken)
  case 0
  then show ?case by (auto split: if_splits)
next
  case (Suc k)
  show ?case
  proof (cases "dqueue s")
    case Nil
    with Suc.prems show ?thesis by auto
  next
    case (Cons i q)
    with Suc.prems(1) have "delay_loop k (anodes g) (aedges g)
        (delay_turn (anodes g) (aedges g) i (s\<lparr>dqueue := q\<rparr>)) = Some s'" by simp
    then show ?thesis using delay_turn_inv [OF g Suc.prems(2) Cons] by (rule Suc.IH)
  qed
qed

text \<open>A computation without errors has met every path: no accumulated delay exceeds the maximum.\<close>

lemma delay_loop_sound:
  assumes g: "publishable g"
    and run: "delay_loop k (anodes g) (aedges g) (delay_start (anodes g) (aedges g) (trigger_id g)) = Some dl"
    and clean: "derrors dl = []"
    and at: "ag.arrives g (weight g) i d"
  shows "node_delay (anodes g) i = Some m \<Longrightarrow> d + m \<le> max_delay_minutes"
proof -
  obtain taken where inv: "delay_inv g taken dl" "dqueue dl = []"
    using delay_loop_inv [OF g run delay_start_inv [OF g]] by blast
  from at have "i \<in> set taken \<and> d = best dl i"
  proof (induction rule: ag.arrives.induct)
    case at_start
    then show ?case
      using inv ag.arrives_unique [OF g _ ag.arrives.at_start] by (auto simp: delay_inv_def)
  next
    case (at_succ x d y)
    then have y: "y \<in> set taken" using inv by (auto simp: delay_inv_def)
    moreover have "ag.arrives g (weight g) y (d + weight g x)"
      using at_succ by (auto intro: ag.arrives.at_succ)
    moreover have "ag.arrives g (weight g) y (best dl y)" using y inv by (simp add: delay_inv_def)
    ultimately show ?case using ag.arrives_unique [OF g] by blast
  qed
  then show "node_delay (anodes g) i = Some m \<Longrightarrow> d + m \<le> max_delay_minutes"
    using inv clean by (auto simp: delay_inv_def)
qed

end
