(* ===== verification/AutomationText.thy ===== *)
theory AutomationText
  imports AutomationEvaluate
begin

text \<open>
  The text of a planned task: trimming keeps well-formed UTF-8, a rendered title is never empty, a
  truncated text has at most as many runes as asked for.
\<close>

section \<open>Runes\<close>

lemma cont_prefix: "i < w \<Longrightarrow> w \<le> length s \<Longrightarrow> cont lo hi (take w s @ t) i \<longleftrightarrow> cont lo hi s i"
  by (auto simp: cont_def nth_append)

lemma rune_width_prefix:
  assumes "rune_width s = w" and "0 < w" and "s \<noteq> []"
  shows "rune_width (take w s @ t) = w"
proof -
  have le: "w \<le> length s" using rune_width_le assms by blast
  have hd: "hd (take w s @ t) = hd s" using assms(2,3) by (cases s; cases w) simp_all
  note same = cont_prefix [OF _ le, of _ _ _ t]
  obtain lo hi where l: "rune_lead (code (hd s)) = (w, lo, hi)"
    using assms(1,2) by (auto simp: rune_width_def split: prod.splits if_splits)
  with assms(1,2) show ?thesis
    using same [of 1] same [of 2] same [of 3] by (auto simp: rune_width_def hd split: if_splits)
qed

lemma rune_width_cont:
  assumes "rune_width s = w" and "0 < i" "i < w"
  shows "0x80 \<le> code (s ! i) \<and> code (s ! i) \<le> 0xBF"
proof -
  obtain lo hi where l: "rune_lead (code (hd s)) = (w, lo, hi)"
    using assms by (auto simp: rune_width_def split: prod.splits if_splits)
  have c: "2 \<le> w \<Longrightarrow> cont lo hi s 1" "3 \<le> w \<Longrightarrow> cont 0x80 0xBF s 2" "4 \<le> w \<Longrightarrow> cont 0x80 0xBF s 3"
    using assms l by (auto simp: rune_width_def split: if_splits)
  from assms(2,3) rune_lead_cases(1) [OF l] consider "i = 1" | "i = 2" | "i = 3" by linarith
  then show ?thesis
    using c rune_lead_cases(2) [OF l] assms(3) by cases (auto simp: cont_def)
qed

definition continuation :: "char \<Rightarrow> bool" where
  "continuation c \<longleftrightarrow> 0x80 \<le> code c \<and> code c \<le> 0xBF"

lemma valid_utf8_hd:
  assumes "valid_utf8 s" and "s \<noteq> []"
  shows "\<not> continuation (hd s)"
proof -
  obtain w lo hi where l: "rune_lead (code (hd s)) = (w, lo, hi)" by (metis prod_cases3)
  have "rune_width s \<noteq> 0" using assms by (cases s) (auto simp: valid_utf8.simps(2) split: if_splits)
  then have "0 < w" using l by (auto simp: rune_width_def split: if_splits)
  then show ?thesis using rune_lead_cases(3) [OF l] by (auto simp: continuation_def)
qed

lemma valid_utf8_rune:
  assumes "valid_utf8 s" and "s \<noteq> []"
  shows "0 < rune_width s" and "rune_width s \<le> length s" and "valid_utf8 (drop (rune_width s) s)"
  using assms rune_width_le [of s] by (cases s; simp add: valid_utf8.simps(2) split: if_splits)+

lemma valid_utf8_step:
  "s \<noteq> [] \<Longrightarrow> valid_utf8 s \<longleftrightarrow> rune_width s \<noteq> 0 \<and> valid_utf8 (drop (rune_width s) s)"
  by (cases s) (auto simp: valid_utf8.simps(2))

lemma valid_utf8_split:
  assumes "valid_utf8 (t @ p)" and "p \<noteq> [] \<Longrightarrow> \<not> continuation (hd p)"
  shows "valid_utf8 t \<and> valid_utf8 p"
  using assms
proof (induction "length t" arbitrary: t rule: less_induct)
  case less
  show ?case
  proof (cases "t = []")
    case True
    with less.prems show ?thesis by simp
  next
    case False
    let ?w = "rune_width (t @ p)"
    have w: "0 < ?w" "?w \<le> length (t @ p)" "valid_utf8 (drop ?w (t @ p))"
      using valid_utf8_rune [OF less.prems(1)] False by simp_all
    have le: "?w \<le> length t"
    proof (rule ccontr)
      assume long: "\<not> ?w \<le> length t"
      then have "p \<noteq> []" using w by auto
      moreover have "continuation ((t @ p) ! length t)"
        using rune_width_cont [of "t @ p" ?w "length t"] long False by (simp add: continuation_def)
      ultimately show False using less.prems(2) by (simp add: hd_conv_nth nth_append)
    qed
    have same: "rune_width t = ?w"
      using rune_width_prefix [of "t @ p" ?w "drop ?w t"] w(1) le False by simp
    have "valid_utf8 (drop ?w t) \<and> valid_utf8 p"
      by (rule less.hyps) (use w le False less.prems in auto)
    then show ?thesis using same w(1) False by (simp add: valid_utf8_step [of t])
  qed
qed

section \<open>Spaces\<close>

lemma space_runes_checked:
  "list_all (\<lambda>p. p \<noteq> [] \<and> \<not> continuation (hd p) \<and> list_all continuation (tl p)
     \<and> list_all (\<lambda>k. \<not> valid_utf8 (take k p)) [1..<length p]) space_runes"
  by code_simp

lemma space_rune:
  assumes "p \<in> set space_runes"
  shows "p \<noteq> []" and "\<not> continuation (hd p)" and "\<forall>x\<in>set (tl p). continuation x"
    and "0 < k \<Longrightarrow> k < length p \<Longrightarrow> \<not> valid_utf8 (take k p)"
  using assms space_runes_checked by (auto simp: list_all_iff)

lemma space_rune_width:
  assumes "p \<in> set space_runes"
  shows "rune_width (p @ r) = length p"
proof -
  have "list_all (\<lambda>p. rune_width p = length p) space_runes" by code_simp
  then have "rune_width p = length p" using assms by (simp add: list_all_iff)
  then show ?thesis
    using rune_width_prefix [of p "length p" r] space_rune(1) [OF assms] by simp
qed

lemma leading_zero_iff:
  "[] \<notin> set ps \<Longrightarrow> leading ps s = 0 \<longleftrightarrow> (\<forall>p\<in>set ps. \<not> prefix p s)"
  by (induction ps) (auto simp: has_prefix_iff)

lemma no_space_iff: "leading space_runes s = 0 \<longleftrightarrow> (\<forall>p\<in>set space_runes. \<not> prefix p s)"
  by (rule leading_zero_iff) (use space_rune(1) in blast)

lemma leading_cases:
  "leading ps s = 0 \<or> (\<exists>p\<in>set ps. has_prefix s p \<and> leading ps s = length p)"
  by (induction ps) auto

lemma valid_utf8_strip: "valid_utf8 s \<Longrightarrow> valid_utf8 (strip space_runes s)"
proof (induction space_runes s rule: strip.induct)
  case (1 s)
  show ?case
  proof (cases "leading space_runes s = 0")
    case True
    then show ?thesis using 1 by (simp add: strip_id)
  next
    case False
    then obtain p where p: "p \<in> set space_runes" "prefix p s" "leading space_runes s = length p"
      using leading_cases [of space_runes s] by (auto simp: has_prefix_iff)
    then obtain r where r: "s = p @ r" by (auto simp: prefix_def)
    have "valid_utf8 r"
      using valid_utf8_rune(3) [OF \<open>valid_utf8 s\<close>] space_rune_width [OF p(1)] space_rune(1) [OF p(1)]
      unfolding r by simp
    then have "valid_utf8 (strip space_runes r)"
      using 1(1) [OF False] p r by simp
    moreover have "strip space_runes s = strip space_runes r"
      using False p(3) strip.simps [of space_runes s] unfolding r by simp
    ultimately show ?thesis by simp
  qed
qed

lemma valid_utf8_strip_end:
  "valid_utf8 (rev s) \<Longrightarrow> valid_utf8 (rev (strip (map rev space_runes) s))"
proof (induction "map rev space_runes" s rule: strip.induct)
  case (1 s)
  show ?case
  proof (cases "leading (map rev space_runes) s = 0")
    case True
    then show ?thesis using 1 by (simp add: strip_id)
  next
    case False
    then obtain p where p: "p \<in> set space_runes" "prefix (rev p) s"
      "leading (map rev space_runes) s = length p"
      using leading_cases [of "map rev space_runes" s] by (auto simp: has_prefix_iff)
    then obtain r where r: "s = rev p @ r" by (auto simp: prefix_def)
    then have "valid_utf8 (rev r)"
      using valid_utf8_split [of "rev r" p] 1(2) space_rune(2) [OF p(1)] by simp
    then have "valid_utf8 (rev (strip (map rev space_runes) r))"
      using 1(1) [OF False] p r by simp
    moreover have "strip (map rev space_runes) s = strip (map rev space_runes) r"
      using False p(3) strip.simps [of "map rev space_runes" s] unfolding r by simp
    ultimately show ?thesis by simp
  qed
qed

lemma valid_utf8_trim: "valid_utf8 s \<Longrightarrow> valid_utf8 (trim_space s)"
  unfolding trim_space_def by (rule valid_utf8_strip_end) (simp add: valid_utf8_strip)

lemma strip_Nil_prefix:
  "strip ps s = [] \<Longrightarrow> s \<noteq> [] \<Longrightarrow> \<exists>p\<in>set ps. p \<noteq> [] \<and> suffix p s"
proof (induction ps s rule: strip.induct)
  case (1 ps s)
  then have "leading ps s \<noteq> 0" using strip_id by force
  with 1 have rest: "strip ps (drop (leading ps s) s) = []" by (simp add: strip.simps [of ps s])
  show ?case
  proof (cases "drop (leading ps s) s = []")
    case True
    obtain p where "p \<in> set ps" "prefix p s" "leading ps s = length p"
      using leading_cases [of ps s] \<open>leading ps s \<noteq> 0\<close> by (auto simp: has_prefix_iff)
    with True have "p = s" by (auto simp: prefix_def)
    with \<open>p \<in> set ps\<close> \<open>s \<noteq> []\<close> show ?thesis by blast
  next
    case False
    then obtain p where "p \<in> set ps" "p \<noteq> []" "suffix p (drop (leading ps s) s)"
      using 1(1) [OF \<open>leading ps s \<noteq> 0\<close> rest] by blast
    then show ?thesis using suffix_drop suffix_order.trans by blast
  qed
qed

lemma trim_space_nonempty:
  assumes "s \<noteq> []" and "leading space_runes s = 0"
  shows "trim_space s \<noteq> []"
proof
  assume "trim_space s = []"
  then have "strip (map rev space_runes) (rev s) = []"
    using strip_id [OF assms(2)] by (simp add: trim_space_def)
  then obtain p where "p \<in> set space_runes" "suffix (rev p) (rev s)"
    using strip_Nil_prefix [of "map rev space_runes" "rev s"] assms(1) by auto
  then have "prefix p s" by (simp add: suffix_to_prefix)
  with \<open>p \<in> set space_runes\<close> assms(2) show False by (simp add: no_space_iff)
qed

section \<open>Rendering\<close>

definition displayable :: "string \<Rightarrow> bool" where
  "displayable v \<longleftrightarrow> v \<noteq> [] \<and> valid_utf8 v \<and> leading space_runes v = 0"

lemma prefix_replace_all_cont:
  assumes "\<forall>x\<in>set p. continuation x" and "\<forall>(old, new)\<in>set ps. displayable new"
    and "prefix p (replace_all ps t)"
  shows "prefix p t"
  using assms(1,3)
proof (induction p arbitrary: t)
  case (Cons x p)
  then obtain c s where t: "t = c # s" by (cases t) auto
  show ?case
  proof (cases "List.find (\<lambda>(old, new). has_prefix (c # s) old) ps")
    case None
    with Cons t show ?thesis by auto
  next
    case (Some pair)
    then obtain old new where pair: "pair = (old, new)" "(old, new) \<in> set ps"
      using find_Some_mem [OF Some] by (cases pair) auto
    then have "displayable new" using assms(2) by auto
    then obtain d new' where new: "new = d # new'" by (cases new) (auto simp: displayable_def)
    with Cons.prems(2) Some pair t have "x = d" by auto
    with Cons.prems(1) new \<open>displayable new\<close> have False
      using valid_utf8_hd [of new] by (auto simp: displayable_def)
    then show ?thesis ..
  qed
qed simp

lemma replace_all_no_space:
  assumes "text \<noteq> []" and lead: "leading space_runes text = 0"
    and vals: "\<forall>(old, new)\<in>set ps. displayable new"
  shows "replace_all ps text \<noteq> [] \<and> leading space_runes (replace_all ps text) = 0"
proof -
  from assms(1) obtain c s where t: "text = c # s" by (cases "text") auto
  show ?thesis
  proof (cases "List.find (\<lambda>(old, new). has_prefix (c # s) old) ps")
    case None
    then have out: "replace_all ps text = c # replace_all ps s" using t by simp
    have "\<not> prefix p (c # replace_all ps s)" if p: "p \<in> set space_runes" for p
    proof
      assume pre: "prefix p (c # replace_all ps s)"
      obtain x q where q: "p = x # q" using space_rune(1) [OF p] by (cases p) auto
      with pre have "prefix q (replace_all ps s)" "x = c" by auto
      then have "prefix q s"
        using prefix_replace_all_cont [OF _ vals] space_rune(3) [OF p] q by simp
      with q \<open>x = c\<close> t lead p show False by (auto simp: no_space_iff)
    qed
    with out show ?thesis by (simp add: no_space_iff)
  next
    case (Some pair)
    then obtain old new where pair: "pair = (old, new)" "(old, new) \<in> set ps"
      using find_Some_mem [OF Some] by (cases pair) auto
    then have new: "displayable new" using vals by auto
    obtain rest where out: "replace_all ps text = new @ rest" using Some pair t by simp
    have "\<not> prefix p (new @ rest)" if p: "p \<in> set space_runes" for p
    proof
      assume "prefix p (new @ rest)"
      then have "prefix p new \<or> (\<exists>k. new = take k p \<and> k < length p)"
        by (metis append_eq_append_conv_if append_eq_conv_conj linorder_not_le prefix_def)
      with new p show False
        using space_rune(4) [OF p] by (auto simp: displayable_def no_space_iff)
    qed
    with out new show ?thesis by (auto simp: no_space_iff displayable_def)
  qed
qed

definition readable :: "activity_event \<Rightarrow> acontact option \<Rightarrow> bool" where
  "readable ev ct \<longleftrightarrow> valid_utf8 (title ev) \<and> valid_utf8 (summary ev)
     \<and> (\<forall>c. ct = Some c \<longrightarrow> valid_utf8 (profile_name c) \<and> valid_utf8 (phone_number c))"

lemma displayable_or_else:
  "valid_utf8 s \<Longrightarrow> displayable d \<Longrightarrow> displayable (or_else (trim_space s) d)"
  by (auto simp: or_else_def displayable_def valid_utf8_trim leading_trim)

lemma allowed_event_types_displayable: "\<forall>t\<in>set allowed_event_types. displayable t"
proof -
  have "list_all (\<lambda>t. t \<noteq> [] \<and> valid_utf8 t \<and> leading space_runes t = 0) allowed_event_types"
    by code_simp
  then show ?thesis by (simp add: list_all_iff displayable_def)
qed

lemma template_pairs_displayable:
  assumes "readable ev ct" and "event_type ev \<in> set allowed_event_types"
  shows "\<forall>(old, new)\<in>set (template_pairs ct ev). displayable new"
proof -
  have e: "displayable (event_type ev)" using assms(2) allowed_event_types_displayable by blast
  have c: "displayable ''Customer''"
    unfolding displayable_def by code_simp
  have t: "displayable (display_title ev)"
    using assms(1) e by (simp add: display_title_def readable_def displayable_or_else)
  have "displayable (display_summary ev)"
    using assms(1) t by (simp add: display_summary_def readable_def displayable_or_else)
  moreover have "displayable (display_contact ct)"
    using assms(1) c
    by (auto simp: display_contact_def readable_def displayable_or_else split: option.split)
  ultimately show ?thesis using e t by (simp add: template_pairs_def)
qed

lemma render_nonempty:
  assumes "readable ev ct" and "event_type ev \<in> set allowed_event_types"
    and "text \<noteq> []" and "leading space_runes text = 0"
  shows "render_template text ct ev \<noteq> []"
  unfolding render_template_def
  using replace_all_no_space [OF assms(3,4) template_pairs_displayable [OF assms(1,2)]]
  by (intro trim_space_nonempty) simp_all

section \<open>Truncation\<close>

lemma truncate_nonempty: "text \<noteq> [] \<Longrightarrow> 0 < n \<Longrightarrow> truncate_runes text n \<noteq> []"
proof -
  assume "text \<noteq> []" "0 < n"
  then obtain r rs where "runes text = r # rs" by (cases "runes text") auto
  then show ?thesis
    using runes_nonempty [of r "text"] \<open>text \<noteq> []\<close> \<open>0 < n\<close> by (cases n) (auto simp: truncate_runes_def)
qed

lemma runes_append:
  assumes "s \<noteq> []" and "rune_width s = length s"
  shows "runes (s @ t) = s # runes t"
proof -
  have w: "rune_width (s @ t) = length s"
    using rune_width_prefix [of s "length s" t] assms by simp
  from assms(1) obtain c r where s: "s = c # r" by (cases s) auto
  show ?thesis using w unfolding s by (simp add: runes.simps(2))
qed

lemma runes_whole:
  "r \<in> set (runes s) \<Longrightarrow> r \<noteq> [] \<and> rune_width r = length r"
proof (induction s rule: runes.induct)
  case (2 c s)
  have "rune_width replacement_rune = length replacement_rune" by code_simp
  moreover have "rune_width (take (rune_width (c # s)) (c # s)) = rune_width (c # s)"
    if "rune_width (c # s) \<noteq> 0"
    using rune_width_prefix [of "c # s" _ "[]"] that by simp
  ultimately show ?case
    using 2 rune_width_le [of "c # s"]
    by (auto simp: runes.simps(2) replacement_rune_def min_def split: if_splits)
qed simp

lemma runes_concat: "\<forall>r\<in>set rs. r \<noteq> [] \<and> rune_width r = length r \<Longrightarrow> runes (concat rs) = rs"
  by (induction rs) (auto simp: runes_append)

lemma truncate_count: "rune_count (truncate_runes text n) \<le> n"
proof (cases "n = 0 \<or> length (runes text) \<le> n")
  case True
  then show ?thesis by (auto simp: truncate_runes_def rune_count_def)
next
  case False
  have "runes (concat (take n (runes text))) = take n (runes text)"
    by (rule runes_concat) (use runes_whole in_set_takeD in fast)
  with False show ?thesis by (simp add: truncate_runes_def rune_count_def)
qed

end
