(* ===== verification/AutomationCorrect.thy ===== *)
theory AutomationCorrect
  imports AutomationRun AutomationText
begin

text \<open>
  What a published automation policy guarantees: the validation is total, an accepted graph is a
  tree rooted at its trigger, and evaluating it on a readable event never fails, runs each node at
  most once and plans only well-formed tasks within the thirty days of delay.
\<close>

section \<open>Nodes of a publishable graph\<close>

lemma node_at_eq:
  assumes "publishable g" and "n \<in> set (anodes g)"
  shows "node_at g (nid n) = n"
proof -
  have "distinct (map nid (rev (anodes g)))"
    using assms(1) by (simp add: publishable_def distinct_rev rev_map [symmetric])
  then have "lookup_node (rev (anodes g)) (nid n) = Some n"
    by (rule lookup_node_distinct) (use assms(2) in simp)
  then show ?thesis by (simp add: node_at_def lookup_node_def)
qed

lemma node_at_known:
  assumes "publishable g" and "i \<in> nid ` set (anodes g)"
  shows "node_at g i \<in> set (anodes g)" and "nid (node_at g i) = i" and "node_ok (node_at g i)"
    and "lookup_node (anodes g) i = Some (node_at g i)"
proof -
  from assms(2) obtain n where n: "n \<in> set (anodes g)" "nid n = i" by blast
  then have "node_at g i = n" using node_at_eq [OF assms(1)] by blast
  with n assms(1) lookup_node_distinct [of "anodes g" n]
  show "node_at g i \<in> set (anodes g)" "nid (node_at g i) = i" "node_ok (node_at g i)"
    "lookup_node (anodes g) i = Some (node_at g i)"
    by (simp_all add: publishable_def)
qed

lemma weight_node:
  assumes "publishable g" and "i \<in> nid ` set (anodes g)"
  shows "ntype (node_at g i) = ''delay'' \<Longrightarrow>
      \<exists>m. config_int (nconfig (node_at g i)) ''minutes'' = Some m \<and> weight g i = m
        \<and> node_delay (anodes g) i = Some m"
    and "ntype (node_at g i) \<noteq> ''delay'' \<Longrightarrow> weight g i = 0"
proof -
  note look = node_at_known [OF assms]
  show "ntype (node_at g i) \<noteq> ''delay'' \<Longrightarrow> weight g i = 0"
    using look by (simp add: weight_def node_delay_def)
  assume d: "ntype (node_at g i) = ''delay''"
  with look(3) obtain m where "config_int (nconfig (node_at g i)) ''minutes'' = Some m"
    unfolding node_ok_def validate_delay_node_None by blast
  with look d show "\<exists>m. config_int (nconfig (node_at g i)) ''minutes'' = Some m \<and> weight g i = m
        \<and> node_delay (anodes g) i = Some m"
    by (simp add: weight_def node_delay_def)
qed

lemma edges_from_eq: "edges_from g i = map default_branch (outgoing (aedges g) i)"
proof -
  have "src (default_branch e) = src e" for e by (simp add: default_branch_def)
  then show ?thesis by (simp add: edges_from_def outgoing_def filter_map comp_def)
qed

lemma targets_of_edges_from: "map tgt (edges_from g i) = target_ids g i"
proof -
  have "tgt (default_branch e) = tgt e" for e by (simp add: default_branch_def)
  then show ?thesis by (simp add: edges_from_eq target_ids_def)
qed

section \<open>Every node runs\<close>

lemma evaluate_condition_total:
  assumes "validate_condition_node n = None"
  shows "\<exists>b. evaluate_condition n ev ct = Inr b"
proof -
  let ?op = "fst (config_normalized_string (nconfig n) ''operator'')"
  from validate_condition_node_operator [OF assms]
  consider "?op = ''equals''" | "?op = ''not_equals''" | "?op = ''exists''" | "?op = ''in''"
    by (auto simp: allowed_condition_operators_def)
  then show ?thesis
  proof cases
    case 4
    with validate_condition_node_in [OF assms] show ?thesis
      by (auto simp: evaluate_condition_def split: prod.split)
  qed (simp_all add: evaluate_condition_def split: prod.split)
qed

text \<open>What a planned task satisfies, given the base time of the evaluation.\<close>

definition task_ok :: "time \<Rightarrow> planned_task \<Rightarrow> bool" where
  "task_ok base t \<longleftrightarrow>
     pt_title t \<noteq> [] \<and> rune_count (pt_title t) \<le> 255
     \<and> rune_count (pt_description t) \<le> max_description_length
     \<and> valid_task_priority (pt_priority t) \<and> pt_owner_mode t \<in> {''unassigned'', ''contact_owner''}
     \<and> base \<le> pt_scheduled t \<and> pt_scheduled t \<le> base + max_delay_minutes * minute
     \<and> (\<forall>d. pt_due t = Some d \<longrightarrow> pt_scheduled t \<le> d)
     \<and> (\<forall>d r. pt_due t = Some d \<longrightarrow> pt_remind t = Some r \<longrightarrow> r \<le> d)"

lemma validate_create_task_node_parts:
  assumes "snd (validate_create_task_node n) = None"
  shows "validate_task_title (nconfig n) = None" and "validate_task_priority (nconfig n) = None"
    and "validate_task_minutes (nconfig n) ''due_in_minutes'' = None"
    and "validate_task_minutes (nconfig n) ''remind_in_minutes'' = None"
    and "validate_task_reminder (nconfig n) = None" and "validate_task_owner (nconfig n) = None"
  using assms by (simp_all add: validate_create_task_node_def Let_def first_issue_None_iff)

lemma valid_title:
  assumes "validate_task_title config = None"
  shows "fst (config_raw_string config ''title'') \<noteq> []"
    and "leading space_runes (fst (config_raw_string config ''title'')) = 0"
proof -
  from assms obtain v where t: "map_of config ''title'' = Some (Str v)" "trim_space v \<noteq> []"
    by (auto simp: validate_task_title_def config_raw_string_def split: option.splits any.splits if_splits)
  then show "fst (config_raw_string config ''title'') \<noteq> []"
    "leading space_runes (fst (config_raw_string config ''title'')) = 0"
    by (simp_all add: config_raw_string_def leading_trim)
qed

lemma valid_priority:
  assumes "validate_task_priority config = None"
  shows "valid_task_priority (or_else (fst (config_normalized_string config ''priority'')) ''normal'')"
  using assms
  by (auto simp: validate_task_priority_def config_normalized_string_def config_raw_string_def
      or_else_def valid_task_priority_def to_lower_def split: option.splits any.splits if_splits)

lemma valid_owner:
  assumes "validate_task_owner config = None"
  shows "or_else (fst (config_normalized_string config ''owner'')) ''unassigned''
    \<in> {''unassigned'', ''contact_owner''}"
  using assms
  by (auto simp: validate_task_owner_def config_normalized_string_def config_raw_string_def
      or_else_def to_lower_def split: option.splits any.splits if_splits)

lemma add_task_minutes:
  assumes "0 \<le> m" and "m \<le> max_task_minutes"
  shows "add_minutes t m = t + m * minute"
  by (rule add_minutes_exact) (use assms in \<open>simp add: max_task_minutes_def\<close>)

lemma add_delay_minutes:
  assumes "0 \<le> m" and "m \<le> max_delay_minutes"
  shows "add_minutes t m = t + m * minute" and "t \<le> add_minutes t m"
    and "add_minutes t m \<le> t + max_delay_minutes * minute"
proof -
  show eq: "add_minutes t m = t + m * minute"
    by (rule add_minutes_exact) (use assms in \<open>simp add: max_delay_minutes_def\<close>)
  show "t \<le> add_minutes t m" "add_minutes t m \<le> t + max_delay_minutes * minute"
    unfolding eq using assms by (simp_all add: minute_def)
qed

lemma minute_le: "m \<le> m' \<Longrightarrow> t + m * minute \<le> t + m' * minute"
  by (simp add: minute_def)

lemma task_from_node_ok:
  assumes node: "snd (validate_create_task_node n) = None"
    and ev: "readable ev ct" "event_type ev \<in> set allowed_event_types"
    and delay: "0 \<le> delay" "delay \<le> max_delay_minutes"
  shows "\<exists>t. task_from_node n ct ev base delay = Inr t \<and> task_ok base t \<and> pt_node t = nid n"
proof -
  note parts = validate_create_task_node_parts [OF node]
  let ?c = "nconfig n"
  let ?s = "add_minutes base delay"
  let ?title = "truncate_runes (render_template (fst (config_raw_string ?c ''title'')) ct ev) 255"
  have title: "?title \<noteq> []"
    by (rule truncate_nonempty [OF render_nonempty [OF ev valid_title [OF parts(1)]]]) simp
  have due: "0 \<le> m \<and> m \<le> max_task_minutes" if "config_int ?c ''due_in_minutes'' = Some m" for m
    using validate_task_minutes_None [OF parts(3) that] .
  have remind: "0 \<le> m \<and> m \<le> max_task_minutes" if "config_int ?c ''remind_in_minutes'' = Some m" for m
    using validate_task_minutes_None [OF parts(4) that] .
  have order: "add_minutes ?s r \<le> add_minutes ?s d"
    if "config_int ?c ''due_in_minutes'' = Some d" "config_int ?c ''remind_in_minutes'' = Some r" for d r
  proof -
    have "r \<le> d" using parts(5) that by (simp add: validate_task_reminder_def split: if_splits)
    then show ?thesis
      using add_task_minutes due [OF that(1)] remind [OF that(2)] by (simp add: minute_def)
  qed
  have later: "?s \<le> add_minutes ?s d" if "config_int ?c ''due_in_minutes'' = Some d" for d
    using due [OF that] add_task_minutes by (simp add: minute_def)
  let ?t = "\<lparr>pt_node = nid n, pt_title = ?title,
      pt_description = truncate_runes (render_template (fst (config_raw_string ?c ''description'')) ct ev)
        max_description_length,
      pt_priority = or_else (fst (config_normalized_string ?c ''priority'')) ''normal'',
      pt_owner_mode = or_else (fst (config_normalized_string ?c ''owner'')) ''unassigned'',
      pt_owner = None, pt_scheduled = ?s,
      pt_due = map_option (add_minutes ?s) (config_int ?c ''due_in_minutes''),
      pt_remind = map_option (add_minutes ?s) (config_int ?c ''remind_in_minutes'')\<rparr>"
  have "\<not> (case (pt_due ?t, pt_remind ?t) of (Some d, Some r) \<Rightarrow> d < r | _ \<Rightarrow> False)"
    using order by (auto simp: not_less split: option.split)
  then have "task_from_node n ct ev base delay = Inr ?t"
    using title by (simp add: task_from_node_def Let_def)
  moreover have "task_ok base ?t"
    using title truncate_count valid_priority [OF parts(2)] valid_owner [OF parts(6)]
      add_delay_minutes(2,3) [OF delay] order later
    by (auto simp: task_ok_def)
  ultimately show ?thesis by auto
qed


section \<open>The evaluation\<close>

text \<open>One turn: the node runs, its successors are targets of its edges, its delay is the exact one.\<close>

definition step_of :: "anode \<Rightarrow> eval_step \<Rightarrow> bool" where
  "step_of n s \<longleftrightarrow> st_node s = nid n \<and> st_type s = ntype n"

lemma run_node_ok:
  assumes g: "publishable g" and i: "i \<in> nid ` set (anodes g)"
    and ev: "readable ev ct" "event_type ev \<in> set allowed_event_types"
    and d: "0 \<le> d" "d \<le> max_delay_minutes"
    and cum: "\<And>m. node_delay (anodes g) i = Some m \<Longrightarrow> d + m \<le> max_delay_minutes"
  shows "\<exists>x. run_node (node_at g i) next d ev ct base = Inr x
    \<and> step_of (node_at g i) (run_step x) \<and> run_delay x = d + weight g i
    \<and> (run_next x = next \<or> ntype (node_at g i) = ''condition'' \<and> (\<exists>b. run_next x = filter (\<lambda>e. branch e = b) next))
    \<and> (case run_task x of None \<Rightarrow> ntype (node_at g i) \<noteq> ''create_task''
       | Some t \<Rightarrow> ntype (node_at g i) = ''create_task'' \<and> task_ok base t \<and> pt_node t = i)"
proof -
  let ?n = "node_at g i"
  note known = node_at_known [OF g i]
  from known(3) consider (trigger) "ntype ?n = ''trigger''" | (condition) "ntype ?n = ''condition''"
    | (delay) "ntype ?n = ''delay''" | (task) "ntype ?n = ''create_task''"
    by (auto simp: node_ok_def)
  then show ?thesis
  proof cases
    case trigger
    then show ?thesis
      using weight_node(2) [OF g i] by (simp add: run_node_def step_of_def blank_step_def)
  next
    case condition
    with known(3) obtain b where "evaluate_condition ?n ev ct = Inr b"
      using evaluate_condition_total [of "node_at g i" ev ct] by (auto simp: node_ok_def)
    with condition show ?thesis
      using weight_node(2) [OF g i] by (auto simp: run_node_def step_of_def blank_step_def Let_def)
  next
    case delay
    obtain m where m: "config_int (nconfig ?n) ''minutes'' = Some m" "weight g i = m"
      "node_delay (anodes g) i = Some m"
      using weight_node(1) [OF g i delay] by blast
    with cum delay show ?thesis
      by (simp add: run_node_def step_of_def blank_step_def Let_def not_less)
  next
    case task
    with known(3) have "snd (validate_create_task_node ?n) = None" by (simp add: node_ok_def)
    from task_from_node_ok [OF this ev d] obtain t
      where "task_from_node ?n ct ev base d = Inr t" "task_ok base t" "pt_node t = nid ?n" by blast
    with task known(2) show ?thesis
      using weight_node(2) [OF g i] by (simp add: run_node_def step_of_def blank_step_def Let_def)
  qed
qed

text \<open>The invariant of the queue, with the nodes taken so far read off the steps.\<close>

definition visited_ids :: "evaluation \<Rightarrow> string list" where
  "visited_ids r = map st_node (steps r)"

definition tasks_match :: "evaluation \<Rightarrow> bool" where
  "tasks_match r \<longleftrightarrow>
     map pt_node (planned r) = map st_node (filter (\<lambda>s. st_type s = ''create_task'') (steps r))"

definition eval_inv ::
  "agraph \<Rightarrow> time \<Rightarrow> (string \<Rightarrow> aedge list) \<Rightarrow> queue_item list \<Rightarrow> evaluation \<Rightarrow> bool" where
  "eval_inv g base out q r \<longleftrightarrow>
     ag.frontier g (visited_ids r) (map fst q)
     \<and> (\<forall>(i, d)\<in>set q. ag.arrives g (weight g) i d)
     \<and> (\<forall>i. i \<notin> set (visited_ids r) \<longrightarrow> out i = edges_from g i)
     \<and> (\<forall>t\<in>set (planned r). task_ok base t) \<and> tasks_match r"

text \<open>Every path stays within the maximal delay.\<close>

definition delays_fit :: "agraph \<Rightarrow> bool" where
  "delays_fit g \<longleftrightarrow>
     (\<forall>i d. ag.arrives g (weight g) i d \<longrightarrow> d \<le> max_delay_minutes \<and> d + weight g i \<le> max_delay_minutes)"

lemma eval_turn:
  assumes g: "publishable g" and inv: "eval_inv g base out ((i, d) # rest) r"
    and ev: "readable ev ct" "event_type ev \<in> set allowed_event_types"
    and fit: "delays_fit g"
  shows "\<exists>x out'. run_node (node_at g i) (out (nid (node_at g i))) d ev ct base = Inr x
    \<and> out' = (if ntype (node_at g i) = ''condition''
        then out(nid (node_at g i) := overwrite_front (run_next x) (out (nid (node_at g i)))) else out)
    \<and> eval_inv g base out' (rest @ map (\<lambda>e. (tgt e, run_delay x)) (run_next x))
        (r\<lparr>steps := steps r @ [run_step x],
           planned := planned r @ (case run_task x of None \<Rightarrow> [] | Some t \<Rightarrow> [t])\<rparr>)"
proof -
  have f: "ag.frontier g (visited_ids r) (i # map fst rest)" and arr: "ag.arrives g (weight g) i d"
    and fresh: "i \<notin> set (visited_ids r)"
    using inv by (auto simp: eval_inv_def ag.frontier_def)
  have i: "i \<in> nid ` set (anodes g)" using f by (simp add: ag.frontier_def)
  note known = node_at_known [OF g i]
  have next_edges: "out i = edges_from g i" using inv fresh by (simp add: eval_inv_def)
  have d: "0 \<le> d" "d \<le> max_delay_minutes"
    using arrives_nonneg [OF g arr] fit arr by (auto simp: delays_fit_def)
  have cum: "d + m \<le> max_delay_minutes" if "node_delay (anodes g) i = Some m" for m
  proof -
    have "d + weight g i \<le> max_delay_minutes" using fit arr by (simp add: delays_fit_def)
    with that show ?thesis by (simp add: weight_def)
  qed
  obtain x where x: "run_node (node_at g i) (out i) d ev ct base = Inr x"
    "step_of (node_at g i) (run_step x)" "run_delay x = d + weight g i"
    "run_next x = out i \<or> ntype (node_at g i) = ''condition'' \<and> (\<exists>b. run_next x = filter (\<lambda>e. branch e = b) (out i))"
    "case run_task x of None \<Rightarrow> ntype (node_at g i) \<noteq> ''create_task''
       | Some t \<Rightarrow> ntype (node_at g i) = ''create_task'' \<and> task_ok base t \<and> pt_node t = i"
    using run_node_ok [OF g i ev d cum, of "out i" base] by blast
  have sub: "set (map tgt (run_next x)) \<subseteq> set (target_ids g i)"
    using x(4) next_edges targets_of_edges_from [of g i] by (metis filter_is_subset image_mono set_map subset_refl)
  have dist: "distinct (map tgt (run_next x))"
    using x(4) next_edges targets_of_edges_from [of g i] publishable_distinct_targets [OF g, of i]
    by (metis distinct_map_filter)
  let ?r = "r\<lparr>steps := steps r @ [run_step x],
      planned := planned r @ (case run_task x of None \<Rightarrow> [] | Some t \<Rightarrow> [t])\<rparr>"
  let ?out = "if ntype (node_at g i) = ''condition''
        then out(nid (node_at g i) := overwrite_front (run_next x) (out (nid (node_at g i)))) else out"
  have vis: "visited_ids ?r = visited_ids r @ [i]"
    using x(2) known(2) by (simp add: visited_ids_def step_of_def)
  have "ag.frontier g (visited_ids r @ [i]) (map fst rest @ map tgt (run_next x))"
    by (rule ag.frontier_step [OF g f sub dist])
  moreover have "ag.arrives g (weight g) (tgt e) (run_delay x)" if "e \<in> set (run_next x)" for e
    unfolding x(3) by (rule ag.arrives.at_succ [OF arr]) (use sub that in auto)
  moreover have "?out j = edges_from g j" if "j \<notin> set (visited_ids r @ [i])" for j
    using that inv known(2) by (auto simp: eval_inv_def)
  moreover have "tasks_match ?r"
    using inv x(2,5) known(2) by (auto simp: eval_inv_def tasks_match_def step_of_def split: option.splits)
  moreover have "\<forall>t\<in>set (planned ?r). task_ok base t"
    using inv x(5) by (auto simp: eval_inv_def split: option.splits)
  ultimately have "eval_inv g base ?out (rest @ map (\<lambda>e. (tgt e, run_delay x)) (run_next x)) ?r"
    using inv unfolding eval_inv_def vis by (auto simp: comp_def)
  with x(1) known(2) show ?thesis by auto
qed

lemma eval_loop_ok:
  assumes g: "publishable g"
    and ev: "readable ev ct" "event_type ev \<in> set allowed_event_types"
    and fit: "delays_fit g"
    and "eval_inv g base out q r" and "length (anodes g) \<le> k + length (visited_ids r)"
  shows "\<exists>r' out'. eval_loop k g out ev ct base q r = Some (Inr r') \<and> eval_inv g base out' [] r'"
  using assms(5,6)
proof (induction k arbitrary: out q r)
  case 0
  then have "length (visited_ids r) + length (map fst q) \<le> length (map nid (anodes g))"
    by (intro ag.frontier_bound) (simp add: eval_inv_def)
  with 0 have "q = []" by (simp flip: length_0_conv)
  with 0 show ?case by auto
next
  case (Suc k)
  show ?case
  proof (cases q)
    case Nil
    with Suc.prems show ?thesis by auto
  next
    case (Cons p rest)
    obtain i d where p: "p = (i, d)" by (cases p)
    from Suc.prems(1) have "eval_inv g base out ((i, d) # rest) r" by (simp add: Cons p)
    from eval_turn [OF g this ev fit] obtain x out' where
      x: "run_node (node_at g i) (out (nid (node_at g i))) d ev ct base = Inr x"
      "out' = (if ntype (node_at g i) = ''condition''
        then out(nid (node_at g i) := overwrite_front (run_next x) (out (nid (node_at g i)))) else out)"
      "eval_inv g base out' (rest @ map (\<lambda>e. (tgt e, run_delay x)) (run_next x))
        (r\<lparr>steps := steps r @ [run_step x],
           planned := planned r @ (case run_task x of None \<Rightarrow> [] | Some t \<Rightarrow> [t])\<rparr>)"
      by blast
    from Suc.IH [OF x(3)] Suc.prems(2) show ?thesis
      using x(1,2) by (simp add: Cons p Let_def visited_ids_def)
  qed
qed


section \<open>Accepted graphs\<close>

lemma arrives_bound:
  assumes g: "publishable g"
    and cum: "\<And>i d m. ag.arrives g (weight g) i d \<Longrightarrow> node_delay (anodes g) i = Some m \<Longrightarrow>
      d + m \<le> max_delay_minutes"
    and "ag.arrives g (weight g) i d"
  shows "d \<le> max_delay_minutes"
  using assms(3)
proof (induction rule: ag.arrives.induct)
  case at_start
  then show ?case by (simp add: max_delay_minutes_def)
next
  case (at_succ x d y)
  then show ?case
    using cum [OF at_succ(1)] by (cases "node_delay (anodes g) x") (auto simp: weight_def)
qed

lemma valid_graph_facts:
  assumes "valid_graph order g" and "visits_all order"
  shows "publishable g" and "delays_fit g"
proof -
  from assms(1) obtain v where v: "validate_automation_graph order True g = Some v" "verrors v = []"
    by (auto simp: valid_graph_def)
  show g: "publishable g" by (rule validate_no_errors(1) [OF v assms(2)])
  have cum: "d + m \<le> max_delay_minutes"
    if "ag.arrives g (weight g) i d" "node_delay (anodes g) i = Some m" for i d m
    using validate_no_errors(2) [OF v assms(2)] delay_loop_sound [OF g _ _ that] by blast
  have "d \<le> max_delay_minutes" if "ag.arrives g (weight g) i d" for i d
    by (rule arrives_bound [OF g cum that])
  with cum show "delays_fit g" by (auto simp: delays_fit_def weight_def split: option.split)
qed

definition edge_rel :: "agraph \<Rightarrow> string \<Rightarrow> string \<Rightarrow> bool" where
  "edge_rel g x y \<longleftrightarrow> y \<in> set (target_ids g x)"

lemma walk_closed:
  assumes closed: "\<And>x e. R x \<Longrightarrow> e \<in> set (outgoing es x) \<Longrightarrow> R (tgt e)"
  shows "walk d es act i st = Some st' \<Longrightarrow> R i \<Longrightarrow> list_all R (fst st) \<Longrightarrow> list_all R (fst st')"
    and "walk_targets d es act out st = Some st' \<Longrightarrow> list_all (\<lambda>e. R (tgt e)) out \<Longrightarrow>
      list_all R (fst st) \<Longrightarrow> list_all R (fst st')"
  using closed
proof (induction d es act i st and d es act out st arbitrary: st' and st'
    rule: walk_walk_targets.induct)
  case (2 d es act i visited errs)
  have out: "list_all (\<lambda>e. R (tgt e)) (outgoing es i)"
    using 2(3,5) by (simp add: list_all_iff)
  show ?case
  proof (cases "i \<in> set act \<or> i \<in> set visited")
    case True
    with 2 show ?thesis by (auto split: if_splits)
  next
    case False
    with 2(2) obtain v e where w: "walk_targets d es (i # act) (outgoing es i) (visited, errs) = Some (v, e)"
      "st' = (i # v, e)" by (auto split: option.splits)
    have "list_all R (fst (v, e))" using 2(1) [OF _ _ w(1) out] 2(4,5) False by simp
    with w 2(3) show ?thesis by simp
  qed
next
  case (4 d es act e rest st)
  then show ?case by (auto split: option.splits)
qed auto

lemma no_cycle:
  assumes g: "publishable g" and "(edge_rel g)\<^sup>*\<^sup>* (trigger_id g) i"
  shows "\<not> (edge_rel g)\<^sup>+\<^sup>+ i i"
  using assms(2)
proof (induction rule: rtranclp_induct)
  case base
  show ?case
  proof
    assume "(edge_rel g)\<^sup>+\<^sup>+ (trigger_id g) (trigger_id g)"
    then obtain z where "edge_rel g z (trigger_id g)" by cases auto
    then show False using ag.start_no_parent [OF g] by (simp add: edge_rel_def)
  qed
next
  case (step x y)
  show ?case
  proof
    assume "(edge_rel g)\<^sup>+\<^sup>+ y y"
    then obtain z where z: "(edge_rel g)\<^sup>*\<^sup>* y z" "edge_rel g z y"
      by cases (auto dest: tranclp_into_rtranclp)
    then have "z = x" using step(2) ag.one_parent [OF g] unfolding edge_rel_def by blast
    with z step(2) have "(edge_rel g)\<^sup>+\<^sup>+ x x" by (auto intro: rtranclp_into_tranclp2)
    with step.IH show False ..
  qed
qed

lemma trigger_types_allowed:
  assumes "trigger_event_types n = Inr ts"
  shows "set ts \<subseteq> set allowed_event_types"
proof -
  have "check_event_types seen vs = None \<Longrightarrow> set vs \<subseteq> set allowed_event_types" for seen vs
    by (induction seen vs rule: check_event_types.induct) (auto split: if_splits)
  note check = this
  from assms obtain raw where "ts = sort_strings (map (\<lambda>v. to_lower (trim_space v)) raw)"
    "check_event_types [] (map (\<lambda>v. to_lower (trim_space v)) raw) = None"
    by (auto simp: trigger_event_types_def Let_def split: if_splits option.splits)
  with check show ?thesis by (metis set_sort_strings)
qed

lemma trigger_node_eq:
  assumes g: "publishable g"
  shows "trigger_node g \<in> set (anodes g)" and "nid (trigger_node g) = trigger_id g"
proof -
  obtain n where "n \<in> set (anodes g)" "ntype n = ''trigger''"
    using publishable_trigger(1) [OF g] by blast
  then obtain m where m: "List.find (\<lambda>n. ntype n = ''trigger'') (rev (anodes g)) = Some m"
    using find_None_iff_all [of "\<lambda>n. ntype n = ''trigger''" "rev (anodes g)"]
    by (cases "List.find (\<lambda>n. ntype n = ''trigger'') (rev (anodes g))") auto
  then have "m \<in> set (anodes g)" "ntype m = ''trigger''" using find_Some_mem [OF m] by simp_all
  then show "trigger_node g \<in> set (anodes g)" "nid (trigger_node g) = trigger_id g"
    using m publishable_trigger(2) [OF g] by (simp_all add: trigger_node_def)
qed

section \<open>The properties\<close>

text \<open>
  C12: a graph that validation accepts for activation is a tree: it has one trigger, without
  incoming edges; every other node has exactly one incoming edge and is reachable from the trigger;
  there is no cycle; and it holds between one and ten task nodes among at most fifty.
\<close>
theorem accepted_graph_is_tree:
  assumes "valid_graph order g" and "visits_all order"
  shows "incoming (aedges g) (trigger_id g) = 0
    \<and> (\<forall>n\<in>set (anodes g). nid n \<noteq> trigger_id g \<longrightarrow> incoming (aedges g) (nid n) = 1)
    \<and> (\<forall>n\<in>set (anodes g). (edge_rel g)\<^sup>*\<^sup>* (trigger_id g) (nid n) \<and> \<not> (edge_rel g)\<^sup>+\<^sup>+ (nid n) (nid n))
    \<and> length (kind_ids ''trigger'' (anodes g)) = 1
    \<and> 1 \<le> length (kind_ids ''create_task'' (anodes g))
    \<and> length (kind_ids ''create_task'' (anodes g)) \<le> 10 \<and> length (anodes g) \<le> 50"
proof -
  from assms(1) obtain v where v: "validate_automation_graph order True g = Some v" "verrors v = []"
    by (auto simp: valid_graph_def)
  note g = validate_no_errors(1) [OF v assms(2)]
  obtain vis where vis: "walk (Suc (length (anodes g))) (aedges g) [] (trigger_id g) ([], []) = Some (vis, [])"
    "set (map nid (anodes g)) \<subseteq> set vis"
    using validate_no_errors(2) [OF v assms(2)] by blast
  have reach: "(edge_rel g)\<^sup>*\<^sup>* (trigger_id g) (nid n)" if "n \<in> set (anodes g)" for n
  proof -
    have "list_all ((edge_rel g)\<^sup>*\<^sup>* (trigger_id g)) (fst (vis, [] :: issue list))"
      by (rule walk_closed(1) [OF _ vis(1)])
        (auto simp: edge_rel_def target_ids_def intro: rtranclp.rtrancl_into_rtrancl)
    then show ?thesis using vis(2) that by (auto simp: list_all_iff)
  qed
  have "length (kind_ids ''trigger'' (anodes g)) = 1"
    "kind_ids ''create_task'' (anodes g) \<noteq> []"
    "length (kind_ids ''create_task'' (anodes g)) \<le> max_action_nodes" "length (anodes g) \<le> max_nodes"
    using g by (auto simp: publishable_def)
  then show ?thesis
    using publishable_incoming [OF g] reach no_cycle [OF g reach]
    by (auto simp: max_action_nodes_def max_nodes_def Suc_le_eq)
qed

text \<open>
  C13: no path of an accepted graph accumulates more delay than the thirty days allowed, whatever
  branches its conditions take: the delay on the way to a node plus its own is within the maximum.
\<close>
theorem accepted_graph_delays_bounded:
  assumes "valid_graph order g" and "visits_all order"
    and "ag.arrives g (weight g) i d"
  shows "0 \<le> d \<and> d + weight g i \<le> max_delay_minutes"
proof -
  note facts = valid_graph_facts [OF assms(1,2)]
  have "0 \<le> d" by (rule arrives_nonneg [OF facts(1) assms(3)])
  moreover have "d + weight g i \<le> max_delay_minutes"
    using facts(2) assms(3) by (simp add: delays_fit_def)
  ultimately show ?thesis ..
qed

text \<open>The shape of every evaluation of an accepted graph.\<close>

lemma evaluation_facts:
  assumes "valid_graph order g" and "visits_all order" and "readable ev ct"
  shows "\<exists>r. evaluate_automation_graph order g (Some ev) ct base now = Some (Inr r)
    \<and> (if event_type ev \<in> set (trigger_types g)
       then \<exists>out. eval_inv g (if is_zero_time base then now else base) out [] r
       else r = mismatch_evaluation (trigger_node g))"
proof -
  note facts = valid_graph_facts [OF assms(1,2)]
  from assms(1) obtain v where v: "validate_automation_graph order True g = Some v" "verrors v = []"
    by (auto simp: valid_graph_def)
  show ?thesis
  proof (cases "event_type ev \<in> set (trigger_types g)")
    case False
    with v show ?thesis by (simp add: evaluate_automation_graph_def)
  next
    case True
    then have ev: "event_type ev \<in> set allowed_event_types"
      using trigger_types_allowed [of "trigger_node g"]
      by (cases "trigger_event_types (trigger_node g)") (auto simp: trigger_types_def)
    let ?b = "if is_zero_time base then now else base"
    have "eval_inv g ?b (edges_from g) [(trigger_id g, 0)] \<lparr>steps = [], planned = []\<rparr>"
      using ag.frontier_start [OF facts(1)] ag.arrives.at_start
      by (simp add: eval_inv_def visited_ids_def tasks_match_def)
    then obtain r out where "eval_loop (length (anodes g)) g (edges_from g) ev ct ?b [(trigger_id g, 0)]
        \<lparr>steps = [], planned = []\<rparr> = Some (Inr r)" "eval_inv g ?b out [] r"
      using eval_loop_ok [OF facts(1) assms(3) ev facts(2)] by force
    with True v trigger_node_eq(2) [OF facts(1)] show ?thesis
      by (auto simp: evaluate_automation_graph_def)
  qed
qed

text \<open>
  C14: an accepted graph never fails on an event: evaluation returns, without an error, for every
  readable event and contact.
\<close>
theorem accepted_graph_evaluates:
  assumes "valid_graph order g" and "visits_all order" and "readable ev ct"
  shows "\<exists>r. evaluate_automation_graph order g (Some ev) ct base now = Some (Inr r)"
  using evaluation_facts [OF assms] by blast

text \<open>
  C22: the evaluation of an accepted graph runs no node twice, plans exactly one task for every task
  node it ran, in the order it ran them, and none when the event is not one of the trigger's.
\<close>
theorem evaluation_runs_once:
  assumes "valid_graph order g" and "visits_all order" and "readable ev ct"
    and "evaluate_automation_graph order g (Some ev) ct base now = Some (Inr r)"
  shows "distinct (map st_node (steps r)) \<and> set (map st_node (steps r)) \<subseteq> nid ` set (anodes g)
    \<and> (event_type ev \<in> set (trigger_types g) \<longrightarrow>
        map pt_node (planned r) = map st_node (filter (\<lambda>s. st_type s = ''create_task'') (steps r)))
    \<and> (event_type ev \<notin> set (trigger_types g) \<longrightarrow> planned r = [])"
proof (cases "event_type ev \<in> set (trigger_types g)")
  case True
  then show ?thesis
    using evaluation_facts [OF assms(1-3), of base now] assms(4)
    by (auto simp: eval_inv_def ag.frontier_def visited_ids_def tasks_match_def)
next
  case False
  have "nid (trigger_node g) \<in> nid ` set (anodes g)"
    using trigger_node_eq(1) [OF valid_graph_facts(1) [OF assms(1,2)]] by blast
  with False show ?thesis
    using evaluation_facts [OF assms(1-3), of base now] assms(4)
    by (auto simp: mismatch_evaluation_def blank_step_def)
qed

text \<open>
  C23: every task planned for an event has a title of 1 to 255 runes, a description of at most 4000,
  one of the four priorities, a known owner mode, a reminder that is not after the due time, and is
  scheduled between the base time and thirty days after it.
\<close>
theorem planned_tasks_well_formed:
  assumes "valid_graph order g" and "visits_all order" and "readable ev ct" and "base \<noteq> zero_time"
    and "evaluate_automation_graph order g (Some ev) ct base now = Some (Inr r)"
    and "t \<in> set (planned r)"
  shows "task_ok base t"
  using evaluation_facts [OF assms(1-3), of base now] assms(4-6)
  by (auto simp: eval_inv_def mismatch_evaluation_def split: if_splits)

end
