(* ===== verification/AutomationTotal.thy ===== *)
theory AutomationTotal
  imports AutomationCorrect
begin

text \<open>
  Validation returns on every graph, drafts with cycles, dangling edges or several triggers
  included: the depth and the number of turns given to its two searches are enough. The sample
  policy at the end witnesses the properties of accepted graphs.
\<close>

section \<open>The scans keep their data consistent\<close>

lemma scan_node_known:
  "known (scan_node s n) = known s \<or>
     known (scan_node s n) = known s @ [n] \<and> nid n \<notin> set (map nid (known s))"
  by (simp add: scan_node_def scan_content_fields)

lemma scan_node_triggers:
  assumes "set (triggers s) \<subseteq> set (map nid (known s))"
  shows "set (triggers (scan_node s n)) \<subseteq> set (map nid (known (scan_node s n)))"
  using assms by (auto simp: scan_node_def scan_content_fields kind_ids_def)

lemma scan_nodes_consistent:
  assumes "distinct (map nid (known s))" and "set (triggers s) \<subseteq> set (map nid (known s))"
  shows "distinct (map nid (known (foldl scan_node s ns)))
    \<and> set (triggers (foldl scan_node s ns)) \<subseteq> set (map nid (known (foldl scan_node s ns)))"
  using assms
proof (induction ns arbitrary: s)
  case (Cons n ns)
  have "distinct (map nid (known (scan_node s n)))"
    using Cons.prems(1) scan_node_known [of s n] by auto
  then show ?case using Cons.IH scan_node_triggers [OF Cons.prems(2)] by simp
qed simp

definition edges_known :: "anode list \<Rightarrow> aedge list \<Rightarrow> bool" where
  "edges_known ns es \<longleftrightarrow> (\<forall>e\<in>set es. tgt e \<in> nid ` set ns)"

lemma scan_edge_known:
  assumes "edges_known ns (accepted s)"
  shows "edges_known ns (accepted (scan_edge ns k e s))"
proof -
  have "tgt e \<in> nid ` set ns" if "lookup_node ns (tgt e) = Some n" for n
    using lookup_node_SomeD [OF that] by (metis image_eqI)
  with assms show ?thesis
    by (auto simp: scan_edge_def edges_known_def split: option.split)
qed

lemma scan_edges_known:
  "edges_known ns (accepted s) \<Longrightarrow> edges_known ns (accepted (scan_edges ns k es s))"
  by (induction ns k es s rule: scan_edges.induct) (simp_all add: scan_edge_known)

section \<open>The walk returns\<close>

lemma walk_returns:
  assumes tgts: "\<And>e. e \<in> set es \<Longrightarrow> tgt e \<in> ids" and fin: "finite ids"
  shows "distinct act \<Longrightarrow> set act \<subseteq> ids \<Longrightarrow> i \<in> ids \<Longrightarrow> card ids < d + length act \<Longrightarrow>
      walk d es act i st \<noteq> None"
    and "distinct act \<Longrightarrow> set act \<subseteq> ids \<Longrightarrow> set out \<subseteq> set es \<Longrightarrow> card ids < d + length act \<Longrightarrow>
      walk_targets d es act out st \<noteq> None"
  using tgts
proof (induction d es act i st and d es act out st rule: walk_walk_targets.induct)
  case (1 es act i st)
  then have "card ids < card (set act)" by (simp add: distinct_card)
  with 1 fin show ?case using card_mono [OF fin, of "set act"] by simp
next
  case (2 d es act i visited errs)
  show ?case
  proof (cases "i \<in> set act \<or> i \<in> set visited")
    case False
    then have "walk_targets d es (i # act) (outgoing es i) (visited, errs) \<noteq> None"
      using 2 by (intro "2.IH") (auto simp: outgoing_def)
    with False show ?thesis by (auto split: option.split)
  qed auto
next
  case (4 d es act e rest st)
  then show ?case by (auto split: option.split)
qed simp

section \<open>The longest-delay loop returns\<close>

text \<open>
  Whatever the graph, a node waits in the queue or has been taken exactly when its remaining
  incoming count has come down to zero or below, so it enters the queue once.
\<close>

definition kahn_inv :: "anode list \<Rightarrow> string list \<Rightarrow> delay_state \<Rightarrow> bool" where
  "kahn_inv ns taken s \<longleftrightarrow>
     distinct (taken @ dqueue s) \<and> set (taken @ dqueue s) \<subseteq> nid ` set ns
     \<and> (\<forall>y\<in>nid ` set ns. y \<in> set (taken @ dqueue s) \<longleftrightarrow> remaining s y \<le> 0)"

lemma relax_kahn:
  "kahn_inv ns taken s \<Longrightarrow> (\<forall>e\<in>set es. tgt e \<in> nid ` set ns) \<Longrightarrow> kahn_inv ns taken (relax r c es s)"
proof (induction r c es s rule: relax.induct)
  case (2 r c e es s)
  let ?y = "tgt e"
  let ?s1 = "if r then s\<lparr>reached := (reached s)(?y := True),
              best := (if c > best s ?y then (best s)(?y := c) else best s)\<rparr> else s"
  let ?s2 = "?s1\<lparr>remaining := (remaining ?s1)(?y := remaining ?s1 ?y - 1)\<rparr>"
  let ?s3 = "if remaining ?s2 ?y = 0 then ?s2\<lparr>dqueue := dqueue ?s2 @ [?y]\<rparr> else ?s2"
  have fields: "dqueue ?s1 = dqueue s" "remaining ?s1 = remaining s" by simp_all
  have y: "?y \<in> nid ` set ns" using 2(3) by simp
  have "kahn_inv ns taken ?s3"
  proof (cases "remaining s ?y = 1")
    case True
    then have "?y \<notin> set (taken @ dqueue s)" using 2(2) y by (auto simp: kahn_inv_def)
    with True 2(2) y fields show ?thesis by (auto simp: kahn_inv_def)
  next
    case False
    with 2(2) y fields show ?thesis by (auto simp: kahn_inv_def)
  qed
  then have "kahn_inv ns taken (relax r c es ?s3)"
    using 2(1) [OF refl refl refl] 2(3) by simp
  then show ?case by (simp add: Let_def)
qed simp

lemma delay_turn_kahn:
  assumes "kahn_inv ns taken s" and "dqueue s = i # q" and "edges_known ns es"
  shows "kahn_inv ns (taken @ [i]) (delay_turn ns es i (s\<lparr>dqueue := q\<rparr>))"
proof -
  have start: "kahn_inv ns (taken @ [i]) (s\<lparr>dqueue := q, derrors := errs\<rparr>)" for errs
    using assms(1,2) by (simp add: kahn_inv_def)
  have start0: "kahn_inv ns (taken @ [i]) (s\<lparr>dqueue := q\<rparr>)"
    using assms(1,2) by (simp add: kahn_inv_def)
  have "\<forall>e\<in>set (outgoing es i). tgt e \<in> nid ` set ns"
    using assms(3) by (simp add: outgoing_def edges_known_def)
  then show ?thesis
    unfolding delay_turn_def Let_def
    by (auto split: prod.split intro!: relax_kahn start start0)
qed

lemma delay_loop_returns:
  assumes "edges_known ns es"
  shows "kahn_inv ns taken s \<Longrightarrow> length ns \<le> k + length taken \<Longrightarrow> delay_loop k ns es s \<noteq> None"
proof (induction k arbitrary: s taken)
  case 0
  have "card (set (taken @ dqueue s)) \<le> card (nid ` set ns)"
    using 0 by (intro card_mono) (auto simp: kahn_inv_def)
  also have "\<dots> \<le> length ns" by (metis card_length image_set length_map)
  also have "card (set (taken @ dqueue s)) = length (taken @ dqueue s)"
    using 0 by (simp only: kahn_inv_def distinct_card)
  finally have "dqueue s = []" using 0 by (simp flip: length_0_conv)
  then show ?case by simp
next
  case (Suc k)
  show ?case
  proof (cases "dqueue s")
    case (Cons i q)
    have "delay_loop k ns es (delay_turn ns es i (s\<lparr>dqueue := q\<rparr>)) \<noteq> None"
      by (rule Suc.IH [OF delay_turn_kahn [OF Suc.prems(1) Cons assms]]) (use Suc.prems in simp)
    with Cons show ?thesis by simp
  qed simp
qed

lemma delay_start_kahn:
  assumes "distinct (map nid ns)"
  shows "kahn_inv ns [] (delay_start ns es start)"
  using assms by (auto simp: kahn_inv_def delay_start_def distinct_map intro: distinct_filter)

text \<open>
  C24: validation terminates with a result on every graph, for drafts as for activation, whatever
  the order in which Go iterates over its map.
\<close>
theorem validation_total:
  "\<exists>v. validate_automation_graph order activation g = Some v"
proof -
  let ?s = "foldl scan_node empty_scan (anodes g)"
  let ?es = "accepted (scan_edges (known ?s) 0 (aedges g) \<lparr>accepted = [], eerrors = []\<rparr>)"
  have cons: "distinct (map nid (known ?s))" "set (triggers ?s) \<subseteq> set (map nid (known ?s))"
    using scan_nodes_consistent [of empty_scan "anodes g"] by (simp_all add: empty_scan_def)
  have edges: "edges_known (known ?s) ?es"
    by (rule scan_edges_known) (simp add: edges_known_def)
  have "reach_issues (known ?s) ?es t \<noteq> None" if t: "t \<in> set (map nid (known ?s))" for t
  proof -
    have "walk (Suc (length (known ?s))) ?es [] t ([], []) \<noteq> None"
      by (rule walk_returns(1) [where ids = "nid ` set (known ?s)"])
        (use edges t in \<open>auto simp: edges_known_def le_imp_less_Suc card_length
          intro!: le_imp_less_Suc order.trans [OF card_image_le card_length]\<close>)
    moreover have "delay_loop (length (known ?s)) (known ?s) ?es (delay_start (known ?s) ?es t) \<noteq> None"
      by (rule delay_loop_returns [OF edges delay_start_kahn [OF cons(1)]]) simp
    ultimately show ?thesis by (auto simp: reach_issues_def)
  qed
  moreover have "hd (triggers ?s) \<in> set (map nid (known ?s))" if "length (triggers ?s) = 1"
    using cons(2) that by (cases "triggers ?s") auto
  ultimately show ?thesis
    unfolding validate_automation_graph_def Let_def by (auto split: option.split)
qed

section \<open>A sample policy\<close>

definition sample_node :: "string \<Rightarrow> string \<Rightarrow> jsonb \<Rightarrow> anode" where
  "sample_node i t c = \<lparr>nid = i, ntype = t, nconfig = c, nposition = None\<rparr>"

definition sample_graph :: agraph where
  "sample_graph = \<lparr>anodes =
     [sample_node ''t'' ''trigger'' [(''event_type'', Str ''task.completed'')],
      sample_node ''c'' ''condition'' [(''field'', Str ''event.title''), (''operator'', Str ''equals''),
        (''value'', Str ''Hi'')],
      sample_node ''d'' ''delay'' [(''minutes'', Integer 30)],
      sample_node ''a'' ''create_task'' [(''title'', Str ''{{event.title}}'')]],
    aedges = [\<lparr>src = ''t'', tgt = ''c'', branch = []\<rparr>, \<lparr>src = ''c'', tgt = ''d'', branch = ''true''\<rparr>,
      \<lparr>src = ''d'', tgt = ''a'', branch = ''always''\<rparr>]\<rparr>"

definition sample_event :: activity_event where
  "sample_event = \<lparr>event_type = ''task.completed'', category = ''task'', source_object_type = ''task'',
     actor_type = ''user'', title = ''Hi'', summary = [], metadata = []\<rparr>"

lemma sample_valid: "valid_graph (\<lambda>ks. ks) sample_graph"
proof -
  have "(case validate_automation_graph (\<lambda>ks. ks) True sample_graph of
      None \<Rightarrow> False | Some v \<Rightarrow> verrors v = [])" by code_simp
  then show ?thesis by (auto simp: valid_graph_def split: option.splits)
qed

lemma sample_visits: "visits_all (\<lambda>ks. ks)"
  by (simp add: visits_all_def)

lemma sample_readable: "readable sample_event None"
proof -
  have "valid_utf8 ''Hi'' \<and> valid_utf8 ''''" by code_simp
  then show ?thesis by (simp add: readable_def sample_event_def)
qed

lemmas sample_facts = sample_valid sample_visits sample_readable


section \<open>Witnesses\<close>

theorem accepted_graph_is_tree_witness:
  "incoming (aedges sample_graph) (trigger_id sample_graph) = 0
    \<and> incoming (aedges sample_graph) ''a'' = 1 \<and> length (anodes sample_graph) \<le> 50"
proof -
  have "\<exists>n\<in>set (anodes sample_graph). nid n = ''a'' \<and> nid n \<noteq> trigger_id sample_graph" by code_simp
  then show ?thesis
    using accepted_graph_is_tree [OF sample_valid sample_visits] by auto
qed

lemma sample_arrives: "ag.arrives sample_graph (weight sample_graph) ''c'' 0"
proof -
  have "trigger_id sample_graph = ''t''" "''c'' \<in> set (target_ids sample_graph ''t'')"
    "weight sample_graph ''t'' = 0"
    by code_simp+
  then show ?thesis
    using ag.arrives.at_start [of sample_graph "weight sample_graph"]
      ag.arrives.at_succ [of sample_graph "weight sample_graph" "''t''" 0 "''c''"] by simp
qed

theorem accepted_graph_delays_bounded_witness:
  "(0::int) \<le> 0 \<and> 0 + weight sample_graph ''c'' \<le> max_delay_minutes"
  by (rule accepted_graph_delays_bounded [OF sample_valid sample_visits sample_arrives])

theorem accepted_graph_evaluates_witness:
  "\<exists>r. evaluate_automation_graph (\<lambda>ks. ks) sample_graph (Some sample_event) None 0 0 = Some (Inr r)"
  by (rule accepted_graph_evaluates [OF sample_facts])

lemma sample_run:
  obtains r where
    "evaluate_automation_graph (\<lambda>ks. ks) sample_graph (Some sample_event) None 0 0 = Some (Inr r)"
    and "map st_node (steps r) = [''t'', ''c'', ''d'', ''a'']" and "map pt_title (planned r) = [''Hi'']"
proof -
  have "(case evaluate_automation_graph (\<lambda>ks. ks) sample_graph (Some sample_event) None 0 0 of
      Some (Inr r) \<Rightarrow> map st_node (steps r) = [''t'', ''c'', ''d'', ''a''] \<and> map pt_title (planned r) = [''Hi'']
    | _ \<Rightarrow> False)" by code_simp
  then show ?thesis using that by (simp split: option.splits sum.splits)
qed

theorem evaluation_runs_once_witness:
  "\<exists>r::evaluation. map st_node (steps r) = [''t'', ''c'', ''d'', ''a''] \<and> distinct (map st_node (steps r))"
proof (rule sample_run)
  fix r
  assume "evaluate_automation_graph (\<lambda>ks. ks) sample_graph (Some sample_event) None 0 0 = Some (Inr r)"
    and s: "map st_node (steps r) = [''t'', ''c'', ''d'', ''a'']"
  from evaluation_runs_once [OF sample_facts this(1)] have "distinct (map st_node (steps r))" ..
  with s show ?thesis by (intro exI [of _ r] conjI)
qed

theorem planned_tasks_well_formed_witness:
  "\<exists>t. pt_title t = ''Hi'' \<and> task_ok 0 t"
proof (rule sample_run)
  fix r
  assume r: "evaluate_automation_graph (\<lambda>ks. ks) sample_graph (Some sample_event) None 0 0 = Some (Inr r)"
    and "map pt_title (planned r) = [''Hi'']"
  then obtain t ts where t: "planned r = t # ts" "pt_title t = ''Hi''" by (cases "planned r") simp_all
  have "(0::time) \<noteq> zero_time" by (simp add: zero_time_def)
  from planned_tasks_well_formed [OF sample_facts this r, of t] t have "task_ok 0 t" by simp
  with t(2) show ?thesis by (intro exI [of _ t] conjI)
qed

end
