(* ===== verification/Store.thy ===== *)
theory Store
  imports GoStd
begin

text \<open>
  The database session the transactional code runs on. The tables are a type parameter. Every
  statement first polls a list of injected faults, so each \<^verbatim>\<open>if err != nil\<close> of the code is a branch
  that some state reaches; a transaction that fails puts the tables back. Transactions run one
  after the other: the code takes row locks (\<^verbatim>\<open>SELECT ... FOR UPDATE\<close>) on what it decides on.
  \<open>uuid.New\<close> belongs to a third-party package: the \<open>n\<close>-th identifier it makes is a parameter.
\<close>

section \<open>Errors\<close>

text \<open>
  The domain error of package \<open>booking\<close> (kind and message), the client errors of the handlers (HTTP
  status and message), \<open>gorm.ErrRecordNotFound\<close>, an error of the database driver, any other error.
\<close>

datatype err =
    DomainError string string
  | ClientError nat string
  | RecordNotFound
  | DriverError string
  | OtherError string

definition bad_request :: nat where "bad_request = 400"
definition payment_required :: nat where "payment_required = 402"
definition not_found :: nat where "not_found = 404"
definition conflict_status :: nat where "conflict_status = 409"
definition server_error :: nat where "server_error = 500"

section \<open>Sessions and statements\<close>

record 't db =
  tabs :: 't
  faults :: "string option list"
  minted :: nat

type_synonym ('t, 'a) tx = "('t db, err, 'a) action"

definition poll :: "('t, unit) tx" where
  "poll s = (case faults s of
     [] \<Rightarrow> (Inr (), s)
   | None # fs \<Rightarrow> (Inr (), s\<lparr>faults := fs\<rparr>)
   | Some m # fs \<Rightarrow> (Inl (DriverError m), s\<lparr>faults := fs\<rparr>))"

text \<open>A statement that reads, and one that writes or violates a constraint.\<close>

definition query :: "('t \<Rightarrow> 'a) \<Rightarrow> ('t, 'a) tx" where
  "query q = and_then poll (\<lambda>_ s. (Inr (q (tabs s)), s))"

definition execute :: "('t \<Rightarrow> err + 'a \<times> 't) \<Rightarrow> ('t, 'a) tx" where
  "execute f = and_then poll (\<lambda>_ s. case f (tabs s) of
     Inl e \<Rightarrow> (Inl e, s)
   | Inr (a, t) \<Rightarrow> (Inr a, s\<lparr>tabs := t\<rparr>))"

text \<open>\<open>First\<close> on a query: the row, or \<open>gorm.ErrRecordNotFound\<close>.\<close>

definition first :: "('t \<Rightarrow> 'r option) \<Rightarrow> ('t, 'r) tx" where
  "first q = and_then (query q) (\<lambda>found. case found of None \<Rightarrow> fail RecordNotFound | Some r \<Rightarrow> ret r)"

text \<open>The handler that answers any error of \<open>m\<close> with the error \<open>e\<close>.\<close>

definition or_fail :: "('s, err, 'a) action \<Rightarrow> err \<Rightarrow> ('s, err, 'a) action" where
  "or_fail m e s = (case m s of (Inl _, t) \<Rightarrow> (Inl e, t) | (Inr a, t) \<Rightarrow> (Inr a, t))"

text \<open>The handler that answers \<open>gorm.ErrRecordNotFound\<close> with \<open>e\<close> and passes any other error on.\<close>

definition or_not_found :: "('s, err, 'a) action \<Rightarrow> err \<Rightarrow> ('s, err, 'a) action" where
  "or_not_found m e s = (case m s of
     (Inl e', t) \<Rightarrow> (Inl (if e' = RecordNotFound then e else e'), t)
   | (Inr a, t) \<Rightarrow> (Inr a, t))"

definition mint :: "(nat \<Rightarrow> uuid) \<Rightarrow> ('t, uuid) tx" where
  "mint fresh s = (Inr (fresh (minted s)), s\<lparr>minted := Suc (minted s)\<rparr>)"

text \<open>\<open>db.Transaction\<close>: begin, the body, commit; the tables are put back unless all three succeed.\<close>

definition transaction :: "('t, 'a) tx \<Rightarrow> ('t, 'a) tx" where
  "transaction m s =
     (case and_then poll (\<lambda>_. and_then m (\<lambda>a. and_then poll (\<lambda>_. ret a))) s of
        (Inl e, t) \<Rightarrow> (Inl e, t\<lparr>tabs := tabs s\<rparr>)
      | (Inr a, t) \<Rightarrow> (Inr a, t))"

section \<open>Selecting rows\<close>

text \<open>The first row of a result in the given order (earlier rows win ties).\<close>

fun first_in :: "('r \<Rightarrow> 'r \<Rightarrow> bool) \<Rightarrow> 'r list \<Rightarrow> 'r option" where
  "first_in before [] = None"
| "first_in before (r # rs) =
     (case first_in before rs of
        None \<Rightarrow> Some r
      | Some q \<Rightarrow> if before q r then Some q else Some r)"

text \<open>\<open>First\<close> without an order takes the least primary key.\<close>

definition by_key :: "('r \<Rightarrow> uuid) \<Rightarrow> 'r \<Rightarrow> 'r \<Rightarrow> bool" where
  "by_key k q r \<longleftrightarrow> k q < k r"

lemma first_in_SomeD: "first_in before rs = Some r \<Longrightarrow> r \<in> set rs"
  by (induction rs arbitrary: r) (auto split: option.splits if_splits)

lemma first_in_None_iff [simp]: "first_in before rs = None \<longleftrightarrow> rs = []"
  by (cases rs) (auto split: option.splits)

lemma first_in_filterD: "first_in before (filter p rs) = Some r \<Longrightarrow> r \<in> set rs \<and> p r"
  using first_in_SomeD by fastforce

lemma first_in_single: "filter p rs = [r] \<Longrightarrow> first_in before (filter p rs) = Some r"
  by simp

section \<open>What a successful statement says\<close>

lemma and_then_Inr:
  "and_then m f s = (Inr b, u) \<longleftrightarrow> (\<exists>a t. m s = (Inr a, t) \<and> f a t = (Inr b, u))"
  by (auto simp: and_then_def split: prod.splits sum.splits)

lemma ret_Inr: "ret a s = (Inr b, u) \<longleftrightarrow> b = a \<and> u = s"
  by (auto simp: ret_def)

lemma fail_Inr: "fail e s = (Inr b, u) \<longleftrightarrow> False"
  by (simp add: fail_def)

lemma lift_res_Inr: "lift_res r s = (Inr b, u) \<longleftrightarrow> r = Inr b \<and> u = s"
  by (auto simp: lift_res_def)

lemma or_fail_Inr: "or_fail m e s = (Inr b, u) \<longleftrightarrow> m s = (Inr b, u)"
  by (auto simp: or_fail_def split: prod.splits sum.splits)

lemma or_not_found_Inr: "or_not_found m e s = (Inr b, u) \<longleftrightarrow> m s = (Inr b, u)"
  by (auto simp: or_not_found_def split: prod.splits sum.splits)

lemmas ok_simps = and_then_Inr ret_Inr fail_Inr lift_res_Inr or_fail_Inr or_not_found_Inr reject_Inr

lemma poll_Inr:
  "poll s = (Inr a, u) \<Longrightarrow> tabs u = tabs s \<and> minted u = minted s"
  by (auto simp: poll_def split: list.splits option.splits)

lemma query_Inr:
  assumes "query q s = (Inr a, u)"
  shows "a = q (tabs s) \<and> tabs u = tabs s \<and> minted u = minted s"
proof -
  from assms obtain x t where "poll s = (Inr x, t)" "a = q (tabs t)" "u = t"
    by (auto simp: query_def and_then_Inr)
  then show ?thesis using poll_Inr [of s x t] by simp
qed

lemma execute_Inr:
  assumes "execute f s = (Inr a, u)"
  shows "f (tabs s) = Inr (a, tabs u) \<and> minted u = minted s"
proof -
  from assms obtain x t where p: "poll s = (Inr x, t)"
    and f: "(case f (tabs t) of Inl e \<Rightarrow> (Inl e, t) | Inr (a, t') \<Rightarrow> (Inr a, t\<lparr>tabs := t'\<rparr>)) = (Inr a, u)"
    unfolding execute_def and_then_Inr by blast
  from f obtain t' where "f (tabs t) = Inr (a, t')" "u = t\<lparr>tabs := t'\<rparr>"
    by (cases "f (tabs t)") auto
  with poll_Inr [OF p] show ?thesis by simp
qed

lemma first_Inr:
  assumes "first q s = (Inr r, u)"
  shows "q (tabs s) = Some r \<and> tabs u = tabs s \<and> minted u = minted s"
proof -
  from assms obtain x t where p: "query q s = (Inr x, t)"
    and f: "(case x of None \<Rightarrow> fail RecordNotFound | Some r \<Rightarrow> ret r) t = (Inr r, u)"
    unfolding first_def and_then_Inr by blast
  from f have "x = Some r" "u = t" by (cases x; simp add: ret_Inr fail_Inr)+
  with query_Inr [OF p] show ?thesis by simp
qed

lemma mint_Inr:
  "mint fresh s = (Inr i, u) \<Longrightarrow> i = fresh (minted s) \<and> tabs u = tabs s \<and> minted u = Suc (minted s)"
  by (auto simp: mint_def)

lemma transaction_Inr:
  assumes "transaction m s = (Inr a, u)"
  obtains s1 u1 where "m s1 = (Inr a, u1)" "tabs s1 = tabs s" "minted s1 = minted s"
    "tabs u = tabs u1" "minted u = minted u1"
proof -
  have "and_then poll (\<lambda>_. and_then m (\<lambda>a. and_then poll (\<lambda>_. ret a))) s = (Inr a, u)"
    using assms by (auto simp: transaction_def split: prod.splits sum.splits)
  then obtain x s1 y u1 where p: "poll s = (Inr x, s1)" "m s1 = (Inr a, u1)" "poll u1 = (Inr y, u)"
    by (auto simp: and_then_Inr ret_Inr)
  show ?thesis using that [OF p(2)] poll_Inr [OF p(1)] poll_Inr [OF p(3)] by simp
qed

text \<open>A transaction that fails leaves the tables as it found them.\<close>

lemma transaction_Inl: "transaction m s = (Inl e, u) \<Longrightarrow> tabs u = tabs s"
  by (auto simp: transaction_def split: prod.splits sum.splits)

lemma transaction_invariant:
  assumes "\<And>s1 a u1. m s1 = (Inr a, u1) \<Longrightarrow> I (tabs s1) \<Longrightarrow> I (tabs u1)" and "I (tabs s)"
  shows "I (tabs (snd (transaction m s)))"
proof (cases "transaction m s")
  case (Pair r u)
  show ?thesis
  proof (cases r)
    case (Inl e)
    with Pair have "tabs u = tabs s" using transaction_Inl by fastforce
    with Pair assms(2) show ?thesis by simp
  next
    case (Inr a)
    with Pair have "transaction m s = (Inr a, u)" by simp
    then obtain s1 u1 where "m s1 = (Inr a, u1)" "tabs s1 = tabs s" "tabs u = tabs u1"
      by (rule transaction_Inr) simp
    with assms(1) [of s1 a u1] assms(2) Pair show ?thesis by simp
  qed
qed

section \<open>Statements when no fault is injected\<close>

lemma poll_calm [act_simps]: "faults s = [] \<Longrightarrow> poll s = (Inr (), s)"
  by (simp add: poll_def)

lemma query_calm [act_simps]: "faults s = [] \<Longrightarrow> query q s = (Inr (q (tabs s)), s)"
  by (simp add: query_def and_then_def poll_calm)

lemma execute_calm [act_simps]:
  "faults s = [] \<Longrightarrow> execute f s =
     (case f (tabs s) of Inl e \<Rightarrow> (Inl e, s) | Inr (a, t) \<Rightarrow> (Inr a, s\<lparr>tabs := t\<rparr>))"
  by (simp add: execute_def and_then_def poll_calm)

lemma first_calm [act_simps]:
  "faults s = [] \<Longrightarrow> first q s =
     (case q (tabs s) of None \<Rightarrow> (Inl RecordNotFound, s) | Some r \<Rightarrow> (Inr r, s))"
  by (simp add: first_def and_then_def query_calm ret_def fail_def split: option.split)

lemma or_fail_run [act_simps]:
  "or_fail m e s = (case m s of (Inl _, t) \<Rightarrow> (Inl e, t) | (Inr a, t) \<Rightarrow> (Inr a, t))"
  by (simp add: or_fail_def)

lemma or_not_found_run [act_simps]:
  "or_not_found m e s = (case m s of
     (Inl e', t) \<Rightarrow> (Inl (if e' = RecordNotFound then e else e'), t) | (Inr a, t) \<Rightarrow> (Inr a, t))"
  by (simp add: or_not_found_def)

lemma mint_run [act_simps]:
  "mint fresh s = (Inr (fresh (minted s)), s\<lparr>minted := Suc (minted s)\<rparr>)"
  by (simp add: mint_def)

section \<open>Reading actions\<close>

text \<open>An action that leaves the tables as they are.\<close>

definition reads :: "('t, 'a) tx \<Rightarrow> bool" where
  "reads m \<longleftrightarrow> (\<forall>s. tabs (snd (m s)) = tabs s)"

named_theorems reads_intros

lemma reads_Inr: "reads m \<Longrightarrow> m s = (Inr a, u) \<Longrightarrow> tabs u = tabs s"
  unfolding reads_def by (metis snd_conv)

lemma reads_ret [reads_intros]: "reads (ret a)"
  by (simp add: reads_def ret_def)

lemma reads_fail [reads_intros]: "reads (fail e)"
  by (simp add: reads_def fail_def)

lemma reads_reject [reads_intros]: "reads (reject c e)"
  by (simp add: reads_def reject_def ret_def fail_def)

lemma reads_lift_res [reads_intros]: "reads (lift_res r)"
  by (simp add: reads_def lift_res_def)

lemma reads_poll [reads_intros]: "reads poll"
  by (auto simp: reads_def poll_def split: list.split option.split)

lemma reads_and_then [reads_intros]:
  "reads m \<Longrightarrow> (\<And>a. reads (f a)) \<Longrightarrow> reads (and_then m f)"
  unfolding reads_def and_then_def by (auto split: prod.split sum.split) (metis snd_conv)+

lemma reads_query [reads_intros]: "reads (query q)"
  unfolding query_def by (intro reads_intros) (simp add: reads_def)

lemma reads_if [reads_intros]: "reads m \<Longrightarrow> reads n \<Longrightarrow> reads (if c then m else n)"
  by simp

lemma reads_case_option [reads_intros]:
  "reads m \<Longrightarrow> (\<And>x. reads (f x)) \<Longrightarrow> reads (case v of None \<Rightarrow> m | Some x \<Rightarrow> f x)"
  by (cases v) auto

lemma reads_first [reads_intros]: "reads (first q)"
  unfolding first_def by (intro reads_intros)

lemma reads_or_fail [reads_intros]: "reads m \<Longrightarrow> reads (or_fail m e)"
  unfolding reads_def or_fail_def by (auto split: prod.split sum.split) (metis snd_conv)+

lemma reads_or_not_found [reads_intros]: "reads m \<Longrightarrow> reads (or_not_found m e)"
  unfolding reads_def or_not_found_def by (auto split: prod.split sum.split) (metis snd_conv)+

lemma reads_mint [reads_intros]: "reads (mint fresh)"
  by (simp add: reads_def mint_def)

end
