(* ===== verification/Records.thy ===== *)
theory Records
  imports AutomationEvaluate Store
begin

text \<open>
  The rows of \<^verbatim>\<open>internal/models\<close> that booking and commerce read and write: one record per struct,
  a field per column the code uses, \<open>option\<close> for a nullable column, \<open>deleted\<close> for the soft-delete
  mark that every query of a \<open>BaseModel\<close> filters on. The associations a query preloads are looked up
  by the code that uses them. \<open>members\<close> holds the active users of each organization. \<open>tables\<close> is the database.
\<close>

section \<open>Lifecycles\<close>

text \<open>The status columns are strings; these are the values the code gives them.\<close>

definition s_reserved :: string where "s_reserved = ''reserved''"
definition s_confirmed :: string where "s_confirmed = ''confirmed''"
definition s_waitlisted :: string where "s_waitlisted = ''waitlisted''"
definition s_checked_in :: string where "s_checked_in = ''checked_in''"
definition s_completed :: string where "s_completed = ''completed''"
definition s_no_show :: string where "s_no_show = ''no_show''"
definition s_cancelled :: string where "s_cancelled = ''cancelled''"

definition s_scheduled :: string where "s_scheduled = ''scheduled''"

lemmas booking_status_defs =
  s_reserved_def s_confirmed_def s_waitlisted_def s_checked_in_def s_completed_def s_no_show_def
  s_cancelled_def

lemma booking_status_neqs [simp]:
  "s_reserved \<noteq> s_confirmed" "s_reserved \<noteq> s_waitlisted" "s_reserved \<noteq> s_checked_in"
  "s_reserved \<noteq> s_completed" "s_reserved \<noteq> s_no_show" "s_reserved \<noteq> s_cancelled"
  "s_confirmed \<noteq> s_reserved" "s_confirmed \<noteq> s_waitlisted" "s_confirmed \<noteq> s_checked_in"
  "s_confirmed \<noteq> s_completed" "s_confirmed \<noteq> s_no_show" "s_confirmed \<noteq> s_cancelled"
  "s_waitlisted \<noteq> s_reserved" "s_waitlisted \<noteq> s_confirmed" "s_waitlisted \<noteq> s_checked_in"
  "s_waitlisted \<noteq> s_completed" "s_waitlisted \<noteq> s_no_show" "s_waitlisted \<noteq> s_cancelled"
  "s_checked_in \<noteq> s_reserved" "s_checked_in \<noteq> s_confirmed" "s_checked_in \<noteq> s_waitlisted"
  "s_checked_in \<noteq> s_completed" "s_checked_in \<noteq> s_no_show" "s_checked_in \<noteq> s_cancelled"
  "s_completed \<noteq> s_reserved" "s_completed \<noteq> s_confirmed" "s_completed \<noteq> s_waitlisted"
  "s_completed \<noteq> s_checked_in" "s_completed \<noteq> s_no_show" "s_completed \<noteq> s_cancelled"
  "s_no_show \<noteq> s_reserved" "s_no_show \<noteq> s_confirmed" "s_no_show \<noteq> s_waitlisted"
  "s_no_show \<noteq> s_checked_in" "s_no_show \<noteq> s_completed" "s_no_show \<noteq> s_cancelled"
  "s_cancelled \<noteq> s_reserved" "s_cancelled \<noteq> s_confirmed" "s_cancelled \<noteq> s_waitlisted"
  "s_cancelled \<noteq> s_checked_in" "s_cancelled \<noteq> s_completed" "s_cancelled \<noteq> s_no_show"
  by (simp_all add: booking_status_defs)

lemma booking_status_nonempty [simp]: "s_reserved \<noteq> []" "s_confirmed \<noteq> []" "s_waitlisted \<noteq> []" "s_checked_in \<noteq> []" "s_completed \<noteq> []" "s_no_show \<noteq> []" "s_cancelled \<noteq> []"
  by (simp_all add: booking_status_defs)

section \<open>Tenancy, contacts, subscriptions\<close>

record contact_row =
  ct_id :: uuid
  ct_org :: uuid
  ct_merged_into :: "uuid option"
  ct_deleted :: bool

record subscription_row =
  sub_id :: uuid
  sub_org :: uuid
  sub_status :: string
  sub_entitlements :: jsonb
  sub_period_end :: "time option"
  sub_trial_ends :: "time option"
  sub_grace_until :: "time option"
  sub_created_at :: time
  sub_deleted :: bool

record override_row =
  ov_org :: uuid
  ov_key :: string
  ov_value :: jsonb
  ov_active :: bool
  ov_starts :: time
  ov_expires :: "time option"
  ov_created_at :: time
  ov_deleted :: bool

section \<open>Booking\<close>

record service_row =
  sv_id :: uuid
  sv_org :: uuid
  sv_name :: string
  sv_description :: string
  sv_kind :: string
  sv_duration :: int
  sv_buffer_before :: int
  sv_buffer_after :: int
  sv_default_capacity :: int
  sv_price :: int
  sv_currency :: string
  sv_reminder :: jsonb
  sv_active :: bool
  sv_metadata :: jsonb
  sv_version :: int
  sv_created_by :: "uuid option"
  sv_updated_by :: "uuid option"
  sv_deleted :: bool

record resource_row =
  rs_id :: uuid
  rs_org :: uuid
  rs_user :: "uuid option"
  rs_name :: string
  rs_kind :: string
  rs_timezone :: string
  rs_location :: string
  rs_active :: bool
  rs_metadata :: jsonb
  rs_version :: int
  rs_created_by :: "uuid option"
  rs_updated_by :: "uuid option"
  rs_deleted :: bool

record service_resource_row =
  sr_id :: uuid
  sr_org :: uuid
  sr_service :: uuid
  sr_resource :: uuid
  sr_active :: bool
  sr_version :: int
  sr_deleted :: bool

record rule_row =
  ar_id :: uuid
  ar_org :: uuid
  ar_resource :: uuid
  ar_weekday :: int
  ar_start :: string
  ar_end :: string
  ar_from :: "time option"
  ar_until :: "time option"
  ar_active :: bool
  ar_version :: int
  ar_created_by :: "uuid option"
  ar_updated_by :: "uuid option"
  ar_deleted :: bool

record time_off_row =
  to_id :: uuid
  to_org :: uuid
  to_resource :: uuid
  to_starts :: time
  to_ends :: time
  to_reason :: string
  to_version :: int
  to_created_by :: "uuid option"
  to_updated_by :: "uuid option"
  to_deleted :: bool

record event_row =
  ev_id :: uuid
  ev_org :: uuid
  ev_service :: uuid
  ev_resource :: uuid
  ev_starts :: time
  ev_ends :: time
  ev_capacity :: int
  ev_status :: string
  ev_provider :: string
  ev_external :: string
  ev_location :: string
  ev_metadata :: jsonb
  ev_version :: int
  ev_created_by :: "uuid option"
  ev_updated_by :: "uuid option"
  ev_deleted :: bool

record booking_row =
  bk_id :: uuid
  bk_org :: uuid
  bk_event :: uuid
  bk_contact :: uuid
  bk_status :: string
  bk_quantity :: int
  bk_source :: string
  bk_notes :: string
  bk_package :: "uuid option"
  bk_booked_by :: "uuid option"
  bk_confirmed_at :: "time option"
  bk_checked_in_at :: "time option"
  bk_completed_at :: "time option"
  bk_no_show_at :: "time option"
  bk_cancelled_at :: "time option"
  bk_cancelled_by :: "uuid option"
  bk_cancel_reason :: string
  bk_key :: string
  bk_metadata :: jsonb
  bk_version :: int
  bk_updated_by :: "uuid option"
  bk_deleted :: bool

section \<open>Packages and credits\<close>

record definition_row =
  pd_id :: uuid
  pd_org :: uuid
  pd_name :: string
  pd_description :: string
  pd_price :: int
  pd_currency :: string
  pd_validity_days :: int
  pd_active :: bool
  pd_metadata :: jsonb
  pd_version :: int
  pd_created_by :: "uuid option"
  pd_updated_by :: "uuid option"
  pd_deleted :: bool

record entitlement_row =
  en_id :: uuid
  en_org :: uuid
  en_definition :: uuid
  en_service :: uuid
  en_credits :: int
  en_unlimited :: bool
  en_version :: int
  en_created_at :: time
  en_deleted :: bool

record package_row =
  cp_id :: uuid
  cp_org :: uuid
  cp_contact :: uuid
  cp_definition :: uuid
  cp_invoice :: "uuid option"
  cp_status :: string
  cp_starts :: "time option"
  cp_expires :: "time option"
  cp_amount :: int
  cp_currency :: string
  cp_source :: string
  cp_key :: string
  cp_metadata :: jsonb
  cp_version :: int
  cp_created_by :: "uuid option"
  cp_updated_by :: "uuid option"
  cp_deleted :: bool

record balance_row =
  cb_id :: uuid
  cb_org :: uuid
  cb_package :: uuid
  cb_entitlement :: uuid
  cb_granted :: int
  cb_reserved :: int
  cb_consumed :: int
  cb_available :: int
  cb_version :: int
  cb_deleted :: bool

record ledger_row =
  le_id :: uuid
  le_org :: uuid
  le_package :: uuid
  le_entitlement :: uuid
  le_booking :: "uuid option"
  le_type :: string
  le_delta :: int
  le_after :: int
  le_key :: string
  le_reason :: string
  le_actor :: "uuid option"
  le_metadata :: jsonb
  le_occurred :: time

section \<open>Invoices and payments\<close>

record invoice_row =
  iv_id :: uuid
  iv_org :: uuid
  iv_contact :: uuid
  iv_number :: string
  iv_key :: string
  iv_status :: string
  iv_currency :: string
  iv_subtotal :: int
  iv_discount :: int
  iv_tax :: int
  iv_total :: int
  iv_paid :: int
  iv_due :: int
  iv_issued_at :: "time option"
  iv_due_at :: "time option"
  iv_paid_at :: "time option"
  iv_metadata :: jsonb
  iv_version :: int
  iv_created_by :: "uuid option"
  iv_updated_by :: "uuid option"
  iv_deleted :: bool

record line_row =
  ln_id :: uuid
  ln_org :: uuid
  ln_invoice :: uuid
  ln_booking :: "uuid option"
  ln_package :: "uuid option"
  ln_definition :: "uuid option"
  ln_description :: string
  ln_quantity :: int
  ln_unit :: int
  ln_subtotal :: int
  ln_tax :: int
  ln_total :: int
  ln_metadata :: jsonb
  ln_version :: int
  ln_deleted :: bool

record account_row =
  pa_id :: uuid
  pa_org :: uuid
  pa_name :: string
  pa_provider :: string
  pa_external :: string
  pa_environment :: string
  pa_active :: bool
  pa_metadata :: jsonb
  pa_version :: int
  pa_created_by :: "uuid option"
  pa_updated_by :: "uuid option"
  pa_deleted :: bool

record intent_row =
  pi_id :: uuid
  pi_org :: uuid
  pi_account :: uuid
  pi_invoice :: uuid
  pi_contact :: uuid
  pi_key :: string
  pi_amount :: int
  pi_currency :: string
  pi_status :: string
  pi_expires :: "time option"
  pi_metadata :: jsonb
  pi_version :: int
  pi_created_by :: "uuid option"
  pi_deleted :: bool

record payment_row =
  pt_id :: uuid
  pt_org :: uuid
  pt_account :: uuid
  pt_invoice :: "uuid option"
  pt_type :: string
  pt_reference :: string
  pt_key :: string
  pt_amount :: int
  pt_currency :: string
  pt_status :: string
  pt_metadata :: jsonb
  pt_occurred :: time

section \<open>The customer timeline and the audit log\<close>

text \<open>A timeline row is the event the automation evaluates, with its keys.\<close>

record activity_row = activity_event +
  ac_id :: uuid
  ac_org :: uuid
  ac_contact :: uuid
  ac_lead :: "uuid option"
  ac_actor :: "uuid option"
  ac_source_id :: "uuid option"
  ac_occurred :: time
  ac_key :: string

record outbox_row =
  ob_id :: uuid
  ob_org :: uuid
  ob_type :: string
  ob_aggregate_type :: string
  ob_aggregate :: "uuid option"
  ob_payload :: jsonb
  ob_available :: time
  ob_status :: string
  ob_max_attempts :: int
  ob_key :: string
  ob_version :: int

record audit_row =
  au_org :: uuid
  au_type :: string
  au_resource :: uuid
  au_user :: uuid
  au_user_name :: string
  au_action :: string
  au_changes :: "jsonb list"

section \<open>What the code takes from elsewhere\<close>

text \<open>
  \<^verbatim>\<open>google/uuid\<close> (\<open>uuid.New\<close> makes the \<open>n\<close>-th identifier of the session, \<open>String\<close> prints one, \<open>Parse\<close> reads one), the
  RFC 3339 layouts of package \<^verbatim>\<open>time\<close>, the time zone database (\<open>time.LoadLocation\<close>: the offset from UTC in
  seconds at an instant), \<^verbatim>\<open>encoding/json\<close> on the rows the audit log compares, the hexadecimal SHA-256 of a
  value's JSON text (None when it cannot be written), and the \<^verbatim>\<open>LOWER\<close> of the database.
\<close>

type_synonym zone = "time \<Rightarrow> int"

record env =
  fresh_uuid :: "nat \<Rightarrow> uuid"
  show_uuid :: "uuid \<Rightarrow> string"
  parse_uuid :: "string \<Rightarrow> uuid option"
  rfc3339 :: "time \<Rightarrow> string"
  rfc3339_nano :: "time \<Rightarrow> string"
  parse_rfc3339 :: "string \<Rightarrow> time option"
  load_location :: "string \<Rightarrow> zone option"
  booking_json :: "booking_row \<Rightarrow> jsonb"
  event_json :: "event_row \<Rightarrow> jsonb"
  package_json :: "package_row \<Rightarrow> jsonb"
  invoice_json :: "invoice_row \<Rightarrow> line_row list \<Rightarrow> jsonb"
  payment_json :: "payment_row \<Rightarrow> jsonb"
  service_json :: "service_row \<Rightarrow> jsonb"
  resource_json :: "resource_row \<Rightarrow> jsonb"
  rule_json :: "rule_row \<Rightarrow> jsonb"
  time_off_json :: "time_off_row \<Rightarrow> jsonb"
  definition_json :: "definition_row \<Rightarrow> entitlement_row list \<Rightarrow> jsonb"
  intent_json :: "intent_row \<Rightarrow> jsonb"
  json_digest :: "jsonb \<Rightarrow> string option"
  db_lower :: "string \<Rightarrow> string"

section \<open>The database\<close>

record tables =
  organizations :: "uuid list"
  users :: "(uuid \<times> string) list"
  members :: "(uuid \<times> uuid) list"
  contacts :: "contact_row list"
  subscriptions :: "subscription_row list"
  overrides :: "override_row list"
  services :: "service_row list"
  resources :: "resource_row list"
  service_resources :: "service_resource_row list"
  rules :: "rule_row list"
  time_offs :: "time_off_row list"
  events :: "event_row list"
  bookings :: "booking_row list"
  definitions :: "definition_row list"
  entitlements :: "entitlement_row list"
  packages :: "package_row list"
  balances :: "balance_row list"
  ledger :: "ledger_row list"
  invoices :: "invoice_row list"
  lines :: "line_row list"
  accounts :: "account_row list"
  intents :: "intent_row list"
  payments :: "payment_row list"
  activities :: "activity_row list"
  outbox :: "outbox_row list"
  audits :: "audit_row list"

definition no_rows :: tables where
  "no_rows = \<lparr>organizations = [], users = [], members = [], contacts = [], subscriptions = [], overrides = [],
     services = [], resources = [], service_resources = [], rules = [], time_offs = [],
     events = [], bookings = [], definitions = [], entitlements = [], packages = [],
     balances = [], ledger = [], invoices = [], lines = [], accounts = [], intents = [], payments = [],
     activities = [], outbox = [], audits = []\<rparr>"

end
