(* ===== verification/Calendar.thy ===== *)
theory Calendar
  imports Records
begin

text \<open>
  What the schedule uses of package \<^verbatim>\<open>time\<close>: the civil date, weekday and clock of an instant in a zone,
  dates without an offset, and times of the day; with the helpers of
  \<^verbatim>\<open>internal/handlers/booking_availability.go\<close> built on them.
\<close>

definition second_ns :: int where "second_ns = 1000000000"
definition day_ns :: int where "day_ns = 86400 * second_ns"

lemma day_ns_pos [simp]: "0 < day_ns"
  by (simp add: day_ns_def second_ns_def)

section \<open>Civil dates\<close>

text \<open>Days since the first of January 1970 of a proleptic Gregorian date, and back.\<close>

definition days_of_civil :: "int \<times> int \<times> int \<Rightarrow> int" where
  "days_of_civil d = (case d of (y0, m, dd) \<Rightarrow>
     let y = (if m \<le> 2 then y0 - 1 else y0);
         era = y div 400;
         yoe = y - era * 400;
         doy = (153 * (if 2 < m then m - 3 else m + 9) + 2) div 5 + dd - 1;
         doe = yoe * 365 + yoe div 4 - yoe div 100 + doy
     in era * 146097 + doe - 719468)"

definition civil_of_days :: "int \<Rightarrow> int \<times> int \<times> int" where
  "civil_of_days z0 =
    (let z = z0 + 719468;
         era = z div 146097;
         doe = z - era * 146097;
         yoe = (doe - doe div 1460 + doe div 36524 - doe div 146096) div 365;
         y = yoe + era * 400;
         doy = doe - (365 * yoe + yoe div 4 - yoe div 100);
         mp = (5 * doy + 2) div 153;
         d = doy - (153 * mp + 2) div 5 + 1;
         m = (if mp < 10 then mp + 3 else mp - 9)
     in (if m \<le> 2 then y + 1 else y, m, d))"

lemma civil_examples:
  "civil_of_days 0 = (1970, 1, 1)" "civil_of_days 19782 = (2024, 2, 29)" "civil_of_days (- 1) = (1969, 12, 31)"
  "days_of_civil (2024, 2, 29) = 19782" "days_of_civil (1, 1, 1) = - 719162"
  by code_simp+

definition date_key :: "int \<times> int \<times> int \<Rightarrow> int" where
  "date_key d = (case d of (y, m, dd) \<Rightarrow> y * 10000 + m * 100 + dd)"

section \<open>An instant in a zone\<close>

definition utc :: zone where "utc t = 0"

definition local_ns :: "zone \<Rightarrow> time \<Rightarrow> int" where
  "local_ns z t = t + z t * second_ns"

definition local_civil :: "zone \<Rightarrow> time \<Rightarrow> int \<times> int \<times> int" where
  "local_civil z t = civil_of_days (local_ns z t div day_ns)"

definition local_date_key :: "zone \<Rightarrow> time \<Rightarrow> int" where
  "local_date_key z t = date_key (local_civil z t)"

definition stored_date_key :: "time \<Rightarrow> int" where
  "stored_date_key t = date_key (local_civil utc t)"

text \<open>Sunday is 0; the first of January 1970 was a Thursday.\<close>

definition local_weekday :: "zone \<Rightarrow> time \<Rightarrow> int" where
  "local_weekday z t = (local_ns z t div day_ns + 4) mod 7"

definition local_clock_ns :: "zone \<Rightarrow> time \<Rightarrow> int" where
  "local_clock_ns z t = local_ns z t mod day_ns"

lemma local_clock_bounds: "0 \<le> local_clock_ns z t \<and> local_clock_ns z t < day_ns"
  by (simp add: local_clock_ns_def)

text \<open>Midnight UTC of a date.\<close>

definition utc_midnight :: "int \<times> int \<times> int \<Rightarrow> time" where
  "utc_midnight d = days_of_civil d * day_ns"

section \<open>Times and dates in text\<close>

text \<open>The number two or four digits write, if they are digits.\<close>

definition number_at :: "string \<Rightarrow> nat \<Rightarrow> nat \<Rightarrow> int option" where
  "number_at s i n =
     (let ds = take n (drop i s) in
      if length ds = n \<and> list_all is_digit ds then Some (digits_value ds) else None)"

text \<open>\<open>availabilityLocalMinute\<close>: exactly \<^verbatim>\<open>HH:MM\<close> of a 24-hour day, as the minute of the day.\<close>

definition local_minute :: "string \<Rightarrow> int option" where
  "local_minute s =
     (if length s \<noteq> 5 \<or> s ! 2 \<noteq> CHR '':'' then None
      else (case (number_at s 0 2, number_at s 3 2) of
        (Some h, Some m) \<Rightarrow> if h < 24 \<and> m < 60 then Some (h * 60 + m) else None
      | _ \<Rightarrow> None))"

lemma digits_value_nonneg: "list_all is_digit ds \<Longrightarrow> 0 \<le> digits_value ds"
proof -
  have "0 \<le> n \<Longrightarrow> list_all is_digit ds \<Longrightarrow> 0 \<le> foldl (\<lambda>n c. 10 * n + (int (code c) - 48)) n ds" for n
    by (induction ds arbitrary: n) (auto simp: is_digit_def)
  then show "list_all is_digit ds \<Longrightarrow> 0 \<le> digits_value ds" by (simp add: digits_value_def)
qed

lemma local_minute_range: "local_minute s = Some m \<Longrightarrow> 0 \<le> m \<and> m < 1440"
  unfolding local_minute_def number_at_def Let_def
  by (auto split: if_splits option.splits dest!: digits_value_nonneg)

definition days_in_month :: "int \<Rightarrow> int \<Rightarrow> int" where
  "days_in_month y m =
     (if m = 2 then (if y mod 4 = 0 \<and> (y mod 100 \<noteq> 0 \<or> y mod 400 = 0) then 29 else 28)
      else if m \<in> {4, 6, 9, 11} then 30 else 31)"

text \<open>A date in the layout \<^verbatim>\<open>2006-01-02\<close>.\<close>

definition parse_date :: "string \<Rightarrow> (int \<times> int \<times> int) option" where
  "parse_date s =
     (if length s \<noteq> 10 \<or> s ! 4 \<noteq> CHR ''-'' \<or> s ! 7 \<noteq> CHR ''-'' then None
      else (case (number_at s 0 4, number_at s 5 2, number_at s 8 2) of
        (Some y, Some m, Some d) \<Rightarrow>
          if 1 \<le> m \<and> m \<le> 12 \<and> 1 \<le> d \<and> d \<le> days_in_month y m then Some (y, m, d) else None
      | _ \<Rightarrow> None))"

lemma parse_examples:
  "local_minute ''09:30'' = Some 570" "local_minute ''24:00'' = None" "local_minute ''9:30'' = None"
  "parse_date ''2024-02-29'' = Some (2024, 2, 29)" "parse_date ''2023-02-29'' = None"
  by code_simp+

end
