(* ===== verification/Entitlement.thy ===== *)
theory Entitlement
  imports Records
begin

text \<open>
  The commercial gate of a feature, which the code has twice: in \<^verbatim>\<open>internal/booking/booking.go\<close> for
  the reservations an AI makes on a transaction, and in \<^verbatim>\<open>internal/handlers/product_commercial.go\<close>
  for every request. Both are translated; \<open>booking_gate_is_the_commercial_gate\<close> shows that the first
  is the second at the key \<^verbatim>\<open>bookings.enabled\<close>.
\<close>

section \<open>Values that enable\<close>

lemma size_map_of: "map_of m k = Some v \<Longrightarrow> size v < size_list (size_prod (\<lambda>_. 0) size) m"
  by (induction m) (auto split: if_splits)

function entitlement_allows :: "any \<Rightarrow> bool" where
  "entitlement_allows (Boolean b) = b"
| "entitlement_allows (Integer i) = (0 < i)"
| "entitlement_allows (Int32 i) = (0 < i)"
| "entitlement_allows (Int64 i) = (0 < i)"
| "entitlement_allows (Float f) = float_pos f"
| "entitlement_allows (Str s) = (to_lower (trim_space s) \<notin> {'''', ''0'', ''false'', ''disabled'', ''none''})"
| "entitlement_allows (Object m) =
     (case map_of m ''value'' of
        Some nested \<Rightarrow> entitlement_allows nested
      | None \<Rightarrow> (case map_of m ''enabled'' of
          Some enabled \<Rightarrow> entitlement_allows enabled
        | None \<Rightarrow> m \<noteq> []))"
| "entitlement_allows Null = False"
| "entitlement_allows (Number s) = True"
| "entitlement_allows (Strings xs) = True"
| "entitlement_allows (Array xs) = True"
| "entitlement_allows (Opaque n) = True"
  by pat_completeness auto
termination
  by (relation "measure size") (auto dest!: size_map_of)

function product_entitlement_allows :: "any \<Rightarrow> bool" where
  "product_entitlement_allows (Boolean b) = b"
| "product_entitlement_allows (Integer i) = (0 < i)"
| "product_entitlement_allows (Int32 i) = (0 < i)"
| "product_entitlement_allows (Int64 i) = (0 < i)"
| "product_entitlement_allows (Float f) = float_pos f"
| "product_entitlement_allows (Str s) = (to_lower (trim_space s) \<notin> {'''', ''0'', ''false'', ''disabled'', ''none''})"
| "product_entitlement_allows (Object m) =
     (case map_of m ''value'' of
        Some nested \<Rightarrow> product_entitlement_allows nested
      | None \<Rightarrow> (case map_of m ''enabled'' of
          Some enabled \<Rightarrow> product_entitlement_allows enabled
        | None \<Rightarrow> m \<noteq> []))"
| "product_entitlement_allows Null = False"
| "product_entitlement_allows (Number s) = True"
| "product_entitlement_allows (Strings xs) = True"
| "product_entitlement_allows (Array xs) = True"
| "product_entitlement_allows (Opaque n) = True"
  by pat_completeness auto
termination
  by (relation "measure size") (auto dest!: size_map_of)

definition entitlement_value :: "jsonb \<Rightarrow> any" where
  "entitlement_value v =
     (if length v = 1 then (case map_of v ''value'' of Some scalar \<Rightarrow> scalar | None \<Rightarrow> Object v)
      else Object v)"

definition product_entitlement_value :: "jsonb \<Rightarrow> any" where
  "product_entitlement_value v =
     (if length v = 1 then (case map_of v ''value'' of Some scalar \<Rightarrow> scalar | None \<Rightarrow> Object v)
      else Object v)"

text \<open>A missing key of a \<open>map[string]any\<close> reads as nil.\<close>

definition at_key :: "jsonb \<Rightarrow> string \<Rightarrow> any" where
  "at_key m k = (case map_of m k of Some v \<Rightarrow> v | None \<Rightarrow> Null)"

section \<open>The lifecycle of a subscription\<close>

definition subscription_permits :: "subscription_row option \<Rightarrow> time \<Rightarrow> bool" where
  "subscription_permits s now =
     (case s of
        None \<Rightarrow> False
      | Some r \<Rightarrow>
          if sub_status r = ''active'' then later (sub_period_end r) now \<or> later (sub_grace_until r) now
          else if sub_status r = ''trialing'' then later (sub_trial_ends r) now
          else if sub_status r = ''past_due'' then later (sub_grace_until r) now
          else False)"

definition product_subscription_permits :: "subscription_row option \<Rightarrow> time \<Rightarrow> bool" where
  "product_subscription_permits s now =
     (case s of
        None \<Rightarrow> False
      | Some r \<Rightarrow>
          if sub_status r = ''active'' then later (sub_period_end r) now \<or> later (sub_grace_until r) now
          else if sub_status r = ''trialing'' then later (sub_trial_ends r) now
          else if sub_status r = ''past_due'' then later (sub_grace_until r) now
          else False)"

definition effective_subscription_status :: "subscription_row option \<Rightarrow> time \<Rightarrow> string" where
  "effective_subscription_status s now =
     (case s of
        None \<Rightarrow> ''''
      | Some r \<Rightarrow>
          if product_subscription_permits s now then sub_status r
          else if sub_status r \<in> {''active'', ''trialing'', ''past_due''} then ''expired''
          else sub_status r)"

definition live_statuses :: "string list" where
  "live_statuses = [''incomplete'', ''trialing'', ''active'', ''past_due'', ''paused'']"

text \<open>\<open>ORDER BY created_at DESC, id DESC\<close> and \<open>ORDER BY starts_at DESC, created_at DESC\<close>.\<close>

definition newest_subscription :: "subscription_row \<Rightarrow> subscription_row \<Rightarrow> bool" where
  "newest_subscription q r \<longleftrightarrow>
     sub_created_at r < sub_created_at q
     \<or> (sub_created_at r = sub_created_at q \<and> sub_id r < sub_id q)"

definition newest_override :: "override_row \<Rightarrow> override_row \<Rightarrow> bool" where
  "newest_override q r \<longleftrightarrow>
     ov_starts r < ov_starts q \<or> (ov_starts r = ov_starts q \<and> ov_created_at r < ov_created_at q)"

definition subscription_rows :: "uuid \<Rightarrow> (subscription_row \<Rightarrow> bool) \<Rightarrow> tables \<Rightarrow> subscription_row option" where
  "subscription_rows org p t =
     first_in newest_subscription (filter (\<lambda>r. sub_org r = org \<and> p r \<and> \<not> sub_deleted r) (subscriptions t))"

text \<open>
  \<open>loadCurrentSubscription\<close>: the newest live row, else the newest row; \<open>None\<close> when there is no row
  at all (\<open>gorm.ErrRecordNotFound\<close>), which both callers tell apart from a driver error.
\<close>

definition load_current_subscription :: "uuid \<Rightarrow> (tables, subscription_row option) tx" where
  "load_current_subscription org =
     and_then (query (subscription_rows org (\<lambda>r. sub_status r \<in> set live_statuses))) (\<lambda>live.
       case live of
         Some r \<Rightarrow> ret (Some r)
       | None \<Rightarrow> query (subscription_rows org (\<lambda>_. True)))"

definition product_load_current_subscription :: "uuid \<Rightarrow> (tables, subscription_row option) tx" where
  "product_load_current_subscription org =
     and_then (query (subscription_rows org (\<lambda>r. sub_status r \<in> set live_statuses))) (\<lambda>live.
       case live of
         Some r \<Rightarrow> ret (Some r)
       | None \<Rightarrow> query (subscription_rows org (\<lambda>_. True)))"

definition override_rows :: "uuid \<Rightarrow> string \<Rightarrow> time \<Rightarrow> tables \<Rightarrow> override_row option" where
  "override_rows org key now t =
     first_in newest_override (filter (\<lambda>r. ov_org r = org \<and> ov_key r = key \<and> ov_active r
       \<and> ov_starts r \<le> now \<and> (ov_expires r = None \<or> later (ov_expires r) now) \<and> \<not> ov_deleted r)
       (overrides t))"

definition active_override :: "uuid \<Rightarrow> string \<Rightarrow> time \<Rightarrow> (tables, override_row option) tx" where
  "active_override org key now = query (override_rows org key now)"

definition product_active_override :: "uuid \<Rightarrow> string \<Rightarrow> time \<Rightarrow> (tables, override_row option) tx" where
  "product_active_override org key now = query (override_rows org key now)"

section \<open>The booking gate\<close>

definition bookings_enabled :: string where "bookings_enabled = ''bookings.enabled''"

definition booking_entitlement_allowed ::
  "subscription_row option \<Rightarrow> override_row option \<Rightarrow> time \<Rightarrow> bool" where
  "booking_entitlement_allowed s ov now =
     (if \<not> subscription_permits s now then False
      else (case ov of
        Some r \<Rightarrow>
          if ov_key r = bookings_enabled \<and> ov_active r \<and> ov_starts r \<le> now
              \<and> (ov_expires r = None \<or> later (ov_expires r) now)
          then entitlement_allows (entitlement_value (ov_value r))
          else entitlement_allows (at_key (sub_entitlements (the s)) bookings_enabled)
      | None \<Rightarrow> entitlement_allows (at_key (sub_entitlements (the s)) bookings_enabled)))"

definition m_entitlement_scope :: string where
  "m_entitlement_scope = ''booking entitlement scope is required''"

definition has_entitlement_tx :: "uuid \<Rightarrow> time \<Rightarrow> (tables, bool) tx" where
  "has_entitlement_tx org now =
     and_then (reject (org = nil_uuid \<or> is_zero_time now) (DomainError ''invalid'' m_entitlement_scope)) (\<lambda>_.
     and_then (load_current_subscription org) (\<lambda>s.
       case s of
         None \<Rightarrow> ret False
       | Some r \<Rightarrow>
           if \<not> subscription_permits (Some r) now then ret False
           else and_then (active_override org bookings_enabled now) (\<lambda>ov.
             ret (booking_entitlement_allowed (Some r) ov now))))"

section \<open>The commercial gate\<close>

definition identifier_char :: "char \<Rightarrow> bool" where
  "identifier_char c \<longleftrightarrow>
     (97 \<le> code c \<and> code c \<le> 122) \<or> (48 \<le> code c \<and> code c \<le> 57)
     \<or> c = CHR ''_'' \<or> c = CHR ''-'' \<or> c = CHR ''.''"

definition valid_identifier :: "string \<Rightarrow> nat \<Rightarrow> bool" where
  "valid_identifier v max_len \<longleftrightarrow> v \<noteq> [] \<and> length v \<le> max_len \<and> list_all identifier_char v"

record entitlement_decision =
  ed_key :: string
  ed_allowed :: bool
  ed_value :: any
  ed_mode :: string
  ed_subscription :: "uuid option"
  ed_status :: string
  ed_overridden :: bool
  ed_reason :: string

definition r_not_enabled :: string where "r_not_enabled = ''Entitlement is not enabled''"
definition r_unassigned :: string where "r_unassigned = ''No commercial subscription is assigned''"
definition r_suspended :: string where "r_suspended = ''Subscription status does not permit product features''"
definition r_snapshot :: string where "r_snapshot = ''Enabled by subscription snapshot''"
definition r_override :: string where "r_override = ''Active organization override''"

definition fresh_decision :: "string \<Rightarrow> entitlement_decision" where
  "fresh_decision key = \<lparr>ed_key = key, ed_allowed = False, ed_value = Null, ed_mode = ''subscription'',
     ed_subscription = None, ed_status = '''', ed_overridden = False, ed_reason = r_not_enabled\<rparr>"

definition m_org_required :: string where "m_org_required = ''organization ID is required''"
definition m_bad_key :: string where "m_bad_key = ''invalid entitlement key''"

text \<open>The snapshot decides when the key exists; an active override replaces the decision.\<close>

definition decide_by_snapshot ::
  "subscription_row \<Rightarrow> time \<Rightarrow> entitlement_decision \<Rightarrow> entitlement_decision" where
  "decide_by_snapshot r now d =
     (case map_of (sub_entitlements r) (ed_key d) of
        None \<Rightarrow> d\<lparr>ed_subscription := Some (sub_id r), ed_status := effective_subscription_status (Some r) now\<rparr>
      | Some v \<Rightarrow> d\<lparr>ed_subscription := Some (sub_id r), ed_status := effective_subscription_status (Some r) now,
          ed_value := v, ed_allowed := product_entitlement_allows v,
          ed_reason := (if product_entitlement_allows v then r_snapshot else ed_reason d)\<rparr>)"

definition decide_by_override :: "override_row option \<Rightarrow> entitlement_decision \<Rightarrow> entitlement_decision" where
  "decide_by_override ov d =
     (case ov of
        None \<Rightarrow> d
      | Some r \<Rightarrow> d\<lparr>ed_value := product_entitlement_value (ov_value r),
          ed_allowed := product_entitlement_allows (product_entitlement_value (ov_value r)),
          ed_overridden := True, ed_reason := r_override\<rparr>)"

definition evaluate_product_entitlement :: "uuid \<Rightarrow> string \<Rightarrow> time \<Rightarrow> (tables, entitlement_decision) tx" where
  "evaluate_product_entitlement org raw now =
     (let key = to_lower (trim_space raw); d = fresh_decision key in
      and_then (reject (org = nil_uuid) (OtherError m_org_required)) (\<lambda>_.
      and_then (reject (\<not> valid_identifier key 150) (OtherError m_bad_key)) (\<lambda>_.
      and_then (product_load_current_subscription org) (\<lambda>s.
        case s of
          None \<Rightarrow> ret (d\<lparr>ed_mode := ''unlicensed'', ed_reason := r_unassigned\<rparr>)
        | Some r \<Rightarrow>
            if \<not> product_subscription_permits (Some r) now then
              ret (d\<lparr>ed_subscription := Some (sub_id r),
                ed_status := effective_subscription_status (Some r) now,
                ed_mode := ''suspended'', ed_reason := r_suspended\<rparr>)
            else and_then (product_active_override org key now) (\<lambda>ov.
              ret (decide_by_override ov (decide_by_snapshot r now d)))))))"

definition has_product_entitlement :: "uuid \<Rightarrow> string \<Rightarrow> time \<Rightarrow> (tables, bool) tx" where
  "has_product_entitlement org key now =
     and_then (evaluate_product_entitlement org key now) (\<lambda>d. ret (ed_allowed d))"

section \<open>The two gates agree\<close>

lemma allows_agree [simp]: "product_entitlement_allows v = entitlement_allows v"
proof (induction v rule: entitlement_allows.induct)
  case (7 m)
  then show ?case by (simp split: option.split)
qed simp_all

lemma value_agree [simp]: "product_entitlement_value v = entitlement_value v"
  by (simp only: product_entitlement_value_def entitlement_value_def)

lemma permits_agree [simp]: "product_subscription_permits s now = subscription_permits s now"
  by (simp only: product_subscription_permits_def subscription_permits_def)

lemma load_agree: "product_load_current_subscription = load_current_subscription"
  unfolding product_load_current_subscription_def load_current_subscription_def ..

lemma override_agree: "product_active_override = active_override"
  unfolding product_active_override_def active_override_def ..

lemma override_rows_active:
  "override_rows org key now t = Some r \<Longrightarrow>
     ov_key r = key \<and> ov_active r \<and> ov_starts r \<le> now \<and> (ov_expires r = None \<or> later (ov_expires r) now)"
  unfolding override_rows_def by (drule first_in_filterD) simp

lemma decided_as_booking:
  assumes "subscription_permits (Some r) now" and "ov = override_rows org bookings_enabled now t"
  shows "ed_allowed (decide_by_override ov (decide_by_snapshot r now (fresh_decision bookings_enabled)))
    = booking_entitlement_allowed (Some r) ov now"
proof (cases ov)
  case None
  then show ?thesis
    using assms(1)
    by (simp add: decide_by_override_def decide_by_snapshot_def booking_entitlement_allowed_def at_key_def
        fresh_decision_def split: option.split)
next
  case (Some q)
  with assms(2) have "ov_key q = bookings_enabled \<and> ov_active q \<and> ov_starts q \<le> now
      \<and> (ov_expires q = None \<or> later (ov_expires q) now)"
    using override_rows_active by metis
  with Some assms(1) show ?thesis
    by (simp add: decide_by_override_def booking_entitlement_allowed_def)
qed

lemma bookings_enabled_key:
  "to_lower (trim_space bookings_enabled) = bookings_enabled" "valid_identifier bookings_enabled 150"
  by code_simp+

text \<open>What each gate does once its arguments are in order.\<close>

lemma has_entitlement_run:
  assumes "org \<noteq> nil_uuid" and "\<not> is_zero_time now"
  shows "has_entitlement_tx org now s =
    (case load_current_subscription org s of
       (Inl e, t) \<Rightarrow> (Inl e, t)
     | (Inr None, t) \<Rightarrow> (Inr False, t)
     | (Inr (Some r), t) \<Rightarrow>
         if subscription_permits (Some r) now then
           (case active_override org bookings_enabled now t of
              (Inl e, u) \<Rightarrow> (Inl e, u)
            | (Inr ov, u) \<Rightarrow> (Inr (booking_entitlement_allowed (Some r) ov now), u))
         else (Inr False, t))"
  using assms unfolding has_entitlement_tx_def
  by (simp add: act_simps split: prod.split sum.split option.split)

definition gate_decision :: "string \<Rightarrow> subscription_row \<Rightarrow> time \<Rightarrow> override_row option \<Rightarrow> bool" where
  "gate_decision key r now ov = ed_allowed (decide_by_override ov (decide_by_snapshot r now (fresh_decision key)))"

lemma has_product_entitlement_run:
  assumes "org \<noteq> nil_uuid" and "to_lower (trim_space key) = key" and "valid_identifier key 150"
  shows "has_product_entitlement org key now s =
    (case load_current_subscription org s of
       (Inl e, t) \<Rightarrow> (Inl e, t)
     | (Inr None, t) \<Rightarrow> (Inr False, t)
     | (Inr (Some r), t) \<Rightarrow>
         if subscription_permits (Some r) now then
           (case active_override org key now t of
              (Inl e, u) \<Rightarrow> (Inl e, u)
            | (Inr ov, u) \<Rightarrow> (Inr (gate_decision key r now ov), u))
         else (Inr False, t))"
  using assms
  unfolding has_product_entitlement_def evaluate_product_entitlement_def Let_def load_agree override_agree
    permits_agree
  by (simp add: act_simps gate_decision_def fresh_decision_def split: prod.split sum.split option.split)

text \<open>
  C25: for a known organization at a non-zero instant the booking gate of the AI path and the commercial gate of
  the request path are the same action at the key \<^verbatim>\<open>bookings.enabled\<close>: on every database and under
  every pattern of driver errors they run the same statements, end with the same decision or the
  same error, and leave the same session.
\<close>
theorem booking_gate_is_the_commercial_gate:
  assumes "org \<noteq> nil_uuid" and "\<not> is_zero_time now"
  shows "has_entitlement_tx org now s = has_product_entitlement org bookings_enabled now s"
proof -
  have same: "gate_decision bookings_enabled r now ov = booking_entitlement_allowed (Some r) ov now"
    if "subscription_permits (Some r) now" "active_override org bookings_enabled now t = (Inr ov, u)" for r ov t u
    using decided_as_booking [OF that(1)] query_Inr [OF that(2) [unfolded active_override_def]]
    unfolding gate_decision_def by blast
  show ?thesis
    unfolding has_entitlement_run [OF assms]
      has_product_entitlement_run [OF assms(1) bookings_enabled_key]
    by (auto simp: same split: prod.split sum.split option.split)
qed

lemma has_entitlement_reads: "reads (has_entitlement_tx org now)"
  unfolding has_entitlement_tx_def load_current_subscription_def active_override_def
  by (intro reads_intros)

section \<open>Failing closed\<close>

lemma has_entitlement_Inr:
  assumes "has_entitlement_tx org now s = (Inr True, u)"
  obtains r where "r \<in> set (subscriptions (tabs s))" "sub_org r = org" "\<not> sub_deleted r"
    "subscription_permits (Some r) now"
proof -
  from assms obtain found t where l: "load_current_subscription org s = (Inr found, t)"
    and d: "(case found of None \<Rightarrow> ret False
       | Some r \<Rightarrow>
           if \<not> subscription_permits (Some r) now then ret False
           else and_then (active_override org bookings_enabled now) (\<lambda>ov.
             ret (booking_entitlement_allowed (Some r) ov now))) t = (Inr True, u)"
    unfolding has_entitlement_tx_def by (auto simp: ok_simps)
  then obtain r where r: "found = Some r" "subscription_permits (Some r) now"
    by (cases found) (auto simp: ok_simps split: if_splits)
  from l obtain v t1 where q1: "query (subscription_rows org (\<lambda>r. sub_status r \<in> set live_statuses)) s = (Inr v, t1)"
    and q2: "(case v of Some r \<Rightarrow> ret (Some r) | None \<Rightarrow> query (subscription_rows org (\<lambda>_. True))) t1
      = (Inr (Some r), t)"
    unfolding load_current_subscription_def and_then_Inr r by blast
  have "\<exists>p. subscription_rows org p (tabs s) = Some r"
  proof (cases v)
    case None
    with q2 have "query (subscription_rows org (\<lambda>_. True)) t1 = (Inr (Some r), t)" by simp
    from query_Inr [OF this] query_Inr [OF q1] show ?thesis by metis
  next
    case (Some q)
    with q2 query_Inr [OF q1] show ?thesis by (metis option.simps(5) ret_Inr)
  qed
  then have "r \<in> set (subscriptions (tabs s)) \<and> sub_org r = org \<and> \<not> sub_deleted r"
    unfolding subscription_rows_def by (auto dest: first_in_filterD)
  with that r show ?thesis by blast
qed

end
