(* ===== verification/BookingCore.thy ===== *)
theory BookingCore
  imports Entitlement
begin

text \<open>
  \<^verbatim>\<open>internal/booking/booking.go\<close>, the reservation: the statuses that occupy capacity, the facts of a
  slot, the event lock, the start check and \<open>ReserveTx\<close>, in the order of its statements. Locks have no
  effect on a session that runs alone. \<open>tx == nil\<close> and \<open>clock == nil\<close> have no counterpart.
\<close>

section \<open>Errors\<close>

definition invalid :: "string \<Rightarrow> err" where "invalid m = DomainError ''invalid'' m"
definition conflict :: "string \<Rightarrow> err" where "conflict m = DomainError ''conflict'' m"
definition unavailable :: "string \<Rightarrow> err" where "unavailable m = DomainError ''unavailable'' m"
definition forbidden :: "string \<Rightarrow> err" where "forbidden m = DomainError ''forbidden'' m"

definition is_offer_stale :: "err \<Rightarrow> bool" where
  "is_offer_stale e = (case e of DomainError k m \<Rightarrow> k = ''unavailable'' | _ \<Rightarrow> False)"

definition m_event_scope :: string where "m_event_scope = ''booking tenant and event are required''"
definition m_slot_gone :: string where
  "m_slot_gone = ''Booking slot is no longer available; refresh available slots and choose another''"
definition m_slot_closed :: string where
  "m_slot_closed = ''Booking slot is no longer scheduled; refresh available slots and choose another''"
definition m_service_inactive :: string where
  "m_service_inactive = ''Booking service is inactive; refresh available slots and choose another''"
definition m_resource_inactive :: string where
  "m_resource_inactive = ''Booking practitioner or resource is inactive; refresh available slots and choose another''"
definition m_started :: string where
  "m_started = ''Booking slot has already started; refresh available slots and choose another''"
definition m_definitions :: string where "m_definitions = ''slot definitions do not match''"
definition m_reservation_scope :: string where "m_reservation_scope = ''invalid reservation scope''"
definition m_initial_status :: string where "m_initial_status = ''invalid initial booking status''"
definition m_zero_actor :: string where "m_zero_actor = ''zero staff actor is forbidden''"
definition m_ai_authority :: string where
  "m_ai_authority = ''AI reservation must be one reserved place without staff or financial authority and require offer expiry''"
definition m_key_reused :: string where "m_key_reused = ''Idempotency key was already used for a different booking''"
definition m_contact_tenant :: string where "m_contact_tenant = ''contact_id does not belong to this organization''"
definition m_contact_changed :: string where
  "m_contact_changed = ''Booking contact identity changed; request a fresh offer''"
definition m_slot_changed :: string where "m_slot_changed = ''Booking slot details changed; request a fresh offer''"
definition m_slot_filled :: string where
  "m_slot_filled = ''Booking slot was just filled; refresh available slots and choose another''"
definition m_offer_expired :: string where "m_offer_expired = ''Booking offer expired; request a fresh offer''"
definition m_not_entitled :: string where "m_not_entitled = ''Booking entitlement is not available''"
definition m_duplicate :: string where "m_duplicate = ''duplicate key: bookings''"
definition m_package_key :: string where "m_package_key = ''foreign key: fk_bookings_contact_package_tenant''"
definition m_check_quantity :: string where "m_check_quantity = ''check constraint: chk_bookings_quantity''"

section \<open>Occupied capacity\<close>

definition capacity_statuses :: "string list" where
  "capacity_statuses = [s_reserved, s_confirmed, s_checked_in, s_completed, s_no_show]"

definition occupies_capacity :: "string \<Rightarrow> bool" where
  "occupies_capacity st = list_ex (\<lambda>c. st = c) capacity_statuses"

lemma occupies_simps [simp]:
  "occupies_capacity s_reserved" "occupies_capacity s_confirmed" "occupies_capacity s_checked_in"
  "occupies_capacity s_completed" "occupies_capacity s_no_show"
  "\<not> occupies_capacity s_waitlisted" "\<not> occupies_capacity s_cancelled"
  by (simp_all add: occupies_capacity_def capacity_statuses_def)

definition seats :: "uuid \<Rightarrow> uuid \<Rightarrow> booking_row \<Rightarrow> bool" where
  "seats org event b \<longleftrightarrow>
     bk_org b = org \<and> bk_event b = event \<and> occupies_capacity (bk_status b) \<and> \<not> bk_deleted b"

text \<open>\<open>SELECT COALESCE(SUM(quantity), 0)\<close> over the bookings that occupy the event.\<close>

definition occupied_quantity :: "uuid \<Rightarrow> uuid \<Rightarrow> tables \<Rightarrow> int" where
  "occupied_quantity org event t = sum_list (map bk_quantity (filter (seats org event) (bookings t)))"

section \<open>The facts of a slot\<close>

text \<open>An event with the definitions a query loaded beside it.\<close>

record loaded_event =
  le_event :: event_row
  le_service :: "service_row option"
  le_resource :: "resource_row option"

record slot_facts =
  sf_event :: uuid
  sf_service :: uuid
  sf_resource :: uuid
  sf_event_version :: int
  sf_service_version :: int
  sf_resource_version :: int
  sf_starts :: time
  sf_ends :: time
  sf_capacity :: int
  sf_service_name :: string
  sf_resource_name :: string
  sf_timezone :: string
  sf_location :: string

definition same_facts :: "slot_facts \<Rightarrow> slot_facts \<Rightarrow> bool" where
  "same_facts a b \<longleftrightarrow> a = b"

definition facts_for_event :: "loaded_event \<Rightarrow> (err, slot_facts) result" where
  "facts_for_event le =
     (let e = le_event le in
      case (le_service le, le_resource le) of
        (Some sv, Some rs) \<Rightarrow>
          if ev_id e = nil_uuid \<or> sv_id sv \<noteq> ev_service e \<or> rs_id rs \<noteq> ev_resource e
              \<or> sv_org sv \<noteq> ev_org e \<or> rs_org rs \<noteq> ev_org e
          then Inl (invalid m_definitions)
          else Inr \<lparr>sf_event = ev_id e, sf_service = ev_service e, sf_resource = ev_resource e,
            sf_event_version = ev_version e, sf_service_version = sv_version sv,
            sf_resource_version = rs_version rs, sf_starts = ev_starts e, sf_ends = ev_ends e,
            sf_capacity = ev_capacity e, sf_service_name = sv_name sv, sf_resource_name = rs_name rs,
            sf_timezone = rs_timezone rs,
            sf_location = (if trim_space (ev_location e) = [] then trim_space (rs_location rs)
                           else trim_space (ev_location e))\<rparr>
      | _ \<Rightarrow> Inl (invalid m_definitions))"

section \<open>The event lock\<close>

definition event_by_id :: "uuid \<Rightarrow> uuid \<Rightarrow> tables \<Rightarrow> event_row option" where
  "event_by_id org i t =
     first_in (by_key ev_id) (filter (\<lambda>e. ev_id e = i \<and> ev_org e = org \<and> \<not> ev_deleted e) (events t))"

definition active_service :: "uuid \<Rightarrow> uuid \<Rightarrow> tables \<Rightarrow> service_row option" where
  "active_service org i t =
     first_in (by_key sv_id)
       (filter (\<lambda>r. sv_id r = i \<and> sv_org r = org \<and> sv_active r \<and> \<not> sv_deleted r) (services t))"

definition active_resource :: "uuid \<Rightarrow> uuid \<Rightarrow> tables \<Rightarrow> resource_row option" where
  "active_resource org i t =
     first_in (by_key rs_id)
       (filter (\<lambda>r. rs_id r = i \<and> rs_org r = org \<and> rs_active r \<and> \<not> rs_deleted r) (resources t))"

definition lock_event :: "uuid \<Rightarrow> uuid \<Rightarrow> (tables, loaded_event) tx" where
  "lock_event org event =
     and_then (reject (org = nil_uuid \<or> event = nil_uuid) (invalid m_event_scope)) (\<lambda>_.
     and_then (or_not_found (first (event_by_id org event)) (unavailable m_slot_gone)) (\<lambda>e.
     and_then (reject (ev_status e \<noteq> s_scheduled) (unavailable m_slot_closed)) (\<lambda>_.
     and_then (or_not_found (first (active_service org (ev_service e))) (unavailable m_service_inactive)) (\<lambda>sv.
     and_then (or_not_found (first (active_resource org (ev_resource e))) (unavailable m_resource_inactive)) (\<lambda>rs.
     ret \<lparr>le_event = e, le_service = Some sv, le_resource = Some rs\<rparr>)))))"

definition ensure_not_started :: "event_row option \<Rightarrow> time \<Rightarrow> (err, unit) result" where
  "ensure_not_started e now =
     (case e of
        Some r \<Rightarrow> if now < ev_starts r then Inr () else Inl (unavailable m_started)
      | None \<Rightarrow> Inl (unavailable m_started))"

section \<open>Reserving\<close>

record reserve_input =
  ri_event :: uuid
  ri_contact :: uuid
  ri_quantity :: int
  ri_status :: string
  ri_source :: string
  ri_notes :: string
  ri_package :: "uuid option"
  ri_waitlist :: bool
  ri_key :: string
  ri_metadata :: jsonb
  ri_actor :: "uuid option"
  ri_expected :: "slot_facts option"
  ri_offer_expires :: time

record reserve_result =
  rr_booking :: booking_row
  rr_event :: "loaded_event option"
  rr_created :: bool
  rr_now :: time

text \<open>The normalisations, which happen before anything is looked up.\<close>

definition normal_reserve :: "reserve_input \<Rightarrow> reserve_input" where
  "normal_reserve inp = inp\<lparr>
     ri_key := trim_space (ri_key inp),
     ri_status := (if ri_status inp = [] then s_reserved else ri_status inp),
     ri_source := (if ri_source inp = [] then ''agent'' else ri_source inp)\<rparr>"

definition ai_exceeds_authority :: "reserve_input \<Rightarrow> bool" where
  "ai_exceeds_authority inp \<longleftrightarrow>
     ri_expected inp \<noteq> None \<and> (ri_quantity inp \<noteq> 1 \<or> ri_status inp \<noteq> s_reserved \<or> ri_waitlist inp
       \<or> ri_package inp \<noteq> None \<or> ri_actor inp \<noteq> None \<or> is_zero_time (ri_offer_expires inp))"

definition check_reserve :: "uuid \<Rightarrow> reserve_input \<Rightarrow> (tables, unit) tx" where
  "check_reserve org inp =
     and_then (reject (org = nil_uuid \<or> ri_event inp = nil_uuid \<or> ri_contact inp = nil_uuid
       \<or> ri_quantity inp < 1 \<or> ri_key inp = [] \<or> 255 < rune_count (ri_key inp))
       (invalid m_reservation_scope)) (\<lambda>_.
     and_then (reject (ri_status inp \<noteq> s_reserved \<and> ri_status inp \<noteq> s_confirmed \<and> ri_status inp \<noteq> s_waitlisted)
       (invalid m_initial_status)) (\<lambda>_.
     and_then (reject (ri_actor inp = Some nil_uuid) (invalid m_zero_actor)) (\<lambda>_.
     reject (ai_exceeds_authority inp) (invalid m_ai_authority))))"

definition booking_with_key :: "uuid \<Rightarrow> string \<Rightarrow> tables \<Rightarrow> booking_row option" where
  "booking_with_key org key t =
     first_in (by_key bk_id) (filter (\<lambda>b. bk_org b = org \<and> bk_key b = key \<and> \<not> bk_deleted b) (bookings t))"

definition other_booking :: "booking_row \<Rightarrow> reserve_input \<Rightarrow> bool" where
  "other_booking b inp \<longleftrightarrow> bk_event b \<noteq> ri_event inp \<or> bk_contact b \<noteq> ri_contact inp
     \<or> bk_quantity b \<noteq> ri_quantity inp \<or> bk_package b \<noteq> ri_package inp"

text \<open>The closure \<open>lookup\<close>: the booking the key already made, if it is the same reservation.\<close>

definition lookup_booking :: "uuid \<Rightarrow> reserve_input \<Rightarrow> (tables, booking_row option) tx" where
  "lookup_booking org inp =
     and_then (query (booking_with_key org (ri_key inp))) (\<lambda>found.
       case found of
         None \<Rightarrow> ret None
       | Some b \<Rightarrow> and_then (reject (other_booking b inp) (conflict m_key_reused)) (\<lambda>_. ret (Some b)))"

definition replayed :: "booking_row \<Rightarrow> reserve_result" where
  "replayed b = \<lparr>rr_booking = b, rr_event = None, rr_created = False, rr_now = zero_time\<rparr>"

definition contact_by_id :: "uuid \<Rightarrow> uuid \<Rightarrow> tables \<Rightarrow> contact_row option" where
  "contact_by_id org i t =
     first_in (by_key ct_id) (filter (\<lambda>c. ct_id c = i \<and> ct_org c = org \<and> \<not> ct_deleted c) (contacts t))"

definition check_expected :: "reserve_input \<Rightarrow> loaded_event \<Rightarrow> (err, unit) result" where
  "check_expected inp le =
     (case ri_expected inp of
        None \<Rightarrow> Inr ()
      | Some expected \<Rightarrow> res_bind (facts_for_event le) (\<lambda>facts.
          if same_facts facts expected then Inr () else Inl (unavailable m_slot_changed)))"

text \<open>
  The status the booking gets: the requested one if it fits, waitlisted if it does not and the
  caller allows it. The subtraction is the one of the code, on 64-bit integers.
\<close>

definition admit :: "reserve_input \<Rightarrow> event_row \<Rightarrow> int \<Rightarrow> (err, string) result" where
  "admit inp e occupied =
     (if occupies_capacity (ri_status inp) \<and> wrap64 (ev_capacity e - ri_quantity inp) < occupied
      then (if ri_waitlist inp then Inr s_waitlisted else Inl (unavailable m_slot_filled))
      else Inr (ri_status inp))"

definition check_offer :: "uuid \<Rightarrow> reserve_input \<Rightarrow> time \<Rightarrow> (tables, unit) tx" where
  "check_offer org inp now =
     (if ri_expected inp = None then ret ()
      else and_then (reject (ri_offer_expires inp \<le> now) (unavailable m_offer_expired)) (\<lambda>_.
        and_then (has_entitlement_tx org now) (\<lambda>allowed.
          reject (\<not> allowed) (forbidden m_not_entitled))))"

definition new_booking :: "uuid \<Rightarrow> uuid \<Rightarrow> reserve_input \<Rightarrow> event_row \<Rightarrow> string \<Rightarrow> time \<Rightarrow> booking_row" where
  "new_booking i org inp e status now =
    \<lparr>bk_id = i, bk_org = org, bk_event = ev_id e, bk_contact = ri_contact inp, bk_status = status,
     bk_quantity = ri_quantity inp, bk_source = ri_source inp, bk_notes = trim_space (ri_notes inp),
     bk_package = ri_package inp, bk_booked_by = ri_actor inp,
     bk_confirmed_at = (if status = s_confirmed then Some now else None), bk_checked_in_at = None,
     bk_completed_at = None, bk_no_show_at = None, bk_cancelled_at = None, bk_cancelled_by = None,
     bk_cancel_reason = '''', bk_key = trim_space (ri_key inp), bk_metadata = ri_metadata inp,
     bk_version = 1, bk_updated_by = ri_actor inp, bk_deleted = False\<rparr>"

text \<open>
  The primary key, the unique index on organization and key, the check constraint and the foreign key
  of the package; those of the event and of the contact hold for the rows just read.
\<close>

definition package_of_another :: "booking_row \<Rightarrow> tables \<Rightarrow> bool" where
  "package_of_another b t \<longleftrightarrow>
     (case bk_package b of
        None \<Rightarrow> False
      | Some p \<Rightarrow> \<not> list_ex (\<lambda>q. cp_id q = p \<and> cp_contact q = bk_contact b \<and> cp_org q = bk_org b) (packages t))"

definition insert_booking :: "booking_row \<Rightarrow> tables \<Rightarrow> err + unit \<times> tables" where
  "insert_booking b t =
     (if \<exists>c\<in>set (bookings t). bk_id c = bk_id b \<or> (bk_org c = bk_org b \<and> bk_key c = bk_key b)
      then Inl (DriverError m_duplicate)
      else if bk_quantity b \<le> 0 then Inl (DriverError m_check_quantity)
      else if package_of_another b t then Inl (DriverError m_package_key)
      else Inr ((), t\<lparr>bookings := bookings t @ [b]\<rparr>))"

text \<open>\<open>UPDATE booking_events SET version = version + 1\<close>: how many rows it changed.\<close>

definition bump_event :: "uuid \<Rightarrow> uuid \<Rightarrow> tables \<Rightarrow> err + nat \<times> tables" where
  "bump_event org i t =
     (let p = (\<lambda>e. ev_id e = i \<and> ev_org e = org \<and> \<not> ev_deleted e) in
      Inr (rows_affected p (events t),
        t\<lparr>events := update_where p (\<lambda>e. e\<lparr>ev_version := ev_version e + 1\<rparr>) (events t)\<rparr>))"

definition write_booking ::
  "env \<Rightarrow> uuid \<Rightarrow> reserve_input \<Rightarrow> loaded_event \<Rightarrow> string \<Rightarrow> time \<Rightarrow> (tables, reserve_result) tx" where
  "write_booking x org inp le status now =
     and_then (mint (fresh_uuid x)) (\<lambda>i.
     let b = new_booking i org inp (le_event le) status now in
     and_then (execute (insert_booking b)) (\<lambda>_.
     and_then
       (if occupies_capacity status then
          and_then (execute (bump_event org (ev_id (le_event le)))) (\<lambda>n. reject (n \<noteq> 1) RecordNotFound)
        else ret ()) (\<lambda>_.
     ret \<lparr>rr_booking = b, rr_event = Some le, rr_created = True, rr_now = now\<rparr>)))"

definition reserve_slot ::
  "env \<Rightarrow> uuid \<Rightarrow> reserve_input \<Rightarrow> loaded_event \<Rightarrow> time \<Rightarrow> (tables, reserve_result) tx" where
  "reserve_slot x org inp le now =
     and_then (lift_res (check_expected inp le)) (\<lambda>_.
     and_then (query (occupied_quantity org (ev_id (le_event le)))) (\<lambda>occupied.
     and_then (lift_res (admit inp (le_event le) occupied)) (\<lambda>status.
     and_then (lift_res (ensure_not_started (Some (le_event le)) now)) (\<lambda>_.
     and_then (check_offer org inp now) (\<lambda>_.
     write_booking x org inp le status now)))))"

definition reserve_new :: "env \<Rightarrow> uuid \<Rightarrow> reserve_input \<Rightarrow> time \<Rightarrow> (tables, reserve_result) tx" where
  "reserve_new x org inp now =
     and_then (or_not_found (first (contact_by_id org (ri_contact inp))) (invalid m_contact_tenant)) (\<lambda>c.
     and_then (reject (ri_expected inp \<noteq> None \<and> ct_merged_into c \<noteq> None) (unavailable m_contact_changed)) (\<lambda>_.
     and_then (lock_event org (ri_event inp)) (\<lambda>le.
     and_then (lookup_booking org inp) (\<lambda>found.
       case found of
         Some b \<Rightarrow> ret (replayed b)
       | None \<Rightarrow> reserve_slot x org inp le now))))"

definition reserve_tx :: "env \<Rightarrow> uuid \<Rightarrow> reserve_input \<Rightarrow> time \<Rightarrow> (tables, reserve_result) tx" where
  "reserve_tx x org raw now =
     (let inp = normal_reserve raw in
      and_then (check_reserve org inp) (\<lambda>_.
      and_then (lookup_booking org inp) (\<lambda>found.
        case found of
          Some b \<Rightarrow> ret (replayed b)
        | None \<Rightarrow> reserve_new x org inp now)))"

section \<open>What a successful reservation did\<close>

lemma lookup_Inr:
  assumes "lookup_booking org inp s = (Inr found, u)"
  shows "tabs u = tabs s \<and> minted u = minted s \<and> found = booking_with_key org (ri_key inp) (tabs s)
    \<and> (\<forall>b. found = Some b \<longrightarrow> \<not> other_booking b inp)"
proof -
  from assms obtain v t where q: "query (booking_with_key org (ri_key inp)) s = (Inr v, t)"
    and r: "(case v of None \<Rightarrow> ret None
       | Some b \<Rightarrow> and_then (reject (other_booking b inp) (conflict m_key_reused)) (\<lambda>_. ret (Some b))) t = (Inr found, u)"
    unfolding lookup_booking_def and_then_Inr by blast
  from r have "found = v \<and> u = t \<and> (\<forall>b. found = Some b \<longrightarrow> \<not> other_booking b inp)"
    by (cases v) (auto simp: ok_simps)
  with query_Inr [OF q] show ?thesis by simp
qed

lemma lock_event_Inr:
  assumes "lock_event org event s = (Inr le, u)"
  shows "tabs u = tabs s \<and> minted u = minted s \<and> event_by_id org event (tabs s) = Some (le_event le)
    \<and> ev_status (le_event le) = s_scheduled
    \<and> le_service le = active_service org (ev_service (le_event le)) (tabs s) \<and> le_service le \<noteq> None
    \<and> le_resource le = active_resource org (ev_resource (le_event le)) (tabs s) \<and> le_resource le \<noteq> None"
proof -
  from assms obtain e s1 sv s2 rs where f: "first (event_by_id org event) s = (Inr e, s1)"
    "first (active_service org (ev_service e)) s1 = (Inr sv, s2)"
    "first (active_resource org (ev_resource e)) s2 = (Inr rs, u)" "ev_status e = s_scheduled"
    "le = \<lparr>le_event = e, le_service = Some sv, le_resource = Some rs\<rparr>"
    unfolding lock_event_def by (auto simp: ok_simps)
  from first_Inr [OF f(1)] first_Inr [OF f(2)] first_Inr [OF f(3)] f(4,5) show ?thesis by simp
qed

lemma event_by_id_SomeD:
  "event_by_id org i t = Some e \<Longrightarrow> e \<in> set (events t) \<and> ev_id e = i \<and> ev_org e = org \<and> \<not> ev_deleted e"
  unfolding event_by_id_def by (drule first_in_filterD) simp

lemma booking_with_key_SomeD:
  "booking_with_key org key t = Some b \<Longrightarrow> b \<in> set (bookings t) \<and> bk_org b = org \<and> bk_key b = key \<and> \<not> bk_deleted b"
  unfolding booking_with_key_def by (drule first_in_filterD) simp

lemma check_offer_Inr:
  assumes "check_offer org inp now s = (Inr a, u)"
  shows "tabs u = tabs s \<and> (ri_expected inp \<noteq> None \<longrightarrow> now < ri_offer_expires inp
    \<and> (\<exists>s1 u1. has_entitlement_tx org now s1 = (Inr True, u1) \<and> tabs s1 = tabs s))"
proof (cases "ri_expected inp = None")
  case False
  with assms obtain t where t: "has_entitlement_tx org now s = (Inr True, t)" "u = t" "now < ri_offer_expires inp"
    unfolding check_offer_def by (auto simp: ok_simps)
  with reads_Inr [OF has_entitlement_reads t(1)] show ?thesis by blast
qed (use assms in \<open>auto simp: check_offer_def ok_simps\<close>)

lemma bump_Inr:
  assumes "execute (bump_event org i) s = (Inr n, u)"
  shows "n = rows_affected (\<lambda>e. ev_id e = i \<and> ev_org e = org \<and> \<not> ev_deleted e) (events (tabs s))
    \<and> tabs u = (tabs s)\<lparr>events := update_where (\<lambda>e. ev_id e = i \<and> ev_org e = org \<and> \<not> ev_deleted e)
        (\<lambda>e. e\<lparr>ev_version := ev_version e + 1\<rparr>) (events (tabs s))\<rparr>"
  using execute_Inr [OF assms] by (auto simp: bump_event_def Let_def)

text \<open>
  The tables after the booking \<open>b\<close> of event \<open>e\<close> has been written.
\<close>

definition booked :: "uuid \<Rightarrow> event_row \<Rightarrow> booking_row \<Rightarrow> tables \<Rightarrow> tables" where
  "booked org e b t =
     (let t1 = t\<lparr>bookings := bookings t @ [b]\<rparr> in
      if occupies_capacity (bk_status b) then
        t1\<lparr>events := update_where (\<lambda>r. ev_id r = ev_id e \<and> ev_org r = org \<and> \<not> ev_deleted r)
          (\<lambda>r. r\<lparr>ev_version := ev_version r + 1\<rparr>) (events t)\<rparr>
      else t1)"

definition unused :: "tables \<Rightarrow> booking_row \<Rightarrow> bool" where
  "unused t b \<longleftrightarrow> \<not> (\<exists>c\<in>set (bookings t). bk_id c = bk_id b \<or> (bk_org c = bk_org b \<and> bk_key c = bk_key b))"

lemma write_booking_Inr:
  assumes "write_booking x org inp le status now s = (Inr r, u)"
  shows "\<exists>i. r = \<lparr>rr_booking = new_booking i org inp (le_event le) status now, rr_event = Some le,
      rr_created = True, rr_now = now\<rparr>
    \<and> i = fresh_uuid x (minted s) \<and> unused (tabs s) (rr_booking r) \<and> 0 < ri_quantity inp
    \<and> tabs u = booked org (le_event le) (rr_booking r) (tabs s)"
proof -
  let ?b = "\<lambda>i. new_booking i org inp (le_event le) status now"
  from assms obtain i s1 a s2 v where i: "mint (fresh_uuid x) s = (Inr i, s1)"
    and ins: "execute (insert_booking (?b i)) s1 = (Inr a, s2)"
    and up: "(if occupies_capacity status then
          and_then (execute (bump_event org (ev_id (le_event le)))) (\<lambda>n. reject (n \<noteq> 1) RecordNotFound)
        else ret ()) s2 = (Inr v, u)"
    and r: "r = \<lparr>rr_booking = ?b i, rr_event = Some le, rr_created = True, rr_now = now\<rparr>"
    unfolding write_booking_def Let_def by (auto simp: ok_simps)
  have s2: "unused (tabs s) (?b i) \<and> 0 < ri_quantity inp \<and> tabs s2 = (tabs s)\<lparr>bookings := bookings (tabs s) @ [?b i]\<rparr>"
    using execute_Inr [OF ins] mint_Inr [OF i]
    by (auto simp: insert_booking_def unused_def new_booking_def split: if_splits)
  have st: "bk_status (?b i) = status" by (simp add: new_booking_def)
  have "tabs u = booked org (le_event le) (?b i) (tabs s)"
  proof (cases "occupies_capacity status")
    case True
    with up obtain n where "execute (bump_event org (ev_id (le_event le))) s2 = (Inr n, u)"
      by (auto simp: ok_simps)
    from bump_Inr [OF this] s2 True st show ?thesis by (simp add: booked_def Let_def)
  next
    case False
    with up s2 st show ?thesis by (simp add: booked_def ok_simps)
  qed
  with s2 r mint_Inr [OF i] show ?thesis by auto
qed

lemma reserve_slot_Inr:
  assumes "reserve_slot x org inp le now s = (Inr r, u)"
  obtains i status s1 where
    "r = \<lparr>rr_booking = new_booking i org inp (le_event le) status now, rr_event = Some le,
      rr_created = True, rr_now = now\<rparr>"
    "admit inp (le_event le) (occupied_quantity org (ev_id (le_event le)) (tabs s)) = Inr status"
    "check_expected inp le = Inr ()" "now < ev_starts (le_event le)"
    "ri_expected inp \<noteq> None \<longrightarrow> now < ri_offer_expires inp
       \<and> (\<exists>s1 u1. has_entitlement_tx org now s1 = (Inr True, u1) \<and> tabs s1 = tabs s)"
    "unused (tabs s) (rr_booking r)" "0 < ri_quantity inp"
    "tabs u = booked org (le_event le) (rr_booking r) (tabs s)"
proof -
  from assms obtain occ t1 status t2 t3 a where e: "check_expected inp le = Inr ()"
    and q: "query (occupied_quantity org (ev_id (le_event le))) s = (Inr occ, t1)"
    and ad: "admit inp (le_event le) occ = Inr status"
    and st: "ensure_not_started (Some (le_event le)) now = Inr ()"
    and off: "check_offer org inp now t1 = (Inr a, t2)"
    and wr: "write_booking x org inp le status now t2 = (Inr r, u)"
    unfolding reserve_slot_def by (auto simp: ok_simps)
  have t: "tabs t1 = tabs s" "occ = occupied_quantity org (ev_id (le_event le)) (tabs s)"
    using query_Inr [OF q] by simp_all
  note o' = check_offer_Inr [OF off] and w = write_booking_Inr [OF wr]
  from w obtain i where i: "r = \<lparr>rr_booking = new_booking i org inp (le_event le) status now, rr_event = Some le,
      rr_created = True, rr_now = now\<rparr>" and un: "unused (tabs t2) (rr_booking r)" "0 < ri_quantity inp"
    "tabs u = booked org (le_event le) (rr_booking r) (tabs t2)" by blast
  have starts: "now < ev_starts (le_event le)" using st by (simp add: ensure_not_started_def split: if_splits)
  from o' t have t2: "tabs t2 = tabs s" by simp
  show ?thesis
    by (rule that [OF i]) (use ad t t2 e starts un o' in simp_all)
qed

text \<open>Either the key was used for this very reservation, or a booking was written.\<close>

lemma reserve_tx_Inr:
  assumes "reserve_tx x org raw now s = (Inr r, u)"
  obtains (replay) b where "r = replayed b" "tabs u = tabs s"
      "booking_with_key org (trim_space (ri_key raw)) (tabs s) = Some b" "\<not> other_booking b (normal_reserve raw)"
    | (created) i status le where
      "r = \<lparr>rr_booking = new_booking i org (normal_reserve raw) (le_event le) status now, rr_event = Some le,
        rr_created = True, rr_now = now\<rparr>"
      "event_by_id org (ri_event raw) (tabs s) = Some (le_event le)" "ev_status (le_event le) = s_scheduled"
      "admit (normal_reserve raw) (le_event le) (occupied_quantity org (ev_id (le_event le)) (tabs s)) = Inr status"
      "check_expected (normal_reserve raw) le = Inr ()" "now < ev_starts (le_event le)"
      "ri_expected raw \<noteq> None \<longrightarrow> now < ri_offer_expires raw
         \<and> (\<exists>s1 u1. has_entitlement_tx org now s1 = (Inr True, u1) \<and> tabs s1 = tabs s)"
      "unused (tabs s) (rr_booking r)" "0 < ri_quantity raw" "\<not> ai_exceeds_authority (normal_reserve raw)"
      "tabs u = booked org (le_event le) (rr_booking r) (tabs s)"
proof -
  let ?inp = "normal_reserve raw"
  have keys: "ri_key ?inp = trim_space (ri_key raw)" "ri_event ?inp = ri_event raw"
    "ri_expected ?inp = ri_expected raw" "ri_offer_expires ?inp = ri_offer_expires raw"
    "ri_quantity ?inp = ri_quantity raw"
    by (simp_all add: normal_reserve_def)
  from assms obtain a s0 found s1 where chk: "check_reserve org ?inp s = (Inr a, s0)"
    and l1: "lookup_booking org ?inp s0 = (Inr found, s1)"
    and rest: "(case found of Some b \<Rightarrow> ret (replayed b) | None \<Rightarrow> reserve_new x org ?inp now) s1 = (Inr r, u)"
    unfolding reserve_tx_def Let_def and_then_Inr by blast
  have s0: "s0 = s" "\<not> ai_exceeds_authority ?inp" using chk unfolding check_reserve_def by (auto simp: ok_simps)
  note L1 = lookup_Inr [OF l1]
  show ?thesis
  proof (cases found)
    case (Some b)
    with rest have "r = replayed b" "u = s1" by (simp_all add: ok_simps)
    with Some L1 s0 keys show ?thesis by (intro replay [of b]) simp_all
  next
    case None
    with rest obtain c t1 le t2 found2 t3 where f: "first (contact_by_id org (ri_contact ?inp)) s1 = (Inr c, t1)"
      and lk: "lock_event org (ri_event ?inp) t1 = (Inr le, t2)"
      and l2: "lookup_booking org ?inp t2 = (Inr found2, t3)"
      and fin: "(case found2 of Some b \<Rightarrow> ret (replayed b) | None \<Rightarrow> reserve_slot x org ?inp le now) t3 = (Inr r, u)"
      unfolding reserve_new_def by (auto simp: ok_simps)
    note F = first_Inr [OF f] and LK = lock_event_Inr [OF lk] and L2 = lookup_Inr [OF l2]
    have same: "tabs t3 = tabs s" "tabs t2 = tabs s" "tabs t1 = tabs s" using L1 L2 LK F s0 by simp_all
    show ?thesis
    proof (cases found2)
      case (Some b)
      with fin have "r = replayed b" "u = t3" by (simp_all add: ok_simps)
      with Some L2 same keys show ?thesis by (intro replay [of b]) simp_all
    next
      case None
      with fin have "reserve_slot x org ?inp le now t3 = (Inr r, u)" by simp
      then show ?thesis
        by (rule reserve_slot_Inr) (use LK same keys s0 in \<open>intro created; simp\<close>)
    qed
  qed
qed

end
