(* ===== verification/Timeline.thy ===== *)
theory Timeline
  imports Records
begin

text \<open>
  \<^verbatim>\<open>internal/customeractivity/activity.go\<close>: the customer timeline and its webhook outbox, written on the
  caller's transaction, and \<^verbatim>\<open>internal/audit/audit.go\<close>: the audit row of a mutation. Both are called
  at the end of every booking and commerce transaction.
\<close>

section \<open>The customer timeline\<close>

record activity_input =
  in_contact :: uuid
  in_lead :: "uuid option"
  in_type :: string
  in_category :: string
  in_title :: string
  in_summary :: string
  in_actor_type :: string
  in_actor :: "uuid option"
  in_source_type :: string
  in_source :: "uuid option"
  in_occurred :: time
  in_metadata :: jsonb
  in_webhook :: jsonb
  in_key :: string

definition m_activity_scope :: string where
  "m_activity_scope = ''customer activity requires transaction, organization, and contact''"
definition m_activity_key :: string where
  "m_activity_key = ''customer activity idempotency key is required and must not exceed 255 characters''"
definition m_activity_fields :: string where
  "m_activity_fields = ''customer activity type, category, and title are required''"
definition m_activity_reuse :: string where
  "m_activity_reuse = ''customer activity idempotency key was reused for a different event''"

definition uuid_string :: "env \<Rightarrow> uuid option \<Rightarrow> string" where
  "uuid_string x v = (case v of None \<Rightarrow> '''' | Some i \<Rightarrow> show_uuid x i)"

definition base_payload :: "env \<Rightarrow> activity_row \<Rightarrow> jsonb" where
  "base_payload x ev =
    [(''activity_event_id'', Str (show_uuid x (ac_id ev))),
     (''contact_id'', Str (show_uuid x (ac_contact ev))),
     (''lead_id'', Str (uuid_string x (ac_lead ev))),
     (''event_type'', Str (event_type ev)),
     (''category'', Str (category ev)),
     (''title'', Str (title ev)),
     (''summary'', Str (summary ev)),
     (''occurred_at'', Str (rfc3339_nano x (ac_occurred ev))),
     (''source_type'', Str (source_object_type ev)),
     (''source_id'', Str (uuid_string x (ac_source_id ev))),
     (''actor_type'', Str (actor_type ev)),
     (''actor_user_id'', Str (uuid_string x (ac_actor ev))),
     (''metadata'', Object (metadata ev))]"

text \<open>
  The loop over the webhook data. Go visits a map in an unspecified order: here it is the order of
  the list. The keys are ASCII, where \<open>strings.EqualFold\<close> compares lower cases.
\<close>

fun add_webhook :: "jsonb \<Rightarrow> jsonb \<Rightarrow> jsonb" where
  "add_webhook payload [] = payload"
| "add_webhook payload ((k, v) # rest) =
     (let key = trim_space k in
      if key = [] \<or> to_lower key = ''outbox_event_id'' then add_webhook payload rest
      else if map_of payload (to_lower key) \<noteq> None then add_webhook payload rest
      else add_webhook (AList.update key v payload) rest)"

definition outbox_payload :: "env \<Rightarrow> activity_row \<Rightarrow> jsonb \<Rightarrow> jsonb" where
  "outbox_payload x ev webhook = add_webhook (base_payload x ev) webhook"

definition normal_input :: "time \<Rightarrow> activity_input \<Rightarrow> activity_input" where
  "normal_input now inp = inp\<lparr>
     in_key := trim_space (in_key inp),
     in_actor_type := (if in_actor_type inp = [] then ''system'' else in_actor_type inp),
     in_occurred := (if is_zero_time (in_occurred inp) then now else in_occurred inp)\<rparr>"

definition activity_of :: "uuid \<Rightarrow> uuid \<Rightarrow> activity_input \<Rightarrow> activity_row" where
  "activity_of i org inp =
    \<lparr>event_type = in_type inp, category = in_category inp,
     source_object_type =
       (if trim_space (in_source_type inp) = [] then in_category inp else trim_space (in_source_type inp)),
     actor_type = in_actor_type inp, title = trim_space (in_title inp), summary = trim_space (in_summary inp),
     metadata = in_metadata inp, ac_id = i, ac_org = org, ac_contact = in_contact inp, ac_lead = in_lead inp,
     ac_actor = in_actor inp, ac_source_id = in_source inp, ac_occurred = in_occurred inp,
     ac_key = in_key inp\<rparr>"

text \<open>\<open>INSERT ... ON CONFLICT (organization_id, idempotency_key) DO NOTHING\<close>: was a row written?\<close>

definition insert_activity :: "activity_row \<Rightarrow> tables \<Rightarrow> err + bool \<times> tables" where
  "insert_activity ev t =
     (if \<exists>a\<in>set (activities t). ac_org a = ac_org ev \<and> ac_key a = ac_key ev then Inr (False, t)
      else Inr (True, t\<lparr>activities := activities t @ [ev]\<rparr>))"

definition activity_with_key :: "uuid \<Rightarrow> string \<Rightarrow> tables \<Rightarrow> activity_row option" where
  "activity_with_key org key t =
     first_in (by_key ac_id) (filter (\<lambda>a. ac_org a = org \<and> ac_key a = key) (activities t))"

definition duplicate_outbox :: string where "duplicate_outbox = ''duplicate key: outbox_events''"

definition insert_outbox :: "outbox_row \<Rightarrow> tables \<Rightarrow> err + unit \<times> tables" where
  "insert_outbox o' t =
     (if \<exists>p\<in>set (outbox t). ob_org p = ob_org o' \<and> ob_key p = ob_key o' then Inl (DriverError duplicate_outbox)
      else Inr ((), t\<lparr>outbox := outbox t @ [o']\<rparr>))"

definition outbox_of :: "env \<Rightarrow> uuid \<Rightarrow> time \<Rightarrow> activity_row \<Rightarrow> jsonb \<Rightarrow> outbox_row" where
  "outbox_of x i now ev webhook =
    \<lparr>ob_id = i, ob_org = ac_org ev, ob_type = event_type ev, ob_aggregate_type = source_object_type ev,
     ob_aggregate = (case ac_source_id ev of None \<Rightarrow> Some (ac_id ev) | Some j \<Rightarrow> Some j),
     ob_payload = outbox_payload x ev webhook, ob_available = now, ob_status = ''pending'',
     ob_max_attempts = 10, ob_key = ''customer-activity-webhook:'' @ show_uuid x (ac_id ev), ob_version = 1\<rparr>"

definition same_fact :: "activity_row \<Rightarrow> activity_row \<Rightarrow> bool" where
  "same_fact old new \<longleftrightarrow> ac_contact old = ac_contact new \<and> event_type old = event_type new
     \<and> source_object_type old = source_object_type new \<and> ac_source_id old = ac_source_id new"

definition replay_activity :: "activity_row \<Rightarrow> (tables, activity_row) tx" where
  "replay_activity ev =
     and_then (first (activity_with_key (ac_org ev) (ac_key ev))) (\<lambda>old.
     and_then (reject (\<not> same_fact old ev) (OtherError m_activity_reuse)) (\<lambda>_. ret old))"

definition record_tx :: "env \<Rightarrow> uuid \<Rightarrow> time \<Rightarrow> activity_input \<Rightarrow> (tables, activity_row) tx" where
  "record_tx x org now raw =
     and_then (reject (org = nil_uuid \<or> in_contact raw = nil_uuid) (OtherError m_activity_scope)) (\<lambda>_.
     and_then (reject (trim_space (in_key raw) = [] \<or> 255 < length (trim_space (in_key raw)))
       (OtherError m_activity_key)) (\<lambda>_.
     and_then (reject (in_type raw = [] \<or> in_category raw = [] \<or> trim_space (in_title raw) = [])
       (OtherError m_activity_fields)) (\<lambda>_.
     and_then (mint (fresh_uuid x)) (\<lambda>i.
     let ev = activity_of i org (normal_input now raw) in
     and_then (execute (insert_activity ev)) (\<lambda>written.
       if \<not> written then replay_activity ev
       else and_then (mint (fresh_uuid x)) (\<lambda>j.
         and_then (execute (insert_outbox (outbox_of x j now ev (in_webhook raw)))) (\<lambda>_. ret ev)))))))"

section \<open>The audit log\<close>

definition skip_fields :: "string list" where
  "skip_fields = [''id'', ''created_at'', ''updated_at'', ''deleted_at'', ''organization_id'',
     ''created_by_id'', ''updated_by_id'', ''created_by'', ''updated_by'', ''organization'', ''members'',
     ''webhook_verify_token'', ''api_config'', ''conditions'', ''active_from'', ''active_until'',
     ''whatsapp_account'', ''case_sensitive'', ''completion_config'', ''panel_config'', ''canvas_layout'',
     ''steps'', ''initial_template'', ''cancel_keywords'', ''trigger_button_id'', ''initial_message_type'',
     ''initial_template_id'', ''timeout_message'', ''menu'', ''welcome_audio_url'', ''header_media_id'',
     ''buttons'', ''sample_values'', ''meta_template_id'', ''header_media_local_path'', ''template_id'',
     ''recipients'', ''template'', ''creator'']"

definition flatten_fields :: "(string \<times> string) list" where
  "flatten_fields = [(''response_content'', ''body'')]"

definition change :: "string \<Rightarrow> any \<Rightarrow> any \<Rightarrow> jsonb" where
  "change field old new = [(''field'', Str field), (''old_value'', old), (''new_value'', new)]"

definition extract_sub_field :: "any \<Rightarrow> string \<Rightarrow> any" where
  "extract_sub_field v key =
     (case v of Object m \<Rightarrow> (case map_of m key of Some w \<Rightarrow> w | None \<Rightarrow> Null) | _ \<Rightarrow> Null)"

definition old_at :: "jsonb \<Rightarrow> string \<Rightarrow> any" where
  "old_at m k = (case map_of m k of Some v \<Rightarrow> v | None \<Rightarrow> Null)"

fun diff_fields :: "jsonb \<Rightarrow> jsonb \<Rightarrow> jsonb list" where
  "diff_fields old [] = []"
| "diff_fields old ((k, v) # rest) =
     (if k \<in> set skip_fields then diff_fields old rest
      else (case map_of flatten_fields k of
        Some sub \<Rightarrow>
          (if deep_equal (extract_sub_field (old_at old k) sub) (extract_sub_field v sub) then diff_fields old rest
           else change k (extract_sub_field (old_at old k) sub) (extract_sub_field v sub) # diff_fields old rest)
      | None \<Rightarrow>
          (if deep_equal (old_at old k) v then diff_fields old rest
           else change k (old_at old k) v # diff_fields old rest)))"

text \<open>The rows are given as their JSON maps; \<open>None\<close> is the nil interface.\<close>

definition compute_changes :: "jsonb option \<Rightarrow> jsonb option \<Rightarrow> jsonb list" where
  "compute_changes old new =
     (case old of
        None \<Rightarrow> (case new of
            None \<Rightarrow> []
          | Some m \<Rightarrow> map (\<lambda>(k, v). change k Null v) (filter (\<lambda>(k, v). k \<notin> set skip_fields) m))
      | Some o' \<Rightarrow> (case new of
            None \<Rightarrow> map (\<lambda>(k, v). change k v Null) (filter (\<lambda>(k, v). k \<notin> set skip_fields) o')
          | Some m \<Rightarrow> diff_fields o' m))"

text \<open>\<open>GetUserName\<close> ignores the error of its query.\<close>

definition get_user_name :: "uuid \<Rightarrow> (tables, string) tx" where
  "get_user_name user s =
     (case query (\<lambda>t. map_of (users t) user) s of
        (Inr (Some n), t) \<Rightarrow> (Inr (if n = [] then ''Unknown'' else n), t)
      | (_, t) \<Rightarrow> (Inr ''Unknown'', t))"

definition log_audit ::
  "uuid \<Rightarrow> uuid \<Rightarrow> string \<Rightarrow> string \<Rightarrow> uuid \<Rightarrow> string \<Rightarrow> jsonb option \<Rightarrow> jsonb option \<Rightarrow> (tables, unit) tx" where
  "log_audit org user name rtype rid action old new =
     (let changes = compute_changes old new in
      if action = ''updated'' \<and> changes = [] then ret ()
      else execute (\<lambda>t. Inr ((), t\<lparr>audits := audits t @ [\<lparr>au_org = org, au_type = rtype, au_resource = rid,
        au_user = user, au_user_name = name, au_action = action, au_changes = changes\<rparr>]\<rparr>)))"

definition audit_change ::
  "uuid \<Rightarrow> uuid \<Rightarrow> string \<Rightarrow> uuid \<Rightarrow> string \<Rightarrow> jsonb option \<Rightarrow> jsonb option \<Rightarrow> (tables, unit) tx" where
  "audit_change org user rtype rid action old new =
     and_then (get_user_name user) (\<lambda>name. log_audit org user name rtype rid action old new)"

section \<open>The timeline and the log leave the business tables alone\<close>

text \<open>
  \<open>business t\<close> is the database without the timeline, the outbox and the audit log; an action that
  is \<open>side\<close> changes only those.
\<close>

definition business :: "tables \<Rightarrow> tables" where
  "business t = t\<lparr>activities := [], outbox := [], audits := []\<rparr>"

definition side :: "(tables, 'a) tx \<Rightarrow> bool" where
  "side m \<longleftrightarrow> (\<forall>s. business (tabs (snd (m s))) = business (tabs s))"

lemma side_Inr: "side m \<Longrightarrow> m s = (Inr a, u) \<Longrightarrow> business (tabs u) = business (tabs s)"
  unfolding side_def by (metis snd_conv)

lemma reads_side [reads_intros]: "reads m \<Longrightarrow> side m"
  by (simp add: reads_def side_def)

lemma side_and_then:
  "side m \<Longrightarrow> (\<And>a. side (f a)) \<Longrightarrow> side (and_then m f)"
  unfolding side_def and_then_def by (auto split: prod.split sum.split) (metis snd_conv)+

lemma side_if: "side m \<Longrightarrow> side n \<Longrightarrow> side (if c then m else n)"
  by simp

lemma tabs_execute:
  "tabs (snd (execute f s)) = tabs s \<or> (\<exists>a. f (tabs s) = Inr (a, tabs (snd (execute f s))))"
  unfolding execute_def and_then_def poll_def
  by (auto split: list.split option.split sum.split prod.split)

lemma side_execute:
  assumes "\<And>t a t'. f t = Inr (a, t') \<Longrightarrow> business t' = business t"
  shows "side (execute f)"
  unfolding side_def using assms tabs_execute [of f] by metis

lemma side_insert_activity: "side (execute (insert_activity ev))"
  by (rule side_execute) (auto simp: insert_activity_def business_def split: if_splits)

lemma side_insert_outbox: "side (execute (insert_outbox o'))"
  by (rule side_execute) (auto simp: insert_outbox_def business_def split: if_splits)

lemmas side_intros = side_and_then side_if side_insert_activity side_insert_outbox

lemma reads_replay: "reads (replay_activity ev)"
  unfolding replay_activity_def by (intro reads_intros)

lemma record_tx_side: "side (record_tx x org now inp)"
  unfolding record_tx_def Let_def
  by (intro side_intros) (intro reads_side reads_intros reads_replay)+

lemma reads_get_user_name: "reads (get_user_name u)"
  unfolding reads_def
proof
  fix s :: "tables db"
  obtain r t where q: "query (\<lambda>t. map_of (users t) u) s = (r, t)" by fastforce
  have "tabs t = tabs s" using reads_query [of "\<lambda>t. map_of (users t) u"] q unfolding reads_def by (metis snd_conv)
  with q show "tabs (snd (get_user_name u s)) = tabs s"
    unfolding get_user_name_def by (auto split: sum.split option.split)
qed

lemma log_audit_side: "side (log_audit org user name rtype rid action old new)"
  unfolding log_audit_def Let_def
  by (intro side_if side_execute reads_side reads_intros) (auto simp: business_def)

lemma audit_change_side: "side (audit_change org user rtype rid action old new)"
  unfolding audit_change_def by (intro side_and_then log_audit_side reads_side reads_get_user_name)

section \<open>Properties of the timeline\<close>

lemma map_of_update: "map_of (AList.update k v m) = (map_of m)(k \<mapsto> v)"
  by (rule update_conv')

lemma add_webhook_reserved:
  assumes "map_of payload k \<noteq> None" and "to_lower k = k"
  shows "map_of (add_webhook payload w) k = map_of payload k"
  using assms(1)
proof (induction payload w rule: add_webhook.induct)
  case (2 payload k' v rest)
  let ?key = "trim_space k'"
  show ?case
  proof (cases "?key = [] \<or> to_lower ?key = ''outbox_event_id'' \<or> map_of payload (to_lower ?key) \<noteq> None")
    case True
    then show ?thesis using 2 by (auto simp: Let_def)
  next
    case False
    then have "?key \<noteq> k" using 2 assms(2) by auto
    then have "map_of (AList.update ?key v payload) k = map_of payload k" by (simp add: map_of_update)
    with False 2 show ?thesis by (auto simp: Let_def)
  qed
qed simp

lemma add_webhook_fresh_keys:
  assumes "map_of (add_webhook payload w) k \<noteq> None"
  shows "map_of payload k \<noteq> None \<or> to_lower k \<noteq> ''outbox_event_id''"
  using assms
proof (induction payload w rule: add_webhook.induct)
  case (2 payload k' v rest)
  let ?key = "trim_space k'"
  consider "?key = [] \<or> to_lower ?key = ''outbox_event_id''"
    | "?key \<noteq> []" "to_lower ?key \<noteq> ''outbox_event_id''" "map_of payload (to_lower ?key) \<noteq> None"
    | "?key \<noteq> []" "to_lower ?key \<noteq> ''outbox_event_id''" "map_of payload (to_lower ?key) = None" by blast
  then show ?case
  proof cases
    case 3
    with 2 have "map_of (AList.update ?key v payload) k \<noteq> None \<or> to_lower k \<noteq> ''outbox_event_id''"
      by (simp add: Let_def)
    with 3 show ?thesis by (auto simp: map_of_update split: if_splits)
  qed (use 2 in \<open>simp_all add: Let_def\<close>)
qed simp

lemma base_payload_keys:
  "map fst (base_payload x ev) = [''activity_event_id'', ''contact_id'', ''lead_id'', ''event_type'',
     ''category'', ''title'', ''summary'', ''occurred_at'', ''source_type'', ''source_id'', ''actor_type'',
     ''actor_user_id'', ''metadata'']"
  by (simp add: base_payload_def)

lemma base_keys_lower:
  "list_all (\<lambda>k. to_lower k = k \<and> k \<noteq> ''outbox_event_id'') [''activity_event_id'', ''contact_id'',
     ''lead_id'', ''event_type'', ''category'', ''title'', ''summary'', ''occurred_at'', ''source_type'',
     ''source_id'', ''actor_type'', ''actor_user_id'', ''metadata'']"
  by code_simp

lemma base_key_lower: "k \<in> fst ` set (base_payload x ev) \<Longrightarrow> to_lower k = k \<and> k \<noteq> ''outbox_event_id''"
  using base_keys_lower unfolding base_payload_keys [of x ev, symmetric] list_all_iff set_map by blast

text \<open>
  C26: the caller's webhook data can neither replace a field the platform writes into an outbox payload
  nor forge an \<^verbatim>\<open>outbox_event_id\<close> under any capitalisation.
\<close>
theorem outbox_payload_protected:
  "map_of (outbox_payload x ev w) |` (fst ` set (base_payload x ev)) = map_of (base_payload x ev)
    \<and> {k \<in> dom (map_of (outbox_payload x ev w)). to_lower k = ''outbox_event_id''} = {}"
proof
  show "map_of (outbox_payload x ev w) |` (fst ` set (base_payload x ev)) = map_of (base_payload x ev)"
  proof
    fix k
    show "(map_of (outbox_payload x ev w) |` (fst ` set (base_payload x ev))) k = map_of (base_payload x ev) k"
    proof (cases "k \<in> fst ` set (base_payload x ev)")
      case True
      then have "map_of (base_payload x ev) k \<noteq> None" by (simp add: map_of_eq_None_iff)
      from add_webhook_reserved [OF this] base_key_lower [OF True] True show ?thesis
        by (simp add: outbox_payload_def)
    next
      case False
      then have "map_of (base_payload x ev) k = None" by (simp add: map_of_eq_None_iff)
      with False show ?thesis by simp
    qed
  qed
  have "map_of (outbox_payload x ev w) k = None" if low: "to_lower k = ''outbox_event_id''" for k
  proof (rule ccontr)
    assume "map_of (outbox_payload x ev w) k \<noteq> None"
    then have "map_of (base_payload x ev) k \<noteq> None"
      unfolding outbox_payload_def using add_webhook_fresh_keys low by blast
    then have "k \<in> fst ` set (base_payload x ev)" by (simp add: map_of_eq_None_iff)
    with base_key_lower [OF this] low show False by metis
  qed
  then show "{k \<in> dom (map_of (outbox_payload x ev w)). to_lower k = ''outbox_event_id''} = {}"
    by auto
qed

text \<open>Exactly once: what a successful call did.\<close>

definition activity_keys :: "tables \<Rightarrow> (uuid \<times> string) list" where
  "activity_keys t = map (\<lambda>a. (ac_org a, ac_key a)) (activities t)"

definition recorded :: "uuid \<Rightarrow> time \<Rightarrow> activity_input \<Rightarrow> activity_row \<Rightarrow> bool" where
  "recorded org now raw a \<longleftrightarrow> ac_org a = org \<and> ac_key a = trim_space (in_key raw)
     \<and> (\<exists>i. same_fact a (activity_of i org (normal_input now raw)))"

lemma activity_of_simps [simp]:
  "ac_org (activity_of i org inp) = org" "ac_key (activity_of i org inp) = in_key inp"
  "ac_id (activity_of i org inp) = i"
  by (simp_all add: activity_of_def)

lemma normal_key [simp]: "in_key (normal_input now raw) = trim_space (in_key raw)"
  by (simp add: normal_input_def)

lemma same_fact_refl [simp]: "same_fact a a"
  by (simp add: same_fact_def)

lemma record_tx_Inr:
  assumes "record_tx x org now raw s = (Inr a, u)"
  obtains (written) o' where "activities (tabs u) = activities (tabs s) @ [a]"
      "(org, trim_space (in_key raw)) \<notin> set (activity_keys (tabs s))" "recorded org now raw a"
      "outbox (tabs u) = outbox (tabs s) @ [o']" "ob_key o' = ''customer-activity-webhook:'' @ show_uuid x (ac_id a)"
    | (replayed) "tabs u = tabs s" "a \<in> set (activities (tabs s))" "recorded org now raw a"
proof -
  let ?ev = "\<lambda>i. activity_of i org (normal_input now raw)"
  from assms obtain i s1 written t where i: "mint (fresh_uuid x) s = (Inr i, s1)"
    and ins: "execute (insert_activity (?ev i)) s1 = (Inr written, t)"
    and rest: "(if \<not> written then replay_activity (?ev i)
       else and_then (mint (fresh_uuid x)) (\<lambda>j.
         and_then (execute (insert_outbox (outbox_of x j now (?ev i) (in_webhook raw)))) (\<lambda>_. ret (?ev i)))) t = (Inr a, u)"
    unfolding record_tx_def Let_def and_then_Inr by auto
  note tabs = mint_Inr [OF i] and wrote = execute_Inr [OF ins]
  show ?thesis
  proof (cases written)
    case True
    with rest obtain j t1 v t2 where j: "mint (fresh_uuid x) t = (Inr j, t1)"
      and out: "execute (insert_outbox (outbox_of x j now (?ev i) (in_webhook raw))) t1 = (Inr v, t2)"
      and a: "a = ?ev i" "u = t2" by (auto simp: ok_simps)
    have new: "(org, trim_space (in_key raw)) \<notin> set (activity_keys (tabs s))"
      "tabs t = (tabs s)\<lparr>activities := activities (tabs s) @ [?ev i]\<rparr>"
      using wrote tabs True by (auto simp: insert_activity_def activity_keys_def split: if_splits)
    have "tabs u = (tabs t)\<lparr>outbox := outbox (tabs t) @ [outbox_of x j now (?ev i) (in_webhook raw)]\<rparr>"
      using execute_Inr [OF out] mint_Inr [OF j] a by (auto simp: insert_outbox_def split: if_splits)
    moreover have "recorded org now raw a"
      unfolding recorded_def using a by (intro conjI exI [of _ i]) simp_all
    ultimately show ?thesis using new a by (intro written) (auto simp: outbox_of_def)
  next
    case False
    then obtain t1 where "first (activity_with_key org (trim_space (in_key raw))) t = (Inr a, t1)"
      "same_fact a (?ev i)" "u = t1"
      using rest unfolding replay_activity_def by (auto simp: ok_simps)
    with first_Inr [OF this(1)] wrote tabs False show ?thesis
      by (intro replayed) (auto simp: insert_activity_def activity_with_key_def recorded_def split: if_splits
          dest!: first_in_filterD)
  qed
qed

text \<open>
  C27: the timeline is exactly-once. As long as no two rows share an organization and a key (which
  every call preserves), a second successful call with the same input, however much later, returns
  the row the first call returned and writes nothing.
\<close>
theorem timeline_exactly_once:
  assumes "distinct (activity_keys (tabs s))"
    and "record_tx x org now raw s = (Inr a, u)" and "record_tx x org later_now raw u = (Inr b, v)"
  shows "distinct (activity_keys (tabs u)) \<and> b = a \<and> tabs v = tabs u"
proof -
  have u: "distinct (activity_keys (tabs u)) \<and> a \<in> set (activities (tabs u))
      \<and> (ac_org a, ac_key a) = (org, trim_space (in_key raw))"
    using assms(2)
    by (rule record_tx_Inr) (use assms(1) in \<open>auto simp: activity_keys_def recorded_def\<close>)
  then have known: "(org, trim_space (in_key raw)) \<in> set (activity_keys (tabs u))"
    by (force simp: activity_keys_def)
  from assms(3) show ?thesis
  proof (rule record_tx_Inr)
    assume "tabs v = tabs u" "b \<in> set (activities (tabs u))" "recorded org later_now raw b"
    moreover from this u have "b = a"
      unfolding recorded_def activity_keys_def by (auto simp: distinct_map inj_on_def)
    ultimately show ?thesis using u by simp
  qed (use known in simp)
qed

end
