(* ===== verification/Credits.thy ===== *)
theory Credits
  imports Timeline
begin

text \<open>
  The credit ledger of \<^verbatim>\<open>internal/handlers/product_booking_commerce.go\<close>: activating a package grants
  its credits, booking with it reserves them, cancelling releases and attending consumes them. A
  balance row is the materialised sum of its append-only ledger rows. The amounts stay between 0 and
  what was granted, so Go's 64-bit integers compute them exactly.
\<close>

section \<open>Errors and constraints\<close>

definition m_no_entitlements :: string where "m_no_entitlements = ''Package definition has no entitlements''"
definition m_package_required :: string where "m_package_required = ''contact_package_id is required''"
definition m_package_inactive :: string where "m_package_inactive = ''Contact package is not active for this contact''"
definition m_package_not_started :: string where "m_package_not_started = ''Contact package has not started''"
definition m_package_expired :: string where "m_package_expired = ''Contact package has expired''"
definition m_service_excluded :: string where
  "m_service_excluded = ''Contact package does not include this booking service''"
definition m_no_balance :: string where "m_no_balance = ''Contact package credit balance is unavailable''"
definition m_not_enough :: string where
  "m_not_enough = ''Contact package does not have enough available credits''"
definition m_inconsistent :: string where "m_inconsistent = ''Reserved package credits are inconsistent''"
definition m_duplicate_balance :: string where "m_duplicate_balance = ''duplicate key: credit_balances''"
definition m_duplicate_ledger :: string where "m_duplicate_ledger = ''duplicate key: credit_ledger_entries''"
definition m_check_balance :: string where "m_check_balance = ''check constraint: chk_credit_balances_equation''"
definition m_check_ledger :: string where "m_check_ledger = ''check constraint: chk_credit_ledger_values''"

text \<open>The constraint \<open>chk_credit_balances_equation\<close> and \<open>chk_credit_ledger_values\<close>.\<close>

definition balance_equation :: "balance_row \<Rightarrow> bool" where
  "balance_equation b \<longleftrightarrow> 0 \<le> cb_granted b \<and> 0 \<le> cb_reserved b \<and> 0 \<le> cb_consumed b \<and> 0 \<le> cb_available b
     \<and> cb_available b = cb_granted b - cb_reserved b - cb_consumed b"

definition ledger_values :: "ledger_row \<Rightarrow> bool" where
  "ledger_values l \<longleftrightarrow> le_delta l \<noteq> 0 \<and> 0 \<le> le_after l"

definition balance_key :: "balance_row \<Rightarrow> uuid \<times> uuid \<times> uuid" where
  "balance_key b = (cb_org b, cb_package b, cb_entitlement b)"

definition ledger_slot :: "ledger_row \<Rightarrow> uuid \<times> uuid \<times> uuid" where
  "ledger_slot l = (le_org l, le_package l, le_entitlement l)"

definition insert_balance :: "balance_row \<Rightarrow> tables \<Rightarrow> err + unit \<times> tables" where
  "insert_balance b t =
     (if \<exists>c\<in>set (balances t). cb_id c = cb_id b \<or> balance_key c = balance_key b
      then Inl (DriverError m_duplicate_balance)
      else if \<not> balance_equation b then Inl (DriverError m_check_balance)
      else Inr ((), t\<lparr>balances := balances t @ [b]\<rparr>))"

definition insert_ledger :: "ledger_row \<Rightarrow> tables \<Rightarrow> err + unit \<times> tables" where
  "insert_ledger l t =
     (if \<exists>k\<in>set (ledger t). le_id k = le_id l \<or> (le_org k = le_org l \<and> le_key k = le_key l)
      then Inl (DriverError m_duplicate_ledger)
      else if \<not> ledger_values l then Inl (DriverError m_check_ledger)
      else Inr ((), t\<lparr>ledger := ledger t @ [l]\<rparr>))"

text \<open>\<open>UPDATE credit_balances SET ... WHERE id = ? AND organization_id = ?\<close>.\<close>

definition update_balance :: "uuid \<Rightarrow> uuid \<Rightarrow> (balance_row \<Rightarrow> balance_row) \<Rightarrow> tables \<Rightarrow> err + unit \<times> tables" where
  "update_balance org i f t =
     (let p = (\<lambda>b. cb_id b = i \<and> cb_org b = org \<and> \<not> cb_deleted b);
          rows = update_where p f (balances t)
      in if list_all balance_equation rows then Inr ((), t\<lparr>balances := rows\<rparr>)
         else Inl (DriverError m_check_balance))"

section \<open>Looking a balance up\<close>

definition active_package :: "uuid \<Rightarrow> uuid \<Rightarrow> uuid \<Rightarrow> tables \<Rightarrow> package_row option" where
  "active_package org i contact t =
     first_in (by_key cp_id) (filter (\<lambda>p. cp_id p = i \<and> cp_org p = org \<and> cp_contact p = contact
       \<and> cp_status p = ''active'' \<and> \<not> cp_deleted p) (packages t))"

definition entitlement_for :: "uuid \<Rightarrow> uuid \<Rightarrow> uuid \<Rightarrow> tables \<Rightarrow> entitlement_row option" where
  "entitlement_for org def service t =
     first_in (by_key en_id) (filter (\<lambda>e. en_org e = org \<and> en_definition e = def \<and> en_service e = service
       \<and> \<not> en_deleted e) (entitlements t))"

definition balance_for :: "uuid \<Rightarrow> uuid \<Rightarrow> uuid \<Rightarrow> tables \<Rightarrow> balance_row option" where
  "balance_for org package entitlement t =
     first_in (by_key cb_id) (filter (\<lambda>b. balance_key b = (org, package, entitlement) \<and> \<not> cb_deleted b) (balances t))"

record credit_refs =
  cr_package :: package_row
  cr_entitlement :: entitlement_row
  cr_balance :: balance_row

definition client_conflict :: "string \<Rightarrow> err" where "client_conflict m = ClientError conflict_status m"

definition load_credit_balance :: "uuid \<Rightarrow> booking_row \<Rightarrow> uuid \<Rightarrow> time \<Rightarrow> (tables, credit_refs) tx" where
  "load_credit_balance org b service now =
     (case bk_package b of
        None \<Rightarrow> fail (ClientError bad_request m_package_required)
      | Some i \<Rightarrow>
          and_then (or_fail (first (active_package org i (bk_contact b))) (client_conflict m_package_inactive)) (\<lambda>p.
          and_then (reject (later (cp_starts p) now) (client_conflict m_package_not_started)) (\<lambda>_.
          and_then (reject (cp_expires p \<noteq> None \<and> \<not> later (cp_expires p) now) (client_conflict m_package_expired)) (\<lambda>_.
          and_then (or_fail (first (entitlement_for org (cp_definition p) service)) (client_conflict m_service_excluded)) (\<lambda>e.
          and_then (or_fail (first (balance_for org (cp_id p) (en_id e))) (client_conflict m_no_balance)) (\<lambda>c.
          ret \<lparr>cr_package = p, cr_entitlement = e, cr_balance = c\<rparr>))))))"

definition validate_booking_package :: "uuid \<Rightarrow> booking_row \<Rightarrow> uuid \<Rightarrow> time \<Rightarrow> (tables, unit) tx" where
  "validate_booking_package org b service now =
     and_then (load_credit_balance org b service now) (\<lambda>_. ret ())"

definition ledger_has :: "uuid \<Rightarrow> string \<Rightarrow> tables \<Rightarrow> bool" where
  "ledger_has org key t \<longleftrightarrow> (\<exists>l\<in>set (ledger t). le_org l = org \<and> le_key l = key)"

section \<open>Reserve, release, consume\<close>

text \<open>\<open>clock\<close> is what \<open>loadBookingCreditBalance\<close> reads of the clock, after the caller read \<open>now\<close>.\<close>

definition credit_entry ::
  "uuid \<Rightarrow> uuid \<Rightarrow> credit_refs \<Rightarrow> uuid option \<Rightarrow> string \<Rightarrow> int \<Rightarrow> int \<Rightarrow> string \<Rightarrow> string \<Rightarrow> uuid \<Rightarrow> time \<Rightarrow> ledger_row" where
  "credit_entry i org refs booking kind delta after key reason user now =
    \<lparr>le_id = i, le_org = org, le_package = cp_id (cr_package refs), le_entitlement = en_id (cr_entitlement refs),
     le_booking = booking, le_type = kind, le_delta = delta, le_after = after, le_key = key,
     le_reason = reason, le_actor = Some user,
     le_metadata = [(''is_unlimited'', Boolean (en_unlimited (cr_entitlement refs)))], le_occurred = now\<rparr>"

definition reserve_key :: "env \<Rightarrow> booking_row \<Rightarrow> string" where
  "reserve_key x b = ''booking-credit-reserve:'' @ show_uuid x (bk_id b)"
definition release_key :: "env \<Rightarrow> booking_row \<Rightarrow> string" where
  "release_key x b = ''booking-credit-release:'' @ show_uuid x (bk_id b)"
definition redeem_key :: "env \<Rightarrow> booking_row \<Rightarrow> string" where
  "redeem_key x b = ''booking-credit-redeem:'' @ show_uuid x (bk_id b)"

definition reserve_credit ::
  "env \<Rightarrow> uuid \<Rightarrow> booking_row \<Rightarrow> uuid \<Rightarrow> uuid \<Rightarrow> time \<Rightarrow> time \<Rightarrow> (tables, unit) tx" where
  "reserve_credit x org b service user now clock =
     and_then (query (ledger_has org (reserve_key x b))) (\<lambda>existing.
     if existing then ret ()
     else
       and_then (load_credit_balance org b service clock) (\<lambda>refs.
       let c = cr_balance refs; unlimited = en_unlimited (cr_entitlement refs); q = bk_quantity b;
           c' = (if unlimited then c else c\<lparr>cb_available := cb_available c - q,
             cb_reserved := cb_reserved c + q, cb_version := cb_version c + 1\<rparr>) in
       and_then (reject (\<not> unlimited \<and> cb_available c < q) (client_conflict m_not_enough)) (\<lambda>_.
       and_then (if unlimited then ret () else execute (update_balance org (cb_id c)
         (\<lambda>r. r\<lparr>cb_available := cb_available c', cb_reserved := cb_reserved c', cb_version := cb_version c'\<rparr>))) (\<lambda>_.
       and_then (mint (fresh_uuid x)) (\<lambda>i.
       execute (insert_ledger (credit_entry i org refs (Some (bk_id b)) ''reserve'' (- q) (cb_available c')
         (reserve_key x b) ''Booking credit reserved'' user now)))))))"

definition release_credit ::
  "env \<Rightarrow> uuid \<Rightarrow> booking_row \<Rightarrow> uuid \<Rightarrow> uuid \<Rightarrow> time \<Rightarrow> time \<Rightarrow> (tables, unit) tx" where
  "release_credit x org b service user now clock =
     and_then (query (ledger_has org (release_key x b))) (\<lambda>existing.
     if existing then ret ()
     else
       and_then (load_credit_balance org b service clock) (\<lambda>refs.
       let c = cr_balance refs; unlimited = en_unlimited (cr_entitlement refs); q = bk_quantity b;
           c' = (if unlimited then c else c\<lparr>cb_reserved := cb_reserved c - q,
             cb_available := cb_available c + q, cb_version := cb_version c + 1\<rparr>) in
       and_then (reject (\<not> unlimited \<and> cb_reserved c < q) (client_conflict m_inconsistent)) (\<lambda>_.
       and_then (if unlimited then ret () else execute (update_balance org (cb_id c)
         (\<lambda>r. r\<lparr>cb_available := cb_available c', cb_reserved := cb_reserved c', cb_version := cb_version c'\<rparr>))) (\<lambda>_.
       and_then (mint (fresh_uuid x)) (\<lambda>i.
       execute (insert_ledger (credit_entry i org refs (Some (bk_id b)) ''release'' q (cb_available c')
         (release_key x b) ''Booking credit released'' user now)))))))"

definition consume_credit ::
  "env \<Rightarrow> uuid \<Rightarrow> booking_row \<Rightarrow> uuid \<Rightarrow> uuid \<Rightarrow> time \<Rightarrow> time \<Rightarrow> (tables, unit) tx" where
  "consume_credit x org b service user now clock =
     and_then (query (ledger_has org (redeem_key x b))) (\<lambda>existing.
     if existing then ret ()
     else
       and_then (load_credit_balance org b service clock) (\<lambda>refs.
       let c = cr_balance refs; unlimited = en_unlimited (cr_entitlement refs); q = bk_quantity b;
           c' = (if unlimited then c else c\<lparr>cb_reserved := cb_reserved c - q,
             cb_consumed := cb_consumed c + q, cb_version := cb_version c + 1\<rparr>) in
       and_then (reject (\<not> unlimited \<and> cb_reserved c < q) (client_conflict m_inconsistent)) (\<lambda>_.
       and_then (if unlimited then ret () else execute (update_balance org (cb_id c)
         (\<lambda>r. r\<lparr>cb_reserved := cb_reserved c', cb_consumed := cb_consumed c', cb_version := cb_version c'\<rparr>))) (\<lambda>_.
       and_then (mint (fresh_uuid x)) (\<lambda>i.
       execute (insert_ledger (credit_entry i org refs (Some (bk_id b)) ''redeem'' (- q) (cb_available c')
         (redeem_key x b) ''Booking credit consumed'' user now)))))))"

section \<open>Grant\<close>

definition definition_entitlements :: "uuid \<Rightarrow> uuid \<Rightarrow> tables \<Rightarrow> entitlement_row list" where
  "definition_entitlements org def t =
     sort_key en_created_at (filter (\<lambda>e. en_org e = org \<and> en_definition e = def \<and> \<not> en_deleted e) (entitlements t))"

definition grant_key :: "env \<Rightarrow> string \<Rightarrow> package_row \<Rightarrow> entitlement_row \<Rightarrow> string" where
  "grant_key x pre p e = pre @ '':'' @ show_uuid x (cp_id p) @ '':'' @ show_uuid x (en_id e)"

definition new_balance :: "uuid \<Rightarrow> uuid \<Rightarrow> package_row \<Rightarrow> entitlement_row \<Rightarrow> balance_row" where
  "new_balance i org p e =
     (let credits = (if en_unlimited e then 0 else en_credits e) in
      \<lparr>cb_id = i, cb_org = org, cb_package = cp_id p, cb_entitlement = en_id e, cb_granted = credits,
       cb_reserved = 0, cb_consumed = 0, cb_available = credits, cb_version = 1, cb_deleted = False\<rparr>)"

definition grant_entry ::
  "uuid \<Rightarrow> uuid \<Rightarrow> package_row \<Rightarrow> entitlement_row \<Rightarrow> string \<Rightarrow> uuid \<Rightarrow> time \<Rightarrow> ledger_row" where
  "grant_entry i org p e key user now =
     (let available = (if en_unlimited e then 0 else en_credits e) in
      \<lparr>le_id = i, le_org = org, le_package = cp_id p, le_entitlement = en_id e, le_booking = None,
       le_type = ''grant'', le_delta = (if en_unlimited e then 1 else available), le_after = available,
       le_key = key, le_reason = ''Package activated'', le_actor = Some user,
       le_metadata = [(''is_unlimited'', Boolean (en_unlimited e))], le_occurred = now\<rparr>)"

definition grant_entitlement ::
  "env \<Rightarrow> uuid \<Rightarrow> package_row \<Rightarrow> uuid \<Rightarrow> time \<Rightarrow> string \<Rightarrow> entitlement_row \<Rightarrow> (tables, unit) tx" where
  "grant_entitlement x org p user now pre e =
     and_then (query (ledger_has org (grant_key x pre p e))) (\<lambda>existing.
     if existing then ret ()
     else
       and_then (mint (fresh_uuid x)) (\<lambda>i.
       and_then (execute (insert_balance (new_balance i org p e))) (\<lambda>_.
       and_then (mint (fresh_uuid x)) (\<lambda>j.
       execute (insert_ledger (grant_entry j org p e (grant_key x pre p e) user now))))))"

definition grant_credits ::
  "env \<Rightarrow> uuid \<Rightarrow> package_row \<Rightarrow> uuid \<Rightarrow> time \<Rightarrow> string \<Rightarrow> (tables, unit) tx" where
  "grant_credits x org p user now pre =
     and_then (query (definition_entitlements org (cp_definition p))) (\<lambda>es.
     and_then (reject (es = []) (client_conflict m_no_entitlements)) (\<lambda>_.
     for_each es (grant_entitlement x org p user now pre)))"

section \<open>The ledger explains the balances\<close>

definition counted :: "balance_row \<Rightarrow> string \<Rightarrow> ledger_row \<Rightarrow> bool" where
  "counted b kind l \<longleftrightarrow> ledger_slot l = balance_key b \<and> le_type l = kind
     \<and> map_of (le_metadata l) ''is_unlimited'' = Some (Boolean False)"

definition moved :: "balance_row \<Rightarrow> string \<Rightarrow> ledger_row list \<Rightarrow> int" where
  "moved b kind ls = sum_list (map le_delta (filter (counted b kind) ls))"

definition explained :: "ledger_row list \<Rightarrow> balance_row \<Rightarrow> bool" where
  "explained ls b \<longleftrightarrow>
     cb_granted b = moved b ''grant'' ls
     \<and> cb_consumed b = - moved b ''redeem'' ls
     \<and> cb_reserved b = moved b ''redeem'' ls - moved b ''reserve'' ls - moved b ''release'' ls"

text \<open>
  What every credit operation preserves: the keys are unique, each ledger row belongs to a balance,
  each balance satisfies its equation and is the sum of its finite movements.
\<close>

definition credits_ok :: "tables \<Rightarrow> bool" where
  "credits_ok t \<longleftrightarrow>
     distinct (map cb_id (balances t)) \<and> distinct (map balance_key (balances t))
     \<and> distinct (map (\<lambda>l. (le_org l, le_key l)) (ledger t))
     \<and> (\<forall>l\<in>set (ledger t). ledger_slot l \<in> balance_key ` set (balances t))
     \<and> (\<forall>b\<in>set (balances t). balance_equation b \<and> explained (ledger t) b)"

lemma moved_append [simp]: "moved b k (ls @ ms) = moved b k ls + moved b k ms"
  by (simp add: moved_def)

lemma moved_single: "moved b k [l] = (if counted b k l then le_delta l else 0)"
  by (simp add: moved_def)

lemma moved_key:
  assumes "balance_key b = balance_key c"
  shows "moved b k ls = moved c k ls"
proof -
  have "counted b k = counted c k" using assms by (intro ext) (simp add: counted_def)
  then show ?thesis by (simp add: moved_def)
qed

lemma explained_available:
  "balance_equation b \<Longrightarrow> explained ls b \<Longrightarrow>
     cb_available b = moved b ''grant'' ls + moved b ''reserve'' ls + moved b ''release'' ls"
  by (simp add: balance_equation_def explained_def)

text \<open>How one more entry of a kind changes the amounts it explains.\<close>

definition amounts_after :: "balance_row \<Rightarrow> string \<Rightarrow> int \<Rightarrow> balance_row \<Rightarrow> bool" where
  "amounts_after c kind delta d \<longleftrightarrow>
     cb_granted d = cb_granted c + (if kind = ''grant'' then delta else 0)
     \<and> cb_consumed d = cb_consumed c - (if kind = ''redeem'' then delta else 0)
     \<and> cb_reserved d = cb_reserved c + (if kind = ''redeem'' then delta else 0)
         - (if kind = ''reserve'' \<or> kind = ''release'' then delta else 0)"

lemma explained_snoc:
  assumes "explained ls c" and key: "balance_key d = balance_key c"
    and counted: "\<And>k. counted c k l \<longleftrightarrow> k = kind" and "amounts_after c kind (le_delta l) d"
  shows "explained (ls @ [l]) d"
proof -
  have "moved d k (ls @ [l]) = moved c k ls + (if k = kind then le_delta l else 0)" for k
    unfolding moved_key [OF key] by (simp add: moved_single counted)
  then show ?thesis
    using assms(1,4) unfolding explained_def amounts_after_def by (auto simp del: moved_append)
qed

text \<open>An unlimited movement leaves the sums alone.\<close>

lemma credits_ok_unlimited:
  assumes ok: "credits_ok t" and slot: "ledger_slot l \<in> balance_key ` set (balances t)"
    and new: "(le_org l, le_key l) \<notin> (\<lambda>l. (le_org l, le_key l)) ` set (ledger t)"
    and un: "map_of (le_metadata l) ''is_unlimited'' \<noteq> Some (Boolean False)"
  shows "credits_ok (t\<lparr>ledger := ledger t @ [l]\<rparr>)"
proof -
  have "moved b k [l] = 0" for b k using un by (simp add: moved_single counted_def)
  with ok slot new show ?thesis by (auto simp: credits_ok_def explained_def)
qed

text \<open>
  A finite movement rewrites one balance and appends the entry that says how; \<open>g\<close>, \<open>r\<close>, \<open>c\<close> are the
  changes of the granted, reserved and consumed amounts.
\<close>

lemma credits_ok_movement:
  assumes ok: "credits_ok t" and b: "b \<in> set (balances t)"
    and rows: "rows = update_where (\<lambda>c. cb_id c = cb_id b \<and> cb_org c = cb_org b \<and> \<not> cb_deleted c) f (balances t)"
    and live: "\<not> cb_deleted b"
    and eqs: "list_all balance_equation rows"
    and keeps: "\<And>c. cb_id (f c) = cb_id c" "\<And>c. balance_key (f c) = balance_key c"
    and slot: "ledger_slot l = balance_key b"
    and new: "(le_org l, le_key l) \<notin> (\<lambda>l. (le_org l, le_key l)) ` set (ledger t)"
    and after: "explained (ledger t @ [l]) (f b)"
  shows "credits_ok (t\<lparr>balances := rows, ledger := ledger t @ [l]\<rparr>)"
proof -
  let ?p = "\<lambda>c. cb_id c = cb_id b \<and> cb_org c = cb_org b \<and> \<not> cb_deleted c"
  have only: "?p c \<longleftrightarrow> c = b" if "c \<in> set (balances t)" for c
    using ok b live that by (auto simp: credits_ok_def distinct_map inj_on_def)
  have ids: "map cb_id rows = map cb_id (balances t)" "map balance_key rows = map balance_key (balances t)"
    unfolding rows using keeps by (simp_all add: map_update_where_same)
  have keys: "balance_key ` set rows = balance_key ` set (balances t)"
    using ids(2) by (metis set_map)
  have "explained (ledger t @ [l]) c" if c: "c \<in> set rows" for c
  proof -
    from c obtain d where d: "d \<in> set (balances t)" "c = (if ?p d then f d else d)"
      unfolding rows by (auto simp: in_update_where)
    show ?thesis
    proof (cases "d = b")
      case True
      with d live after show ?thesis by simp
    next
      case False
      with d only have c: "c = d" by auto
      have "balance_key d \<noteq> balance_key b"
        using ok d(1) b False by (auto simp: credits_ok_def distinct_map inj_on_def)
      then have "moved d k [l] = 0" for k using slot by (simp add: moved_single counted_def)
      with ok d(1) c show ?thesis by (auto simp: credits_ok_def explained_def)
    qed
  qed
  moreover have "balance_equation c" if "c \<in> set rows" for c using eqs that by (simp add: list_all_iff)
  moreover have "ledger_slot l \<in> balance_key ` set rows" using b slot keys by auto
  ultimately show ?thesis
    using ok new ids keys by (auto simp: credits_ok_def)
qed

section \<open>Every credit operation keeps the ledger sound\<close>

lemma load_credit_Inr:
  assumes "load_credit_balance org b service now s = (Inr refs, u)"
  shows "tabs u = tabs s \<and> minted u = minted s
    \<and> (\<exists>i. bk_package b = Some i \<and> active_package org i (bk_contact b) (tabs s) = Some (cr_package refs))
    \<and> \<not> later (cp_starts (cr_package refs)) now
    \<and> (cp_expires (cr_package refs) = None \<or> later (cp_expires (cr_package refs)) now)
    \<and> entitlement_for org (cp_definition (cr_package refs)) service (tabs s) = Some (cr_entitlement refs)
    \<and> balance_for org (cp_id (cr_package refs)) (en_id (cr_entitlement refs)) (tabs s) = Some (cr_balance refs)"
proof (cases "bk_package b")
  case None
  with assms show ?thesis by (simp add: load_credit_balance_def fail_Inr)
next
  case (Some i)
  with assms obtain p s1 e s2 c where f: "first (active_package org i (bk_contact b)) s = (Inr p, s1)"
    "first (entitlement_for org (cp_definition p) service) s1 = (Inr e, s2)"
    "first (balance_for org (cp_id p) (en_id e)) s2 = (Inr c, u)"
    "\<not> later (cp_starts p) now" "cp_expires p = None \<or> later (cp_expires p) now"
    "refs = \<lparr>cr_package = p, cr_entitlement = e, cr_balance = c\<rparr>"
    unfolding load_credit_balance_def by (auto simp: ok_simps)
  from first_Inr [OF f(1)] first_Inr [OF f(2)] first_Inr [OF f(3)] f(4-6) Some show ?thesis by simp
qed

lemma balance_for_SomeD:
  "balance_for org p e t = Some c \<Longrightarrow>
     c \<in> set (balances t) \<and> cb_org c = org \<and> balance_key c = (org, p, e) \<and> \<not> cb_deleted c"
  unfolding balance_for_def by (drule first_in_filterD) (simp add: balance_key_def)

text \<open>The three movements of a booking share their shape; \<open>f\<close> rewrites the balance.\<close>

definition credit_move ::
  "env \<Rightarrow> uuid \<Rightarrow> booking_row \<Rightarrow> uuid \<Rightarrow> uuid \<Rightarrow> time \<Rightarrow> time \<Rightarrow> string \<Rightarrow> string \<Rightarrow> string \<Rightarrow> int \<Rightarrow>
     (balance_row \<Rightarrow> bool) \<Rightarrow> string \<Rightarrow> (balance_row \<Rightarrow> balance_row) \<Rightarrow> (balance_row \<Rightarrow> balance_row \<Rightarrow> balance_row) \<Rightarrow>
     (tables, unit) tx" where
  "credit_move x org b service user now clock key kind reason delta short msg f put =
     and_then (query (ledger_has org key)) (\<lambda>existing.
     if existing then ret ()
     else
       and_then (load_credit_balance org b service clock) (\<lambda>refs.
       let c = cr_balance refs; unlimited = en_unlimited (cr_entitlement refs);
           c' = (if unlimited then c else f c) in
       and_then (reject (\<not> unlimited \<and> short c) (client_conflict msg)) (\<lambda>_.
       and_then (if unlimited then ret () else execute (update_balance org (cb_id c) (put c'))) (\<lambda>_.
       and_then (mint (fresh_uuid x)) (\<lambda>i.
       execute (insert_ledger (credit_entry i org refs (Some (bk_id b)) kind delta (cb_available c')
         key reason user now)))))))"

lemma reserve_credit_move:
  "reserve_credit x org b service user now clock =
     credit_move x org b service user now clock (reserve_key x b) ''reserve'' ''Booking credit reserved'' (- bk_quantity b)
       (\<lambda>c. cb_available c < bk_quantity b) m_not_enough
       (\<lambda>c. c\<lparr>cb_available := cb_available c - bk_quantity b, cb_reserved := cb_reserved c + bk_quantity b,
          cb_version := cb_version c + 1\<rparr>)
       (\<lambda>n r. r\<lparr>cb_available := cb_available n, cb_reserved := cb_reserved n, cb_version := cb_version n\<rparr>)"
  unfolding reserve_credit_def credit_move_def Let_def ..

lemma release_credit_move:
  "release_credit x org b service user now clock =
     credit_move x org b service user now clock (release_key x b) ''release'' ''Booking credit released'' (bk_quantity b)
       (\<lambda>c. cb_reserved c < bk_quantity b) m_inconsistent
       (\<lambda>c. c\<lparr>cb_reserved := cb_reserved c - bk_quantity b, cb_available := cb_available c + bk_quantity b,
          cb_version := cb_version c + 1\<rparr>)
       (\<lambda>n r. r\<lparr>cb_available := cb_available n, cb_reserved := cb_reserved n, cb_version := cb_version n\<rparr>)"
  unfolding release_credit_def credit_move_def Let_def ..

lemma consume_credit_move:
  "consume_credit x org b service user now clock =
     credit_move x org b service user now clock (redeem_key x b) ''redeem'' ''Booking credit consumed'' (- bk_quantity b)
       (\<lambda>c. cb_reserved c < bk_quantity b) m_inconsistent
       (\<lambda>c. c\<lparr>cb_reserved := cb_reserved c - bk_quantity b, cb_consumed := cb_consumed c + bk_quantity b,
          cb_version := cb_version c + 1\<rparr>)
       (\<lambda>n r. r\<lparr>cb_reserved := cb_reserved n, cb_consumed := cb_consumed n, cb_version := cb_version n\<rparr>)"
  unfolding consume_credit_def credit_move_def Let_def ..

lemma credit_move_Inr:
  assumes "credit_move x org b service user now clock key kind reason delta short msg f put s = (Inr (), u)"
  obtains (replay) "tabs u = tabs s" "ledger_has org key (tabs s)"
    | (moved) refs i l where
      "\<not> ledger_has org key (tabs s)" "l = credit_entry i org refs (Some (bk_id b)) kind delta
         (cb_available (if en_unlimited (cr_entitlement refs) then cr_balance refs else f (cr_balance refs)))
         key reason user now"
      "balance_for org (cp_id (cr_package refs)) (en_id (cr_entitlement refs)) (tabs s) = Some (cr_balance refs)"
      "en_unlimited (cr_entitlement refs) \<or> \<not> short (cr_balance refs)"
      "tabs u = (if en_unlimited (cr_entitlement refs) then (tabs s)\<lparr>ledger := ledger (tabs s) @ [l]\<rparr>
         else (tabs s)\<lparr>balances := update_where
             (\<lambda>c. cb_id c = cb_id (cr_balance refs) \<and> cb_org c = org \<and> \<not> cb_deleted c)
             (put (f (cr_balance refs))) (balances (tabs s)), ledger := ledger (tabs s) @ [l]\<rparr>)"
      "en_unlimited (cr_entitlement refs) \<or> list_all balance_equation (balances (tabs u))"
proof -
  from assms obtain ex s1 where q: "query (ledger_has org key) s = (Inr ex, s1)"
    and r: "(if ex then ret ()
     else
       and_then (load_credit_balance org b service clock) (\<lambda>refs.
       let c = cr_balance refs; unlimited = en_unlimited (cr_entitlement refs);
           c' = (if unlimited then c else f c) in
       and_then (reject (\<not> unlimited \<and> short c) (client_conflict msg)) (\<lambda>_.
       and_then (if unlimited then ret () else execute (update_balance org (cb_id c) (put c'))) (\<lambda>_.
       and_then (mint (fresh_uuid x)) (\<lambda>i.
       execute (insert_ledger (credit_entry i org refs (Some (bk_id b)) kind delta (cb_available c')
         key reason user now))))))) s1 = (Inr (), u)"
    unfolding credit_move_def and_then_Inr by blast
  note Q = query_Inr [OF q]
  show ?thesis
  proof (cases ex)
    case True
    with r Q show ?thesis by (intro replay) (auto simp: ok_simps)
  next
    case False
    let ?un = "\<lambda>refs. en_unlimited (cr_entitlement refs)"
    from False r obtain refs s2 s3 v i s4 where ld: "load_credit_balance org b service clock s1 = (Inr refs, s2)"
      and short: "?un refs \<or> \<not> short (cr_balance refs)"
      and up: "(if ?un refs then ret () else execute (update_balance org (cb_id (cr_balance refs))
          (put (f (cr_balance refs))))) s2 = (Inr v, s3)"
      and i: "mint (fresh_uuid x) s3 = (Inr i, s4)"
      and ins: "execute (insert_ledger (credit_entry i org refs (Some (bk_id b)) kind delta
          (cb_available (if ?un refs then cr_balance refs else f (cr_balance refs))) key reason user now)) s4 = (Inr (), u)"
      by (auto simp: Let_def ok_simps split: if_splits)
    note LD = load_credit_Inr [OF ld] and I = mint_Inr [OF i] and INS = execute_Inr [OF ins]
    have s2: "tabs s2 = tabs s" using LD Q by simp
    have s3: "tabs s3 = (if ?un refs then tabs s else (tabs s)\<lparr>balances := update_where
             (\<lambda>c. cb_id c = cb_id (cr_balance refs) \<and> cb_org c = org \<and> \<not> cb_deleted c)
             (put (f (cr_balance refs))) (balances (tabs s))\<rparr>)
        \<and> (?un refs \<or> list_all balance_equation (balances (tabs s3)))"
    proof (cases "?un refs")
      case True
      with up s2 show ?thesis by (simp add: ok_simps)
    next
      case False
      with up have "execute (update_balance org (cb_id (cr_balance refs)) (put (f (cr_balance refs)))) s2 = (Inr v, s3)"
        by simp
      from execute_Inr [OF this] s2 obtain rows where
        "rows = update_where (\<lambda>c. cb_id c = cb_id (cr_balance refs) \<and> cb_org c = org \<and> \<not> cb_deleted c)
             (put (f (cr_balance refs))) (balances (tabs s))"
        "list_all balance_equation rows" "tabs s3 = (tabs s)\<lparr>balances := rows\<rparr>"
        by (auto simp: update_balance_def Let_def split: if_splits)
      with False show ?thesis by simp
    qed
    let ?l = "credit_entry i org refs (Some (bk_id b)) kind delta
          (cb_available (if ?un refs then cr_balance refs else f (cr_balance refs))) key reason user now"
    have u: "tabs u = (tabs s3)\<lparr>ledger := ledger (tabs s3) @ [?l]\<rparr>"
      using INS I unfolding insert_ledger_def by (simp split: if_splits)
    then have "balances (tabs u) = balances (tabs s3)" by simp
    with conjunct2 [OF s3] have "?un refs \<or> list_all balance_equation (balances (tabs u))" by simp
    moreover have "tabs u = (if ?un refs then (tabs s)\<lparr>ledger := ledger (tabs s) @ [?l]\<rparr>
         else (tabs s)\<lparr>balances := update_where
             (\<lambda>c. cb_id c = cb_id (cr_balance refs) \<and> cb_org c = org \<and> \<not> cb_deleted c)
             (put (f (cr_balance refs))) (balances (tabs s)), ledger := ledger (tabs s) @ [?l]\<rparr>)"
      using u s3 by simp
    ultimately show ?thesis
      using moved [of ?l i refs, OF _ refl] Q False LD short by simp
  qed
qed

lemma credit_move_ok:
  assumes run: "credit_move x org b service user now clock key kind reason delta short msg f put s = (Inr (), u)"
    and ok: "credits_ok (tabs s)"
    and keys: "\<And>n r. cb_id (put n r) = cb_id r" "\<And>n r. balance_key (put n r) = balance_key r"
    and exact: "\<And>c. amounts_after c kind delta (put (f c) c)"
  shows "credits_ok (tabs u)"
  using run
proof (rule credit_move_Inr)
  assume "tabs u = tabs s"
  with ok show ?thesis by simp
next
  fix refs :: credit_refs and i l
  let ?c = "cr_balance refs" and ?un = "en_unlimited (cr_entitlement refs)"
  assume new: "\<not> ledger_has org key (tabs s)"
    and l: "l = credit_entry i org refs (Some (bk_id b)) kind delta
         (cb_available (if ?un then ?c else f ?c)) key reason user now"
    and bal: "balance_for org (cp_id (cr_package refs)) (en_id (cr_entitlement refs)) (tabs s) = Some ?c"
    and short: "?un \<or> \<not> short ?c"
    and u: "tabs u = (if ?un then (tabs s)\<lparr>ledger := ledger (tabs s) @ [l]\<rparr>
         else (tabs s)\<lparr>balances := update_where
             (\<lambda>c. cb_id c = cb_id ?c \<and> cb_org c = org \<and> \<not> cb_deleted c)
             (put (f ?c)) (balances (tabs s)), ledger := ledger (tabs s) @ [l]\<rparr>)"
    and eqs: "?un \<or> list_all balance_equation (balances (tabs u))"
  note B = balance_for_SomeD [OF bal]
  have slot: "ledger_slot l = balance_key ?c" using B by (simp add: l credit_entry_def ledger_slot_def)
  have fresh: "(le_org l, le_key l) \<notin> (\<lambda>l. (le_org l, le_key l)) ` set (ledger (tabs s))"
    using new by (auto simp: l credit_entry_def ledger_has_def)
  show ?thesis
  proof (cases ?un)
    case True
    have "ledger_slot l \<in> balance_key ` set (balances (tabs s))"
      unfolding slot by (rule imageI) (use B in simp)
    moreover have "map_of (le_metadata l) ''is_unlimited'' \<noteq> Some (Boolean False)"
      using True by (simp add: l credit_entry_def)
    ultimately show ?thesis using credits_ok_unlimited [OF ok _ fresh] u True by simp
  next
    case False
    have counted: "counted ?c k l \<longleftrightarrow> k = kind" for k
      using slot False by (auto simp: counted_def l credit_entry_def)
    have "explained (ledger (tabs s) @ [l]) (put (f ?c) ?c)"
    proof (rule explained_snoc [OF _ keys(2) counted])
      show "explained (ledger (tabs s)) ?c" using ok B by (simp add: credits_ok_def)
      show "amounts_after ?c kind (le_delta l) (put (f ?c) ?c)"
        using exact by (simp add: l credit_entry_def)
    qed
    moreover have "cb_org ?c = org" "\<not> cb_deleted ?c" "?c \<in> set (balances (tabs s))" using B by simp_all
    ultimately show ?thesis
      using credits_ok_movement [OF ok, of ?c _ "put (f ?c)" l] False u eqs keys slot fresh by simp
  qed
qed

lemma reserve_credit_ok:
  "reserve_credit x org b service user now clock s = (Inr (), u) \<Longrightarrow> credits_ok (tabs s) \<Longrightarrow> credits_ok (tabs u)"
  unfolding reserve_credit_move
  by (erule credit_move_ok) (simp_all add: balance_key_def amounts_after_def)

lemma release_credit_ok:
  "release_credit x org b service user now clock s = (Inr (), u) \<Longrightarrow> credits_ok (tabs s) \<Longrightarrow> credits_ok (tabs u)"
  unfolding release_credit_move
  by (erule credit_move_ok) (simp_all add: balance_key_def amounts_after_def)

lemma consume_credit_ok:
  "consume_credit x org b service user now clock s = (Inr (), u) \<Longrightarrow> credits_ok (tabs s) \<Longrightarrow> credits_ok (tabs u)"
  unfolding consume_credit_move
  by (erule credit_move_ok) (simp_all add: balance_key_def amounts_after_def)

lemma grant_entitlement_ok:
  assumes run: "grant_entitlement x org p user now pre e s = (Inr (), u)" and ok: "credits_ok (tabs s)"
  shows "credits_ok (tabs u)"
proof -
  let ?key = "grant_key x pre p e"
  from run obtain ex s1 where q: "query (ledger_has org ?key) s = (Inr ex, s1)"
    and r: "(if ex then ret ()
     else
       and_then (mint (fresh_uuid x)) (\<lambda>i.
       and_then (execute (insert_balance (new_balance i org p e))) (\<lambda>_.
       and_then (mint (fresh_uuid x)) (\<lambda>j.
       execute (insert_ledger (grant_entry j org p e ?key user now)))))) s1 = (Inr (), u)"
    unfolding grant_entitlement_def and_then_Inr by blast
  note Q = query_Inr [OF q]
  show ?thesis
  proof (cases ex)
    case True
    with r Q ok show ?thesis by (simp add: ok_simps)
  next
    case False
    from False r obtain i s2 v s3 j s4 where i: "mint (fresh_uuid x) s1 = (Inr i, s2)"
      and b: "execute (insert_balance (new_balance i org p e)) s2 = (Inr v, s3)"
      and j: "mint (fresh_uuid x) s3 = (Inr j, s4)"
      and l: "execute (insert_ledger (grant_entry j org p e ?key user now)) s4 = (Inr (), u)"
      by (auto simp: ok_simps)
    let ?b = "new_balance i org p e" and ?l = "grant_entry j org p e ?key user now"
    have s3: "tabs s3 = (tabs s)\<lparr>balances := balances (tabs s) @ [?b]\<rparr>" "balance_equation ?b"
      "\<forall>c\<in>set (balances (tabs s)). cb_id c \<noteq> cb_id ?b \<and> balance_key c \<noteq> balance_key ?b"
      using execute_Inr [OF b] mint_Inr [OF i] Q by (auto simp: insert_balance_def split: if_splits)
    have u: "tabs u = (tabs s)\<lparr>balances := balances (tabs s) @ [?b], ledger := ledger (tabs s) @ [?l]\<rparr>"
      "(le_org ?l, le_key ?l) \<notin> (\<lambda>l. (le_org l, le_key l)) ` set (ledger (tabs s))"
      using execute_Inr [OF l] mint_Inr [OF j] s3(1) by (auto simp: insert_ledger_def split: if_splits)
    have slot: "ledger_slot ?l = balance_key ?b"
      by (simp add: grant_entry_def new_balance_def Let_def ledger_slot_def balance_key_def)
    have old: "balance_equation c \<and> explained (ledger (tabs s) @ [?l]) c" if c: "c \<in> set (balances (tabs s))" for c
    proof -
      have "moved c k [?l] = 0" for k using s3(3) slot c by (auto simp: moved_single counted_def)
      with ok c show ?thesis by (auto simp: credits_ok_def explained_def)
    qed
    have "moved ?b k (ledger (tabs s)) = 0" for k
    proof -
      have "\<not> counted ?b k m" if "m \<in> set (ledger (tabs s))" for m
        using ok that s3(3) by (fastforce simp: credits_ok_def counted_def)
      then show ?thesis by (simp add: moved_def filter_False)
    qed
    then have "explained (ledger (tabs s) @ [?l]) ?b"
      using slot by (auto simp: explained_def moved_single counted_def grant_entry_def new_balance_def Let_def)
    with ok old s3 u slot show ?thesis by (auto simp: credits_ok_def)
  qed
qed

lemma for_each_Inr:
  assumes "for_each xs f s = (Inr (), u)" and "I (tabs s)"
    and "\<And>a s u. a \<in> set xs \<Longrightarrow> f a s = (Inr (), u) \<Longrightarrow> I (tabs s) \<Longrightarrow> I (tabs u)"
  shows "I (tabs u)"
  using assms
proof (induction xs arbitrary: s)
  case (Cons a xs)
  from Cons.prems(1) obtain t where "f a s = (Inr (), t)" "for_each xs f t = (Inr (), u)"
    by (auto simp: and_then_Inr)
  with Cons show ?case by (meson list.set_intros)
qed (simp add: ret_Inr)

lemma grant_credits_ok:
  assumes "grant_credits x org p user now pre s = (Inr (), u)" and "credits_ok (tabs s)"
  shows "credits_ok (tabs u)"
proof -
  from assms(1) obtain es t where q: "query (definition_entitlements org (cp_definition p)) s = (Inr es, t)"
    and each: "for_each es (grant_entitlement x org p user now pre) t = (Inr (), u)"
    unfolding grant_credits_def by (auto simp: ok_simps)
  from each show ?thesis
    by (rule for_each_Inr) (use query_Inr [OF q] assms(2) grant_entitlement_ok in auto)
qed

end
