(* ===== verification/BookingHandlers.thy ===== *)
theory BookingHandlers
  imports BookingCore Credits
begin

text \<open>
  \<^verbatim>\<open>CreateBooking\<close> and \<^verbatim>\<open>TransitionBooking\<close> of \<^verbatim>\<open>internal/handlers/product_booking_commerce.go\<close> with the
  helpers they call, from the decoded request to the answer: validation, the transaction with its
  credit movement, optimistic version check, timeline and audit rows, and the HTTP status of an error.
\<close>

section \<open>Answers\<close>

text \<open>\<open>sendBookingCommerceError\<close>.\<close>

definition error_answer :: "string \<Rightarrow> err \<Rightarrow> nat \<times> string" where
  "error_answer operation e =
     (case e of
        DomainError kind m \<Rightarrow>
          (if kind = ''forbidden'' then payment_required
           else if kind = ''invalid'' then bad_request else conflict_status, m)
      | ClientError status m \<Rightarrow> (status, m)
      | _ \<Rightarrow> (server_error, ''Failed to '' @ operation))"

section \<open>Requests\<close>

record booking_request =
  cq_event :: uuid
  cq_contact :: uuid
  cq_quantity :: int
  cq_status :: string
  cq_source :: string
  cq_notes :: string
  cq_package :: "uuid option"
  cq_waitlist :: bool
  cq_key :: string
  cq_metadata :: jsonb

definition m_event_mismatch :: string where
  "m_event_mismatch = ''event_id must match the booking event in the request path''"
definition m_event_contact :: string where "m_event_contact = ''event_id and contact_id are required''"
definition m_quantity :: string where "m_quantity = ''quantity must be between 1 and 10000''"
definition m_request_status :: string where
  "m_request_status = ''initial status must be reserved, confirmed, or waitlisted''"
definition m_source :: string where "m_source = ''invalid booking source''"
definition m_package_uuid :: string where "m_package_uuid = ''contact_package_id must be a valid UUID''"
definition m_key :: string where "m_key = ''idempotency_key is required and must not exceed 255 characters''"
definition m_notes :: string where "m_notes = ''notes must not exceed 10000 characters''"

definition valid_booking_source :: "string \<Rightarrow> bool" where
  "valid_booking_source s \<longleftrightarrow> s \<in> {''agent'', ''whatsapp'', ''api'', ''import''}"

definition valid_booking_status :: "string \<Rightarrow> bool" where
  "valid_booking_status s \<longleftrightarrow>
     s \<in> {s_reserved, s_confirmed, s_waitlisted, s_checked_in, s_completed, s_no_show, s_cancelled}"

text \<open>The validation also trims the key of the request it is given.\<close>

definition validate_create_booking :: "booking_request \<Rightarrow> (string, booking_request) result" where
  "validate_create_booking raw =
     (let r = raw\<lparr>cq_key := trim_space (cq_key raw)\<rparr> in
      if cq_event r = nil_uuid \<or> cq_contact r = nil_uuid then Inl m_event_contact
      else if cq_quantity r < 1 \<or> 10000 < cq_quantity r then Inl m_quantity
      else if cq_status r \<noteq> [] \<and> cq_status r \<noteq> s_reserved \<and> cq_status r \<noteq> s_confirmed
          \<and> cq_status r \<noteq> s_waitlisted then Inl m_request_status
      else if cq_source r \<noteq> [] \<and> \<not> valid_booking_source (cq_source r) then Inl m_source
      else if cq_package r = Some nil_uuid then Inl m_package_uuid
      else if cq_key r = [] \<or> 255 < rune_count (cq_key r) then Inl m_key
      else if 10000 < rune_count (cq_notes r) then Inl m_notes
      else Inr r)"

definition as_client :: "(string, 'a) result \<Rightarrow> (err, 'a) result" where
  "as_client r = (case r of Inl m \<Rightarrow> Inl (ClientError bad_request m) | Inr a \<Rightarrow> Inr a)"

lemma as_client_Inr [simp]: "as_client r = Inr a \<longleftrightarrow> r = Inr a"
  by (cases r) (simp_all add: as_client_def)

section \<open>Creating a booking\<close>

definition booking_by_id :: "uuid \<Rightarrow> uuid \<Rightarrow> tables \<Rightarrow> booking_row option" where
  "booking_by_id org i t =
     first_in (by_key bk_id) (filter (\<lambda>b. bk_id b = i \<and> bk_org b = org \<and> \<not> bk_deleted b) (bookings t))"

definition reserve_request :: "uuid \<Rightarrow> booking_request \<Rightarrow> reserve_input" where
  "reserve_request user r =
    \<lparr>ri_event = cq_event r, ri_contact = cq_contact r, ri_quantity = cq_quantity r,
     ri_status = (if cq_status r = [] then s_reserved else cq_status r),
     ri_source = (if cq_source r = [] then ''agent'' else cq_source r), ri_notes = cq_notes r,
     ri_package = cq_package r, ri_waitlist = cq_waitlist r, ri_key = cq_key r,
     ri_metadata = cq_metadata r, ri_actor = Some user, ri_expected = None, ri_offer_expires = zero_time\<rparr>"

definition created_activity :: "env \<Rightarrow> uuid \<Rightarrow> booking_row \<Rightarrow> event_row \<Rightarrow> time \<Rightarrow> activity_input" where
  "created_activity x user b e now =
    \<lparr>in_contact = bk_contact b, in_lead = None, in_type = ''booking.created'', in_category = ''booking'',
     in_title = ''Booking created'', in_summary = rfc3339 x (ev_starts e), in_actor_type = ''user'',
     in_actor = Some user, in_source_type = ''booking'', in_source = Some (bk_id b), in_occurred = now,
     in_metadata = [(''event_id'', Str (show_uuid x (ev_id e))), (''status'', Str (bk_status b)),
       (''quantity'', Integer (bk_quantity b))],
     in_webhook = [], in_key = ''booking-created:'' @ show_uuid x (bk_id b)\<rparr>"

text \<open>What follows the reservation reads the clock again: \<open>clock\<close>.\<close>

definition charge_booking ::
  "env \<Rightarrow> uuid \<Rightarrow> uuid \<Rightarrow> booking_row \<Rightarrow> event_row \<Rightarrow> time \<Rightarrow> time \<Rightarrow> (tables, unit) tx" where
  "charge_booking x org user b e now clock =
     (if occupies_capacity (bk_status b) \<and> bk_package b \<noteq> None then
        reserve_credit x org b (ev_service e) user now clock
      else if bk_package b \<noteq> None then validate_booking_package org b (ev_service e) clock
      else ret ())"

definition create_body ::
  "env \<Rightarrow> uuid \<Rightarrow> uuid \<Rightarrow> booking_request \<Rightarrow> time \<Rightarrow> time \<Rightarrow> (tables, booking_row) tx" where
  "create_body x org user r now clock =
     and_then (reserve_tx x org (reserve_request user r) now) (\<lambda>result.
     let b = rr_booking result in
     case rr_event result of
       None \<Rightarrow> ret b
     | Some le \<Rightarrow>
         and_then (charge_booking x org user b (le_event le) (rr_now result) clock) (\<lambda>_.
         and_then (record_tx x org clock (created_activity x user b (le_event le) (rr_now result))) (\<lambda>_.
         and_then (audit_change org user ''booking'' (bk_id b) ''created'' None (Some (booking_json x b))) (\<lambda>_.
         ret b))))"

definition m_load_booking :: string where "m_load_booking = ''Failed to load booking''"

definition create_booking ::
  "env \<Rightarrow> uuid \<Rightarrow> uuid \<Rightarrow> uuid \<Rightarrow> booking_request \<Rightarrow> time \<Rightarrow> time \<Rightarrow> (tables, booking_row) tx" where
  "create_booking x org user path_event req now clock =
     and_then (reject (cq_event req \<noteq> nil_uuid \<and> cq_event req \<noteq> path_event)
       (ClientError bad_request m_event_mismatch)) (\<lambda>_.
     and_then (lift_res (as_client (validate_create_booking (req\<lparr>cq_event := path_event\<rparr>)))) (\<lambda>r.
     and_then (transaction (create_body x org user r now clock)) (\<lambda>b.
     or_fail (first (booking_by_id org (bk_id b))) (ClientError server_error m_load_booking))))"

section \<open>The state machine of a booking\<close>

fun replace_dashes :: "string \<Rightarrow> string" where
  "replace_dashes [] = []"
| "replace_dashes (c # s) = (if c = CHR ''-'' then CHR ''_'' else c) # replace_dashes s"

definition m_transition :: string where "m_transition = ''invalid booking transition''"

definition status_from_transition :: "string \<Rightarrow> (string, string) result" where
  "status_from_transition raw =
     (let n = replace_dashes (to_lower (trim_space raw)) in
      if n \<in> {''reserve'', ''reserved''} then Inr s_reserved
      else if n \<in> {''confirm'', ''confirmed''} then Inr s_confirmed
      else if n \<in> {''waitlist'', ''waitlisted''} then Inr s_waitlisted
      else if n \<in> {''check_in'', ''checked_in'', ''checkin''} then Inr s_checked_in
      else if n \<in> {''complete'', ''completed''} then Inr s_completed
      else if n \<in> {''no_show'', ''noshow''} then Inr s_no_show
      else if n \<in> {''cancel'', ''cancelled'', ''canceled''} then Inr s_cancelled
      else Inl m_transition)"

definition transition_allowed :: "string \<Rightarrow> string \<Rightarrow> bool" where
  "transition_allowed from to =
     (if from = s_reserved then to = s_confirmed \<or> to = s_cancelled
      else if from = s_confirmed then to = s_checked_in \<or> to = s_no_show \<or> to = s_cancelled
      else if from = s_waitlisted then to = s_reserved \<or> to = s_confirmed \<or> to = s_cancelled
      else if from = s_checked_in then to = s_completed \<or> to = s_no_show
      else False)"

record transition_request =
  tq_status :: string
  tq_version :: int
  tq_reason :: string

definition m_version :: string where "m_version = ''version must be at least 1''"
definition m_reason :: string where "m_reason = ''reason must not exceed 10000 characters''"
definition m_status_mismatch :: string where
  "m_status_mismatch = ''status must match the transition in the request path''"
definition m_booking_missing :: string where "m_booking_missing = ''Booking not found''"
definition m_booking_modified :: string where "m_booking_modified = ''Booking was modified; refresh and retry''"
definition m_event_unavailable :: string where "m_event_unavailable = ''Booking event is unavailable''"
definition m_no_capacity :: string where
  "m_no_capacity = ''Booking event does not have enough remaining capacity''"

definition m_cannot_transition :: "string \<Rightarrow> string \<Rightarrow> string" where
  "m_cannot_transition from to = ''Cannot transition booking from '' @ from @ '' to '' @ to"

definition validate_transition :: "transition_request \<Rightarrow> (string, unit) result" where
  "validate_transition r =
     (if \<not> valid_booking_status (tq_status r) then Inl m_transition
      else if tq_version r < 1 then Inl m_version
      else if 10000 < rune_count (tq_reason r) then Inl m_reason
      else Inr ())"

text \<open>\<open>bookingStatusOccupiesCapacity\<close> and \<open>bookingEventOccupiedQuantity\<close>, the handler's own copies.\<close>

definition status_occupies :: "string \<Rightarrow> bool" where
  "status_occupies st \<longleftrightarrow> st \<in> {s_reserved, s_confirmed, s_checked_in, s_completed, s_no_show}"

definition booking_capacity_statuses :: "string list" where
  "booking_capacity_statuses = [s_reserved, s_confirmed, s_checked_in, s_completed, s_no_show]"

definition occupied_excluding :: "uuid \<Rightarrow> uuid \<Rightarrow> uuid \<Rightarrow> tables \<Rightarrow> int" where
  "occupied_excluding org event ex t =
     sum_list (map bk_quantity (filter (\<lambda>b. bk_org b = org \<and> bk_event b = event
       \<and> bk_status b \<in> set booking_capacity_statuses \<and> (ex = nil_uuid \<or> bk_id b \<noteq> ex) \<and> \<not> bk_deleted b)
       (bookings t)))"

lemma status_occupies_eq [simp]: "status_occupies = occupies_capacity"
  by (rule ext) (auto simp: status_occupies_def occupies_capacity_def capacity_statuses_def)

definition bump_event_version :: "uuid \<Rightarrow> uuid \<Rightarrow> (tables, unit) tx" where
  "bump_event_version org event =
     and_then (execute (bump_event org event)) (\<lambda>n. reject (n \<noteq> 1) (client_conflict m_event_unavailable))"

text \<open>The columns \<open>Updates\<close> writes for a status.\<close>

definition set_status :: "uuid \<Rightarrow> string \<Rightarrow> string \<Rightarrow> time \<Rightarrow> booking_row \<Rightarrow> booking_row" where
  "set_status user status reason now b =
     (let u = b\<lparr>bk_status := status, bk_updated_by := Some user, bk_version := bk_version b + 1\<rparr> in
      if status = s_confirmed then u\<lparr>bk_confirmed_at := Some now\<rparr>
      else if status = s_checked_in then u\<lparr>bk_checked_in_at := Some now\<rparr>
      else if status = s_completed then u\<lparr>bk_completed_at := Some now\<rparr>
      else if status = s_no_show then u\<lparr>bk_no_show_at := Some now\<rparr>
      else if status = s_cancelled then
        u\<lparr>bk_cancelled_at := Some now, bk_cancelled_by := Some user, bk_cancel_reason := trim_space reason\<rparr>
      else u)"

definition write_status ::
  "uuid \<Rightarrow> uuid \<Rightarrow> int \<Rightarrow> (booking_row \<Rightarrow> booking_row) \<Rightarrow> tables \<Rightarrow> err + nat \<times> tables" where
  "write_status org i version f t =
     (let p = (\<lambda>b. bk_id b = i \<and> bk_org b = org \<and> bk_version b = version \<and> \<not> bk_deleted b) in
      Inr (rows_affected p (bookings t), t\<lparr>bookings := update_where p f (bookings t)\<rparr>))"

definition load_for_transition ::
  "uuid \<Rightarrow> uuid \<Rightarrow> transition_request \<Rightarrow> (tables, booking_row \<times> event_row) tx" where
  "load_for_transition org i r =
     and_then (or_fail (first (booking_by_id org i)) (ClientError not_found m_booking_missing)) (\<lambda>b.
     and_then (reject (bk_version b \<noteq> tq_version r) (client_conflict m_booking_modified)) (\<lambda>_.
     and_then (reject (\<not> transition_allowed (bk_status b) (tq_status r))
       (client_conflict (m_cannot_transition (bk_status b) (tq_status r)))) (\<lambda>_.
     and_then (or_fail (first (event_by_id org (bk_event b))) (client_conflict m_event_unavailable)) (\<lambda>e.
     ret (b, e)))))"

definition check_capacity :: "uuid \<Rightarrow> booking_row \<Rightarrow> event_row \<Rightarrow> string \<Rightarrow> (tables, unit) tx" where
  "check_capacity org b e status =
     (if \<not> status_occupies (bk_status b) \<and> status_occupies status then
        and_then (query (occupied_excluding org (ev_id e) (bk_id b))) (\<lambda>occupied.
          reject (ev_capacity e < wrap64 (occupied + bk_quantity b)) (client_conflict m_no_capacity))
      else ret ())"

definition settle_credit ::
  "env \<Rightarrow> uuid \<Rightarrow> uuid \<Rightarrow> booking_row \<Rightarrow> event_row \<Rightarrow> string \<Rightarrow> time \<Rightarrow> time \<Rightarrow> (tables, unit) tx" where
  "settle_credit x org user b e status now clock =
     (let old = status_occupies (bk_status b); new = status_occupies status in
      and_then (if \<not> old \<and> new \<and> bk_package b \<noteq> None then reserve_credit x org b (ev_service e) user now clock
        else ret ()) (\<lambda>_.
      and_then (if old \<and> status = s_cancelled \<and> bk_package b \<noteq> None then release_credit x org b (ev_service e) user now clock
        else ret ()) (\<lambda>_.
      if old \<and> (status = s_completed \<or> status = s_no_show) \<and> bk_package b \<noteq> None
      then consume_credit x org b (ev_service e) user now clock else ret ())))"

definition status_activity :: "env \<Rightarrow> uuid \<Rightarrow> booking_row \<Rightarrow> booking_row \<Rightarrow> string \<Rightarrow> time \<Rightarrow> activity_input" where
  "status_activity x user old new reason now =
    \<lparr>in_contact = bk_contact new, in_lead = None, in_type = ''booking.status_changed'', in_category = ''booking'',
     in_title = ''Booking status changed'', in_summary = bk_status old @ '' '' @ [CHR 0xE2, CHR 0x86, CHR 0x92] @ '' '' @ bk_status new,
     in_actor_type = ''user'', in_actor = Some user, in_source_type = ''booking'', in_source = Some (bk_id new),
     in_occurred = now,
     in_metadata = [(''event_id'', Str (show_uuid x (bk_event new))), (''from_status'', Str (bk_status old)),
       (''to_status'', Str (bk_status new)), (''version'', Int64 (bk_version new)), (''reason'', Str (trim_space reason))],
     in_webhook = [],
     in_key = ''booking-status:'' @ show_uuid x (bk_id new) @ '':'' @ show_nat (nat (bk_version new))\<rparr>"

definition transition_body ::
  "env \<Rightarrow> uuid \<Rightarrow> uuid \<Rightarrow> uuid \<Rightarrow> transition_request \<Rightarrow> time \<Rightarrow> time \<Rightarrow> (tables, booking_row) tx" where
  "transition_body x org user i r now clock =
     and_then (load_for_transition org i r) (\<lambda>(b, e).
     and_then (check_capacity org b e (tq_status r)) (\<lambda>_.
     and_then (settle_credit x org user b e (tq_status r) now clock) (\<lambda>_.
     and_then (execute (write_status org i (tq_version r) (set_status user (tq_status r) (tq_reason r) now))) (\<lambda>n.
     and_then (reject (n \<noteq> 1) (client_conflict m_booking_modified)) (\<lambda>_.
     and_then (if status_occupies (bk_status b) \<noteq> status_occupies (tq_status r)
       then bump_event_version org (ev_id e) else ret ()) (\<lambda>_.
     and_then (first (booking_by_id org i)) (\<lambda>updated.
     and_then (record_tx x org clock (status_activity x user b updated (tq_reason r) now)) (\<lambda>_.
     and_then (audit_change org user ''booking'' i ''updated'' (Some (booking_json x b)) (Some (booking_json x updated))) (\<lambda>_.
     ret updated)))))))))"

definition transition_booking ::
  "env \<Rightarrow> uuid \<Rightarrow> uuid \<Rightarrow> uuid \<Rightarrow> string \<Rightarrow> transition_request \<Rightarrow> time \<Rightarrow> time \<Rightarrow> (tables, booking_row) tx" where
  "transition_booking x org user i raw req now clock =
     and_then (lift_res (as_client (status_from_transition raw))) (\<lambda>status.
     and_then (reject (tq_status req \<noteq> [] \<and> tq_status req \<noteq> status) (ClientError bad_request m_status_mismatch)) (\<lambda>_.
     let r = req\<lparr>tq_status := status\<rparr> in
     and_then (lift_res (as_client (validate_transition r))) (\<lambda>_.
     and_then (transaction (transition_body x org user i r now clock)) (\<lambda>updated.
     or_fail (first (booking_by_id org (bk_id updated))) (ClientError server_error m_load_booking)))))"

end
