(* ===== verification/Schedule.thy ===== *)
theory Schedule
  imports Calendar BookingHandlers
begin

text \<open>
  \<^verbatim>\<open>internal/handlers/booking_availability.go\<close>: recurring availability rules and time off of a resource,
  created, replaced and soft-deleted under a version check. \<^verbatim>\<open>gorm\<close> writes the column default instead
  of a zero value on \<open>Create\<close>; \<open>stored_active\<close> is that rule for a column with default true.
\<close>

definition stored_active :: "bool \<Rightarrow> bool" where
  "stored_active given = (if given then given else True)"

section \<open>The resource\<close>

definition m_resource_missing :: string where "m_resource_missing = ''Booking resource not found''"
definition m_bad_timezone :: string where
  "m_bad_timezone = ''Booking resource timezone is invalid; update the resource before managing availability''"

definition resource_by_id :: "uuid \<Rightarrow> uuid \<Rightarrow> tables \<Rightarrow> resource_row option" where
  "resource_by_id org i t =
     first_in (by_key rs_id) (filter (\<lambda>r. rs_id r = i \<and> rs_org r = org \<and> \<not> rs_deleted r) (resources t))"

definition ensure_resource_tenant :: "uuid \<Rightarrow> uuid \<Rightarrow> (tables, unit) tx" where
  "ensure_resource_tenant org i =
     and_then (or_not_found (first (resource_by_id org i)) (ClientError not_found m_resource_missing)) (\<lambda>_. ret ())"

definition resource_location :: "env \<Rightarrow> uuid \<Rightarrow> uuid \<Rightarrow> (tables, zone) tx" where
  "resource_location x org i =
     and_then (or_not_found (first (resource_by_id org i)) (ClientError not_found m_resource_missing)) (\<lambda>r.
       case load_location x (trim_space (rs_timezone r)) of
         None \<Rightarrow> fail (client_conflict m_bad_timezone)
       | Some z \<Rightarrow> ret z)"

section \<open>Availability rules\<close>

record rule_request =
  rq_weekday :: int
  rq_start :: string
  rq_end :: string
  rq_from :: "string option"
  rq_until :: "string option"
  rq_active :: "bool option"
  rq_version :: int

definition m_weekday :: string where "m_weekday = ''weekday must be between 0 (Sunday) and 6 (Saturday)''"
definition m_start_time :: string where "m_start_time = ''start_local_time must use HH:MM in 24-hour time''"
definition m_end_time :: string where "m_end_time = ''end_local_time must use HH:MM in 24-hour time''"
definition m_same_day :: string where
  "m_same_day = ''availability rules must be same-day intervals with end_local_time after start_local_time''"
definition m_from_date :: string where "m_from_date = ''effective_from is not a valid resource-local calendar date''"
definition m_until_date :: string where "m_until_date = ''effective_until is not a valid resource-local calendar date''"
definition m_date_order :: string where "m_date_order = ''effective_until must be on or after effective_from''"
definition m_persisted_start :: string where "m_persisted_start = ''invalid persisted availability start time''"
definition m_persisted_interval :: string where "m_persisted_interval = ''invalid persisted availability interval''"
definition m_rule_overlap :: string where "m_rule_overlap = ''Availability rule overlaps an active rule for this resource''"
definition m_rule_missing :: string where "m_rule_missing = ''Availability rule not found''"
definition m_rule_modified :: string where "m_rule_modified = ''Availability rule was modified; refresh and retry''"

definition validate_rule :: "rule_request \<Rightarrow> bool \<Rightarrow> (string, rule_request) result" where
  "validate_rule raw updating =
     (let r = raw\<lparr>rq_start := trim_space (rq_start raw), rq_end := trim_space (rq_end raw)\<rparr> in
      if rq_weekday raw < 0 \<or> 6 < rq_weekday raw then Inl m_weekday
      else (case local_minute (rq_start r) of
        None \<Rightarrow> Inl m_start_time
      | Some a \<Rightarrow> (case local_minute (rq_end r) of
          None \<Rightarrow> Inl m_end_time
        | Some b \<Rightarrow>
            if b \<le> a then Inl m_same_day
            else if updating \<and> rq_version r < 1 then Inl m_version
            else Inr r)))"

definition effective_date :: "env \<Rightarrow> zone \<Rightarrow> string option \<Rightarrow> time option option" where
  "effective_date x z v =
     (case v of
        None \<Rightarrow> Some None
      | Some s \<Rightarrow>
          let raw = trim_space s in
          if raw = [] then None
          else (case parse_date raw of
            Some d \<Rightarrow> Some (Some (utc_midnight d))
          | None \<Rightarrow> (case parse_rfc3339 x raw of
              Some instant \<Rightarrow> Some (Some (utc_midnight (local_civil z instant)))
            | None \<Rightarrow> None)))"

definition effective_dates ::
  "env \<Rightarrow> zone \<Rightarrow> rule_request \<Rightarrow> (err, time option \<times> time option) result" where
  "effective_dates x z r =
     (case effective_date x z (rq_from r) of
        None \<Rightarrow> Inl (ClientError bad_request m_from_date)
      | Some from \<Rightarrow> (case effective_date x z (rq_until r) of
          None \<Rightarrow> Inl (ClientError bad_request m_until_date)
        | Some until \<Rightarrow>
            (case (from, until) of
              (Some f, Some u) \<Rightarrow>
                if stored_date_key u < stored_date_key f then Inl (ClientError bad_request m_date_order)
                else Inr (from, until)
            | _ \<Rightarrow> Inr (from, until))))"

definition before_range :: "time option \<Rightarrow> time option \<Rightarrow> bool" where
  "before_range until from =
     (case (until, from) of
        (Some u, Some f) \<Rightarrow> stored_date_key u < stored_date_key f
      | _ \<Rightarrow> False)"

definition effective_overlap :: "rule_row \<Rightarrow> rule_row \<Rightarrow> bool" where
  "effective_overlap l r =
     (if before_range (ar_until l) (ar_from r) then False
      else if before_range (ar_until r) (ar_from l) then False
      else True)"

definition minute_or_zero :: "string \<Rightarrow> int" where
  "minute_or_zero s = (case local_minute s of None \<Rightarrow> 0 | Some m \<Rightarrow> m)"

fun check_existing_rules :: "rule_row \<Rightarrow> rule_row list \<Rightarrow> (err, unit) result" where
  "check_existing_rules c [] = Inr ()"
| "check_existing_rules c (r # rs) =
     (case local_minute (ar_start r) of
        None \<Rightarrow> Inl (OtherError m_persisted_start)
      | Some os \<Rightarrow> (case local_minute (ar_end r) of
          None \<Rightarrow> Inl (OtherError m_persisted_interval)
        | Some oe \<Rightarrow>
            if oe \<le> os then Inl (OtherError m_persisted_interval)
            else if oe \<le> minute_or_zero (ar_start c) \<or> minute_or_zero (ar_end c) \<le> os then check_existing_rules c rs
            else if effective_overlap c r then Inl (client_conflict m_rule_overlap)
            else check_existing_rules c rs))"

definition active_rules :: "uuid \<Rightarrow> uuid \<Rightarrow> tables \<Rightarrow> rule_row list" where
  "active_rules org resource t =
     filter (\<lambda>r. ar_org r = org \<and> ar_resource r = resource \<and> ar_active r \<and> \<not> ar_deleted r) (rules t)"

definition ensure_rule_free :: "uuid \<Rightarrow> rule_row \<Rightarrow> uuid \<Rightarrow> (tables, unit) tx" where
  "ensure_rule_free org c ex =
     (if \<not> ar_active c then ret ()
      else and_then (query (\<lambda>t. filter (\<lambda>r. ar_weekday r = ar_weekday c \<and> (ex = nil_uuid \<or> ar_id r \<noteq> ex))
          (active_rules org (ar_resource c) t))) (\<lambda>existing.
        lift_res (check_existing_rules c existing)))"

definition new_rule ::
  "uuid \<Rightarrow> uuid \<Rightarrow> uuid \<Rightarrow> uuid \<Rightarrow> rule_request \<Rightarrow> time option \<times> time option \<Rightarrow> bool \<Rightarrow> rule_row" where
  "new_rule i org resource user r d active =
    \<lparr>ar_id = i, ar_org = org, ar_resource = resource, ar_weekday = rq_weekday r, ar_start = rq_start r,
     ar_end = rq_end r, ar_from = fst d, ar_until = snd d, ar_active = active, ar_version = 1,
     ar_created_by = Some user, ar_updated_by = Some user, ar_deleted = False\<rparr>"

definition insert_rule :: "rule_row \<Rightarrow> tables \<Rightarrow> err + unit \<times> tables" where
  "insert_rule r t =
     (if \<exists>q\<in>set (rules t). ar_id q = ar_id r then Inl (DriverError ''duplicate key: availability_rules'')
      else Inr ((), t\<lparr>rules := rules t @ [r\<lparr>ar_active := stored_active (ar_active r)\<rparr>]\<rparr>))"

definition create_rule ::
  "env \<Rightarrow> uuid \<Rightarrow> uuid \<Rightarrow> uuid \<Rightarrow> rule_request \<Rightarrow> (tables, rule_row) tx" where
  "create_rule x org user resource raw =
     and_then (lift_res (as_client (validate_rule raw False))) (\<lambda>r.
     transaction
       (and_then (ensure_resource_tenant org resource) (\<lambda>_.
        and_then (resource_location x org resource) (\<lambda>z.
        and_then (lift_res (effective_dates x z r)) (\<lambda>d.
        let active = (case rq_active r of None \<Rightarrow> True | Some a \<Rightarrow> a) in
        and_then (mint (fresh_uuid x)) (\<lambda>i.
        let rule = new_rule i org resource user r d active in
        and_then (ensure_rule_free org rule nil_uuid) (\<lambda>_.
        and_then (execute (insert_rule rule)) (\<lambda>_.
        let stored = rule\<lparr>ar_active := stored_active active\<rparr> in
        and_then (audit_change org user ''availability_rule'' i ''created'' None (Some (rule_json x stored))) (\<lambda>_.
        ret stored)))))))))"

definition rule_by_id :: "uuid \<Rightarrow> uuid \<Rightarrow> uuid \<Rightarrow> tables \<Rightarrow> rule_row option" where
  "rule_by_id org resource i t =
     first_in (by_key ar_id) (filter (\<lambda>r. ar_id r = i \<and> ar_org r = org \<and> ar_resource r = resource
       \<and> \<not> ar_deleted r) (rules t))"

definition edit_rule ::
  "rule_request \<times> (time option \<times> time option) \<times> bool \<times> uuid \<Rightarrow> rule_row \<Rightarrow> rule_row" where
  "edit_rule e q = (case e of (r, d, active, user) \<Rightarrow>
     q\<lparr>ar_weekday := rq_weekday r, ar_start := rq_start r, ar_end := rq_end r, ar_from := fst d,
       ar_until := snd d, ar_active := active, ar_updated_by := Some user, ar_version := ar_version q + 1\<rparr>)"

definition replace_rule ::
  "uuid \<Rightarrow> uuid \<Rightarrow> uuid \<Rightarrow> int \<Rightarrow> rule_request \<times> (time option \<times> time option) \<times> bool \<times> uuid \<Rightarrow> tables \<Rightarrow>
     err + nat \<times> tables" where
  "replace_rule org resource i v e t =
     (let p = (\<lambda>r. ar_id r = i \<and> ar_org r = org \<and> ar_resource r = resource \<and> ar_version r = v \<and> \<not> ar_deleted r) in
      Inr (rows_affected p (rules t), t\<lparr>rules := update_where p (edit_rule e) (rules t)\<rparr>))"

definition update_rule ::
  "env \<Rightarrow> uuid \<Rightarrow> uuid \<Rightarrow> uuid \<Rightarrow> uuid \<Rightarrow> rule_request \<Rightarrow> (tables, rule_row) tx" where
  "update_rule x org user resource i raw =
     and_then (lift_res (as_client (validate_rule raw True))) (\<lambda>r.
     transaction
       (and_then (ensure_resource_tenant org resource) (\<lambda>_.
        and_then (or_not_found (first (rule_by_id org resource i)) (ClientError not_found m_rule_missing)) (\<lambda>old.
        and_then (reject (ar_version old \<noteq> rq_version r) (client_conflict m_rule_modified)) (\<lambda>_.
        and_then (resource_location x org resource) (\<lambda>z.
        and_then (lift_res (effective_dates x z r)) (\<lambda>d.
        let active = (case rq_active r of None \<Rightarrow> ar_active old | Some a \<Rightarrow> a) in
        and_then (ensure_rule_free org (new_rule nil_uuid org resource user r d active) i) (\<lambda>_.
        and_then (execute (replace_rule org resource i (rq_version r) (r, d, active, user))) (\<lambda>n.
        and_then (reject (n \<noteq> 1) (client_conflict m_rule_modified)) (\<lambda>_.
        and_then (first (rule_by_id org resource i)) (\<lambda>updated.
        and_then (audit_change org user ''availability_rule'' i ''updated''
          (Some (rule_json x old)) (Some (rule_json x updated))) (\<lambda>_.
        ret updated))))))))))))"

text \<open>\<open>tx.Delete\<close> of a loaded row marks it deleted, by its primary key.\<close>

definition delete_rule_row :: "uuid \<Rightarrow> tables \<Rightarrow> err + unit \<times> tables" where
  "delete_rule_row i t =
     Inr ((), t\<lparr>rules := update_where (\<lambda>r. ar_id r = i \<and> \<not> ar_deleted r) (\<lambda>r. r\<lparr>ar_deleted := True\<rparr>) (rules t)\<rparr>)"

definition delete_rule ::
  "env \<Rightarrow> uuid \<Rightarrow> uuid \<Rightarrow> uuid \<Rightarrow> uuid \<Rightarrow> int \<Rightarrow> (tables, unit) tx" where
  "delete_rule x org user resource i version =
     and_then (reject (version < 1) (ClientError bad_request m_version)) (\<lambda>_.
     transaction
       (and_then (ensure_resource_tenant org resource) (\<lambda>_.
        and_then (or_not_found (first (rule_by_id org resource i)) (ClientError not_found m_rule_missing)) (\<lambda>old.
        and_then (reject (ar_version old \<noteq> version) (client_conflict m_rule_modified)) (\<lambda>_.
        and_then (execute (delete_rule_row (ar_id old))) (\<lambda>_.
        audit_change org user ''availability_rule'' i ''deleted'' (Some (rule_json x old)) None))))))"

section \<open>Time off\<close>

record time_off_request =
  tf_starts :: time
  tf_ends :: time
  tf_reason :: string
  tf_version :: int

definition m_interval :: string where
  "m_interval = ''starts_at and ends_at must define a valid increasing interval''"
definition m_time_off_overlap :: string where
  "m_time_off_overlap = ''Resource time off overlaps an existing time-off interval''"
definition m_time_off_event :: string where
  "m_time_off_event = ''Resource time off conflicts with an existing non-cancelled booking event''"
definition m_time_off_missing :: string where "m_time_off_missing = ''Resource time off not found''"
definition m_time_off_modified :: string where
  "m_time_off_modified = ''Resource time off was modified; refresh and retry''"

definition validate_time_off :: "time_off_request \<Rightarrow> bool \<Rightarrow> (string, unit) result" where
  "validate_time_off r updating =
     (if is_zero_time (tf_starts r) \<or> is_zero_time (tf_ends r) \<or> tf_ends r \<le> tf_starts r then Inl m_interval
      else if 10000 < rune_count (tf_reason r) then Inl m_reason
      else if updating \<and> tf_version r < 1 then Inl m_version
      else Inr ())"

definition time_off_hits :: "uuid \<Rightarrow> uuid \<Rightarrow> time \<Rightarrow> time \<Rightarrow> uuid \<Rightarrow> tables \<Rightarrow> time_off_row list" where
  "time_off_hits org resource a b ex t =
     filter (\<lambda>r. to_org r = org \<and> to_resource r = resource \<and> to_starts r < b \<and> a < to_ends r
       \<and> (ex = nil_uuid \<or> to_id r \<noteq> ex) \<and> \<not> to_deleted r) (time_offs t)"

definition event_hits :: "uuid \<Rightarrow> uuid \<Rightarrow> (string \<Rightarrow> bool) \<Rightarrow> time \<Rightarrow> time \<Rightarrow> uuid \<Rightarrow> tables \<Rightarrow> event_row list" where
  "event_hits org resource status a b ex t =
     filter (\<lambda>e. ev_org e = org \<and> ev_resource e = resource \<and> status (ev_status e) \<and> ev_starts e < b
       \<and> a < ev_ends e \<and> (ex = nil_uuid \<or> ev_id e \<noteq> ex) \<and> \<not> ev_deleted e) (events t)"

definition ensure_time_off_free :: "uuid \<Rightarrow> uuid \<Rightarrow> time \<Rightarrow> time \<Rightarrow> uuid \<Rightarrow> (tables, unit) tx" where
  "ensure_time_off_free org resource a b ex =
     and_then (query (\<lambda>t. length (time_off_hits org resource a b ex t))) (\<lambda>n.
     and_then (reject (0 < n) (client_conflict m_time_off_overlap)) (\<lambda>_.
     and_then (query (\<lambda>t. length (event_hits org resource (\<lambda>st. st \<noteq> s_cancelled) a b nil_uuid t))) (\<lambda>m.
     reject (0 < m) (client_conflict m_time_off_event))))"

definition insert_time_off :: "time_off_row \<Rightarrow> tables \<Rightarrow> err + unit \<times> tables" where
  "insert_time_off r t =
     (if \<exists>q\<in>set (time_offs t). to_id q = to_id r then Inl (DriverError ''duplicate key: resource_time_off'')
      else if to_ends r \<le> to_starts r then Inl (DriverError ''check constraint: chk_resource_time_off_interval'')
      else Inr ((), t\<lparr>time_offs := time_offs t @ [r]\<rparr>))"

definition create_time_off ::
  "env \<Rightarrow> uuid \<Rightarrow> uuid \<Rightarrow> uuid \<Rightarrow> time_off_request \<Rightarrow> (tables, time_off_row) tx" where
  "create_time_off x org user resource req =
     and_then (lift_res (as_client (validate_time_off req False))) (\<lambda>_.
     and_then (mint (fresh_uuid x)) (\<lambda>i.
     let row = \<lparr>to_id = i, to_org = org, to_resource = resource, to_starts = tf_starts req, to_ends = tf_ends req,
       to_reason = trim_space (tf_reason req), to_version = 1, to_created_by = Some user,
       to_updated_by = Some user, to_deleted = False\<rparr> in
     transaction
       (and_then (ensure_resource_tenant org resource) (\<lambda>_.
        and_then (ensure_time_off_free org resource (to_starts row) (to_ends row) nil_uuid) (\<lambda>_.
        and_then (execute (insert_time_off row)) (\<lambda>_.
        and_then (audit_change org user ''resource_time_off'' i ''created'' None (Some (time_off_json x row))) (\<lambda>_.
        ret row)))))))"

definition time_off_by_id :: "uuid \<Rightarrow> uuid \<Rightarrow> uuid \<Rightarrow> tables \<Rightarrow> time_off_row option" where
  "time_off_by_id org resource i t =
     first_in (by_key to_id) (filter (\<lambda>r. to_id r = i \<and> to_org r = org \<and> to_resource r = resource
       \<and> \<not> to_deleted r) (time_offs t))"

definition edit_time_off :: "time_off_request \<times> uuid \<Rightarrow> time_off_row \<Rightarrow> time_off_row" where
  "edit_time_off e q = (case e of (r, user) \<Rightarrow>
     q\<lparr>to_starts := tf_starts r, to_ends := tf_ends r, to_reason := trim_space (tf_reason r),
       to_updated_by := Some user, to_version := to_version q + 1\<rparr>)"

definition replace_time_off ::
  "uuid \<Rightarrow> uuid \<Rightarrow> uuid \<Rightarrow> int \<Rightarrow> time_off_request \<times> uuid \<Rightarrow> tables \<Rightarrow> err + nat \<times> tables" where
  "replace_time_off org resource i v e t =
     (let p = (\<lambda>r. to_id r = i \<and> to_org r = org \<and> to_resource r = resource \<and> to_version r = v \<and> \<not> to_deleted r) in
      Inr (rows_affected p (time_offs t), t\<lparr>time_offs := update_where p (edit_time_off e) (time_offs t)\<rparr>))"

definition update_time_off ::
  "env \<Rightarrow> uuid \<Rightarrow> uuid \<Rightarrow> uuid \<Rightarrow> uuid \<Rightarrow> time_off_request \<Rightarrow> (tables, time_off_row) tx" where
  "update_time_off x org user resource i req =
     and_then (lift_res (as_client (validate_time_off req True))) (\<lambda>_.
     transaction
       (and_then (ensure_resource_tenant org resource) (\<lambda>_.
        and_then (or_not_found (first (time_off_by_id org resource i)) (ClientError not_found m_time_off_missing)) (\<lambda>old.
        and_then (reject (to_version old \<noteq> tf_version req) (client_conflict m_time_off_modified)) (\<lambda>_.
        and_then (ensure_time_off_free org resource (tf_starts req) (tf_ends req) i) (\<lambda>_.
        and_then (execute (replace_time_off org resource i (tf_version req) (req, user))) (\<lambda>n.
        and_then (reject (n \<noteq> 1) (client_conflict m_time_off_modified)) (\<lambda>_.
        and_then (first (time_off_by_id org resource i)) (\<lambda>updated.
        and_then (audit_change org user ''resource_time_off'' i ''updated''
          (Some (time_off_json x old)) (Some (time_off_json x updated))) (\<lambda>_.
        ret updated))))))))))"

definition delete_time_off_row :: "uuid \<Rightarrow> tables \<Rightarrow> err + unit \<times> tables" where
  "delete_time_off_row i t =
     Inr ((), t\<lparr>time_offs := update_where (\<lambda>r. to_id r = i \<and> \<not> to_deleted r) (\<lambda>r. r\<lparr>to_deleted := True\<rparr>) (time_offs t)\<rparr>)"

definition delete_time_off ::
  "env \<Rightarrow> uuid \<Rightarrow> uuid \<Rightarrow> uuid \<Rightarrow> uuid \<Rightarrow> int \<Rightarrow> (tables, unit) tx" where
  "delete_time_off x org user resource i version =
     and_then (reject (version < 1) (ClientError bad_request m_version)) (\<lambda>_.
     transaction
       (and_then (ensure_resource_tenant org resource) (\<lambda>_.
        and_then (or_not_found (first (time_off_by_id org resource i)) (ClientError not_found m_time_off_missing)) (\<lambda>old.
        and_then (reject (to_version old \<noteq> version) (client_conflict m_time_off_modified)) (\<lambda>_.
        and_then (execute (delete_time_off_row (to_id old))) (\<lambda>_.
        audit_change org user ''resource_time_off'' i ''deleted'' (Some (time_off_json x old)) None))))))"

end
