(* ===== verification/EventHandlers.thy ===== *)
theory EventHandlers
  imports Schedule
begin

text \<open>
  \<^verbatim>\<open>CreateBookingEvent\<close> and \<^verbatim>\<open>UpdateBookingEvent\<close> of
  \<^verbatim>\<open>internal/handlers/product_booking_commerce.go\<close> with the checks they share: references, recurring
  availability in the zone of the resource, time off and overlapping events. The request is the one
  after \<open>normalizeBookingEventRequestTimes\<close> has turned local wall times into instants.
\<close>

section \<open>The request\<close>

record event_request =
  eq_service :: uuid
  eq_resource :: uuid
  eq_starts :: time
  eq_ends :: time
  eq_timezone :: string
  eq_capacity :: int
  eq_status :: string
  eq_provider :: string
  eq_external :: string
  eq_location :: string
  eq_metadata :: jsonb
  eq_version :: int

definition m_event_refs :: string where "m_event_refs = ''service_id and resource_id are required''"
definition m_capacity :: string where "m_capacity = ''capacity must be between 1 and 10000''"
definition m_event_status :: string where "m_event_status = ''invalid booking event status''"
definition m_provider :: string where "m_provider = ''external_provider must not exceed 50 characters''"
definition m_external :: string where "m_external = ''external_event_id and location must not exceed 255 characters''"
definition m_service_ref :: string where "m_service_ref = ''service_id does not belong to an active booking service''"
definition m_resource_ref :: string where "m_resource_ref = ''resource_id does not belong to an active booking resource''"
definition m_not_eligible :: string where
  "m_not_eligible = ''resource_id is not eligible for the selected booking service''"
definition m_timezone_match :: string where
  "m_timezone_match = ''timezone must match the selected booking resource''"
definition m_duration :: string where
  "m_duration = ''Event duration cannot be shorter than the booking service duration''"
definition m_time_off :: string where "m_time_off = ''Booking resource is unavailable during this interval''"
definition m_overlap :: string where "m_overlap = ''Booking resource already has an overlapping event''"
definition m_one_day :: string where
  "m_one_day = ''Scheduled events must remain within one resource-local calendar day''"
definition m_dst :: string where "m_dst = ''Scheduled events cannot cross a daylight-saving timezone transition''"
definition m_bad_rule :: string where
  "m_bad_rule = ''Booking resource has an invalid recurring availability configuration''"
definition m_overnight_rule :: string where
  "m_overnight_rule = ''Booking resource has an unsupported overnight recurring availability rule''"
definition m_outside :: string where
  "m_outside = ''Booking event falls outside the resource'' @ [CHR 0x27] @ ''s recurring availability''"
definition m_event_missing :: string where "m_event_missing = ''Booking event not found''"
definition m_event_modified :: string where "m_event_modified = ''Booking event was modified; refresh and retry''"
definition m_below_occupied :: "int \<Rightarrow> string" where
  "m_below_occupied n = ''capacity cannot be below the current occupied quantity of '' @ show_nat (nat n)"
definition m_close_active :: string where
  "m_close_active = ''Transition or cancel active bookings before closing the event''"

definition valid_event_status :: "string \<Rightarrow> bool" where
  "valid_event_status s \<longleftrightarrow> s \<in> {s_scheduled, s_completed, s_cancelled}"

definition validate_event :: "event_request \<Rightarrow> bool \<Rightarrow> (string, unit) result" where
  "validate_event r updating =
     (if eq_service r = nil_uuid \<or> eq_resource r = nil_uuid then Inl m_event_refs
      else if is_zero_time (eq_starts r) \<or> is_zero_time (eq_ends r) \<or> eq_ends r \<le> eq_starts r then Inl m_interval
      else if eq_capacity r < 1 \<or> 10000 < eq_capacity r then Inl m_capacity
      else if eq_status r \<noteq> [] \<and> \<not> valid_event_status (eq_status r) then Inl m_event_status
      else if 50 < rune_count (eq_provider r) then Inl m_provider
      else if 255 < rune_count (eq_external r) \<or> 255 < rune_count (eq_location r) then Inl m_external
      else if updating \<and> eq_version r < 1 then Inl m_version
      else Inr ())"

section \<open>The shared checks\<close>

definition links :: "uuid \<Rightarrow> uuid \<Rightarrow> tables \<Rightarrow> service_resource_row list" where
  "links org service t =
     filter (\<lambda>l. sr_org l = org \<and> sr_service l = service \<and> sr_active l \<and> \<not> sr_deleted l) (service_resources t)"

definition event_references :: "uuid \<Rightarrow> uuid \<Rightarrow> uuid \<Rightarrow> (tables, service_row \<times> resource_row) tx" where
  "event_references org service resource =
     and_then (or_fail (first (active_service org service)) (ClientError bad_request m_service_ref)) (\<lambda>sv.
     and_then (or_fail (first (active_resource org resource)) (ClientError bad_request m_resource_ref)) (\<lambda>rs.
     and_then (query (\<lambda>t. length (links org service t))) (\<lambda>configured.
     if 0 < configured then
       and_then (query (\<lambda>t. length (filter (\<lambda>l. sr_resource l = resource) (links org service t)))) (\<lambda>linked.
       and_then (reject (linked \<noteq> 1) (ClientError bad_request m_not_eligible)) (\<lambda>_. ret (sv, rs)))
     else ret (sv, rs))))"

definition ensure_event_available :: "uuid \<Rightarrow> uuid \<Rightarrow> time \<Rightarrow> time \<Rightarrow> uuid \<Rightarrow> (tables, unit) tx" where
  "ensure_event_available org resource a b ex =
     and_then (query (\<lambda>t. length (time_off_hits org resource a b nil_uuid t))) (\<lambda>n.
     and_then (reject (0 < n) (client_conflict m_time_off)) (\<lambda>_.
     and_then (query (\<lambda>t. length (event_hits org resource (\<lambda>st. st = s_scheduled) a b ex t))) (\<lambda>m.
     reject (0 < m) (client_conflict m_overlap))))"

text \<open>The loop over the rules: the first one that contains the event admits it.\<close>

fun admitted_by_rules :: "int \<Rightarrow> int \<Rightarrow> int \<Rightarrow> int \<Rightarrow> rule_row list \<Rightarrow> (err, unit) result" where
  "admitted_by_rules date weekday a b [] = Inl (client_conflict m_outside)"
| "admitted_by_rules date weekday a b (r # rs) =
     (if ar_weekday r \<noteq> weekday then admitted_by_rules date weekday a b rs
      else if (case ar_from r of None \<Rightarrow> False | Some f \<Rightarrow> date < stored_date_key f)
      then admitted_by_rules date weekday a b rs
      else if (case ar_until r of None \<Rightarrow> False | Some u \<Rightarrow> stored_date_key u < date)
      then admitted_by_rules date weekday a b rs
      else (case local_minute (ar_start r) of
        None \<Rightarrow> Inl (client_conflict m_bad_rule)
      | Some os \<Rightarrow> (case local_minute (ar_end r) of
          None \<Rightarrow> Inl (client_conflict m_overnight_rule)
        | Some oe \<Rightarrow>
            if oe \<le> os then Inl (client_conflict m_overnight_rule)
            else if os * minute \<le> a \<and> b \<le> oe * minute then Inr ()
            else admitted_by_rules date weekday a b rs)))"

text \<open>\<open>endProbe\<close>: the last nanosecond of the event.\<close>

definition end_probe :: "time \<Rightarrow> time \<Rightarrow> time" where
  "end_probe a b = (if b - 1 < a then a else b - 1)"

definition check_recurring :: "zone \<Rightarrow> rule_row list \<Rightarrow> time \<Rightarrow> time \<Rightarrow> (err, unit) result" where
  "check_recurring z rs a b =
     (if local_date_key z a \<noteq> local_date_key z b then Inl (client_conflict m_one_day)
      else if z a \<noteq> z (end_probe a b) then Inl (client_conflict m_dst)
      else admitted_by_rules (local_date_key z a) (local_weekday z a) (local_clock_ns z a) (local_clock_ns z b) rs)"

definition ensure_within_recurring :: "env \<Rightarrow> uuid \<Rightarrow> uuid \<Rightarrow> time \<Rightarrow> time \<Rightarrow> (tables, unit) tx" where
  "ensure_within_recurring x org resource a b =
     and_then (query (active_rules org resource)) (\<lambda>rs.
     if rs = [] then ret ()
     else and_then (resource_location x org resource) (\<lambda>z. lift_res (check_recurring z rs a b)))"

definition check_slot ::
  "env \<Rightarrow> uuid \<Rightarrow> event_request \<Rightarrow> string \<Rightarrow> uuid \<Rightarrow> (tables, unit) tx" where
  "check_slot x org r status ex =
     and_then (event_references org (eq_service r) (eq_resource r)) (\<lambda>(sv, rs).
     and_then (reject (eq_timezone r \<noteq> [] \<and> eq_timezone r \<noteq> rs_timezone rs)
       (ClientError bad_request m_timezone_match)) (\<lambda>_.
     and_then (reject (sub_time (eq_ends r) (eq_starts r) < wrap64 (sv_duration sv * minute))
       (ClientError bad_request m_duration)) (\<lambda>_.
     and_then (if status = s_scheduled
       then ensure_within_recurring x org (eq_resource r) (eq_starts r) (eq_ends r) else ret ()) (\<lambda>_.
     ensure_event_available org (eq_resource r) (eq_starts r) (eq_ends r) ex))))"

section \<open>Creating an event\<close>

definition new_event :: "uuid \<Rightarrow> uuid \<Rightarrow> uuid \<Rightarrow> event_request \<Rightarrow> string \<Rightarrow> event_row" where
  "new_event i org user r status =
    \<lparr>ev_id = i, ev_org = org, ev_service = eq_service r, ev_resource = eq_resource r, ev_starts = eq_starts r,
     ev_ends = eq_ends r, ev_capacity = eq_capacity r, ev_status = status,
     ev_provider = trim_space (eq_provider r), ev_external = trim_space (eq_external r),
     ev_location = trim_space (eq_location r), ev_metadata = eq_metadata r, ev_version = 1,
     ev_created_by = Some user, ev_updated_by = Some user, ev_deleted = False\<rparr>"

definition insert_event :: "event_row \<Rightarrow> tables \<Rightarrow> err + unit \<times> tables" where
  "insert_event e t =
     (if \<exists>f\<in>set (events t). ev_id f = ev_id e then Inl (DriverError ''duplicate key: booking_events'')
      else if ev_ends e \<le> ev_starts e \<or> ev_capacity e \<le> 0 then Inl (DriverError ''check constraint: chk_booking_events_values'')
      else Inr ((), t\<lparr>events := events t @ [e]\<rparr>))"

definition create_event :: "env \<Rightarrow> uuid \<Rightarrow> uuid \<Rightarrow> event_request \<Rightarrow> (tables, event_row) tx" where
  "create_event x org user r =
     and_then (lift_res (as_client (validate_event r False))) (\<lambda>_.
     let status = (if eq_status r = [] then s_scheduled else eq_status r) in
     and_then (mint (fresh_uuid x)) (\<lambda>i.
     let e = new_event i org user r status in
     transaction
       (and_then (check_slot x org r status nil_uuid) (\<lambda>_.
        and_then (execute (insert_event e)) (\<lambda>_.
        and_then (audit_change org user ''booking_event'' i ''created'' None (Some (event_json x e))) (\<lambda>_.
        ret e))))))"

section \<open>Updating an event\<close>

definition active_quantity :: "uuid \<Rightarrow> uuid \<Rightarrow> tables \<Rightarrow> int" where
  "active_quantity org event t =
     sum_list (map bk_quantity (filter (\<lambda>b. bk_org b = org \<and> bk_event b = event
       \<and> bk_status b \<in> {s_reserved, s_confirmed, s_checked_in} \<and> \<not> bk_deleted b) (bookings t)))"

definition edit_event :: "event_request \<times> uuid \<Rightarrow> event_row \<Rightarrow> event_row" where
  "edit_event d e = (case d of (r, user) \<Rightarrow>
     e\<lparr>ev_service := eq_service r, ev_resource := eq_resource r, ev_starts := eq_starts r, ev_ends := eq_ends r,
       ev_capacity := eq_capacity r, ev_status := eq_status r, ev_provider := trim_space (eq_provider r),
       ev_external := trim_space (eq_external r), ev_location := trim_space (eq_location r),
       ev_metadata := eq_metadata r, ev_updated_by := Some user, ev_version := ev_version e + 1\<rparr>)"

definition replace_event ::
  "uuid \<Rightarrow> uuid \<Rightarrow> int \<Rightarrow> event_request \<times> uuid \<Rightarrow> tables \<Rightarrow> err + nat \<times> tables" where
  "replace_event org i v d t =
     (let p = (\<lambda>e. ev_id e = i \<and> ev_org e = org \<and> ev_version e = v \<and> \<not> ev_deleted e) in
      Inr (rows_affected p (events t), t\<lparr>events := update_where p (edit_event d) (events t)\<rparr>))"

definition check_bookings :: "uuid \<Rightarrow> uuid \<Rightarrow> event_request \<Rightarrow> (tables, unit) tx" where
  "check_bookings org i r =
     and_then (query (occupied_excluding org i nil_uuid)) (\<lambda>occupied.
     and_then (reject (eq_capacity r < occupied) (client_conflict (m_below_occupied occupied))) (\<lambda>_.
     and_then (query (active_quantity org i)) (\<lambda>active.
     reject (eq_status r \<noteq> s_scheduled \<and> 0 < active) (client_conflict m_close_active))))"

definition update_event :: "env \<Rightarrow> uuid \<Rightarrow> uuid \<Rightarrow> uuid \<Rightarrow> event_request \<Rightarrow> (tables, event_row) tx" where
  "update_event x org user i r =
     and_then (lift_res (as_client (validate_event r True))) (\<lambda>_.
     transaction
       (and_then (or_fail (first (event_by_id org i)) (ClientError not_found m_event_missing)) (\<lambda>old.
        and_then (reject (ev_version old \<noteq> eq_version r) (client_conflict m_event_modified)) (\<lambda>_.
        and_then (check_slot x org r (eq_status r) i) (\<lambda>_.
        and_then (check_bookings org i r) (\<lambda>_.
        and_then (execute (replace_event org i (eq_version r) (r, user))) (\<lambda>n.
        and_then (reject (n \<noteq> 1) (client_conflict m_event_modified)) (\<lambda>_.
        and_then (first (event_by_id org i)) (\<lambda>updated.
        and_then (audit_change org user ''booking_event'' i ''updated''
          (Some (event_json x old)) (Some (event_json x updated))) (\<lambda>_.
        ret updated))))))))))"

end
