(* ===== verification/Scenario.thy ===== *)
theory Scenario
  imports EventHandlers
begin

text \<open>
  A small tenant on which the properties are exercised: one service and one resource in UTC, an active
  subscription, two contacts, and a package of five credits that has been activated for the first of
  them. The parameters of the model are instantiated with concrete functions.
\<close>

section \<open>The parameters\<close>

definition x0 :: env where
  "x0 = \<lparr>fresh_uuid = (\<lambda>n. of_nat (100 + n)), show_uuid = (\<lambda>i. show_nat (unat i)), parse_uuid = (\<lambda>_. None),
     rfc3339 = (\<lambda>_. ''T''), rfc3339_nano = (\<lambda>_. ''T''), parse_rfc3339 = (\<lambda>_. None),
     load_location = (\<lambda>z. if z = ''UTC'' then Some utc else None),
     booking_json = (\<lambda>_. []), event_json = (\<lambda>_. []), package_json = (\<lambda>_. []),
     invoice_json = (\<lambda>_ _. []), payment_json = (\<lambda>_. []), service_json = (\<lambda>_. []),
     resource_json = (\<lambda>_. []), rule_json = (\<lambda>_. []), time_off_json = (\<lambda>_. []), definition_json = (\<lambda>_ _. []),
     intent_json = (\<lambda>_. []), json_digest = (\<lambda>_. Some ''D''), db_lower = map lower_char\<rparr>"

text \<open>Ten in the morning (UTC) of the first of March 2027, a Monday.\<close>

definition day0 :: time where "day0 = 20878 * day_ns"
definition at_clock :: "int \<Rightarrow> int \<Rightarrow> time" where "at_clock h m = day0 + (h * 60 + m) * minute"
definition now0 :: time where "now0 = at_clock 8 0"

lemma day0_date: "civil_of_days 20878 = (2027, 3, 1)" "local_weekday utc day0 = 1"
  by code_simp+

section \<open>The tenant\<close>

definition org0 :: uuid where "org0 = 1"
definition user0 :: uuid where "user0 = 7"

definition service0 :: service_row where
  "service0 = \<lparr>sv_id = 21, sv_org = org0, sv_name = ''M'', sv_description = '''', sv_kind = ''appointment'',
     sv_duration = 60, sv_buffer_before = 0, sv_buffer_after = 0, sv_default_capacity = 1, sv_price = 5000,
     sv_currency = ''EUR'', sv_reminder = [], sv_active = True, sv_metadata = [], sv_version = 1,
     sv_created_by = None, sv_updated_by = None, sv_deleted = False\<rparr>"

definition resource0 :: resource_row where
  "resource0 = \<lparr>rs_id = 31, rs_org = org0, rs_user = None, rs_name = ''R'', rs_kind = ''room'',
     rs_timezone = ''UTC'', rs_location = ''L'', rs_active = True, rs_metadata = [], rs_version = 1,
     rs_created_by = None, rs_updated_by = None, rs_deleted = False\<rparr>"

definition subscription0 :: subscription_row where
  "subscription0 = \<lparr>sub_id = 3, sub_org = org0, sub_status = ''active'',
     sub_entitlements = [(''bookings.enabled'', Boolean True)], sub_period_end = Some (day0 + day_ns),
     sub_trial_ends = None, sub_grace_until = None, sub_created_at = 0, sub_deleted = False\<rparr>"

definition contact0 :: "uuid \<Rightarrow> contact_row" where
  "contact0 i = \<lparr>ct_id = i, ct_org = org0, ct_merged_into = None, ct_deleted = False\<rparr>"

definition definition0 :: definition_row where
  "definition0 = \<lparr>pd_id = 51, pd_org = org0, pd_name = ''V'', pd_description = [], pd_price = 20000, pd_currency = ''EUR'',
     pd_validity_days = 30, pd_active = True, pd_metadata = [], pd_version = 1, pd_created_by = None,
     pd_updated_by = None, pd_deleted = False\<rparr>"

definition entitlement0 :: entitlement_row where
  "entitlement0 = \<lparr>en_id = 52, en_org = org0, en_definition = 51, en_service = 21, en_credits = 5,
     en_unlimited = False, en_version = 1, en_created_at = 0, en_deleted = False\<rparr>"

definition package0 :: package_row where
  "package0 = \<lparr>cp_id = 53, cp_org = org0, cp_contact = 11, cp_definition = 51, cp_invoice = None,
     cp_status = ''active'', cp_starts = Some 0, cp_expires = Some (day0 + 30 * day_ns), cp_amount = 20000,
     cp_currency = ''EUR'', cp_source = ''manual'', cp_key = ''sale'', cp_metadata = [], cp_version = 1,
     cp_created_by = None, cp_updated_by = None, cp_deleted = False\<rparr>"

definition tables0 :: tables where
  "tables0 = no_rows\<lparr>organizations := [org0], users := [(user0, ''A'')],
     contacts := [contact0 11, contact0 12], subscriptions := [subscription0], services := [service0],
     resources := [resource0], definitions := [definition0], entitlements := [entitlement0],
     packages := [package0]\<rparr>"

definition session :: "tables \<Rightarrow> tables db" where
  "session t = \<lparr>tabs = t, faults = [], minted = 0\<rparr>"

section \<open>Evaluating a run\<close>

definition succeeds :: "('s, 'e, 'a) action \<Rightarrow> 's \<Rightarrow> bool" where
  "succeeds m s = (case m s of (Inr _, _) \<Rightarrow> True | (Inl _, _) \<Rightarrow> False)"

definition answer :: "('s, 'e, 'a) action \<Rightarrow> 's \<Rightarrow> 'a" where
  "answer m s = (case m s of (Inr a, _) \<Rightarrow> a)"

definition after :: "('s, 'e, 'a) action \<Rightarrow> 's \<Rightarrow> 's" where
  "after m s = snd (m s)"

lemma succeeds_run: "succeeds m s \<Longrightarrow> m s = (Inr (answer m s), after m s)"
  unfolding succeeds_def answer_def after_def by (cases "m s"; cases "fst (m s)") auto

text \<open>Steps of a run, one at a time.\<close>

lemma answered: "m s = (Inr a, t) \<Longrightarrow> answer m s = a" "m s = (Inr a, t) \<Longrightarrow> after m s = t"
  by (simp_all add: answer_def after_def)

lemma run_and_then: "succeeds m s \<Longrightarrow> and_then m f s = f (answer m s) (after m s)"
  by (drule succeeds_run) (simp add: and_then_def)

section \<open>The gate and the timeline on it\<close>

theorem booking_gate_is_the_commercial_gate_witness:
  "has_entitlement_tx org0 now0 (session tables0) = has_product_entitlement org0 bookings_enabled now0 (session tables0)
   \<and> fst (has_entitlement_tx org0 now0 (session tables0)) = Inr True"
proof
  show "has_entitlement_tx org0 now0 (session tables0) = has_product_entitlement org0 bookings_enabled now0 (session tables0)"
    by (rule booking_gate_is_the_commercial_gate; code_simp)
  show "fst (has_entitlement_tx org0 now0 (session tables0)) = Inr True" by code_simp
qed

definition visit_noted :: activity_input where
  "visit_noted = \<lparr>in_contact = 11, in_lead = None, in_type = ''booking.created'', in_category = ''booking'',
     in_title = ''Booked'', in_summary = [], in_actor_type = [], in_actor = None, in_source_type = [],
     in_source = None, in_occurred = now0, in_metadata = [], in_webhook = [], in_key = '' visit ''\<rparr>"

abbreviation "noting \<equiv> record_tx x0 org0 now0 visit_noted"


theorem timeline_exactly_once_witness:
  "answer noting (after noting (session tables0)) = answer noting (session tables0)
   \<and> tabs (after noting (after noting (session tables0))) = tabs (after noting (session tables0))"
proof -
  have once: "succeeds noting (session tables0)" by code_simp
  have twice: "succeeds noting (after noting (session tables0))" by code_simp
  have "distinct (activity_keys (tabs (session tables0)))" by code_simp
  from timeline_exactly_once [OF this succeeds_run [OF once] succeeds_run [OF twice]] show ?thesis by blast
qed

end
