(* ===== verification/BookingEffects.thy ===== *)
theory BookingEffects
  imports BookingHandlers
begin

text \<open>
  What a successful run of the booking handlers did to the tables: for each action the rows it wrote
  and the rows it left alone. The invariants are proved over these facts.
\<close>

section \<open>Frames\<close>

text \<open>The tables a credit movement, the timeline and the audit log do not touch.\<close>

definition schedule :: "tables \<Rightarrow> tables" where
  "schedule t = t\<lparr>balances := [], ledger := [], activities := [], outbox := [], audits := []\<rparr>"

lemma schedule_eqD:
  assumes "schedule t = schedule u"
  shows "bookings t = bookings u" "events t = events u" "packages t = packages u"
    "entitlements t = entitlements u" "services t = services u" "resources t = resources u"
    "contacts t = contacts u" "invoices t = invoices u" "payments t = payments u" "lines t = lines u"
    "time_offs t = time_offs u" "rules t = rules u" "service_resources t = service_resources u"
proof -
  have "f (schedule t) = f (schedule u)" for f :: "tables \<Rightarrow> 'b" using assms by simp
  from this [of bookings] this [of events] this [of packages] this [of entitlements]
    this [of services] this [of resources] this [of contacts] this [of invoices] this [of payments]
    this [of lines] this [of time_offs] this [of rules] this [of service_resources]
  show "bookings t = bookings u" "events t = events u" "packages t = packages u"
    "entitlements t = entitlements u" "services t = services u" "resources t = resources u"
    "contacts t = contacts u" "invoices t = invoices u" "payments t = payments u" "lines t = lines u"
    "time_offs t = time_offs u" "rules t = rules u" "service_resources t = service_resources u"
    by (simp_all add: schedule_def)
qed

lemma business_schedule: "business t = business u \<Longrightarrow> schedule t = schedule u"
proof -
  assume "business t = business u"
  then have "schedule (business t) = schedule (business u)" by simp
  then show ?thesis by (simp add: schedule_def business_def)
qed

lemma business_credits:
  assumes "business t = business u"
  shows "balances t = balances u" "ledger t = ledger u" "credits_ok t = credits_ok u"
proof -
  have "balances (business t) = balances (business u)" "ledger (business t) = ledger (business u)"
    using assms by simp_all
  then show "balances t = balances u" "ledger t = ledger u" by (simp_all add: business_def)
  then show "credits_ok t = credits_ok u" by (simp add: credits_ok_def)
qed

lemma credits_ok_cong:
  "balances t = balances u \<Longrightarrow> ledger t = ledger u \<Longrightarrow> credits_ok t = credits_ok u"
  by (simp add: credits_ok_def)

lemma credit_move_schedule:
  "credit_move x org b service user now clock key kind reason delta short msg f put s = (Inr (), u) \<Longrightarrow>
     schedule (tabs u) = schedule (tabs s)"
  by (erule credit_move_Inr) (simp_all add: schedule_def)

lemma credit_schedule:
  "reserve_credit x org b service user now clock s = (Inr (), u) \<Longrightarrow> schedule (tabs u) = schedule (tabs s)"
  "release_credit x org b service user now clock s = (Inr (), u) \<Longrightarrow> schedule (tabs u) = schedule (tabs s)"
  "consume_credit x org b service user now clock s = (Inr (), u) \<Longrightarrow> schedule (tabs u) = schedule (tabs s)"
  unfolding reserve_credit_move release_credit_move consume_credit_move
  by (rule credit_move_schedule, assumption)+

lemma reads_load_credit: "reads (load_credit_balance org b service now)"
  unfolding load_credit_balance_def by (intro reads_intros)

lemma reads_validate_package: "reads (validate_booking_package org b service now)"
  unfolding validate_booking_package_def by (intro reads_intros reads_load_credit)

text \<open>An action that is allowed to touch credits: it keeps the schedule and the soundness of the ledger.\<close>

definition settles :: "tables \<Rightarrow> tables \<Rightarrow> bool" where
  "settles t u \<longleftrightarrow> schedule u = schedule t \<and> (credits_ok t \<longrightarrow> credits_ok u)"

lemma settles_refl [simp]: "settles t t"
  by (simp add: settles_def)

lemma settles_trans: "settles t u \<Longrightarrow> settles u v \<Longrightarrow> settles t v"
  by (simp add: settles_def)

lemma settles_side: "business u = business t \<Longrightarrow> settles t u"
  using business_schedule [of u t] business_credits(3) [of u t] by (simp add: settles_def)

lemma settles_reserve:
  assumes "reserve_credit x org b service user now clock s = (Inr (), u)"
  shows "settles (tabs s) (tabs u)"
  using credit_schedule(1) [OF assms] reserve_credit_ok [OF assms] by (simp add: settles_def)

lemma settles_release:
  assumes "release_credit x org b service user now clock s = (Inr (), u)"
  shows "settles (tabs s) (tabs u)"
  using credit_schedule(2) [OF assms] release_credit_ok [OF assms] by (simp add: settles_def)

lemma settles_consume:
  assumes "consume_credit x org b service user now clock s = (Inr (), u)"
  shows "settles (tabs s) (tabs u)"
  using credit_schedule(3) [OF assms] consume_credit_ok [OF assms] by (simp add: settles_def)

lemmas settles_credit = settles_reserve settles_release settles_consume

lemma charge_settles:
  assumes "charge_booking x org user b e now clock s = (Inr (), u)"
  shows "settles (tabs s) (tabs u)"
  using assms settles_credit(1) [of x org b "ev_service e" user now clock s u]
    reads_Inr [OF reads_validate_package, of org b "ev_service e" clock s "()" u]
  unfolding charge_booking_def by (auto simp: ret_Inr split: if_splits)

lemma settle_credit_settles:
  assumes "settle_credit x org user b e status now clock s = (Inr (), u)"
  shows "settles (tabs s) (tabs u)"
proof -
  from assms obtain s1 s2 where
    1: "(if \<not> status_occupies (bk_status b) \<and> status_occupies status \<and> bk_package b \<noteq> None
        then reserve_credit x org b (ev_service e) user now clock else ret ()) s = (Inr (), s1)" and
    2: "(if status_occupies (bk_status b) \<and> status = s_cancelled \<and> bk_package b \<noteq> None
        then release_credit x org b (ev_service e) user now clock else ret ()) s1 = (Inr (), s2)" and
    3: "(if status_occupies (bk_status b) \<and> (status = s_completed \<or> status = s_no_show) \<and> bk_package b \<noteq> None
        then consume_credit x org b (ev_service e) user now clock else ret ()) s2 = (Inr (), u)"
    unfolding settle_credit_def Let_def and_then_Inr by auto
  have "settles (tabs s) (tabs s1)" using 1 settles_credit(1) by (simp only: ret_Inr settles_refl split: if_splits)
  moreover have "settles (tabs s1) (tabs s2)" using 2 settles_credit(2) by (simp only: ret_Inr settles_refl split: if_splits)
  moreover have "settles (tabs s2) (tabs u)" using 3 settles_credit(3) by (simp only: ret_Inr settles_refl split: if_splits)
  ultimately show ?thesis by (blast intro: settles_trans)
qed

section \<open>Creating\<close>

lemma create_body_Inr:
  assumes "create_body x org user r now clock s = (Inr b, u)"
  obtains (replay) "tabs u = tabs s" "b \<in> set (bookings (tabs s))"
    | (created) i status and le :: loaded_event where
      "b = new_booking i org (normal_reserve (reserve_request user r)) (le_event le) status now"
      "event_by_id org (cq_event r) (tabs s) = Some (le_event le)" "ev_status (le_event le) = s_scheduled"
      "admit (normal_reserve (reserve_request user r)) (le_event le)
         (occupied_quantity org (ev_id (le_event le)) (tabs s)) = Inr status"
      "now < ev_starts (le_event le)" "unused (tabs s) b" "0 < cq_quantity r"
      "settles (booked org (le_event le) b (tabs s)) (tabs u)"
proof -
  from assms obtain res s1 where rv: "reserve_tx x org (reserve_request user r) now s = (Inr res, s1)"
    and rest: "(let b = rr_booking res in
     case rr_event res of
       None \<Rightarrow> ret b
     | Some le \<Rightarrow>
         and_then (charge_booking x org user b (le_event le) (rr_now res) clock) (\<lambda>_.
         and_then (record_tx x org clock (created_activity x user b (le_event le) (rr_now res))) (\<lambda>_.
         and_then (audit_change org user ''booking'' (bk_id b) ''created'' None (Some (booking_json x b))) (\<lambda>_.
         ret b)))) s1 = (Inr b, u)"
    unfolding create_body_def and_then_Inr by blast
  from rv show ?thesis
  proof (rule reserve_tx_Inr)
    fix b0
    assume "res = replayed b0" "tabs s1 = tabs s"
      "booking_with_key org (trim_space (ri_key (reserve_request user r))) (tabs s) = Some b0"
    with rest booking_with_key_SomeD show ?thesis
      by (intro replay) (auto simp: replayed_def ret_Inr)
  next
    fix i status and le :: loaded_event
    assume res: "res = \<lparr>rr_booking = new_booking i org (normal_reserve (reserve_request user r)) (le_event le) status now,
        rr_event = Some le, rr_created = True, rr_now = now\<rparr>"
      and facts: "event_by_id org (ri_event (reserve_request user r)) (tabs s) = Some (le_event le)"
      "ev_status (le_event le) = s_scheduled"
      "admit (normal_reserve (reserve_request user r)) (le_event le)
         (occupied_quantity org (ev_id (le_event le)) (tabs s)) = Inr status"
      "now < ev_starts (le_event le)" "unused (tabs s) (rr_booking res)" "0 < ri_quantity (reserve_request user r)"
      and wrote: "tabs s1 = booked org (le_event le) (rr_booking res) (tabs s)"
    from rest res obtain s2 a s3 v where
      c: "charge_booking x org user (rr_booking res) (le_event le) now clock s1 = (Inr (), s2)" and
      a: "record_tx x org clock (created_activity x user (rr_booking res) (le_event le) now) s2 = (Inr a, s3)" and
      l: "audit_change org user ''booking'' (bk_id (rr_booking res)) ''created'' None
        (Some (booking_json x (rr_booking res))) s3 = (Inr v, u)" and
      b: "b = rr_booking res"
      by (auto simp: Let_def ok_simps)
    have "settles (tabs s1) (tabs u)"
      using settles_trans [OF settles_trans [OF charge_settles [OF c]
        settles_side [OF side_Inr [OF record_tx_side a]]] settles_side [OF side_Inr [OF audit_change_side l]]] .
    with created [of i le status] res facts wrote b show ?thesis
      by (simp add: reserve_request_def)
  qed
qed

section \<open>Moving along the state machine\<close>

lemma load_for_transition_Inr:
  assumes "load_for_transition org i r s = (Inr be, u)"
  shows "tabs u = tabs s \<and> booking_by_id org i (tabs s) = Some (fst be) \<and> bk_version (fst be) = tq_version r
    \<and> transition_allowed (bk_status (fst be)) (tq_status r)
    \<and> event_by_id org (bk_event (fst be)) (tabs s) = Some (snd be)"
proof -
  from assms obtain b s1 e where f: "first (booking_by_id org i) s = (Inr b, s1)"
    "first (event_by_id org (bk_event b)) s1 = (Inr e, u)" and "bk_version b = tq_version r"
    "transition_allowed (bk_status b) (tq_status r)" "be = (b, e)"
    unfolding load_for_transition_def by (auto simp: ok_simps)
  with first_Inr [OF f(1)] first_Inr [OF f(2)] show ?thesis by simp
qed

lemma check_capacity_Inr:
  assumes "check_capacity org b e status s = (Inr a, u)"
  shows "tabs u = tabs s \<and> (\<not> occupies_capacity (bk_status b) \<longrightarrow> occupies_capacity status \<longrightarrow>
    wrap64 (occupied_excluding org (ev_id e) (bk_id b) (tabs s) + bk_quantity b) \<le> ev_capacity e)"
proof (cases "\<not> occupies_capacity (bk_status b) \<and> occupies_capacity status")
  case True
  with assms obtain occ t where q: "query (occupied_excluding org (ev_id e) (bk_id b)) s = (Inr occ, t)"
    and "\<not> ev_capacity e < wrap64 (occ + bk_quantity b)" "u = t"
    unfolding check_capacity_def by (auto simp: ok_simps)
  with query_Inr [OF q] show ?thesis by simp
qed (use assms in \<open>auto simp: check_capacity_def ret_Inr split: if_splits\<close>)

text \<open>The tables after the status of the booking has been rewritten and the event version bumped.\<close>

definition restated :: "uuid \<Rightarrow> uuid \<Rightarrow> int \<Rightarrow> (booking_row \<Rightarrow> booking_row) \<Rightarrow> bool \<Rightarrow> uuid \<Rightarrow> tables \<Rightarrow> tables" where
  "restated org i version f bump event t =
     (let t1 = t\<lparr>bookings := update_where (\<lambda>b. bk_id b = i \<and> bk_org b = org \<and> bk_version b = version \<and> \<not> bk_deleted b)
         f (bookings t)\<rparr> in
      if bump then t1\<lparr>events := update_where (\<lambda>r. ev_id r = event \<and> ev_org r = org \<and> \<not> ev_deleted r)
          (\<lambda>r. r\<lparr>ev_version := ev_version r + 1\<rparr>) (events t)\<rparr>
      else t1)"

lemma transition_body_Inr:
  assumes "transition_body x org user i r now clock s = (Inr b', u)"
  obtains b e v where
    "booking_by_id org i (tabs s) = Some b" "bk_version b = tq_version r"
    "transition_allowed (bk_status b) (tq_status r)" "event_by_id org (bk_event b) (tabs s) = Some e"
    "\<not> occupies_capacity (bk_status b) \<longrightarrow> occupies_capacity (tq_status r) \<longrightarrow>
       wrap64 (occupied_excluding org (ev_id e) (bk_id b) (tabs s) + bk_quantity b) \<le> ev_capacity e"
    "settles (tabs s) v"
    "settles (restated org i (tq_version r) (set_status user (tq_status r) (tq_reason r) now)
       (occupies_capacity (bk_status b) \<noteq> occupies_capacity (tq_status r)) (ev_id e) v) (tabs u)"
    "rows_affected (\<lambda>b. bk_id b = i \<and> bk_org b = org \<and> bk_version b = tq_version r \<and> \<not> bk_deleted b) (bookings v) = 1"
proof -
  let ?f = "set_status user (tq_status r) (tq_reason r) now"
  from assms obtain b e s1 s2 s3 n s4 s5 s6 a s7 w where
    l: "load_for_transition org i r s = (Inr (b, e), s1)" and
    c: "check_capacity org b e (tq_status r) s1 = (Inr (), s2)" and
    k: "settle_credit x org user b e (tq_status r) now clock s2 = (Inr (), s3)" and
    wr: "execute (write_status org i (tq_version r) ?f) s3 = (Inr n, s4)" and n: "n = 1" and
    bu: "(if status_occupies (bk_status b) \<noteq> status_occupies (tq_status r)
       then bump_event_version org (ev_id e) else ret ()) s4 = (Inr (), s5)" and
    rd: "first (booking_by_id org i) s5 = (Inr b', s6)" and
    ac: "record_tx x org clock (status_activity x user b b' (tq_reason r) now) s6 = (Inr a, s7)" and
    au: "audit_change org user ''booking'' i ''updated'' (Some (booking_json x b)) (Some (booking_json x b')) s7 = (Inr w, u)"
    unfolding transition_body_def by (auto simp: ok_simps split: prod.splits)
  note L = load_for_transition_Inr [OF l] and C = check_capacity_Inr [OF c]
  have s4: "tabs s4 = (tabs s3)\<lparr>bookings := update_where (\<lambda>b. bk_id b = i \<and> bk_org b = org
      \<and> bk_version b = tq_version r \<and> \<not> bk_deleted b) ?f (bookings (tabs s3))\<rparr>"
    "rows_affected (\<lambda>b. bk_id b = i \<and> bk_org b = org \<and> bk_version b = tq_version r \<and> \<not> bk_deleted b) (bookings (tabs s3)) = 1"
    using execute_Inr [OF wr] n by (auto simp: write_status_def Let_def)
  have s5: "tabs s5 = restated org i (tq_version r) ?f
      (occupies_capacity (bk_status b) \<noteq> occupies_capacity (tq_status r)) (ev_id e) (tabs s3)"
  proof (cases "occupies_capacity (bk_status b) \<noteq> occupies_capacity (tq_status r)")
    case True
    with bu obtain m where "execute (bump_event org (ev_id e)) s4 = (Inr m, s5)"
      by (auto simp: bump_event_version_def ok_simps)
    from bump_Inr [OF this] True s4 show ?thesis by (simp add: restated_def Let_def)
  next
    case False
    with bu s4 show ?thesis by (simp add: restated_def ret_Inr)
  qed
  have "settles (tabs s5) (tabs u)"
    using settles_trans [OF settles_side [OF side_Inr [OF record_tx_side ac]] settles_side [OF side_Inr [OF audit_change_side au]]]
      first_Inr [OF rd] by simp
  with that [of b e "tabs s3"] L C settle_credit_settles [OF k] s4(2) s5 show ?thesis by simp
qed

end
