(* ===== verification/Interfaces.thy ===== *)
theory Interfaces
  imports Records
begin

text \<open>
  The interfaces the booking and commerce proofs rely on. \<open>metered\<close> is a table some rows of which
  draw on a quantity, \<open>versioned\<close> a table whose rows are rewritten under an optimistic version check,
  \<open>disjoint_slots\<close> a table of intervals that must not overlap within a group. The components that own
  the tables interpret them.
\<close>

section \<open>Rows that draw on a quantity\<close>

locale metered =
  fixes rows :: "'t \<Rightarrow> 'r list"
    and put :: "'r list \<Rightarrow> 't \<Rightarrow> 't"
    and key :: "'r \<Rightarrow> uuid"
    and counts :: "'e \<Rightarrow> 'r \<Rightarrow> bool"
    and amount :: "'r \<Rightarrow> int"
  assumes rows_put: "rows (put rs t) = rs"
begin

definition used :: "'e \<Rightarrow> 't \<Rightarrow> int" where
  "used e t = sum_list (map amount (filter (counts e) (rows t)))"

definition used_but :: "uuid \<Rightarrow> 'e \<Rightarrow> 't \<Rightarrow> int" where
  "used_but i e t = sum_list (map amount (filter (\<lambda>r. counts e r \<and> key r \<noteq> i) (rows t)))"

lemma used_append: "used e (put (rows t @ [r]) t) = used e t + (if counts e r then amount r else 0)"
  by (simp add: used_def rows_put)

lemma used_but_absent: "(\<And>r. r \<in> set (rows t) \<Longrightarrow> counts e r \<Longrightarrow> key r \<noteq> i) \<Longrightarrow> used_but i e t = used e t"
proof -
  assume a: "\<And>r. r \<in> set (rows t) \<Longrightarrow> counts e r \<Longrightarrow> key r \<noteq> i"
  have "filter (\<lambda>r. counts e r \<and> key r \<noteq> i) (rows t) = filter (counts e) (rows t)"
    by (rule filter_cong) (use a in auto)
  then show ?thesis by (simp add: used_def used_but_def)
qed

lemma split_list_sum:
  assumes "distinct (map key rs)" and "r \<in> set rs"
  shows "sum_list (map amount (filter (counts e) rs))
    = sum_list (map amount (filter (\<lambda>q. counts e q \<and> key q \<noteq> key r) rs)) + (if counts e r then amount r else 0)"
  using assms
proof (induction rs)
  case (Cons q rs)
  show ?case
  proof (cases "q = r")
    case True
    with Cons.prems(1) have "\<forall>p\<in>set rs. key p \<noteq> key r" by (auto simp: image_iff)
    then have "filter (\<lambda>q. counts e q \<and> key q \<noteq> key r) rs = filter (counts e) rs"
      by (intro filter_cong) auto
    with True show ?thesis by simp
  next
    case False
    with Cons have "r \<in> set rs" "key q \<noteq> key r" by (auto simp: image_iff)
    with Cons show ?thesis by simp
  qed
qed simp

lemma used_split:
  "distinct (map key (rows t)) \<Longrightarrow> r \<in> set (rows t) \<Longrightarrow>
     used e t = used_but (key r) e t + (if counts e r then amount r else 0)"
  unfolding used_def used_but_def by (rule split_list_sum)

lemma used_replace:
  assumes "distinct (map key (rows t))" and r: "r \<in> set (rows t)"
    and p: "\<And>q. q \<in> set (rows t) \<Longrightarrow> p q \<longleftrightarrow> q = r" and k: "key (f r) = key r"
  shows "used e (put (update_where p f (rows t)) t)
    = used_but (key r) e t + (if counts e (f r) then amount (f r) else 0)"
proof -
  let ?g = "\<lambda>q. if q = r then f r else q"
  have eq: "update_where p f (rows t) = map ?g (rows t)"
    unfolding update_where_def using p by (intro map_cong) auto
  have "map key (map ?g (rows t)) = map key (rows t)" using k by simp
  with assms(1) have "distinct (map key (map ?g (rows t)))" by metis
  moreover have "f r \<in> set (map ?g (rows t))" using r by force
  ultimately have "used e (put (map ?g (rows t)) t)
      = sum_list (map amount (filter (\<lambda>q. counts e q \<and> key q \<noteq> key r) (map ?g (rows t))))
        + (if counts e (f r) then amount (f r) else 0)"
    using split_list_sum [of "map ?g (rows t)" "f r" e] k by (simp add: used_def rows_put)
  also have "filter (\<lambda>q. counts e q \<and> key q \<noteq> key r) (map ?g qs)
      = filter (\<lambda>q. counts e q \<and> key q \<noteq> key r) qs" for qs
    using k by (induction qs) auto
  finally show ?thesis by (simp add: eq used_but_def)
qed

end

section \<open>Rows under optimistic version control\<close>

locale versioned =
  fixes rid :: "'r \<Rightarrow> uuid"
    and rorg :: "'r \<Rightarrow> uuid"
    and rver :: "'r \<Rightarrow> int"
    and rdead :: "'r \<Rightarrow> bool"
    and edit :: "'e \<Rightarrow> 'r \<Rightarrow> 'r"
  assumes edit_id [simp]: "rid (edit e r) = rid r"
    and edit_org [simp]: "rorg (edit e r) = rorg r"
    and edit_ver [simp]: "rver (edit e r) = rver r + 1"
begin

definition guard :: "uuid \<Rightarrow> uuid \<Rightarrow> int \<Rightarrow> 'r \<Rightarrow> bool" where
  "guard org i v r \<longleftrightarrow> rid r = i \<and> rorg r = org \<and> rver r = v \<and> \<not> rdead r"

definition edited :: "uuid \<Rightarrow> uuid \<Rightarrow> int \<Rightarrow> 'e \<Rightarrow> 'r list \<Rightarrow> 'r list" where
  "edited org i v e rs = update_where (guard org i v) (edit e) rs"

text \<open>After an edit that hit its row the version it asked for is gone: a second one hits nothing.\<close>

lemma no_lost_update:
  assumes "distinct (map rid rs)" and "rows_affected (guard org i v) rs \<noteq> 0"
  shows "rows_affected (guard org i v) (edited org i v e rs) = 0"
proof -
  obtain r where r: "r \<in> set rs" "guard org i v r"
    using assms(2) by (auto simp: rows_affected_def filter_empty_conv)
  have "\<not> guard org i v q" if "q \<in> set (edited org i v e rs)" for q
  proof -
    from that obtain p where p: "p \<in> set rs" "q = (if guard org i v p then edit e p else p)"
      by (auto simp: edited_def in_update_where)
    show ?thesis
    proof (cases "guard org i v p")
      case True
      with p show ?thesis by (auto simp: guard_def)
    next
      case False
      with p show ?thesis by simp
    qed
  qed
  then show ?thesis by (simp add: rows_affected_def filter_False)
qed

lemma edited_keeps:
  "map rid (edited org i v e rs) = map rid rs"
  unfolding edited_def by (rule map_update_where_same) simp

end

section \<open>Intervals that must not overlap\<close>

text \<open>Half-open intervals, as in \<^verbatim>\<open>starts_at < ? AND ends_at > ?\<close>.\<close>

definition overlap :: "time \<Rightarrow> time \<Rightarrow> time \<Rightarrow> time \<Rightarrow> bool" where
  "overlap a b c d \<longleftrightarrow> a < d \<and> c < b"

lemma overlap_sym: "overlap a b c d \<longleftrightarrow> overlap c d a b"
  by (auto simp: overlap_def)

locale disjoint_slots =
  fixes key :: "'r \<Rightarrow> uuid"
    and group :: "'r \<Rightarrow> 'g"
    and active :: "'r \<Rightarrow> bool"
    and starts :: "'r \<Rightarrow> time"
    and ends :: "'r \<Rightarrow> time"
    and move :: "'e \<Rightarrow> 'r \<Rightarrow> 'r"
  assumes move_key [simp]: "key (move e r) = key r"
begin

definition clash :: "'r \<Rightarrow> 'r \<Rightarrow> bool" where
  "clash p q \<longleftrightarrow> active p \<and> active q \<and> group p = group q \<and> overlap (starts p) (ends p) (starts q) (ends q)"

definition disjoint :: "'r list \<Rightarrow> bool" where
  "disjoint rs \<longleftrightarrow> (\<forall>p\<in>set rs. \<forall>q\<in>set rs. key p \<noteq> key q \<longrightarrow> \<not> clash p q)"

lemma clash_sym: "clash p q \<longleftrightarrow> clash q p"
  by (auto simp: clash_def overlap_sym)

lemma disjoint_append:
  assumes "disjoint rs" and "\<forall>q\<in>set rs. key q \<noteq> key r \<longrightarrow> \<not> clash q r"
  shows "disjoint (rs @ [r])"
  using assms unfolding disjoint_def by (auto simp: clash_sym)

lemma disjoint_update:
  assumes "disjoint rs"
    and moved: "\<And>r q. r \<in> set rs \<Longrightarrow> p r \<Longrightarrow> q \<in> set rs \<Longrightarrow> key q \<noteq> key r \<Longrightarrow> \<not> clash q (move e r)"
    and one: "\<And>r q. r \<in> set rs \<Longrightarrow> q \<in> set rs \<Longrightarrow> p r \<Longrightarrow> p q \<Longrightarrow> key r = key q"
  shows "disjoint (update_where p (move e) rs)"
  unfolding disjoint_def
proof (intro ballI impI)
  fix a b
  assume "a \<in> set (update_where p (move e) rs)" "b \<in> set (update_where p (move e) rs)" and neq: "key a \<noteq> key b"
  then obtain r q where r: "r \<in> set rs" "a = (if p r then move e r else r)"
    and q: "q \<in> set rs" "b = (if p q then move e q else q)" by (auto simp: in_update_where)
  have k: "key r \<noteq> key q" using neq r q by (auto split: if_splits)
  then have "\<not> (p r \<and> p q)" using one r q by blast
  then consider "p r" "\<not> p q" | "\<not> p r" "p q" | "\<not> p r" "\<not> p q" by blast
  then show "\<not> clash a b"
  proof cases
    case 1
    with moved [OF r(1) 1(1) q(1)] k r q show ?thesis by (simp add: clash_sym)
  next
    case 2
    with moved [OF q(1) 2(2) r(1)] k r q show ?thesis by simp
  next
    case 3
    with r q assms(1) k show ?thesis by (simp add: disjoint_def)
  qed
qed

text \<open>Rewriting a row without moving it, or retiring it, is always fine.\<close>

lemma disjoint_retouch:
  assumes "disjoint rs" and keys: "\<And>r. key (f r) = key r"
    and less: "\<And>r. active (f r) \<Longrightarrow> active r \<and> group (f r) = group r \<and> starts (f r) = starts r \<and> ends (f r) = ends r"
  shows "disjoint (update_where p f rs)"
  unfolding disjoint_def
proof (intro ballI impI)
  fix a b
  assume "a \<in> set (update_where p f rs)" "b \<in> set (update_where p f rs)" and neq: "key a \<noteq> key b"
  then obtain r q where r: "r \<in> set rs" "a = (if p r then f r else r)"
    and q: "q \<in> set rs" "b = (if p q then f q else q)" by (auto simp: in_update_where)
  have "key a = key r" "key b = key q" using keys r q by (simp_all split: if_splits)
  with neq r(1) q(1) assms(1) have "\<not> clash r q" by (simp add: disjoint_def)
  moreover have "clash r q" if "clash a b"
    using that less [of r] less [of q] r(2) q(2) unfolding clash_def by (simp split: if_splits)
  ultimately show "\<not> clash a b" by blast
qed

end

end
