(* ===== verification/BookingSafety.thy ===== *)
theory BookingSafety
  imports BookingEffects EventHandlers Interfaces
begin

text \<open>
  The invariant of the booking tables and that every successful transaction preserves it: no event
  is ever overbooked, the credit ledger stays sound, no two scheduled events of a resource overlap
  and none overlaps its time off.
\<close>

section \<open>The interfaces on the model\<close>

interpretation seat_meter: metered bookings "\<lambda>rs t. t\<lparr>bookings := rs\<rparr>" bk_id
    "\<lambda>(org, event). seats org event" bk_quantity
  by unfold_locales simp

interpretation ev_slots: disjoint_slots ev_id "\<lambda>e. (ev_org e, ev_resource e)"
    "\<lambda>e. ev_status e = s_scheduled \<and> \<not> ev_deleted e" ev_starts ev_ends edit_event
  by unfold_locales (auto simp: edit_event_def split: prod.split)

interpretation off_slots: disjoint_slots to_id "\<lambda>r. (to_org r, to_resource r)"
    "\<lambda>r. \<not> to_deleted r" to_starts to_ends edit_time_off
  by unfold_locales (auto simp: edit_time_off_def split: prod.split)

lemma used_seats: "seat_meter.used (org, event) t = occupied_quantity org event t"
  by (simp add: seat_meter.used_def occupied_quantity_def)

section \<open>The invariant\<close>

definition event_of :: "tables \<Rightarrow> booking_row \<Rightarrow> bool" where
  "event_of t b \<longleftrightarrow> (\<exists>e\<in>set (events t). ev_id e = bk_event b \<and> ev_org e = bk_org b)"

definition fits :: "tables \<Rightarrow> event_row \<Rightarrow> bool" where
  "fits t e \<longleftrightarrow> 1 \<le> ev_capacity e \<and> ev_capacity e \<le> 10000
     \<and> occupied_quantity (ev_org e) (ev_id e) t \<le> ev_capacity e"

definition booking_ok :: "tables \<Rightarrow> bool" where
  "booking_ok t \<longleftrightarrow>
     distinct (map ev_id (events t)) \<and> distinct (map bk_id (bookings t))
     \<and> distinct (map (\<lambda>b. (bk_org b, bk_key b)) (bookings t))
     \<and> (\<forall>b\<in>set (bookings t). 1 \<le> bk_quantity b \<and> bk_quantity b \<le> 10000 \<and> event_of t b)
     \<and> (\<forall>e\<in>set (events t). fits t e)"

definition apart :: "event_row \<Rightarrow> time_off_row \<Rightarrow> bool" where
  "apart e r \<longleftrightarrow> ((ev_org e, ev_resource e) = (to_org r, to_resource r) \<and> ev_status e \<noteq> s_cancelled
     \<and> \<not> ev_deleted e \<and> \<not> to_deleted r \<longrightarrow> \<not> overlap (ev_starts e) (ev_ends e) (to_starts r) (to_ends r))"

definition schedule_ok :: "tables \<Rightarrow> bool" where
  "schedule_ok t \<longleftrightarrow>
     distinct (map to_id (time_offs t)) \<and> ev_slots.disjoint (events t) \<and> off_slots.disjoint (time_offs t)
     \<and> (\<forall>e\<in>set (events t). \<forall>r\<in>set (time_offs t). apart e r)"

definition safe :: "tables \<Rightarrow> bool" where
  "safe t \<longleftrightarrow> booking_ok t \<and> schedule_ok t \<and> credits_ok t"

lemma booking_okD:
  assumes "booking_ok t"
  shows "distinct (map ev_id (events t))" "distinct (map bk_id (bookings t))"
    "distinct (map (\<lambda>b. (bk_org b, bk_key b)) (bookings t))"
    "b \<in> set (bookings t) \<Longrightarrow> 1 \<le> bk_quantity b \<and> bk_quantity b \<le> 10000 \<and> event_of t b"
    "e \<in> set (events t) \<Longrightarrow> fits t e"
  using assms by (auto simp: booking_ok_def)

text \<open>What depends on which table.\<close>

lemma booking_ok_cong:
  "bookings t = bookings u \<Longrightarrow> events t = events u \<Longrightarrow> booking_ok t = booking_ok u"
  by (simp add: booking_ok_def fits_def event_of_def occupied_quantity_def)

lemma schedule_ok_cong:
  "events t = events u \<Longrightarrow> time_offs t = time_offs u \<Longrightarrow> schedule_ok t = schedule_ok u"
  by (simp add: schedule_ok_def)

lemma settles_safe:
  assumes "settles t u" and "safe t"
  shows "safe u"
proof -
  have s: "schedule u = schedule t" "credits_ok u" using assms by (simp_all add: settles_def safe_def)
  note eqs = schedule_eqD [OF s(1)]
  show ?thesis
    using assms(2) s(2) booking_ok_cong [of t u] schedule_ok_cong [of t u] eqs by (simp add: safe_def)
qed

lemma occupied_nonneg: "booking_ok t \<Longrightarrow> 0 \<le> occupied_quantity org event t"
  unfolding occupied_quantity_def by (intro sum_list_nonneg) (auto dest: booking_okD(4))

text \<open>Bumping the version of an event changes nothing the invariant speaks of.\<close>

definition same_event :: "event_row \<Rightarrow> event_row \<Rightarrow> bool" where
  "same_event e f \<longleftrightarrow> ev_version_update (\<lambda>_. 0) e = ev_version_update (\<lambda>_. 0) f"

lemma same_eventD:
  assumes "same_event e f"
  shows "ev_id e = ev_id f" "ev_org e = ev_org f" "ev_resource e = ev_resource f" "ev_starts e = ev_starts f"
    "ev_ends e = ev_ends f" "ev_capacity e = ev_capacity f" "ev_status e = ev_status f" "ev_deleted e = ev_deleted f"
  using assms unfolding same_event_def by (cases e; cases f; simp)+

definition bumped :: "(event_row \<Rightarrow> bool) \<Rightarrow> event_row list \<Rightarrow> event_row list" where
  "bumped p es = update_where p (\<lambda>e. e\<lparr>ev_version := ev_version e + 1\<rparr>) es"

lemma bumped_ids [simp]: "map ev_id (bumped p es) = map ev_id es"
  unfolding bumped_def by (rule map_update_where_same) simp

lemma bumped_mem: "f \<in> set (bumped p es) \<Longrightarrow> \<exists>e\<in>set es. same_event e f"
  unfolding bumped_def by (auto simp: in_update_where same_event_def)

lemma bumped_mem': "e \<in> set es \<Longrightarrow> \<exists>f\<in>set (bumped p es). same_event e f"
  unfolding bumped_def
  by (rule bexI [of _ "if p e then e\<lparr>ev_version := ev_version e + 1\<rparr> else e"]) (auto simp: in_update_where same_event_def)

lemma fits_bumped:
  assumes "\<forall>e\<in>set es. fits t e"
  shows "\<forall>e\<in>set (bumped p es). fits t e"
  using assms bumped_mem same_eventD unfolding fits_def by metis

lemma event_of_bumped:
  "event_of t b \<Longrightarrow> event_of (t\<lparr>events := bumped p (events t)\<rparr>) b"
proof -
  assume "event_of t b"
  then obtain e where e: "e \<in> set (events t)" "ev_id e = bk_event b" "ev_org e = bk_org b"
    by (auto simp: event_of_def)
  obtain f where f: "f \<in> set (bumped p (events t))" "same_event e f" using bumped_mem' [OF e(1)] by blast
  with e same_eventD(1,2) [OF f(2)] show ?thesis by (auto simp: event_of_def)
qed

lemma booking_ok_bump: "booking_ok t \<Longrightarrow> booking_ok (t\<lparr>events := bumped p (events t)\<rparr>)"
  using fits_bumped [of "events t" t p] event_of_bumped [of t _ p]
  by (auto simp: booking_ok_def fits_def occupied_quantity_def)

lemma schedule_ok_bump: "schedule_ok t \<Longrightarrow> schedule_ok (t\<lparr>events := bumped p (events t)\<rparr>)"
proof -
  assume ok: "schedule_ok t"
  have "ev_slots.disjoint (bumped p (events t))"
    unfolding bumped_def by (rule ev_slots.disjoint_retouch) (use ok in \<open>auto simp: schedule_ok_def\<close>)
  moreover have "apart e r" if e: "e \<in> set (bumped p (events t))" and r: "r \<in> set (time_offs t)" for e r
  proof -
    obtain e0 where e0: "e0 \<in> set (events t)" "same_event e0 e" using bumped_mem [OF e] by blast
    then have "apart e0 r" using ok r by (simp add: schedule_ok_def)
    with same_eventD [OF e0(2)] show ?thesis by (simp add: apart_def)
  qed
  ultimately show ?thesis using ok by (simp add: schedule_ok_def)
qed

section \<open>Reserving never overbooks\<close>

lemma wrap_small: "\<bar>v\<bar> \<le> 1000000 \<Longrightarrow> wrap64 v = v"
proof -
  assume "\<bar>v\<bar> \<le> 1000000"
  then have "in_i64 v" unfolding in_i64_def min_i64_def max_i64_def by (simp, arith)
  then show ?thesis by simp
qed

lemma admit_fits:
  assumes "admit inp e occupied = Inr status" and "occupies_capacity status"
    and "1 \<le> ev_capacity e" "ev_capacity e \<le> 10000" "1 \<le> ri_quantity inp" "ri_quantity inp \<le> 10000"
  shows "occupied + ri_quantity inp \<le> ev_capacity e"
proof -
  have "wrap64 (ev_capacity e - ri_quantity inp) = ev_capacity e - ri_quantity inp"
    by (rule wrap_small) (use assms(3-6) in arith)
  with assms(1,2) show ?thesis
    unfolding admit_def by (auto split: if_splits)
qed

lemma booking_ok_append:
  assumes ok: "booking_ok t" and new: "unused t b" and q: "1 \<le> bk_quantity b" "bk_quantity b \<le> 10000"
    and e: "e \<in> set (events t)" "ev_id e = bk_event b" "ev_org e = bk_org b"
    and room: "occupies_capacity (bk_status b) \<longrightarrow> occupied_quantity (ev_org e) (ev_id e) t + bk_quantity b \<le> ev_capacity e"
  shows "booking_ok (t\<lparr>bookings := bookings t @ [b]\<rparr>)"
proof -
  let ?u = "t\<lparr>bookings := bookings t @ [b]\<rparr>"
  have "fits ?u f" if f: "f \<in> set (events t)" for f
  proof -
    have occ: "occupied_quantity (ev_org f) (ev_id f) ?u
        = occupied_quantity (ev_org f) (ev_id f) t + (if seats (ev_org f) (ev_id f) b then bk_quantity b else 0)"
      using seat_meter.used_append [of "(ev_org f, ev_id f)" t b] by (simp add: used_seats)
    have old: "fits t f" using ok f by (rule booking_okD)
    show ?thesis
    proof (cases "seats (ev_org f) (ev_id f) b")
      case True
      then have "ev_id f = ev_id e" "occupies_capacity (bk_status b)" using e by (simp_all add: seats_def)
      then have "f = e" using booking_okD(1) [OF ok] f e(1) by (auto simp: distinct_map inj_on_def)
      with occ old room True show ?thesis by (auto simp: fits_def seats_def)
    next
      case False
      with occ old show ?thesis by (simp add: fits_def)
    qed
  qed
  moreover have "event_of t b" using e by (auto simp: event_of_def)
  moreover have "event_of ?u = event_of t" by (rule ext) (simp add: event_of_def)
  ultimately show ?thesis
    using ok new q by (auto simp: booking_ok_def unused_def)
qed

lemma booked_safe:
  assumes ok: "safe t" and e: "event_by_id org i t = Some e" and new: "unused t b"
    and b: "bk_org b = org" "bk_event b = ev_id e" "1 \<le> bk_quantity b" "bk_quantity b \<le> 10000"
    and room: "occupies_capacity (bk_status b) \<longrightarrow> occupied_quantity org (ev_id e) t + bk_quantity b \<le> ev_capacity e"
  shows "safe (booked org e b t)"
proof -
  note E = event_by_id_SomeD [OF e]
  let ?t1 = "t\<lparr>bookings := bookings t @ [b]\<rparr>"
  have t1: "booking_ok ?t1"
    by (rule booking_ok_append [of _ _ e]) (use ok new b E room in \<open>auto simp: safe_def\<close>)
  have "schedule_ok ?t1" "credits_ok ?t1"
    using ok schedule_ok_cong [of t ?t1] credits_ok_cong [of t ?t1] by (simp_all add: safe_def)
  with t1 have s1: "safe ?t1" by (simp add: safe_def)
  let ?p = "\<lambda>r. ev_id r = ev_id e \<and> ev_org r = org \<and> \<not> ev_deleted r"
  have "safe (?t1\<lparr>events := bumped ?p (events t)\<rparr>)"
    using booking_ok_bump [of ?t1 ?p] schedule_ok_bump [of ?t1 ?p]
      credits_ok_cong [of ?t1 "?t1\<lparr>events := bumped ?p (events t)\<rparr>"] s1 by (simp add: safe_def)
  with s1 show ?thesis
    unfolding booked_def Let_def bumped_def by simp
qed

lemma new_booking_simps [simp]:
  "bk_org (new_booking i org inp e st now) = org" "bk_event (new_booking i org inp e st now) = ev_id e"
  "bk_quantity (new_booking i org inp e st now) = ri_quantity inp"
  "bk_status (new_booking i org inp e st now) = st" "bk_package (new_booking i org inp e st now) = ri_package inp"
  by (simp_all add: new_booking_def)

lemma normal_quantity [simp]: "ri_quantity (normal_reserve inp) = ri_quantity inp"
  by (simp add: normal_reserve_def)

lemma reserved_safe:
  assumes ok: "safe t" and e: "event_by_id org i t = Some e" and "unused t b"
    and b: "b = new_booking j org inp e status now" and q: "1 \<le> ri_quantity inp" "ri_quantity inp \<le> 10000"
    and ad: "admit inp e (occupied_quantity org (ev_id e) t) = Inr status"
  shows "safe (booked org e b t)"
proof -
  have "fits t e" using ok event_by_id_SomeD [OF e] by (auto simp: safe_def dest: booking_okD(5))
  then have "occupied_quantity org (ev_id e) t + ri_quantity inp \<le> ev_capacity e" if "occupies_capacity status"
    using admit_fits [OF ad that] q by (simp add: fits_def)
  with booked_safe [OF ok e] b q assms(3) show ?thesis by simp
qed

lemma reserve_tx_safe:
  assumes "reserve_tx x org raw now s = (Inr r, u)" and ok: "safe (tabs s)" and "ri_quantity raw \<le> 10000"
  shows "safe (tabs u)"
  using assms(1)
proof (rule reserve_tx_Inr)
  fix i status and le :: loaded_event
  assume "r = \<lparr>rr_booking = new_booking i org (normal_reserve raw) (le_event le) status now, rr_event = Some le,
        rr_created = True, rr_now = now\<rparr>"
    and "event_by_id org (ri_event raw) (tabs s) = Some (le_event le)"
    and "admit (normal_reserve raw) (le_event le) (occupied_quantity org (ev_id (le_event le)) (tabs s)) = Inr status"
    and "unused (tabs s) (rr_booking r)" "0 < ri_quantity raw"
    and "tabs u = booked org (le_event le) (rr_booking r) (tabs s)"
  then show ?thesis
    using reserved_safe [OF ok, of org "ri_event raw" "le_event le" "rr_booking r" i "normal_reserve raw" status now]
      assms(3) by simp
qed (use ok in simp)

lemma validate_create_quantity:
  "validate_create_booking raw = Inr r \<Longrightarrow> 1 \<le> cq_quantity r \<and> cq_quantity r \<le> 10000"
  unfolding validate_create_booking_def Let_def by (auto split: if_splits)

lemma create_body_safe:
  assumes "create_body x org user r now clock s = (Inr b, u)" and ok: "safe (tabs s)" and "cq_quantity r \<le> 10000"
  shows "safe (tabs u)"
  using assms(1)
proof (rule create_body_Inr)
  fix i status and le :: loaded_event
  assume "b = new_booking i org (normal_reserve (reserve_request user r)) (le_event le) status now"
    and "event_by_id org (cq_event r) (tabs s) = Some (le_event le)"
    and "admit (normal_reserve (reserve_request user r)) (le_event le)
         (occupied_quantity org (ev_id (le_event le)) (tabs s)) = Inr status"
    and "unused (tabs s) b" "0 < cq_quantity r"
    and s: "settles (booked org (le_event le) b (tabs s)) (tabs u)"
  then have "safe (booked org (le_event le) b (tabs s))"
    using reserved_safe [OF ok, of org "cq_event r" "le_event le" b i "normal_reserve (reserve_request user r)" status now]
      assms(3) by (simp add: reserve_request_def)
  with s show ?thesis by (rule settles_safe)
qed (use ok in simp)

section \<open>Transitions never overbook\<close>

lemma booking_by_id_SomeD:
  "booking_by_id org i t = Some b \<Longrightarrow> b \<in> set (bookings t) \<and> bk_id b = i \<and> bk_org b = org \<and> \<not> bk_deleted b"
  unfolding booking_by_id_def by (drule first_in_filterD) simp

lemma set_status_simps [simp]:
  "bk_id (set_status user st why now b) = bk_id b" "bk_org (set_status user st why now b) = bk_org b"
  "bk_event (set_status user st why now b) = bk_event b" "bk_key (set_status user st why now b) = bk_key b"
  "bk_quantity (set_status user st why now b) = bk_quantity b" "bk_status (set_status user st why now b) = st"
  "bk_deleted (set_status user st why now b) = bk_deleted b" "bk_contact (set_status user st why now b) = bk_contact b"
  "bk_version (set_status user st why now b) = bk_version b + 1" "bk_package (set_status user st why now b) = bk_package b"
  by (simp_all add: set_status_def Let_def)

lemma occupied_excluding_absent:
  assumes "distinct (map bk_id (bookings t))" and "b \<in> set (bookings t)" and "\<not> occupies_capacity (bk_status b)"
  shows "occupied_excluding org event (bk_id b) t = occupied_quantity org event t"
proof -
  have "filter (\<lambda>c. bk_org c = org \<and> bk_event c = event \<and> bk_status c \<in> set booking_capacity_statuses
      \<and> (bk_id b = nil_uuid \<or> bk_id c \<noteq> bk_id b) \<and> \<not> bk_deleted c) (bookings t)
    = filter (seats org event) (bookings t)"
  proof (rule filter_cong)
    fix c
    assume c: "c \<in> set (bookings t)"
    have "bk_status c \<in> set booking_capacity_statuses \<longleftrightarrow> occupies_capacity (bk_status c)"
      by (auto simp: booking_capacity_statuses_def occupies_capacity_def capacity_statuses_def)
    moreover have "c = b" if "bk_id c = bk_id b" using assms c that by (auto simp: distinct_map inj_on_def)
    ultimately show "(bk_org c = org \<and> bk_event c = event \<and> bk_status c \<in> set booking_capacity_statuses
      \<and> (bk_id b = nil_uuid \<or> bk_id c \<noteq> bk_id b) \<and> \<not> bk_deleted c) = seats org event c"
      using assms(3) unfolding seats_def by auto
  qed simp
  then show ?thesis by (simp add: occupied_excluding_def occupied_quantity_def)
qed

lemma booking_ok_restate:
  assumes ok: "booking_ok t" and b: "b \<in> set (bookings t)"
    and p: "\<And>c. c \<in> set (bookings t) \<Longrightarrow> p c \<longleftrightarrow> c = b"
    and f: "bk_id (f b) = bk_id b" "bk_org (f b) = bk_org b" "bk_event (f b) = bk_event b" "bk_key (f b) = bk_key b"
      "bk_quantity (f b) = bk_quantity b" "bk_deleted (f b) = bk_deleted b"
    and e: "e \<in> set (events t)" "ev_id e = bk_event b" "ev_org e = bk_org b"
    and room: "\<not> occupies_capacity (bk_status b) \<longrightarrow> occupies_capacity (bk_status (f b)) \<longrightarrow>
      occupied_quantity (ev_org e) (ev_id e) t + bk_quantity b \<le> ev_capacity e"
  shows "booking_ok (t\<lparr>bookings := update_where p f (bookings t)\<rparr>)"
proof -
  let ?u = "t\<lparr>bookings := update_where p f (bookings t)\<rparr>"
  note D = booking_okD [OF ok]
  have rows: "update_where p f (bookings t) = map (\<lambda>c. if c = b then f b else c) (bookings t)"
    unfolding update_where_def using p by (intro map_cong) auto
  have "fits ?u g" if g: "g \<in> set (events t)" for g
  proof -
    let ?k = "(ev_org g, ev_id g)"
    have after: "occupied_quantity (ev_org g) (ev_id g) ?u = seat_meter.used_but (bk_id b) ?k t
        + (if seats (ev_org g) (ev_id g) (f b) then bk_quantity b else 0)"
      using seat_meter.used_replace [where t = t and r = b and p = p and f = f and e = ?k, OF D(2) b p f(1)] f(5)
      by (simp add: used_seats)
    have before: "occupied_quantity (ev_org g) (ev_id g) t = seat_meter.used_but (bk_id b) ?k t
        + (if seats (ev_org g) (ev_id g) b then bk_quantity b else 0)"
      using seat_meter.used_split [OF D(2) b, of ?k] by (simp add: used_seats)
    have old: "fits t g" using g by (rule D)
    have q: "1 \<le> bk_quantity b" using D(4) [OF b] by simp
    show ?thesis
    proof (cases "seats (ev_org g) (ev_id g) (f b) \<and> \<not> seats (ev_org g) (ev_id g) b")
      case True
      then have "\<not> occupies_capacity (bk_status b)" "occupies_capacity (bk_status (f b))" "ev_id g = bk_event b"
        using f by (auto simp: seats_def)
      moreover from this have "g = e" using D(1) g e by (auto simp: distinct_map inj_on_def)
      ultimately show ?thesis using room before after old True by (simp add: fits_def)
    next
      case False
      with before after old q show ?thesis by (auto simp: fits_def split: if_splits)
    qed
  qed
  moreover have "event_of ?u = event_of t" by (rule ext) (simp add: event_of_def)
  moreover have "distinct (map bk_id (bookings ?u)) \<and> distinct (map (\<lambda>b. (bk_org b, bk_key b)) (bookings ?u))"
  proof -
    have "map bk_id (bookings ?u) = map bk_id (bookings t)"
      "map (\<lambda>b. (bk_org b, bk_key b)) (bookings ?u) = map (\<lambda>b. (bk_org b, bk_key b)) (bookings t)"
      using f by (auto simp: rows)
    with D(2,3) show ?thesis by metis
  qed
  moreover have "1 \<le> bk_quantity c \<and> bk_quantity c \<le> 10000 \<and> event_of t c" if "c \<in> set (bookings ?u)" for c
    using that D(4) b f by (auto simp: rows event_of_def)
  ultimately show ?thesis
    using D(1) unfolding booking_ok_def by simp
qed

lemma transition_body_safe:
  assumes "transition_body x org user i r now clock s = (Inr b', u)" and ok: "safe (tabs s)"
  shows "safe (tabs u)"
  using assms(1)
proof (rule transition_body_Inr)
  fix b e v
  let ?f = "set_status user (tq_status r) (tq_reason r) now"
  let ?p = "\<lambda>b. bk_id b = i \<and> bk_org b = org \<and> bk_version b = tq_version r \<and> \<not> bk_deleted b"
  assume b: "booking_by_id org i (tabs s) = Some b" "bk_version b = tq_version r"
    and e: "event_by_id org (bk_event b) (tabs s) = Some e"
    and room: "\<not> occupies_capacity (bk_status b) \<longrightarrow> occupies_capacity (tq_status r) \<longrightarrow>
       wrap64 (occupied_excluding org (ev_id e) (bk_id b) (tabs s) + bk_quantity b) \<le> ev_capacity e"
    and v: "settles (tabs s) v"
    and u: "settles (restated org i (tq_version r) ?f
       (occupies_capacity (bk_status b) \<noteq> occupies_capacity (tq_status r)) (ev_id e) v) (tabs u)"
  have "schedule v = schedule (tabs s)" using v by (simp add: settles_def)
  note same = schedule_eqD [OF this] and B = booking_by_id_SomeD [OF b(1)] and E = event_by_id_SomeD [OF e]
  have okv: "safe v" using v ok by (rule settles_safe)
  then have bv: "booking_ok v" by (simp add: safe_def)
  have in_v: "b \<in> set (bookings v)" "e \<in> set (events v)" using B E same by simp_all
  have occ: "occupied_quantity org (ev_id e) v = occupied_quantity org (ev_id e) (tabs s)"
    using same by (simp add: occupied_quantity_def)
  have room': "\<not> occupies_capacity (bk_status b) \<longrightarrow> occupies_capacity (bk_status (?f b)) \<longrightarrow>
      occupied_quantity (ev_org e) (ev_id e) v + bk_quantity b \<le> ev_capacity e"
  proof (intro impI)
    assume n: "\<not> occupies_capacity (bk_status b)" "occupies_capacity (bk_status (?f b))"
    have "fits v e" using bv in_v(2) by (rule booking_okD)
    then have "0 \<le> occupied_quantity org (ev_id e) v" "occupied_quantity org (ev_id e) v \<le> 10000"
      using occupied_nonneg [OF bv] E by (simp_all add: fits_def)
    moreover have "1 \<le> bk_quantity b" "bk_quantity b \<le> 10000" using booking_okD(4) [OF bv in_v(1)] by simp_all
    ultimately have "wrap64 (occupied_quantity org (ev_id e) v + bk_quantity b)
        = occupied_quantity org (ev_id e) v + bk_quantity b"
      by (intro wrap_small) arith
    moreover have "distinct (map bk_id (bookings (tabs s)))" using ok by (simp add: safe_def booking_ok_def)
    ultimately show "occupied_quantity (ev_org e) (ev_id e) v + bk_quantity b \<le> ev_capacity e"
      using room n occupied_excluding_absent [of "tabs s" b org "ev_id e"] B E occ by simp
  qed
  have only: "?p c \<longleftrightarrow> c = b" if "c \<in> set (bookings v)" for c
    using that in_v(1) booking_okD(2) [OF bv] B b(2) by (auto simp: distinct_map inj_on_def)
  let ?v1 = "v\<lparr>bookings := update_where ?p ?f (bookings v)\<rparr>"
  have "booking_ok ?v1"
    by (rule booking_ok_restate [OF bv in_v(1) only, where e = e]) (use in_v E B room' in auto)
  then have v1: "safe ?v1"
    using okv schedule_ok_cong [of v ?v1] credits_ok_cong [of v ?v1] by (simp add: safe_def)
  let ?q = "\<lambda>r. ev_id r = ev_id e \<and> ev_org r = org \<and> \<not> ev_deleted r"
  have "safe (?v1\<lparr>events := bumped ?q (events v)\<rparr>)"
    using booking_ok_bump [of ?v1 ?q] schedule_ok_bump [of ?v1 ?q]
      credits_ok_cong [of ?v1 "?v1\<lparr>events := bumped ?q (events v)\<rparr>"] v1 by (simp add: safe_def)
  with v1 have "safe (restated org i (tq_version r) ?f
       (occupies_capacity (bk_status b) \<noteq> occupies_capacity (tq_status r)) (ev_id e) v)"
    unfolding restated_def Let_def bumped_def by simp
  with u show ?thesis by (rule settles_safe)
qed

end
