(* ===== verification/EventSafety.thy ===== *)
theory EventSafety
  imports BookingSafety
begin

text \<open>
  Creating and replacing events, and blocking time of a resource, keep the invariant of
  \<^verbatim>\<open>BookingSafety\<close>: an event never gets smaller than what is booked on it, and the checks of the handlers
  are exactly what keeps the calendar of a resource free of overlaps.
\<close>

section \<open>What the checks establish\<close>

lemma ensure_event_available_Inr:
  assumes "ensure_event_available org resource a b ex s = (Inr v, u)"
  shows "tabs u = tabs s \<and> time_off_hits org resource a b nil_uuid (tabs s) = []
    \<and> event_hits org resource (\<lambda>st. st = s_scheduled) a b ex (tabs s) = []"
proof -
  from assms obtain n t m where q: "query (\<lambda>t. length (time_off_hits org resource a b nil_uuid t)) s = (Inr n, t)"
    and r: "query (\<lambda>t. length (event_hits org resource (\<lambda>st. st = s_scheduled) a b ex t)) t = (Inr m, u)"
    and z: "n = 0" "m = 0"
    unfolding ensure_event_available_def by (auto simp: ok_simps)
  from query_Inr [OF q] query_Inr [OF r] z show ?thesis by simp
qed

lemma reads_event_references: "reads (event_references org service resource)"
  unfolding event_references_def by (intro reads_intros)

lemma reads_ensure_within_recurring: "reads (ensure_within_recurring x org resource a b)"
  unfolding ensure_within_recurring_def resource_location_def by (intro reads_intros)

lemma check_slot_Inr:
  assumes "check_slot x org r status ex s = (Inr v, u)"
  shows "tabs u = tabs s
    \<and> time_off_hits org (eq_resource r) (eq_starts r) (eq_ends r) nil_uuid (tabs s) = []
    \<and> event_hits org (eq_resource r) (\<lambda>st. st = s_scheduled) (eq_starts r) (eq_ends r) ex (tabs s) = []"
proof -
  from assms obtain sv rs s1 s2 where
    ref: "event_references org (eq_service r) (eq_resource r) s = (Inr (sv, rs), s1)" and
    rec: "(if status = s_scheduled
       then ensure_within_recurring x org (eq_resource r) (eq_starts r) (eq_ends r) else ret ()) s1 = (Inr (), s2)" and
    av: "ensure_event_available org (eq_resource r) (eq_starts r) (eq_ends r) ex s2 = (Inr v, u)"
    unfolding check_slot_def by (auto simp: ok_simps split: prod.splits)
  have "tabs s1 = tabs s" by (rule reads_Inr [OF reads_event_references ref])
  moreover have "reads (if status = s_scheduled
       then ensure_within_recurring x org (eq_resource r) (eq_starts r) (eq_ends r) else ret ())"
    by (intro reads_intros reads_ensure_within_recurring)
  then have "tabs s2 = tabs s1" using rec by (rule reads_Inr)
  ultimately show ?thesis using ensure_event_available_Inr [OF av] by simp
qed

lemma ensure_time_off_free_Inr:
  assumes "ensure_time_off_free org resource a b ex s = (Inr v, u)"
  shows "tabs u = tabs s \<and> time_off_hits org resource a b ex (tabs s) = []
    \<and> event_hits org resource (\<lambda>st. st \<noteq> s_cancelled) a b nil_uuid (tabs s) = []"
proof -
  from assms obtain n t m where q: "query (\<lambda>t. length (time_off_hits org resource a b ex t)) s = (Inr n, t)"
    and r: "query (\<lambda>t. length (event_hits org resource (\<lambda>st. st \<noteq> s_cancelled) a b nil_uuid t)) t = (Inr m, u)"
    and z: "n = 0" "m = 0"
    unfolding ensure_time_off_free_def by (auto simp: ok_simps)
  from query_Inr [OF q] query_Inr [OF r] z show ?thesis by simp
qed

text \<open>No hit means no clash.\<close>

lemma no_event_hit:
  assumes "event_hits org resource status a b ex t = []" and "e \<in> set (events t)" and "ev_id e \<noteq> ex"
    and "(ev_org e, ev_resource e) = (org, resource)" "status (ev_status e)" "\<not> ev_deleted e"
  shows "\<not> overlap (ev_starts e) (ev_ends e) a b"
  using assms unfolding event_hits_def filter_empty_conv overlap_def by auto

lemma no_event_hit_nil:
  assumes "event_hits org resource status a b nil_uuid t = []" and "e \<in> set (events t)"
    and "(ev_org e, ev_resource e) = (org, resource)" "status (ev_status e)" "\<not> ev_deleted e"
  shows "\<not> overlap (ev_starts e) (ev_ends e) a b"
  using assms unfolding event_hits_def filter_empty_conv overlap_def by auto

lemma no_time_off_hit:
  assumes "time_off_hits org resource a b ex t = []" and "r \<in> set (time_offs t)" and "ex = nil_uuid \<or> to_id r \<noteq> ex"
    and "(to_org r, to_resource r) = (org, resource)" "\<not> to_deleted r"
  shows "\<not> overlap (to_starts r) (to_ends r) a b"
  using assms unfolding time_off_hits_def filter_empty_conv overlap_def by auto

section \<open>Creating an event\<close>

lemma insert_event_Inr:
  assumes "execute (insert_event e) s = (Inr v, u)"
  shows "(\<forall>f\<in>set (events (tabs s)). ev_id f \<noteq> ev_id e) \<and> tabs u = (tabs s)\<lparr>events := events (tabs s) @ [e]\<rparr>"
  using execute_Inr [OF assms] by (auto simp: insert_event_def split: if_splits)

lemma occupied_unbooked:
  assumes "\<And>b. b \<in> set (bookings t) \<Longrightarrow> event_of t b" and "\<forall>f\<in>set (events t). ev_id f \<noteq> i"
  shows "occupied_quantity org i t = 0"
proof -
  have "\<not> seats org i b" if "b \<in> set (bookings t)" for b
    using assms(1) [OF that] assms(2) by (auto simp: seats_def event_of_def)
  then have "filter (seats org i) (bookings t) = []" by (simp add: filter_empty_conv)
  then show ?thesis by (simp add: occupied_quantity_def)
qed

lemma booking_ok_new_event:
  assumes ok: "booking_ok t" and new: "\<forall>f\<in>set (events t). ev_id f \<noteq> ev_id e"
    and cap: "1 \<le> ev_capacity e" "ev_capacity e \<le> 10000"
  shows "booking_ok (t\<lparr>events := events t @ [e]\<rparr>)"
proof -
  have "fits t e" using cap occupied_unbooked [of t "ev_id e" "ev_org e"] booking_okD(4) [OF ok] new
    by (simp add: fits_def)
  moreover have "fits (t\<lparr>events := events t @ [e]\<rparr>) = fits t"
    by (rule ext) (simp add: fits_def occupied_quantity_def)
  moreover have "event_of t b \<Longrightarrow> event_of (t\<lparr>events := events t @ [e]\<rparr>) b" for b
    by (auto simp: event_of_def)
  ultimately show ?thesis using ok new unfolding booking_ok_def by auto
qed

lemma schedule_ok_new_event:
  assumes ok: "schedule_ok t"
    and off: "time_off_hits (ev_org e) (ev_resource e) (ev_starts e) (ev_ends e) nil_uuid t = []"
    and free: "event_hits (ev_org e) (ev_resource e) (\<lambda>st. st = s_scheduled) (ev_starts e) (ev_ends e) nil_uuid t = []"
  shows "schedule_ok (t\<lparr>events := events t @ [e]\<rparr>)"
proof -
  have "ev_slots.disjoint (events t @ [e])"
    by (rule ev_slots.disjoint_append)
      (use ok no_event_hit_nil [OF free] in \<open>auto simp: schedule_ok_def ev_slots.clash_def\<close>)
  moreover have "apart e r" if "r \<in> set (time_offs t)" for r
    using no_time_off_hit [OF off that] by (auto simp: apart_def overlap_sym)
  ultimately show ?thesis using ok by (auto simp: schedule_ok_def)
qed

lemma validate_event_Inr:
  assumes "validate_event r updating = Inr v"
  shows "eq_starts r < eq_ends r \<and> 1 \<le> eq_capacity r \<and> eq_capacity r \<le> 10000
    \<and> (eq_status r = [] \<or> eq_status r \<in> {s_scheduled, s_completed, s_cancelled})"
  using assms unfolding validate_event_def valid_event_status_def by (auto split: if_splits)

lemma new_event_simps [simp]:
  "ev_id (new_event i org user r st) = i" "ev_org (new_event i org user r st) = org"
  "ev_resource (new_event i org user r st) = eq_resource r" "ev_starts (new_event i org user r st) = eq_starts r"
  "ev_ends (new_event i org user r st) = eq_ends r" "ev_capacity (new_event i org user r st) = eq_capacity r"
  "ev_status (new_event i org user r st) = st" "ev_service (new_event i org user r st) = eq_service r"
  by (simp_all add: new_event_def)

lemma create_event_Inr:
  assumes "create_event x org user r s = (Inr e, u)"
  obtains s1 :: "tables db" where "tabs s1 = (tabs s)\<lparr>events := events (tabs s) @ [e]\<rparr>" "business (tabs u) = business (tabs s1)"
    "e = new_event (fresh_uuid x (minted s)) org user r (if eq_status r = [] then s_scheduled else eq_status r)"
    "validate_event r False = Inr ()" "\<forall>f\<in>set (events (tabs s)). ev_id f \<noteq> ev_id e"
    "time_off_hits org (eq_resource r) (eq_starts r) (eq_ends r) nil_uuid (tabs s) = []"
    "event_hits org (eq_resource r) (\<lambda>st. st = s_scheduled) (eq_starts r) (eq_ends r) nil_uuid (tabs s) = []"
proof -
  let ?st = "if eq_status r = [] then s_scheduled else eq_status r"
  from assms obtain v i s0 where val: "validate_event r False = Inr v" and i: "mint (fresh_uuid x) s = (Inr i, s0)"
    and tr: "transaction (and_then (check_slot x org r ?st nil_uuid) (\<lambda>_.
        and_then (execute (insert_event (new_event i org user r ?st))) (\<lambda>_.
        and_then (audit_change org user ''booking_event'' i ''created'' None
          (Some (event_json x (new_event i org user r ?st)))) (\<lambda>_.
        ret (new_event i org user r ?st))))) s0 = (Inr e, u)"
    unfolding create_event_def Let_def by (auto simp: ok_simps)
  from tr obtain t0 u0 where body: "and_then (check_slot x org r ?st nil_uuid) (\<lambda>_.
        and_then (execute (insert_event (new_event i org user r ?st))) (\<lambda>_.
        and_then (audit_change org user ''booking_event'' i ''created'' None
          (Some (event_json x (new_event i org user r ?st)))) (\<lambda>_.
        ret (new_event i org user r ?st)))) t0 = (Inr e, u0)"
    and t0: "tabs t0 = tabs s0" "tabs u = tabs u0" by (rule transaction_Inr)
  from body obtain a t1 b t2 c where ck: "check_slot x org r ?st nil_uuid t0 = (Inr a, t1)"
    and ins: "execute (insert_event (new_event i org user r ?st)) t1 = (Inr b, t2)"
    and au: "audit_change org user ''booking_event'' i ''created'' None
          (Some (event_json x (new_event i org user r ?st))) t2 = (Inr c, u0)"
    and e: "e = new_event i org user r ?st"
    by (auto simp: ok_simps)
  show ?thesis
    by (rule that [of t2])
      (use check_slot_Inr [OF ck] insert_event_Inr [OF ins] side_Inr [OF audit_change_side au] e t0 val mint_Inr [OF i] in simp_all)
qed

lemma create_event_safe:
  assumes "create_event x org user r s = (Inr e, u)" and ok: "safe (tabs s)"
  shows "safe (tabs u)"
  using assms(1)
proof (rule create_event_Inr)
  fix s1 :: "tables db"
  assume s1: "tabs s1 = (tabs s)\<lparr>events := events (tabs s) @ [e]\<rparr>" "business (tabs u) = business (tabs s1)"
    and e: "e = new_event (fresh_uuid x (minted s)) org user r (if eq_status r = [] then s_scheduled else eq_status r)"
    and val: "validate_event r False = Inr ()" and new: "\<forall>f\<in>set (events (tabs s)). ev_id f \<noteq> ev_id e"
    and free: "time_off_hits org (eq_resource r) (eq_starts r) (eq_ends r) nil_uuid (tabs s) = []"
      "event_hits org (eq_resource r) (\<lambda>st. st = s_scheduled) (eq_starts r) (eq_ends r) nil_uuid (tabs s) = []"
  have "booking_ok (tabs s1)"
    unfolding s1(1) by (rule booking_ok_new_event) (use ok new validate_event_Inr [OF val] e in \<open>simp_all add: safe_def\<close>)
  moreover have "schedule_ok (tabs s1)"
    unfolding s1(1) by (rule schedule_ok_new_event) (use ok free e in \<open>simp_all add: safe_def\<close>)
  moreover have "credits_ok (tabs s1)"
    using ok credits_ok_cong [of "tabs s" "tabs s1"] s1(1) by (simp add: safe_def)
  ultimately have "safe (tabs s1)" by (simp add: safe_def)
  then show ?thesis using settles_safe [OF settles_side [OF s1(2)]] by simp
qed

section \<open>Replacing an event\<close>

lemma edit_event_simps [simp]:
  "ev_id (edit_event (r, user) e) = ev_id e" "ev_org (edit_event (r, user) e) = ev_org e"
  "ev_resource (edit_event (r, user) e) = eq_resource r" "ev_starts (edit_event (r, user) e) = eq_starts r"
  "ev_ends (edit_event (r, user) e) = eq_ends r" "ev_capacity (edit_event (r, user) e) = eq_capacity r"
  "ev_status (edit_event (r, user) e) = eq_status r" "ev_version (edit_event (r, user) e) = ev_version e + 1"
  "ev_deleted (edit_event (r, user) e) = ev_deleted e" "ev_service (edit_event (r, user) e) = eq_service r"
  by (simp_all add: edit_event_def)

definition hit_event :: "uuid \<Rightarrow> uuid \<Rightarrow> int \<Rightarrow> event_row \<Rightarrow> bool" where
  "hit_event org i v e \<longleftrightarrow> ev_id e = i \<and> ev_org e = org \<and> ev_version e = v \<and> \<not> ev_deleted e"

lemma check_bookings_Inr:
  assumes "check_bookings org i r s = (Inr v, u)"
  shows "tabs u = tabs s \<and> occupied_excluding org i nil_uuid (tabs s) \<le> eq_capacity r
    \<and> (eq_status r \<noteq> s_scheduled \<longrightarrow> active_quantity org i (tabs s) \<le> 0)"
proof -
  from assms obtain n t m where q: "query (occupied_excluding org i nil_uuid) s = (Inr n, t)"
    and r: "query (active_quantity org i) t = (Inr m, u)" and le: "\<not> eq_capacity r < n"
    "\<not> (eq_status r \<noteq> s_scheduled \<and> 0 < m)"
    unfolding check_bookings_def by (auto simp: ok_simps)
  from query_Inr [OF q] query_Inr [OF r] le show ?thesis by auto
qed

lemma update_event_Inr:
  assumes "update_event x org user i r s = (Inr e, u)"
  obtains old and s1 :: "tables db" where
    "event_by_id org i (tabs s) = Some old" "ev_version old = eq_version r" "validate_event r True = Inr ()"
    "time_off_hits org (eq_resource r) (eq_starts r) (eq_ends r) nil_uuid (tabs s) = []"
    "event_hits org (eq_resource r) (\<lambda>st. st = s_scheduled) (eq_starts r) (eq_ends r) i (tabs s) = []"
    "occupied_excluding org i nil_uuid (tabs s) \<le> eq_capacity r"
    "eq_status r \<noteq> s_scheduled \<longrightarrow> active_quantity org i (tabs s) \<le> 0"
    "tabs s1 = (tabs s)\<lparr>events := update_where (hit_event org i (eq_version r)) (edit_event (r, user)) (events (tabs s))\<rparr>"
    "business (tabs u) = business (tabs s1)" "event_by_id org i (tabs s1) = Some e"
proof -
  from assms obtain v where val: "validate_event r True = Inr v" and tr: "transaction
       (and_then (or_fail (first (event_by_id org i)) (ClientError not_found m_event_missing)) (\<lambda>old.
        and_then (reject (ev_version old \<noteq> eq_version r) (client_conflict m_event_modified)) (\<lambda>_.
        and_then (check_slot x org r (eq_status r) i) (\<lambda>_.
        and_then (check_bookings org i r) (\<lambda>_.
        and_then (execute (replace_event org i (eq_version r) (r, user))) (\<lambda>n.
        and_then (reject (n \<noteq> 1) (client_conflict m_event_modified)) (\<lambda>_.
        and_then (first (event_by_id org i)) (\<lambda>updated.
        and_then (audit_change org user ''booking_event'' i ''updated''
          (Some (event_json x old)) (Some (event_json x updated))) (\<lambda>_.
        ret updated))))))))) s = (Inr e, u)"
    unfolding update_event_def by (auto simp: ok_simps)
  from tr obtain t0 u0 where body: "and_then (or_fail (first (event_by_id org i)) (ClientError not_found m_event_missing)) (\<lambda>old.
        and_then (reject (ev_version old \<noteq> eq_version r) (client_conflict m_event_modified)) (\<lambda>_.
        and_then (check_slot x org r (eq_status r) i) (\<lambda>_.
        and_then (check_bookings org i r) (\<lambda>_.
        and_then (execute (replace_event org i (eq_version r) (r, user))) (\<lambda>n.
        and_then (reject (n \<noteq> 1) (client_conflict m_event_modified)) (\<lambda>_.
        and_then (first (event_by_id org i)) (\<lambda>updated.
        and_then (audit_change org user ''booking_event'' i ''updated''
          (Some (event_json x old)) (Some (event_json x updated))) (\<lambda>_.
        ret updated)))))))) t0 = (Inr e, u0)"
    and t0: "tabs t0 = tabs s" "tabs u = tabs u0" by (rule transaction_Inr)
  from body obtain old t1 a t2 b t3 n t4 c t5 where
    f: "first (event_by_id org i) t0 = (Inr old, t1)" and ver: "ev_version old = eq_version r" and
    ck: "check_slot x org r (eq_status r) i t1 = (Inr a, t2)" and cb: "check_bookings org i r t2 = (Inr b, t3)" and
    wr: "execute (replace_event org i (eq_version r) (r, user)) t3 = (Inr n, t4)" and
    rd: "first (event_by_id org i) t4 = (Inr e, t5)" and
    au: "audit_change org user ''booking_event'' i ''updated'' (Some (event_json x old)) (Some (event_json x e)) t5 = (Inr c, u0)"
    by (auto simp: ok_simps)
  note F = first_Inr [OF f] and K = check_slot_Inr [OF ck] and B = check_bookings_Inr [OF cb]
    and R = first_Inr [OF rd] and S = side_Inr [OF audit_change_side au]
  have w: "tabs t4 = (tabs t3)\<lparr>events := update_where (hit_event org i (eq_version r)) (edit_event (r, user)) (events (tabs t3))\<rparr>"
    using execute_Inr [OF wr] by (simp add: replace_event_def Let_def hit_event_def [abs_def])
  show ?thesis
    by (rule that [of old t5]) (use F K B R S w t0 ver val in simp_all)
qed

lemma occupied_excluding_none: "occupied_excluding org i nil_uuid t = occupied_quantity org i t"
proof -
  have same: "bk_status c \<in> set booking_capacity_statuses \<longleftrightarrow> occupies_capacity (bk_status c)" for c
    by (auto simp: booking_capacity_statuses_def occupies_capacity_def capacity_statuses_def)
  show ?thesis
    unfolding occupied_excluding_def occupied_quantity_def seats_def [abs_def] same by simp
qed

lemma update_events_mem:
  assumes "f \<in> set (update_where p g es)"
  obtains e where "e \<in> set es" "f = (if p e then g e else e)"
  using assms by (auto simp: in_update_where)

lemma event_of_update:
  assumes "\<And>e. ev_id (g e) = ev_id e \<and> ev_org (g e) = ev_org e"
  shows "event_of (t\<lparr>events := update_where p g (events t)\<rparr>) b = event_of t b"
proof -
  have "ev_id (if p e then g e else e) = ev_id e" "ev_org (if p e then g e else e) = ev_org e" for e
    by (simp_all add: assms)
  moreover have "events (t\<lparr>events := es\<rparr>) = es" for es by simp
  ultimately show ?thesis unfolding event_of_def update_where_def by (simp only: set_map bex_simps(7))
qed

lemma booking_ok_update_event:
  assumes ok: "booking_ok t" and g: "\<And>e. ev_id (g e) = ev_id e \<and> ev_org (g e) = ev_org e"
    and cap: "\<And>e. e \<in> set (events t) \<Longrightarrow> p e \<Longrightarrow> 1 \<le> ev_capacity (g e) \<and> ev_capacity (g e) \<le> 10000
      \<and> occupied_quantity (ev_org e) (ev_id e) t \<le> ev_capacity (g e)"
  shows "booking_ok (t\<lparr>events := update_where p g (events t)\<rparr>)"
proof -
  let ?u = "t\<lparr>events := update_where p g (events t)\<rparr>"
  have "fits ?u f" if f: "f \<in> set (update_where p g (events t))" for f
    using f by (rule update_events_mem) (use booking_okD(5) [OF ok] cap g in \<open>auto simp: fits_def occupied_quantity_def\<close>)
  moreover have "map ev_id (update_where p g (events t)) = map ev_id (events t)"
    by (rule map_update_where_same) (simp add: g)
  ultimately show ?thesis
    using ok event_of_update [OF g, where t = t and p = p] unfolding booking_ok_def by (simp add: fits_def)
qed

lemma schedule_ok_update_event:
  assumes ok: "schedule_ok t" and ids: "distinct (map ev_id (events t))"
    and off: "time_off_hits org (eq_resource r) (eq_starts r) (eq_ends r) nil_uuid t = []"
    and free: "event_hits org (eq_resource r) (\<lambda>st. st = s_scheduled) (eq_starts r) (eq_ends r) i t = []"
  shows "schedule_ok (t\<lparr>events := update_where (hit_event org i v) (edit_event (r, user)) (events t)\<rparr>)"
proof -
  have "ev_slots.disjoint (update_where (hit_event org i v) (edit_event (r, user)) (events t))"
  proof (rule ev_slots.disjoint_update)
    show "ev_slots.disjoint (events t)" using ok by (simp add: schedule_ok_def)
    fix e q
    assume e: "e \<in> set (events t)" "hit_event org i v e" and q: "q \<in> set (events t)"
    { assume "ev_id q \<noteq> ev_id e"
      with no_event_hit [OF free q] e show "\<not> ev_slots.clash q (edit_event (r, user) e)"
        by (auto simp: ev_slots.clash_def hit_event_def) }
    assume "hit_event org i v q"
    with e show "ev_id e = ev_id q" by (simp add: hit_event_def)
  qed
  moreover have "apart f d" if f: "f \<in> set (update_where (hit_event org i v) (edit_event (r, user)) (events t))"
    and d: "d \<in> set (time_offs t)" for f d
    using f
  proof (rule update_events_mem)
    fix e
    assume e: "e \<in> set (events t)" "f = (if hit_event org i v e then edit_event (r, user) e else e)"
    show "apart f d"
    proof (cases "hit_event org i v e")
      case True
      with e no_time_off_hit [OF off d] show ?thesis by (auto simp: apart_def overlap_sym hit_event_def)
    next
      case False
      with e ok d show ?thesis by (simp add: schedule_ok_def)
    qed
  qed
  ultimately show ?thesis using ok by (simp add: schedule_ok_def)
qed

lemma update_event_safe:
  assumes "update_event x org user i r s = (Inr e, u)" and ok: "safe (tabs s)"
  shows "safe (tabs u)"
  using assms(1)
proof (rule update_event_Inr)
  fix s1 :: "tables db"
  let ?g = "edit_event (r, user)"
  assume val: "validate_event r True = Inr ()"
    and off: "time_off_hits org (eq_resource r) (eq_starts r) (eq_ends r) nil_uuid (tabs s) = []"
    and free: "event_hits org (eq_resource r) (\<lambda>st. st = s_scheduled) (eq_starts r) (eq_ends r) i (tabs s) = []"
    and cap: "occupied_excluding org i nil_uuid (tabs s) \<le> eq_capacity r"
    and s1: "tabs s1 = (tabs s)\<lparr>events := update_where (hit_event org i (eq_version r)) ?g (events (tabs s))\<rparr>"
    and u: "business (tabs u) = business (tabs s1)"
  have ok1: "booking_ok (tabs s)" "schedule_ok (tabs s)" "credits_ok (tabs s)" using ok by (simp_all add: safe_def)
  have "booking_ok (tabs s1)"
    unfolding s1 by (rule booking_ok_update_event [OF ok1(1)])
      (use cap validate_event_Inr [OF val] in \<open>auto simp: hit_event_def occupied_excluding_none\<close>)
  moreover have "schedule_ok (tabs s1)"
    unfolding s1 by (rule schedule_ok_update_event [OF ok1(2) booking_okD(1) [OF ok1(1)] off free])
  moreover have "credits_ok (tabs s1)"
    using ok1(3) credits_ok_cong [of "tabs s" "tabs s1"] s1 by simp
  ultimately have "safe (tabs s1)" by (simp add: safe_def)
  then show ?thesis using settles_safe [OF settles_side [OF u]] by simp
qed

section \<open>Time off\<close>

lemma time_off_edit_simps [simp]:
  "to_id (edit_time_off (r, user) q) = to_id q" "to_org (edit_time_off (r, user) q) = to_org q"
  "to_resource (edit_time_off (r, user) q) = to_resource q" "to_starts (edit_time_off (r, user) q) = tf_starts r"
  "to_ends (edit_time_off (r, user) q) = tf_ends r" "to_deleted (edit_time_off (r, user) q) = to_deleted q"
  "to_version (edit_time_off (r, user) q) = to_version q + 1"
  by (simp_all add: edit_time_off_def)

lemma schedule_ok_time_off:
  assumes "distinct (map to_id rs)" and "off_slots.disjoint rs" and "ev_slots.disjoint (events t)"
    and "\<And>e r. e \<in> set (events t) \<Longrightarrow> r \<in> set rs \<Longrightarrow> apart e r"
  shows "schedule_ok (t\<lparr>time_offs := rs\<rparr>)"
  using assms by (simp add: schedule_ok_def)

lemma schedule_ok_new_time_off:
  assumes ok: "schedule_ok t" and new: "\<forall>q\<in>set (time_offs t). to_id q \<noteq> to_id r"
    and off: "time_off_hits (to_org r) (to_resource r) (to_starts r) (to_ends r) nil_uuid t = []"
    and free: "event_hits (to_org r) (to_resource r) (\<lambda>st. st \<noteq> s_cancelled) (to_starts r) (to_ends r) nil_uuid t = []"
  shows "schedule_ok (t\<lparr>time_offs := time_offs t @ [r]\<rparr>)"
proof (rule schedule_ok_time_off)
  show "off_slots.disjoint (time_offs t @ [r])"
    by (rule off_slots.disjoint_append)
      (use ok no_time_off_hit [OF off] in \<open>auto simp: schedule_ok_def off_slots.clash_def\<close>)
  show "apart e q" if "e \<in> set (events t)" "q \<in> set (time_offs t @ [r])" for e q
    using that ok no_event_hit_nil [OF free, of e] by (auto simp: schedule_ok_def apart_def)
qed (use ok new in \<open>auto simp: schedule_ok_def\<close>)

definition hit_time_off :: "uuid \<Rightarrow> uuid \<Rightarrow> uuid \<Rightarrow> int \<Rightarrow> time_off_row \<Rightarrow> bool" where
  "hit_time_off org resource i v r \<longleftrightarrow>
     to_id r = i \<and> to_org r = org \<and> to_resource r = resource \<and> to_version r = v \<and> \<not> to_deleted r"

lemma schedule_ok_update_time_off:
  assumes ok: "schedule_ok t"
    and off: "time_off_hits org resource (tf_starts req) (tf_ends req) i t = []"
    and free: "event_hits org resource (\<lambda>st. st \<noteq> s_cancelled) (tf_starts req) (tf_ends req) nil_uuid t = []"
  shows "schedule_ok (t\<lparr>time_offs := update_where (hit_time_off org resource i v) (edit_time_off (req, user)) (time_offs t)\<rparr>)"
proof (rule schedule_ok_time_off)
  let ?h = "hit_time_off org resource i v" and ?g = "edit_time_off (req, user)"
  have "map to_id (update_where ?h ?g (time_offs t)) = map to_id (time_offs t)"
    by (rule map_update_where_same) simp
  then show "distinct (map to_id (update_where ?h ?g (time_offs t)))" using ok by (simp add: schedule_ok_def)
  show "off_slots.disjoint (update_where ?h ?g (time_offs t))"
  proof (rule off_slots.disjoint_update)
    show "off_slots.disjoint (time_offs t)" using ok by (simp add: schedule_ok_def)
    fix r q
    assume r: "r \<in> set (time_offs t)" "?h r" and q: "q \<in> set (time_offs t)"
    { assume "to_id q \<noteq> to_id r"
      with no_time_off_hit [OF off q] r show "\<not> off_slots.clash q (?g r)"
        by (auto simp: off_slots.clash_def hit_time_off_def) }
    assume "?h q"
    with r show "to_id r = to_id q" by (simp add: hit_time_off_def)
  qed
  show "apart e f" if e: "e \<in> set (events t)" and f: "f \<in> set (update_where ?h ?g (time_offs t))" for e f
  proof -
    from f obtain q where q: "q \<in> set (time_offs t)" "f = (if ?h q then ?g q else q)" by (auto simp: in_update_where)
    show ?thesis
    proof (cases "?h q")
      case True
      with q no_event_hit_nil [OF free e] show ?thesis by (auto simp: apart_def hit_time_off_def)
    next
      case False
      with q e ok show ?thesis by (simp add: schedule_ok_def)
    qed
  qed
qed (use ok in \<open>simp add: schedule_ok_def\<close>)

lemma schedule_ok_delete_time_off:
  assumes ok: "schedule_ok t"
  shows "schedule_ok (t\<lparr>time_offs := update_where p (\<lambda>r. r\<lparr>to_deleted := True\<rparr>) (time_offs t)\<rparr>)"
proof (rule schedule_ok_time_off)
  have "map to_id (update_where p (\<lambda>r. r\<lparr>to_deleted := True\<rparr>) (time_offs t)) = map to_id (time_offs t)"
    by (rule map_update_where_same) simp
  then show "distinct (map to_id (update_where p (\<lambda>r. r\<lparr>to_deleted := True\<rparr>) (time_offs t)))"
    using ok by (simp add: schedule_ok_def)
  show "off_slots.disjoint (update_where p (\<lambda>r. r\<lparr>to_deleted := True\<rparr>) (time_offs t))"
    by (rule off_slots.disjoint_retouch) (use ok in \<open>auto simp: schedule_ok_def\<close>)
  show "apart e f" if "e \<in> set (events t)" "f \<in> set (update_where p (\<lambda>r. r\<lparr>to_deleted := True\<rparr>) (time_offs t))" for e f
  proof -
    from that obtain q where q: "q \<in> set (time_offs t)" "f = (if p q then q\<lparr>to_deleted := True\<rparr> else q)"
      by (auto simp: in_update_where)
    have "apart e q" using ok that(1) q(1) by (simp add: schedule_ok_def)
    with q(2) show ?thesis by (cases "p q") (simp_all add: apart_def)
  qed
qed (use ok in \<open>simp add: schedule_ok_def\<close>)

text \<open>The rows the invariant speaks of.\<close>

definition guarded ::
  "tables \<Rightarrow> event_row list \<times> booking_row list \<times> time_off_row list \<times> balance_row list \<times> ledger_row list" where
  "guarded t = (events t, bookings t, time_offs t, balances t, ledger t)"

lemma safe_cong: "guarded t = guarded u \<Longrightarrow> safe t = safe u"
  using booking_ok_cong [of t u] schedule_ok_cong [of t u] credits_ok_cong [of t u]
  by (simp add: safe_def guarded_def)

lemma business_guarded: "business t = business u \<Longrightarrow> guarded t = guarded u"
  using schedule_eqD [OF business_schedule, of t u] business_credits [of t u] by (simp add: guarded_def)

lemma time_offs_safe:
  assumes "safe t" and "schedule_ok (t\<lparr>time_offs := rs\<rparr>)"
  shows "safe (t\<lparr>time_offs := rs\<rparr>)"
  using assms booking_ok_cong [of t "t\<lparr>time_offs := rs\<rparr>"] credits_ok_cong [of t "t\<lparr>time_offs := rs\<rparr>"]
  by (simp add: safe_def)

lemma reads_ensure_resource_tenant: "reads (ensure_resource_tenant org i)"
  unfolding ensure_resource_tenant_def by (intro reads_intros)

lemma create_time_off_safe:
  assumes "create_time_off x org user resource req s = (Inr r, u)" and ok: "safe (tabs s)"
  shows "safe (tabs u)"
proof -
  let ?row = "\<lambda>i. \<lparr>to_id = i, to_org = org, to_resource = resource, to_starts = tf_starts req, to_ends = tf_ends req,
       to_reason = trim_space (tf_reason req), to_version = 1, to_created_by = Some user,
       to_updated_by = Some user, to_deleted = False\<rparr>"
  from assms(1) obtain i s0 where i: "mint (fresh_uuid x) s = (Inr i, s0)" and tr: "transaction
       (and_then (ensure_resource_tenant org resource) (\<lambda>_.
        and_then (ensure_time_off_free org resource (tf_starts req) (tf_ends req) nil_uuid) (\<lambda>_.
        and_then (execute (insert_time_off (?row i))) (\<lambda>_.
        and_then (audit_change org user ''resource_time_off'' i ''created'' None (Some (time_off_json x (?row i)))) (\<lambda>_.
        ret (?row i)))))) s0 = (Inr r, u)"
    unfolding create_time_off_def Let_def by (auto simp: ok_simps)
  from tr obtain t0 u0 where body: "and_then (ensure_resource_tenant org resource) (\<lambda>_.
        and_then (ensure_time_off_free org resource (tf_starts req) (tf_ends req) nil_uuid) (\<lambda>_.
        and_then (execute (insert_time_off (?row i))) (\<lambda>_.
        and_then (audit_change org user ''resource_time_off'' i ''created'' None (Some (time_off_json x (?row i)))) (\<lambda>_.
        ret (?row i))))) t0 = (Inr r, u0)"
    and t0: "tabs t0 = tabs s0" "tabs u = tabs u0" by (rule transaction_Inr)
  from body obtain a t1 b t2 c t3 d where
    te: "ensure_resource_tenant org resource t0 = (Inr a, t1)" and
    fr: "ensure_time_off_free org resource (tf_starts req) (tf_ends req) nil_uuid t1 = (Inr b, t2)" and
    ins: "execute (insert_time_off (?row i)) t2 = (Inr c, t3)" and
    au: "audit_change org user ''resource_time_off'' i ''created'' None (Some (time_off_json x (?row i))) t3 = (Inr d, u0)"
    by (auto simp: ok_simps)
  note T = reads_Inr [OF reads_ensure_resource_tenant te] and F = ensure_time_off_free_Inr [OF fr]
    and S = side_Inr [OF audit_change_side au]
  have t2: "tabs t2 = tabs s" using T F t0 mint_Inr [OF i] by simp
  have t3: "\<forall>q\<in>set (time_offs (tabs s)). to_id q \<noteq> i"
    "tabs t3 = (tabs s)\<lparr>time_offs := time_offs (tabs s) @ [?row i]\<rparr>"
    using execute_Inr [OF ins] t2 by (auto simp: insert_time_off_def split: if_splits)
  have "safe (tabs t3)"
    unfolding t3(2) by (rule time_offs_safe [OF ok schedule_ok_new_time_off])
      (use ok F T t2 t3(1) in \<open>simp_all add: safe_def\<close>)
  then show ?thesis using settles_safe [OF settles_side [OF S]] t0 by simp
qed

lemma update_time_off_safe:
  assumes "update_time_off x org user resource i req s = (Inr r, u)" and ok: "safe (tabs s)"
  shows "safe (tabs u)"
proof -
  let ?body = "and_then (ensure_resource_tenant org resource) (\<lambda>_.
        and_then (or_not_found (first (time_off_by_id org resource i)) (ClientError not_found m_time_off_missing)) (\<lambda>old.
        and_then (reject (to_version old \<noteq> tf_version req) (client_conflict m_time_off_modified)) (\<lambda>_.
        and_then (ensure_time_off_free org resource (tf_starts req) (tf_ends req) i) (\<lambda>_.
        and_then (execute (replace_time_off org resource i (tf_version req) (req, user))) (\<lambda>n.
        and_then (reject (n \<noteq> 1) (client_conflict m_time_off_modified)) (\<lambda>_.
        and_then (first (time_off_by_id org resource i)) (\<lambda>updated.
        and_then (audit_change org user ''resource_time_off'' i ''updated''
          (Some (time_off_json x old)) (Some (time_off_json x updated))) (\<lambda>_.
        ret updated))))))))"
  from assms(1) have "transaction ?body s = (Inr r, u)"
    unfolding update_time_off_def by (auto simp: ok_simps)
  then obtain t0 u0 where body: "?body t0 = (Inr r, u0)"
    and t0: "tabs t0 = tabs s" "tabs u = tabs u0" by (rule transaction_Inr)
  from body obtain a t1 old t2 b t3 n t4 t5 c where
    te: "ensure_resource_tenant org resource t0 = (Inr a, t1)" and
    f: "first (time_off_by_id org resource i) t1 = (Inr old, t2)" and
    fr: "ensure_time_off_free org resource (tf_starts req) (tf_ends req) i t2 = (Inr b, t3)" and
    wr: "execute (replace_time_off org resource i (tf_version req) (req, user)) t3 = (Inr n, t4)" and
    rd: "first (time_off_by_id org resource i) t4 = (Inr r, t5)" and
    au: "audit_change org user ''resource_time_off'' i ''updated''
          (Some (time_off_json x old)) (Some (time_off_json x r)) t5 = (Inr c, u0)"
    by (auto simp: ok_simps)
  note T = reads_Inr [OF reads_ensure_resource_tenant te] and F = ensure_time_off_free_Inr [OF fr]
    and S = side_Inr [OF audit_change_side au]
  have t3: "tabs t3 = tabs s" "tabs t2 = tabs s" using T F t0 first_Inr [OF f] by simp_all
  have t4: "tabs t4 = (tabs s)\<lparr>time_offs := update_where (hit_time_off org resource i (tf_version req))
      (edit_time_off (req, user)) (time_offs (tabs s))\<rparr>"
    using execute_Inr [OF wr] t3 by (simp add: replace_time_off_def Let_def hit_time_off_def [abs_def])
  have "safe (tabs t4)"
    unfolding t4 by (rule time_offs_safe [OF ok schedule_ok_update_time_off])
      (use ok F t3 in \<open>simp_all add: safe_def\<close>)
  then show ?thesis using settles_safe [OF settles_side [OF S]] t0 first_Inr [OF rd] by simp
qed

lemma delete_time_off_safe:
  assumes "delete_time_off x org user resource i version s = (Inr r, u)" and ok: "safe (tabs s)"
  shows "safe (tabs u)"
proof -
  let ?body = "and_then (ensure_resource_tenant org resource) (\<lambda>_.
        and_then (or_not_found (first (time_off_by_id org resource i)) (ClientError not_found m_time_off_missing)) (\<lambda>old.
        and_then (reject (to_version old \<noteq> version) (client_conflict m_time_off_modified)) (\<lambda>_.
        and_then (execute (delete_time_off_row (to_id old))) (\<lambda>_.
        audit_change org user ''resource_time_off'' i ''deleted'' (Some (time_off_json x old)) None))))"
  from assms(1) have "transaction ?body s = (Inr r, u)"
    unfolding delete_time_off_def by (auto simp: ok_simps)
  then obtain t0 u0 where body: "?body t0 = (Inr r, u0)"
    and t0: "tabs t0 = tabs s" "tabs u = tabs u0" by (rule transaction_Inr)
  from body obtain a t1 old t2 b t3 where
    te: "ensure_resource_tenant org resource t0 = (Inr a, t1)" and
    f: "first (time_off_by_id org resource i) t1 = (Inr old, t2)" and
    wr: "execute (delete_time_off_row (to_id old)) t2 = (Inr b, t3)" and
    au: "audit_change org user ''resource_time_off'' i ''deleted'' (Some (time_off_json x old)) None t3 = (Inr r, u0)"
    by (auto simp: ok_simps)
  have t3: "tabs t3 = (tabs s)\<lparr>time_offs := update_where (\<lambda>r. to_id r = to_id old \<and> \<not> to_deleted r)
      (\<lambda>r. r\<lparr>to_deleted := True\<rparr>) (time_offs (tabs s))\<rparr>"
    using execute_Inr [OF wr] reads_Inr [OF reads_ensure_resource_tenant te] first_Inr [OF f] t0
    by (simp add: delete_time_off_row_def)
  have "safe (tabs t3)"
    unfolding t3 by (rule time_offs_safe [OF ok schedule_ok_delete_time_off]) (use ok in \<open>simp add: safe_def\<close>)
  then show ?thesis using settles_safe [OF settles_side [OF side_Inr [OF audit_change_side au]]] t0 by simp
qed

end
