(* ===== verification/Atomicity.thy ===== *)
theory Atomicity
  imports Store
begin

text \<open>
  Requests as a whole: \<open>atomic m\<close> says that a run of \<open>m\<close> that ends with an error left the tables
  as it found them, \<open>keeps P m\<close> that every run of \<open>m\<close>, successful or not, preserves \<open>P\<close>. The handlers
  are read-only steps around one transaction, so both follow from the structure of their code.
\<close>

definition atomic :: "('t, 'a) tx \<Rightarrow> bool" where
  "atomic m \<longleftrightarrow> (\<forall>s e u. m s = (Inl e, u) \<longrightarrow> tabs u = tabs s)"

named_theorems atomic_intros

lemma atomicD: "atomic m \<Longrightarrow> m s = (Inl e, u) \<Longrightarrow> tabs u = tabs s"
  by (simp add: atomic_def)

lemma atomic_reads [atomic_intros]: "reads m \<Longrightarrow> atomic m"
  unfolding atomic_def reads_def by (metis snd_conv)

lemma atomic_transaction [atomic_intros]: "atomic (transaction m)"
  unfolding atomic_def by (blast intro: transaction_Inl)

lemma atomic_execute [atomic_intros]: "atomic (execute f)"
  unfolding atomic_def execute_def and_then_def poll_def
  by (auto split: list.splits option.splits sum.splits prod.splits)

lemma atomic_or_fail [atomic_intros]: "atomic m \<Longrightarrow> atomic (or_fail m e)"
  unfolding atomic_def or_fail_def by (auto split: prod.splits sum.splits)

lemma and_then_Inl:
  "and_then m f s = (Inl e, u) \<longleftrightarrow> m s = (Inl e, u) \<or> (\<exists>a t. m s = (Inr a, t) \<and> f a t = (Inl e, u))"
  by (auto simp: and_then_def split: prod.splits sum.splits)

text \<open>Reading first, then acting.\<close>

lemma atomic_and_then [atomic_intros]:
  assumes "reads m" and "\<And>a. atomic (f a)"
  shows "atomic (and_then m f)"
  unfolding atomic_def
proof (intro allI impI)
  fix s e u
  assume "and_then m f s = (Inl e, u)"
  then consider "m s = (Inl e, u)" | a t where "m s = (Inr a, t)" "f a t = (Inl e, u)"
    by (auto simp: and_then_Inl)
  then show "tabs u = tabs s"
  proof cases
    case 1
    with assms(1) show ?thesis unfolding reads_def by (metis snd_conv)
  next
    case 2
    with reads_Inr [OF assms(1) 2(1)] atomicD [OF assms(2) 2(2)] show ?thesis by simp
  qed
qed

text \<open>Acting, then a step that cannot fail.\<close>

lemma atomic_then_ret [atomic_intros]: "atomic m \<Longrightarrow> atomic (and_then m (\<lambda>a. ret (f a)))"
  unfolding atomic_def by (auto simp: and_then_Inl ret_def)

lemma atomic_if [atomic_intros]: "atomic m \<Longrightarrow> atomic n \<Longrightarrow> atomic (if c then m else n)"
  by simp

lemma atomic_Let [atomic_intros]: "(\<And>v. atomic (f v)) \<Longrightarrow> atomic (Let v f)"
  by (simp add: Let_def)

definition keeps :: "('t \<Rightarrow> bool) \<Rightarrow> ('t, 'a) tx \<Rightarrow> bool" where
  "keeps P m \<longleftrightarrow> (\<forall>s. P (tabs s) \<longrightarrow> P (tabs (snd (m s))))"

lemma keepsD: "keeps P m \<Longrightarrow> m s = (r, u) \<Longrightarrow> P (tabs s) \<Longrightarrow> P (tabs u)"
  unfolding keeps_def by (metis snd_conv)

lemma keeps_atomic:
  assumes "atomic m" and "\<And>s a u. m s = (Inr a, u) \<Longrightarrow> P (tabs s) \<Longrightarrow> P (tabs u)"
  shows "keeps P m"
  unfolding keeps_def
proof (intro allI impI)
  fix s :: "'a db"
  assume p: "P (tabs s)"
  obtain r u where run: "m s = (r, u)" by (cases "m s")
  show "P (tabs (snd (m s)))"
  proof (cases r)
    case (Inl e)
    with run atomicD [OF assms(1)] p show ?thesis by simp
  next
    case (Inr a)
    with run assms(2) p show ?thesis by simp
  qed
qed

lemma keeps_reads: "reads m \<Longrightarrow> keeps P m"
  by (simp add: reads_def keeps_def)

lemma keeps_and_then:
  assumes "keeps P m" and "\<And>a s t. m s = (Inr a, t) \<Longrightarrow> keeps P (f a)"
  shows "keeps P (and_then m f)"
  unfolding keeps_def and_then_def
  using assms by (auto simp: keeps_def split: prod.split sum.split)

lemma keeps_transaction:
  assumes "\<And>s a u. m s = (Inr a, u) \<Longrightarrow> P (tabs s) \<Longrightarrow> P (tabs u)"
  shows "keeps P (transaction m)"
  unfolding keeps_def using transaction_invariant assms by metis

text \<open>\<open>spares g m\<close>: no run of \<open>m\<close>, successful or not, changes \<open>g\<close> of the tables.\<close>

definition spares :: "('t \<Rightarrow> 'g) \<Rightarrow> ('t, 'a) tx \<Rightarrow> bool" where
  "spares g m \<longleftrightarrow> (\<forall>s. g (tabs (snd (m s))) = g (tabs s))"

named_theorems spares_intros

lemma sparesD: "spares g m \<Longrightarrow> m s = (r, u) \<Longrightarrow> g (tabs u) = g (tabs s)"
  unfolding spares_def by (metis snd_conv)

lemma spares_reads [spares_intros]: "reads m \<Longrightarrow> spares g m"
  by (simp add: reads_def spares_def)

lemma spares_and_then [spares_intros]:
  "spares g m \<Longrightarrow> (\<And>a. spares g (f a)) \<Longrightarrow> spares g (and_then m f)"
  unfolding spares_def and_then_def by (auto split: prod.split sum.split) (metis snd_conv)+

lemma spares_execute:
  assumes "\<And>t a t'. f t = Inr (a, t') \<Longrightarrow> g t' = g t"
  shows "spares g (execute f)"
  unfolding spares_def execute_def and_then_def poll_def
  using assms by (auto split: list.split option.split sum.split prod.split)

lemma spares_if [spares_intros]: "spares g m \<Longrightarrow> spares g n \<Longrightarrow> spares g (if c then m else n)"
  by simp

lemma spares_transaction [spares_intros]:
  assumes "spares g m"
  shows "spares g (transaction m)"
  unfolding spares_def
proof
  fix s :: "'a db"
  show "g (tabs (snd (transaction m s))) = g (tabs s)"
    by (rule transaction_invariant [where I = "\<lambda>t. g t = g (tabs s)"]) (use sparesD [OF assms] in auto)
qed

lemma keeps_spares: "spares g m \<Longrightarrow> (\<And>t u. g t = g u \<Longrightarrow> P t = P u) \<Longrightarrow> keeps P m"
  unfolding spares_def keeps_def by metis

end
