(* ===== verification/BookingSystem.thy ===== *)
theory BookingSystem
  imports EventSafety Atomicity
begin

text \<open>
  The booking system as a state machine: the requests that write the booking tables, in any order and
  of any tenant, interleaved with whatever other code does to the rest of the database and with any
  pattern of driver errors. The invariant holds in every reachable state.
\<close>

section \<open>Requests\<close>

text \<open>
  \<open>ReserveOffer\<close> is the transaction in which an AI channel confirms an offer; \<open>ActivatePackage\<close> the
  one in which a sale grants the credits of a package. Instants are what the code reads of the clock.
\<close>

datatype request =
    CreateBooking uuid uuid booking_request time time
  | TransitionBooking uuid uuid string transition_request time time
  | ReserveOffer reserve_input time
  | CreateEvent uuid event_request
  | UpdateEvent uuid uuid event_request
  | CreateTimeOff uuid uuid time_off_request
  | UpdateTimeOff uuid uuid uuid time_off_request
  | DeleteTimeOff uuid uuid uuid int
  | CreateRule uuid uuid rule_request
  | UpdateRule uuid uuid uuid rule_request
  | DeleteRule uuid uuid uuid int
  | ActivatePackage package_row uuid time string

abbreviation "silent m \<equiv> and_then m (\<lambda>_. ret ())"

fun serve :: "env \<Rightarrow> uuid \<Rightarrow> request \<Rightarrow> (tables, unit) tx" where
  "serve x org (CreateBooking user event r now clock) = silent (create_booking x org user event r now clock)"
| "serve x org (TransitionBooking user i raw r now clock) = silent (transition_booking x org user i raw r now clock)"
| "serve x org (ReserveOffer inp now) = silent (transaction (reserve_tx x org inp now))"
| "serve x org (CreateEvent user r) = silent (create_event x org user r)"
| "serve x org (UpdateEvent user i r) = silent (update_event x org user i r)"
| "serve x org (CreateTimeOff user resource r) = silent (create_time_off x org user resource r)"
| "serve x org (UpdateTimeOff user resource i r) = silent (update_time_off x org user resource i r)"
| "serve x org (DeleteTimeOff user resource i v) = silent (delete_time_off x org user resource i v)"
| "serve x org (CreateRule user resource r) = silent (create_rule x org user resource r)"
| "serve x org (UpdateRule user resource i r) = silent (update_rule x org user resource i r)"
| "serve x org (DeleteRule user resource i v) = silent (delete_rule x org user resource i v)"
| "serve x org (ActivatePackage p user now pre) = silent (transaction (grant_credits x org p user now pre))"

text \<open>An AI reservation asks for one place; \<open>ReserveTx\<close> refuses any other.\<close>

fun admissible :: "request \<Rightarrow> bool" where
  "admissible (ReserveOffer inp now) = (ri_expected inp \<noteq> None)"
| "admissible _ = True"

section \<open>Every request keeps the invariant\<close>

lemma create_booking_safe: "keeps safe (create_booking x org user event req now clock)"
  unfolding create_booking_def
proof (intro keeps_and_then)
  fix s r t u and v :: unit
  assume "lift_res (as_client (validate_create_booking (req\<lparr>cq_event := event\<rparr>))) s = (Inr r, t)"
  then have "cq_quantity r \<le> 10000"
    using validate_create_quantity [of "req\<lparr>cq_event := event\<rparr>" r] by (simp add: ok_simps)
  then show "keeps safe (transaction (create_body x org user r now clock))"
    by (intro keeps_transaction) (blast intro: create_body_safe)
qed (intro keeps_reads reads_intros)+

lemma transition_booking_safe: "keeps safe (transition_booking x org user i raw req now clock)"
  unfolding transition_booking_def Let_def
proof (intro keeps_and_then)
  fix r
  show "keeps safe (transaction (transition_body x org user i r now clock))" 
    by (intro keeps_transaction) (blast intro: transition_body_safe)
qed (intro keeps_reads reads_intros)+

lemma ai_quantity:
  assumes "reserve_tx x org inp now s = (Inr r, u)" and "ri_expected inp \<noteq> None"
  shows "tabs u = tabs s \<or> ri_quantity inp = 1"
  using assms(1)
  by (rule reserve_tx_Inr) (use assms(2) in \<open>auto simp: ai_exceeds_authority_def normal_reserve_def\<close>)

lemma reserve_offer_safe: "ri_expected inp \<noteq> None \<Longrightarrow> keeps safe (transaction (reserve_tx x org inp now))"
  by (intro keeps_transaction) (metis ai_quantity reserve_tx_safe one_le_numeral)

lemma guarded_audit [spares_intros]: "spares guarded (audit_change org user rtype rid action old new)"
  using audit_change_side [of org user rtype rid action old new] business_guarded
  unfolding side_def spares_def by metis

lemma guarded_rules: "guarded (t\<lparr>rules := rs\<rparr>) = guarded t"
  by (simp add: guarded_def)

lemma spares_insert_rule [spares_intros]: "spares guarded (execute (insert_rule r))"
  by (rule spares_execute) (auto simp: insert_rule_def guarded_rules split: if_splits)

lemma spares_replace_rule [spares_intros]: "spares guarded (execute (replace_rule org resource i v e))"
  by (rule spares_execute) (auto simp: replace_rule_def Let_def guarded_rules)

lemma spares_delete_rule [spares_intros]: "spares guarded (execute (delete_rule_row i))"
  by (rule spares_execute) (auto simp: delete_rule_row_def guarded_rules)

lemma rules_spare:
  "spares guarded (create_rule x org user resource r)"
  "spares guarded (update_rule x org user resource i r)"
  "spares guarded (delete_rule x org user resource i v)"
  unfolding create_rule_def update_rule_def delete_rule_def Let_def ensure_resource_tenant_def
    resource_location_def ensure_rule_free_def
  by (intro spares_intros reads_intros)+

lemma handlers_atomic:
  "atomic (create_event x org user er)" "atomic (update_event x org user i er)"
  "atomic (create_time_off x org user resource tr)" "atomic (update_time_off x org user resource i tr)"
  "atomic (delete_time_off x org user resource i v)"
  "atomic (create_rule x org user resource rr)" "atomic (update_rule x org user resource i rr)"
  "atomic (delete_rule x org user resource i v)"
  unfolding create_event_def update_event_def create_time_off_def update_time_off_def delete_time_off_def
    create_rule_def update_rule_def delete_rule_def Let_def
  by (intro atomic_intros reads_intros)+

lemma schedule_insert_balance: "spares schedule (execute (insert_balance b))"
  by (rule spares_execute) (auto simp: insert_balance_def schedule_def split: if_splits)

lemma schedule_insert_ledger: "spares schedule (execute (insert_ledger l))"
  by (rule spares_execute) (auto simp: insert_ledger_def schedule_def split: if_splits)

lemma spares_for_each: "(\<And>a. spares g (f a)) \<Longrightarrow> spares g (for_each xs f)"
  by (induction xs) (auto intro!: spares_and_then spares_reads [OF reads_ret])

lemma grant_spares: "spares schedule (grant_credits x org p user now pre)"
  unfolding grant_credits_def grant_entitlement_def
  by (intro spares_intros reads_intros spares_for_each schedule_insert_balance schedule_insert_ledger)

lemma activate_safe: "keeps safe (transaction (grant_credits x org p user now pre))"
proof (rule keeps_transaction)
  fix s u and a :: unit
  assume run: "grant_credits x org p user now pre s = (Inr a, u)" and ok: "safe (tabs s)"
  have "settles (tabs s) (tabs u)"
    using sparesD [OF grant_spares run] grant_credits_ok run by (simp add: settles_def)
  then show "safe (tabs u)" using ok by (rule settles_safe)
qed

lemma handlers_safe:
  "keeps safe (create_event x org user er)" "keeps safe (update_event x org user i er)"
  "keeps safe (create_time_off x org user resource tr)" "keeps safe (update_time_off x org user resource i tr)"
  "keeps safe (delete_time_off x org user resource i v)"
  by (rule keeps_atomic [OF handlers_atomic(1)], rule create_event_safe, assumption+)
     (rule keeps_atomic [OF handlers_atomic(2)], rule update_event_safe, assumption+,
      rule keeps_atomic [OF handlers_atomic(3)], rule create_time_off_safe, assumption+,
      rule keeps_atomic [OF handlers_atomic(4)], rule update_time_off_safe, assumption+,
      rule keeps_atomic [OF handlers_atomic(5)], rule delete_time_off_safe, assumption+)

lemma keeps_silent: "keeps P m \<Longrightarrow> keeps P (silent m)"
  by (rule keeps_and_then) (auto intro: keeps_reads reads_ret)

lemmas served_safe =
  create_booking_safe transition_booking_safe reserve_offer_safe activate_safe handlers_safe
  keeps_spares [OF rules_spare(1) safe_cong] keeps_spares [OF rules_spare(2) safe_cong]
  keeps_spares [OF rules_spare(3) safe_cong]

lemma serve_safe: "admissible r \<Longrightarrow> keeps safe (serve x org r)"
  by (cases r; simp only: serve.simps admissible.simps; intro keeps_silent served_safe; assumption)

section \<open>Merging contacts\<close>

text \<open>
  The one place outside the calendar that rewrites bookings: \<^verbatim>\<open>MergeContact\<close> hands the standalone bookings of the source
  to the target, finished ones too. A booking paid for with a package stays with the contact the package belongs to.
\<close>

definition standalone :: "uuid \<Rightarrow> uuid \<Rightarrow> booking_row \<Rightarrow> bool" where
  "standalone org source b \<longleftrightarrow> bk_org b = org \<and> bk_contact b = source \<and> bk_package b = None \<and> \<not> bk_deleted b"

definition move_standalone :: "uuid \<Rightarrow> uuid \<Rightarrow> uuid \<Rightarrow> tables \<Rightarrow> tables" where
  "move_standalone org source target t =
     t\<lparr>bookings := update_where (standalone org source) (\<lambda>b. b\<lparr>bk_contact := target\<rparr>) (bookings t)\<rparr>"

lemma moved_column:
  "(\<And>b. g (b\<lparr>bk_contact := target\<rparr>) = g b) \<Longrightarrow> map g (bookings (move_standalone org source target t)) = map g (bookings t)"
  unfolding move_standalone_def by (simp add: map_update_where_same)

lemma moved_occupied: "occupied_quantity o' e (move_standalone org source target t) = occupied_quantity o' e t"
proof -
  let ?g = "\<lambda>b. (seats o' e b, bk_quantity b)"
  have q: "occupied_quantity o' e t = sum_list (map snd (filter fst (map ?g (bookings t))))" for t
    by (simp add: occupied_quantity_def filter_map comp_def)
  have "map ?g (bookings (move_standalone org source target t)) = map ?g (bookings t)"
    by (rule moved_column) (simp add: seats_def)
  then show ?thesis by (simp add: q)
qed

lemma moved_safe:
  assumes "safe t"
  shows "safe (move_standalone org source target t)"
proof -
  let ?u = "move_standalone org source target t"
  have rest: "events ?u = events t" "time_offs ?u = time_offs t" "balances ?u = balances t" "ledger ?u = ledger t"
    by (simp_all add: move_standalone_def)
  have ids: "map bk_id (bookings ?u) = map bk_id (bookings t)"
    "map (\<lambda>b. (bk_org b, bk_key b)) (bookings ?u) = map (\<lambda>b. (bk_org b, bk_key b)) (bookings t)"
    by (rule moved_column; simp)+
  have "\<exists>c\<in>set (bookings t). bk_quantity b = bk_quantity c \<and> bk_event b = bk_event c \<and> bk_org b = bk_org c"
    if "b \<in> set (bookings ?u)" for b
    using that by (auto simp: move_standalone_def in_update_where)
  moreover have "event_of ?u b = event_of t c" if "bk_event b = bk_event c" "bk_org b = bk_org c" for b c
    using that rest by (simp add: event_of_def)
  ultimately have "\<forall>b\<in>set (bookings ?u). 1 \<le> bk_quantity b \<and> bk_quantity b \<le> 10000 \<and> event_of ?u b"
    using assms unfolding safe_def booking_ok_def by metis
  then have "booking_ok ?u" using assms rest ids moved_occupied unfolding safe_def booking_ok_def fits_def by simp
  moreover have "schedule_ok ?u" using assms schedule_ok_cong [of ?u t] rest by (simp add: safe_def)
  moreover have "credits_ok ?u" using assms credits_ok_cong [of ?u t] rest by (simp add: safe_def)
  ultimately show ?thesis by (simp add: safe_def)
qed

section \<open>Runs\<close>

text \<open>
  A state with no events, bookings, time off or credits is a start; a step serves a request of some
  tenant, is a merge of contacts, or is anything that leaves those rows alone (the catalogue, contacts,
  subscriptions, sales; a different pattern of driver errors).
\<close>

definition fresh_start :: "tables \<Rightarrow> bool" where
  "fresh_start t \<longleftrightarrow> events t = [] \<and> bookings t = [] \<and> time_offs t = [] \<and> balances t = [] \<and> ledger t = []"

inductive booking_step :: "env \<Rightarrow> tables db \<Rightarrow> tables db \<Rightarrow> bool" for x where
  served: "admissible r \<Longrightarrow> serve x org r s = (answer, u) \<Longrightarrow> booking_step x s u"
| merged: "guarded (tabs u) = guarded (move_standalone org source target (tabs s)) \<Longrightarrow> booking_step x s u"
| elsewhere: "guarded (tabs u) = guarded (tabs s) \<Longrightarrow> booking_step x s u"

inductive reachable :: "env \<Rightarrow> tables db \<Rightarrow> bool" for x where
  start: "fresh_start (tabs s) \<Longrightarrow> reachable x s"
| step: "reachable x s \<Longrightarrow> booking_step x s u \<Longrightarrow> reachable x u"

lemma fresh_safe: "fresh_start t \<Longrightarrow> safe t"
  by (simp add: fresh_start_def safe_def booking_ok_def schedule_ok_def credits_ok_def
      ev_slots.disjoint_def off_slots.disjoint_def)

lemma step_safe: "booking_step x s u \<Longrightarrow> safe (tabs s) \<Longrightarrow> safe (tabs u)"
proof (induction rule: booking_step.induct)
  case (served r org s answer u)
  then show ?case using keepsD [OF serve_safe] by blast
next
  case (merged u org source target s)
  then show ?case using safe_cong moved_safe by blast
next
  case (elsewhere u s)
  then show ?case using safe_cong by blast
qed

lemma reachable_safe: "reachable x s \<Longrightarrow> safe (tabs s)"
proof (induction rule: reachable.induct)
  case (start s)
  then show ?case by (rule fresh_safe)
next
  case (step s u)
  then show ?case by (blast intro: step_safe)
qed

section \<open>What holds in every reachable state\<close>

text \<open>
  C1: no event is ever overbooked. In every state the system can reach, under any interleaving of staff and
  AI requests and any driver errors, the places taken by reserved, confirmed, checked-in, completed and
  no-show bookings of an event are at least 0 and at most its capacity, which is between 1 and 10000.
\<close>
theorem never_overbooked:
  assumes "reachable x s" and "e \<in> set (events (tabs s))"
  shows "0 \<le> occupied_quantity (ev_org e) (ev_id e) (tabs s)
    \<and> occupied_quantity (ev_org e) (ev_id e) (tabs s) \<le> ev_capacity e \<and> 1 \<le> ev_capacity e \<and> ev_capacity e \<le> 10000"
proof -
  have ok: "booking_ok (tabs s)" using reachable_safe [OF assms(1)] by (simp add: safe_def)
  from booking_okD(5) [OF ok assms(2)] occupied_nonneg [OF ok] show ?thesis by (simp add: fits_def)
qed

text \<open>
  C9: the calendar of a resource is sound in every reachable state: two different scheduled events of one
  resource never overlap, two of its time-off intervals never do, and no event that is not cancelled
  overlaps its time off.
\<close>
theorem calendar_without_clashes:
  assumes "reachable x s"
  shows "(\<forall>e\<in>set (events (tabs s)). \<forall>f\<in>set (events (tabs s)).
      ev_org e = ev_org f \<and> ev_resource e = ev_resource f \<and> ev_id e \<noteq> ev_id f
      \<and> ev_status e = s_scheduled \<and> ev_status f = s_scheduled \<and> \<not> ev_deleted e \<and> \<not> ev_deleted f
      \<longrightarrow> ev_ends e \<le> ev_starts f \<or> ev_ends f \<le> ev_starts e)
    \<and> (\<forall>r\<in>set (time_offs (tabs s)). \<forall>q\<in>set (time_offs (tabs s)).
      to_org r = to_org q \<and> to_resource r = to_resource q \<and> to_id r \<noteq> to_id q \<and> \<not> to_deleted r \<and> \<not> to_deleted q
      \<longrightarrow> to_ends r \<le> to_starts q \<or> to_ends q \<le> to_starts r)
    \<and> (\<forall>e\<in>set (events (tabs s)). \<forall>r\<in>set (time_offs (tabs s)).
      ev_org e = to_org r \<and> ev_resource e = to_resource r \<and> ev_status e \<noteq> s_cancelled \<and> \<not> ev_deleted e \<and> \<not> to_deleted r
      \<longrightarrow> ev_ends e \<le> to_starts r \<or> to_ends r \<le> ev_starts e)"
proof -
  have ok: "schedule_ok (tabs s)" using reachable_safe [OF assms] by (simp add: safe_def)
  have clash: "\<not> ev_slots.clash e f" if "e \<in> set (events (tabs s))" "f \<in> set (events (tabs s))" "ev_id e \<noteq> ev_id f" for e f
    using ok that by (simp add: schedule_ok_def ev_slots.disjoint_def)
  have off: "\<not> off_slots.clash r q" if "r \<in> set (time_offs (tabs s))" "q \<in> set (time_offs (tabs s))" "to_id r \<noteq> to_id q" for r q
    using ok that by (simp add: schedule_ok_def off_slots.disjoint_def)
  have away: "apart e r" if "e \<in> set (events (tabs s))" "r \<in> set (time_offs (tabs s))" for e r
    using ok that by (simp add: schedule_ok_def)
  show ?thesis
  proof (intro conjI ballI impI)
    fix e f
    assume m: "e \<in> set (events (tabs s))" "f \<in> set (events (tabs s))"
      and h: "ev_org e = ev_org f \<and> ev_resource e = ev_resource f \<and> ev_id e \<noteq> ev_id f
        \<and> ev_status e = s_scheduled \<and> ev_status f = s_scheduled \<and> \<not> ev_deleted e \<and> \<not> ev_deleted f"
    have "\<not> ev_slots.clash e f" using h by (intro clash m) blast
    then have "\<not> (ev_starts e < ev_ends f \<and> ev_starts f < ev_ends e)"
      using h unfolding ev_slots.clash_def overlap_def Pair_inject by blast
    then show "ev_ends e \<le> ev_starts f \<or> ev_ends f \<le> ev_starts e" by linarith
  next
    fix r q
    assume m: "r \<in> set (time_offs (tabs s))" "q \<in> set (time_offs (tabs s))"
      and h: "to_org r = to_org q \<and> to_resource r = to_resource q \<and> to_id r \<noteq> to_id q
        \<and> \<not> to_deleted r \<and> \<not> to_deleted q"
    have "\<not> off_slots.clash r q" using h by (intro off m) blast
    then have "\<not> (to_starts r < to_ends q \<and> to_starts q < to_ends r)"
      using h unfolding off_slots.clash_def overlap_def Pair_inject by blast
    then show "to_ends r \<le> to_starts q \<or> to_ends q \<le> to_starts r" by linarith
  next
    fix e r
    assume m: "e \<in> set (events (tabs s))" "r \<in> set (time_offs (tabs s))"
      and h: "ev_org e = to_org r \<and> ev_resource e = to_resource r \<and> ev_status e \<noteq> s_cancelled
        \<and> \<not> ev_deleted e \<and> \<not> to_deleted r"
    have "\<not> (ev_starts e < to_ends r \<and> to_starts r < ev_ends e)"
      using away [OF m] h unfolding apart_def overlap_def Pair_inject by blast
    then show "ev_ends e \<le> to_starts r \<or> to_ends r \<le> ev_starts e" by linarith
  qed
qed

text \<open>
  C6: the credit ledger explains every balance in every reachable state: what is available is what was
  granted less what is reserved and consumed, none of them negative, and each amount is the sum of the
  ledger entries of its kind.
\<close>
theorem ledger_explains_balances:
  assumes "reachable x s" and "b \<in> set (balances (tabs s))"
  shows "cb_available b = cb_granted b - cb_reserved b - cb_consumed b
    \<and> 0 \<le> cb_available b \<and> 0 \<le> cb_reserved b \<and> 0 \<le> cb_consumed b
    \<and> cb_granted b = moved b ''grant'' (ledger (tabs s))
    \<and> cb_consumed b = - moved b ''redeem'' (ledger (tabs s))
    \<and> cb_available b = moved b ''grant'' (ledger (tabs s)) + moved b ''reserve'' (ledger (tabs s))
        + moved b ''release'' (ledger (tabs s))"
proof -
  have b: "balance_equation b" "explained (ledger (tabs s)) b"
    using reachable_safe [OF assms(1)] assms(2) by (simp_all add: safe_def credits_ok_def)
  show ?thesis
    using explained_available [OF b] b unfolding balance_equation_def explained_def
    by (elim conjE) (intro conjI; assumption)
qed

end
