(* ===== verification/BookingRuns.thy ===== *)
theory BookingRuns
  imports Scenario BookingSystem
begin

text \<open>
  A run of the sample tenant: a package is activated, a slot of two places is opened, a contact books
  both with the package, the booking is confirmed. The properties of the booking system are applied to it.
\<close>

definition slot0 :: event_request where
  "slot0 = \<lparr>eq_service = 21, eq_resource = 31, eq_starts = at_clock 10 0, eq_ends = at_clock 11 0,
     eq_timezone = ''UTC'', eq_capacity = 2, eq_status = [], eq_provider = [], eq_external = [],
     eq_location = [], eq_metadata = [], eq_version = 0\<rparr>"

definition booking_request0 :: booking_request where
  "booking_request0 = \<lparr>cq_event = nil_uuid, cq_contact = 11, cq_quantity = 2, cq_status = [], cq_source = [],
     cq_notes = [], cq_package = Some 53, cq_waitlist = False, cq_key = '' key-1 '', cq_metadata = []\<rparr>"

definition run0 :: "tables db" where "run0 = session tables0"
definition run1 :: "tables db" where
  "run1 = after (serve x0 org0 (ActivatePackage package0 user0 now0 ''grant'')) run0"
definition run2 :: "tables db" where
  "run2 = after (serve x0 org0 (CreateEvent user0 slot0)) run1"
definition event_id :: uuid where "event_id = ev_id (hd (events (tabs run2)))"
definition run3 :: "tables db" where
  "run3 = after (transaction (create_body x0 org0 user0
     (booking_request0\<lparr>cq_event := event_id, cq_key := ''key-1''\<rparr>) now0 now0)) run2"

text \<open>A second slot and a time off beside the first one.\<close>

definition slot1 :: event_request where
  "slot1 = slot0\<lparr>eq_starts := at_clock 11 0, eq_ends := at_clock 12 0\<rparr>"

definition lunch :: time_off_request where
  "lunch = \<lparr>tf_starts = at_clock 12 0, tf_ends = at_clock 13 0, tf_reason = [], tf_version = 0\<rparr>"

definition run4 :: "tables db" where
  "run4 = after (serve x0 org0 (CreateTimeOff user0 31 lunch)) (after (serve x0 org0 (CreateEvent user0 slot1)) run2)"

text \<open>A second time off over the same hours is refused, and nothing is written.\<close>

definition run5 :: "tables db" where
  "run5 = after (serve x0 org0 (CreateTimeOff user0 31 lunch)) run2"

abbreviation "overlapping_time_off \<equiv> serve x0 org0 (CreateTimeOff user0 31 lunch)"

definition booking0 :: booking_row where "booking0 = hd (bookings (tabs run3))"

definition confirm0 :: transition_request where
  "confirm0 = \<lparr>tq_status = [], tq_version = 1, tq_reason = []\<rparr>"

abbreviation "confirming \<equiv> transition_booking x0 org0 user0 (bk_id booking0) ''confirm'' confirm0 now0 now0"

abbreviation "cancelling \<equiv> transition_booking x0 org0 user0 (bk_id booking0) ''cancel'' confirm0 now0 now0"

definition run6 :: "tables db" where
  "run6 = after (serve x0 org0 (TransitionBooking user0 (bk_id booking0) ''confirm'' confirm0 now0 now0)) run3"

definition wider :: event_request where
  "wider = slot0\<lparr>eq_capacity := 3, eq_status := s_scheduled, eq_version := 1\<rparr>"

abbreviation "widening \<equiv> update_event x0 org0 user0 event_id wider"

definition facts0 :: slot_facts where
  "facts0 = (case facts_for_event \<lparr>le_event = hd (events (tabs run2)), le_service = Some service0,
     le_resource = Some resource0\<rparr> of Inr f \<Rightarrow> f)"

definition offered :: reserve_input where
  "offered = \<lparr>ri_event = event_id, ri_contact = 12, ri_quantity = 1, ri_status = s_reserved, ri_source = ''ai'',
     ri_notes = [], ri_package = None, ri_waitlist = False, ri_key = ''offer-1'', ri_metadata = [], ri_actor = None,
     ri_expected = Some facts0, ri_offer_expires = at_clock 8 30\<rparr>"

abbreviation "reserving \<equiv> reserve_tx x0 org0 offered now0"

definition mondays :: rule_request where
  "mondays = \<lparr>rq_weekday = 1, rq_start = ''09:00'', rq_end = ''17:00'', rq_from = None, rq_until = None,
     rq_active = None, rq_version = 0\<rparr>"

definition run7 :: "tables db" where
  "run7 = after (create_rule x0 org0 user0 31 mondays) (session tables0)"

abbreviation "opening \<equiv> create_event x0 org0 user0 slot0"

abbreviation "booking_it \<equiv> transaction (create_body x0 org0 user0
  (booking_request0\<lparr>cq_event := event_id, cq_key := ''key-1''\<rparr>) now0 now0)"

definition waiting :: booking_request where
  "waiting = booking_request0\<lparr>cq_event := event_id, cq_contact := 12, cq_quantity := 1, cq_status := s_waitlisted,
     cq_package := None, cq_key := ''key-2''\<rparr>"

abbreviation "waiting_body \<equiv> transaction (create_body x0 org0 user0 waiting now0 now0)"
abbreviation "cancelling_event \<equiv> update_event x0 org0 user0 event_id (slot0\<lparr>eq_status := s_cancelled, eq_version := 1\<rparr>)"

definition run8 :: "tables db" where "run8 = after cancelling_event (after waiting_body run2)"
definition waiting_id :: uuid where "waiting_id = bk_id (answer waiting_body run2)"

abbreviation "switched_off \<equiv> create_rule x0 org0 user0 31 (mondays\<lparr>rq_active := Some False\<rparr>)"

section \<open>Evaluating the runs\<close>

text \<open>
  The facts about the runs, evaluated together: preparing an evaluation costs more than running it, and the
  state of a run is computed once.
\<close>

lemma evaluated_booking:
  "(let e = event_id; r = booking_request0\<lparr>cq_event := e, cq_key := ''key-1''\<rparr>; s = run2 in
     validate_create_booking (booking_request0\<lparr>cq_event := e\<rparr>) = Inr r \<and> map ev_id (events (tabs s)) = [e]
     \<and> (let m = transaction (create_body x0 org0 user0 r now0 now0) s in
        (case m of (Inr b, t) \<Rightarrow> booking_by_id org0 (bk_id b) (tabs t) \<noteq> None \<and> faults t = []
           \<and> map (\<lambda>b. (bk_event b, bk_status b, bk_quantity b, bk_version b)) (bookings (tabs t)) = [(e, s_reserved, 2, 1)]
           \<and> map (\<lambda>b. (cb_available b, cb_reserved b)) (balances (tabs t)) = [(3, 2)]
           \<and> map (\<lambda>e. (ev_id e, ev_org e, ev_capacity e)) (events (tabs t)) = [(e, org0, 2)] | (Inl _, _) \<Rightarrow> False)))"
  by code_simp

lemma evaluated_on_booking:
  "(let e = event_id; r = booking_request0\<lparr>cq_event := e, cq_key := ''key-1''\<rparr>; s = run3; i = bk_id (hd (bookings (tabs s)));
      later = day0 + 31 * day_ns in
     (case transaction (create_body x0 org0 user0 r now0 now0) s of
        (Inr b, t) \<Rightarrow> faults t = [] \<and> booking_by_id org0 (bk_id b) (tabs t) \<noteq> None | (Inl _, _) \<Rightarrow> False)
     \<and> booking_by_id org0 i (tabs s) \<noteq> None \<and> bk_package (hd (bookings (tabs s))) = Some 53
     \<and> \<not> ledger_has org0 (release_key x0 (hd (bookings (tabs s)))) (tabs s)
     \<and> succeeds (transition_booking x0 org0 user0 i ''cancel'' confirm0 now0 now0) s
     \<and> succeeds (transition_booking x0 org0 user0 i ''confirm'' confirm0 now0 now0) s
     \<and> succeeds (transition_booking x0 org0 user0 i ''confirm'' confirm0 later later) s
     \<and> fst (transition_booking x0 org0 user0 i ''cancel'' confirm0 later later s)
       = Inl (ClientError 409 ''Contact package has expired''))"
  by code_simp

lemma evaluated_calendar:
  "(let t = tabs run4 in
      map (\<lambda>e. (ev_resource e, ev_status e, ev_deleted e)) (events t) = [(31, s_scheduled, False), (31, s_scheduled, False)]
      \<and> map ev_org (events t) = [org0, org0] \<and> distinct (map ev_id (events t))
      \<and> map (\<lambda>r. (to_org r, to_resource r, to_deleted r)) (time_offs t) = [(org0, 31, False)])
   \<and> fst (overlapping_time_off run5) = Inl (ClientError 409 ''Resource time off overlaps an existing time-off interval'')
   \<and> (let s = run7 in
      (case opening s of (Inr e, _) \<Rightarrow> ev_status e = s_scheduled \<and> active_rules org0 (ev_resource e) (tabs s) \<noteq> []
         | (Inl _, _) \<Rightarrow> False)
      \<and> (case switched_off s of
          (Inr _, t) \<Rightarrow> map (\<lambda>r. (ar_weekday r, ar_start r, ar_end r, ar_active r)) (rules (tabs t))
             = [(1, ''09:00'', ''17:00'', True), (1, ''09:00'', ''17:00'', True)]
        | (Inl _, _) \<Rightarrow> False))"
  by code_simp

lemma evaluated_events:
  "(let e = event_id; s = run2 in
      succeeds (update_event x0 org0 user0 e wider) s
      \<and> (case reserving s of (Inr r, _) \<Rightarrow> rr_created r | (Inl _, _) \<Rightarrow> False)
      \<and> (case update_event x0 org0 user0 e (slot0\<lparr>eq_version := 1\<rparr>) s of
          (Inr _, t) \<Rightarrow> map ev_status (events (tabs t)) = [[]] | (Inl _, _) \<Rightarrow> False))
   \<and> (let s = run8 in
      map (\<lambda>e. (ev_id e, ev_status e)) (events (tabs s)) = [(event_id, s_cancelled)]
      \<and> succeeds (transition_booking x0 org0 user0 waiting_id ''confirm'' confirm0 now0 now0) s)"
  by code_simp

lemma succeeds_case: "(case m s of (Inr a, t) \<Rightarrow> P a t | (Inl _, _) \<Rightarrow> False) \<longleftrightarrow> succeeds m s \<and> P (answer m s) (after m s)"
  by (simp add: succeeds_def answer_def after_def split: prod.split sum.split)

lemmas case_runs =
  succeeds_case [where m = booking_it and s = run2] succeeds_case [where m = booking_it and s = run3]
  succeeds_case [where m = "opening" and s = run7] succeeds_case [where m = switched_off and s = run7]
  succeeds_case [where m = reserving and s = run2]
  succeeds_case [where m = "update_event x0 org0 user0 event_id (slot0\<lparr>eq_version := 1\<rparr>)" and s = run2]

lemmas runs_evaluated =
  evaluated_booking [unfolded Let_def case_runs, folded run3_def]
  evaluated_on_booking [unfolded Let_def, folded booking0_def, unfolded case_runs]
  evaluated_calendar [unfolded Let_def case_runs] evaluated_events [unfolded Let_def case_runs]

lemma run2_events: "map ev_id (events (tabs run2)) = [event_id]"
  and booking0_valid: "validate_create_booking (booking_request0\<lparr>cq_event := event_id\<rparr>)
    = Inr (booking_request0\<lparr>cq_event := event_id, cq_key := ''key-1''\<rparr>)"
  and booking0_written: "succeeds booking_it run2"
  and booking_it_found: "booking_by_id org0 (bk_id (answer booking_it run2)) (tabs run3) \<noteq> None"
  and run3_calm: "faults run3 = []"
  and run3_facts: "map (\<lambda>b. (bk_event b, bk_status b, bk_quantity b, bk_version b)) (bookings (tabs run3)) = [(event_id, s_reserved, 2, 1)]
    \<and> map (\<lambda>b. (cb_available b, cb_reserved b)) (balances (tabs run3)) = [(3, 2)]
    \<and> map (\<lambda>e. (ev_id e, ev_org e, ev_capacity e)) (events (tabs run3)) = [(event_id, org0, 2)]"
  and booking_it_replays: "succeeds booking_it run3 \<and> faults (after booking_it run3) = []"
  and booking_it_found_again: "booking_by_id org0 (bk_id (answer booking_it run3)) (tabs (after booking_it run3)) \<noteq> None"
  and confirmed: "succeeds confirming run3"
  and booking0_paid: "booking_by_id org0 (bk_id booking0) (tabs run3) \<noteq> None" "bk_package booking0 = Some 53"
    "\<not> ledger_has org0 (release_key x0 booking0) (tabs run3)"
  and cancelled: "succeeds cancelling run3"
  and lunch_taken: "fst (overlapping_time_off run5)
    = Inl (ClientError 409 ''Resource time off overlaps an existing time-off interval'')"
  and widened: "succeeds widening run2"
  and offer_taken: "succeeds reserving run2 \<and> rr_created (answer reserving run2)"
  and opened: "succeeds opening run7 \<and> ev_status (answer opening run7) = s_scheduled
    \<and> active_rules org0 (ev_resource (answer opening run7)) (tabs run7) \<noteq> []"
  using runs_evaluated by blast+

lemma run4_facts:
  "map (\<lambda>e. (ev_resource e, ev_status e, ev_deleted e)) (events (tabs run4)) = [(31, s_scheduled, False), (31, s_scheduled, False)]
   \<and> map ev_org (events (tabs run4)) = [org0, org0] \<and> distinct (map ev_id (events (tabs run4)))
   \<and> map (\<lambda>r. (to_org r, to_resource r, to_deleted r)) (time_offs (tabs run4)) = [(org0, 31, False)]"
  using runs_evaluated(3) by blast

lemma serve_after: "admissible r \<Longrightarrow> reachable x s \<Longrightarrow> reachable x (after (serve x org r) s)"
  unfolding after_def by (rule reachable.step, assumption, rule booking_step.served, assumption)
    (rule prod.collapse [symmetric])

lemma run0_reachable: "reachable x0 run0"
  by (rule reachable.start) (simp add: fresh_start_def run0_def session_def tables0_def no_rows_def)

lemma run1_reachable: "reachable x0 run1"
  unfolding run1_def by (intro serve_after run0_reachable) simp

lemma run2_reachable: "reachable x0 run2"
  unfolding run2_def by (intro serve_after run1_reachable) simp

lemma after_silent: "after (silent m) s = after m s"
  unfolding after_def and_then_def ret_def by (cases "m s"; cases "fst (m s)") auto

lemma or_fail_first_calm: "faults s = [] \<Longrightarrow> snd (or_fail (first q) e s) = s"
  by (simp add: act_simps split: option.split)

lemma run3_served: "after (serve x0 org0 (CreateBooking user0 event_id booking_request0 now0 now0)) run2 = run3"
proof -
  let ?m = "transaction (create_body x0 org0 user0
     (booking_request0\<lparr>cq_event := event_id, cq_key := ''key-1''\<rparr>) now0 now0)"
  have none: "cq_event booking_request0 = nil_uuid" by (simp add: booking_request0_def)
  have run: "?m run2 = (Inr (answer ?m run2), run3)" using succeeds_run [OF booking0_written] by (simp add: run3_def)
  have "create_booking x0 org0 user0 event_id booking_request0 now0 now0 run2
      = or_fail (first (booking_by_id org0 (bk_id (answer ?m run2)))) (ClientError server_error m_load_booking) run3"
    unfolding create_booking_def none booking0_valid as_client_def
    by (simp add: and_then_def reject_def ret_def lift_res_def run)
  then have "snd (create_booking x0 org0 user0 event_id booking_request0 now0 now0 run2) = run3"
    using or_fail_first_calm [OF run3_calm] by simp
  then show ?thesis unfolding serve.simps after_silent by (simp add: after_def)
qed

lemma run3_reachable: "reachable x0 run3"
proof -
  have "reachable x0 (after (serve x0 org0 (CreateBooking user0 event_id booking_request0 now0 now0)) run2)"
    by (rule serve_after) (simp_all add: run2_reachable)
  then show ?thesis unfolding run3_served .
qed

theorem never_overbooked_witness:
  "occupied_quantity org0 event_id (tabs run3) \<le> 2"
proof -
  have m: "events (tabs run3) \<noteq> []" "ev_id (hd (events (tabs run3))) = event_id"
    "ev_org (hd (events (tabs run3))) = org0" "ev_capacity (hd (events (tabs run3))) = 2"
    using run3_facts by (cases "events (tabs run3)"; simp)+
  then have "hd (events (tabs run3)) \<in> set (events (tabs run3))" by simp
  from never_overbooked [OF run3_reachable this] m show ?thesis by simp
qed

theorem ledger_explains_balances_witness:
  "moved (hd (balances (tabs run3))) ''grant'' (ledger (tabs run3))
    + moved (hd (balances (tabs run3))) ''reserve'' (ledger (tabs run3))
    + moved (hd (balances (tabs run3))) ''release'' (ledger (tabs run3)) = 3"
proof -
  have m: "balances (tabs run3) \<noteq> []" "cb_available (hd (balances (tabs run3))) = 3"
    using run3_facts by (cases "balances (tabs run3)"; simp)+
  then have "hd (balances (tabs run3)) \<in> set (balances (tabs run3))" by simp
  from ledger_explains_balances [OF run3_reachable this] m show ?thesis by linarith
qed

lemma run4_reachable: "reachable x0 run4"
  unfolding run4_def by (intro serve_after run2_reachable) simp_all

theorem calendar_without_clashes_witness:
  "(let e = events (tabs run4) ! 0; f = events (tabs run4) ! 1; r = time_offs (tabs run4) ! 0 in
     (ev_ends e \<le> ev_starts f \<or> ev_ends f \<le> ev_starts e)
      \<and> (ev_ends f \<le> to_starts r \<or> to_ends r \<le> ev_starts f))"
proof -
  obtain e f where ef: "events (tabs run4) = [e, f]" using run4_facts
    by (cases "events (tabs run4)"; cases "tl (events (tabs run4))") auto
  obtain r where r: "time_offs (tabs run4) = [r]" using run4_facts
    by (cases "time_offs (tabs run4)") auto
  have "ev_org e = org0" "ev_org f = org0" "ev_resource e = 31" "ev_resource f = 31" "ev_status e = s_scheduled"
    "ev_status f = s_scheduled" "\<not> ev_deleted e" "\<not> ev_deleted f" "ev_id e \<noteq> ev_id f"
    "to_org r = org0" "to_resource r = 31" "\<not> to_deleted r" "s_scheduled \<noteq> s_cancelled"
    using run4_facts unfolding ef r by (auto simp: s_scheduled_def s_cancelled_def)
  with calendar_without_clashes [OF run4_reachable] show ?thesis
    unfolding ef r by (simp add: Let_def)
qed

end
