(* ===== verification/BookingProperties.thy ===== *)
theory BookingProperties
  imports BookingSystem
begin

text \<open>
  What single requests do: the rows a successful request changed, refused requests, replays, the state
  machine of a booking, and the refinement of the whole system to a table of seats.
\<close>

section \<open>Refused requests\<close>

definition load_failed :: err where "load_failed = ClientError server_error m_load_booking"

lemma committed_then_load:
  assumes "and_then (transaction m) (\<lambda>b. or_fail (first (q b)) load_failed) s = (Inl e, u)"
  shows "tabs u = tabs s \<or> e = load_failed"
  using assms unfolding and_then_Inl
proof (elim disjE exE conjE)
  assume "transaction m s = (Inl e, u)"
  then show ?thesis using transaction_Inl by blast
next
  fix a t
  assume "or_fail (first (q a)) load_failed t = (Inl e, u)"
  then show ?thesis by (auto simp: or_fail_def split: prod.splits sum.splits)
qed

lemma silent_Inl: "silent m s = (Inl e, u) \<longleftrightarrow> m s = (Inl e, u)"
  by (auto simp: and_then_Inl ret_def)

lemma silent_Inr: "silent m s = (Inr a, u) \<longleftrightarrow> (\<exists>b. m s = (Inr b, u))"
  by (auto simp: and_then_Inr ret_def)

lemma create_booking_refused:
  assumes "create_booking x org user event req now clock s = (Inl e, u)"
  shows "tabs u = tabs s \<or> e = load_failed"
  using assms unfolding create_booking_def load_failed_def [symmetric] and_then_Inl [where m = "reject c f" for c f]
    and_then_Inl [where m = "lift_res r" for r]
proof (elim disjE exE conjE)
  fix a t r v
  assume "reject (cq_event req \<noteq> nil_uuid \<and> cq_event req \<noteq> event) (ClientError bad_request m_event_mismatch) s = (Inr a, t)"
    and "lift_res (as_client (validate_create_booking (req\<lparr>cq_event := event\<rparr>))) t = (Inr r, v)"
    and run: "and_then (transaction (create_body x org user r now clock))
      (\<lambda>b. or_fail (first (booking_by_id org (bk_id b))) load_failed) v = (Inl e, u)"
  then have "v = s" by (simp add: ok_simps)
  with committed_then_load [OF run] show ?thesis by simp
qed (auto simp: reject_def lift_res_def ret_def fail_def split: if_splits)

lemma transition_booking_refused:
  assumes "transition_booking x org user i raw req now clock s = (Inl e, u)"
  shows "tabs u = tabs s \<or> e = load_failed"
  using assms unfolding transition_booking_def Let_def load_failed_def [symmetric]
    and_then_Inl [where m = "reject c f" for c f] and_then_Inl [where m = "lift_res r" for r]
proof (elim disjE exE conjE)
  fix st t a t1 b t2
  let ?r = "req\<lparr>tq_status := st\<rparr>"
  assume "lift_res (as_client (status_from_transition raw)) s = (Inr st, t)"
    "reject (tq_status req \<noteq> [] \<and> tq_status req \<noteq> st) (ClientError bad_request m_status_mismatch) t = (Inr a, t1)"
    "lift_res (as_client (validate_transition ?r)) t1 = (Inr b, t2)"
    and run: "and_then (transaction (transition_body x org user i ?r now clock))
      (\<lambda>updated. or_fail (first (booking_by_id org (bk_id updated))) load_failed) t2 = (Inl e, u)"
  then have "t2 = s" by (simp add: ok_simps)
  with committed_then_load [OF run] show ?thesis by simp
qed (auto simp: reject_def lift_res_def ret_def fail_def split: if_splits)

lemma atomic_refused: "atomic m \<Longrightarrow> m s = (Inl e, u) \<Longrightarrow> tabs u = tabs s \<or> e = load_failed"
  by (simp add: atomicD)

lemmas refusals =
  create_booking_refused transition_booking_refused atomic_refused [OF atomic_transaction]
  handlers_atomic [THEN atomic_refused]

text \<open>
  C16: a request that is answered with an error has changed nothing: for every request of the booking system
  and every pattern of driver errors, a run that ends with an error leaves all tables as they were. The
  one exception is the error the two booking handlers answer when the booking has been committed and
  only loading it for the response failed.
\<close>
theorem refused_request_changes_nothing:
  assumes "serve x org r s = (Inl e, u)"
  shows "tabs u = tabs s \<or> e = ClientError 500 ''Failed to load booking''"
proof -
  have e: "load_failed = ClientError 500 ''Failed to load booking''"
    by (simp add: load_failed_def server_error_def m_load_booking_def)
  have "tabs u = tabs s \<or> e = load_failed"
    using assms by (cases r) (simp only: serve.simps silent_Inl, erule refusals)+
  then show ?thesis unfolding e .
qed

section \<open>The rows a booking request wrote\<close>

lemma settles_rows: "settles t u \<Longrightarrow> bookings u = bookings t \<and> events u = events t"
  using schedule_eqD [of u t] by (simp add: settles_def)

lemma booked_rows: "bookings (booked org e b t) = bookings t @ [b]"
  "map ev_id (events (booked org e b t)) = map ev_id (events t)"
proof -
  show "bookings (booked org e b t) = bookings t @ [b]" by (simp add: booked_def Let_def)
  have "map ev_id (update_where p (\<lambda>r. r\<lparr>ev_version := ev_version r + 1\<rparr>) (events t)) = map ev_id (events t)" for p
    by (rule map_update_where_same) simp
  then show "map ev_id (events (booked org e b t)) = map ev_id (events t)" by (simp add: booked_def Let_def)
qed

text \<open>A booking request answers with the stored row.\<close>

lemma create_booking_Inr:
  assumes "create_booking x org user event req now clock s = (Inr b, u)"
  obtains b0 s1 u1 where
    "create_body x org user (req\<lparr>cq_event := event, cq_key := trim_space (cq_key req)\<rparr>) now clock s1 = (Inr b0, u1)"
    "tabs s1 = tabs s" "tabs u = tabs u1" "booking_by_id org (bk_id b0) (tabs u) = Some b"
    "cq_quantity req \<le> 10000"
proof -
  from assms obtain a t r v b0 w where
    "reject (cq_event req \<noteq> nil_uuid \<and> cq_event req \<noteq> event) (ClientError bad_request m_event_mismatch) s = (Inr a, t)" and
    val: "lift_res (as_client (validate_create_booking (req\<lparr>cq_event := event\<rparr>))) t = (Inr r, v)" and
    tr: "transaction (create_body x org user r now clock) v = (Inr b0, w)" and
    ld: "or_fail (first (booking_by_id org (bk_id b0))) (ClientError server_error m_load_booking) w = (Inr b, u)"
    unfolding create_booking_def and_then_Inr by blast
  then have v: "v = s" by (simp add: ok_simps)
  have vr: "validate_create_booking (req\<lparr>cq_event := event\<rparr>) = Inr r" using val by (simp add: ok_simps)
  then have r: "r = req\<lparr>cq_event := event, cq_key := trim_space (cq_key req)\<rparr>"
    unfolding validate_create_booking_def Let_def by (auto split: if_splits)
  from tr obtain s1 u1 where "create_body x org user r now clock s1 = (Inr b0, u1)" "tabs s1 = tabs v" "tabs w = tabs u1"
    by (rule transaction_Inr)
  moreover have "booking_by_id org (bk_id b0) (tabs w) = Some b" "tabs u = tabs w"
    using first_Inr [of "booking_by_id org (bk_id b0)" w b u] ld by (simp_all add: or_fail_Inr)
  ultimately show ?thesis
    using that [of s1 b0 u1] v r validate_create_quantity [OF vr] by simp
qed

lemma transition_booking_Inr:
  assumes "transition_booking x org user i raw req now clock s = (Inr b, u)"
  obtains st b0 s1 u1 where "status_from_transition raw = Inr st"
    "transition_body x org user i (req\<lparr>tq_status := st\<rparr>) now clock s1 = (Inr b0, u1)"
    "tabs s1 = tabs s" "tabs u = tabs u1" "booking_by_id org (bk_id b0) (tabs u) = Some b"
proof -
  from assms obtain st t where
    st: "lift_res (as_client (status_from_transition raw)) s = (Inr st, t)" and
    rest: "and_then (reject (tq_status req \<noteq> [] \<and> tq_status req \<noteq> st) (ClientError bad_request m_status_mismatch))
      (\<lambda>_. let r = req\<lparr>tq_status := st\<rparr> in
        and_then (lift_res (as_client (validate_transition r))) (\<lambda>_.
        and_then (transaction (transition_body x org user i r now clock)) (\<lambda>updated.
        or_fail (first (booking_by_id org (bk_id updated))) (ClientError server_error m_load_booking)))) t = (Inr b, u)"
    unfolding transition_booking_def and_then_Inr by blast
  from rest obtain a t1 c t2 b0 w where
    "reject (tq_status req \<noteq> [] \<and> tq_status req \<noteq> st) (ClientError bad_request m_status_mismatch) t = (Inr a, t1)"
    "lift_res (as_client (validate_transition (req\<lparr>tq_status := st\<rparr>))) t1 = (Inr c, t2)" and
    tr: "transaction (transition_body x org user i (req\<lparr>tq_status := st\<rparr>) now clock) t2 = (Inr b0, w)" and
    ld: "or_fail (first (booking_by_id org (bk_id b0))) (ClientError server_error m_load_booking) w = (Inr b, u)"
    unfolding Let_def and_then_Inr by blast
  with st have t2: "t2 = s" "status_from_transition raw = Inr st" by (simp_all add: ok_simps)
  from tr obtain s1 u1 where "transition_body x org user i (req\<lparr>tq_status := st\<rparr>) now clock s1 = (Inr b0, u1)"
    "tabs s1 = tabs t2" "tabs w = tabs u1" by (rule transaction_Inr)
  moreover have "booking_by_id org (bk_id b0) (tabs w) = Some b" "tabs u = tabs w"
    using first_Inr [of "booking_by_id org (bk_id b0)" w b u] ld by (simp_all add: or_fail_Inr)
  ultimately show ?thesis using that [of st s1 b0 u1] t2 by simp
qed

text \<open>The bookings after a transition: one row rewritten.\<close>

lemma transition_rows:
  assumes "transition_body x org user i r now clock s = (Inr b', u)" and ids: "distinct (map bk_id (bookings (tabs s)))"
  obtains b where "b \<in> set (bookings (tabs s))" "bk_id b = i" "bk_org b = org" "\<not> bk_deleted b"
    "bk_version b = tq_version r" "transition_allowed (bk_status b) (tq_status r)"
    "bookings (tabs u) = map (\<lambda>c. if c = b then set_status user (tq_status r) (tq_reason r) now b else c) (bookings (tabs s))"
  using assms(1)
proof (rule transition_body_Inr)
  fix b e v
  let ?f = "set_status user (tq_status r) (tq_reason r) now"
  let ?p = "\<lambda>b. bk_id b = i \<and> bk_org b = org \<and> bk_version b = tq_version r \<and> \<not> bk_deleted b"
  assume b: "booking_by_id org i (tabs s) = Some b" "bk_version b = tq_version r"
    and ok: "transition_allowed (bk_status b) (tq_status r)" and v: "settles (tabs s) v"
    and u: "settles (restated org i (tq_version r) ?f
       (occupies_capacity (bk_status b) \<noteq> occupies_capacity (tq_status r)) (ev_id e) v) (tabs u)"
  note B = booking_by_id_SomeD [OF b(1)]
  have "bookings (tabs u) = update_where ?p ?f (bookings (tabs s))"
    using settles_rows [OF u] settles_rows [OF v] by (simp add: restated_def Let_def)
  also have "\<dots> = map (\<lambda>c. if c = b then ?f b else c) (bookings (tabs s))"
    unfolding update_where_def
  proof (rule map_cong)
    fix c
    assume c: "c \<in> set (bookings (tabs s))"
    have "?p c \<longleftrightarrow> c = b" using c B b(2) ids by (auto simp: distinct_map inj_on_def)
    then show "(if ?p c then ?f c else c) = (if c = b then ?f b else c)" by simp
  qed simp
  finally show ?thesis using that [of b] B b(2) ok by simp
qed

section \<open>The life of a booking\<close>

lemma bookings_audit [spares_intros]: "spares bookings (audit_change org user rtype rid action old new)"
  using audit_change_side [of org user rtype rid action old new] schedule_eqD(1) business_schedule
  unfolding side_def spares_def by metis

lemma spares_bookings_execute:
  assumes "\<And>t a t'. f t = Inr (a, t') \<Longrightarrow> bookings t' = bookings t"
  shows "spares bookings (execute f)"
  by (rule spares_execute) (rule assms)

lemma spares_bookings_writes [spares_intros]:
  "spares bookings (execute (insert_event e))" "spares bookings (execute (replace_event org i v d))"
  "spares bookings (execute (insert_time_off r))" "spares bookings (execute (replace_time_off org resource i v d2))"
  "spares bookings (execute (delete_time_off_row i))" "spares bookings (execute (insert_rule q))"
  "spares bookings (execute (replace_rule org resource i v d3))" "spares bookings (execute (delete_rule_row i))"
  "spares bookings (execute (insert_balance bal))" "spares bookings (execute (insert_ledger l))"
  by (rule spares_bookings_execute; auto simp: insert_event_def replace_event_def insert_time_off_def
      replace_time_off_def delete_time_off_row_def insert_rule_def replace_rule_def delete_rule_row_def
      insert_balance_def insert_ledger_def Let_def split: if_splits)+

lemma handlers_spare_bookings:
  "spares bookings (create_event x org user er)" "spares bookings (update_event x org user i er)"
  "spares bookings (create_time_off x org user resource tr)" "spares bookings (update_time_off x org user resource i tr)"
  "spares bookings (delete_time_off x org user resource i v)"
  "spares bookings (create_rule x org user resource rr)" "spares bookings (update_rule x org user resource i rr)"
  "spares bookings (delete_rule x org user resource i v)"
  "spares bookings (transaction (grant_credits x org p user now pre))"
  unfolding create_event_def update_event_def create_time_off_def update_time_off_def delete_time_off_def
    create_rule_def update_rule_def delete_rule_def Let_def check_slot_def ensure_event_available_def
    check_bookings_def ensure_time_off_free_def ensure_resource_tenant_def resource_location_def ensure_rule_free_def
    grant_credits_def grant_entitlement_def case_prod_beta
  by (intro spares_intros spares_for_each reads_intros reads_event_references reads_ensure_within_recurring)+

text \<open>What one request or one merge of contacts can do to the bookings.\<close>

inductive booking_move :: "booking_row list \<Rightarrow> booking_row list \<Rightarrow> bool" where
  stay: "booking_move bs bs"
| make: "bk_status b \<in> {s_reserved, s_confirmed, s_waitlisted} \<Longrightarrow> bk_version b = 1 \<Longrightarrow> bk_id b \<notin> bk_id ` set bs \<Longrightarrow>
    booking_move bs (bs @ [b])"
| advance: "b \<in> set bs \<Longrightarrow> transition_allowed (bk_status b) st \<Longrightarrow>
    booking_move bs (map (\<lambda>c. if c = b then set_status user st reason now b else c) bs)"
| handed: "booking_move bs (update_where (standalone org source) (\<lambda>b. b\<lparr>bk_contact := target\<rparr>) bs)"

lemma admit_status:
  "admit inp e n = Inr st \<Longrightarrow> st = ri_status inp \<or> st = s_waitlisted"
  by (auto simp: admit_def split: if_splits)

lemma new_booking_more [simp]:
  "bk_id (new_booking i org inp e st now) = i" "bk_version (new_booking i org inp e st now) = 1"
  "bk_contact (new_booking i org inp e st now) = ri_contact inp"
  "bk_key (new_booking i org inp e st now) = trim_space (ri_key inp)"
  by (simp_all add: new_booking_def)

lemma reserve_tx_status:
  assumes "reserve_tx x org raw now s = (Inr r, u)"
  shows "ri_status (normal_reserve raw) \<in> {s_reserved, s_confirmed, s_waitlisted}"
proof -
  from assms obtain a s0 where "check_reserve org (normal_reserve raw) s = (Inr a, s0)"
    unfolding reserve_tx_def Let_def and_then_Inr by blast
  then show ?thesis unfolding check_reserve_def by (auto simp: ok_simps)
qed

lemma booked_move:
  assumes "ri_status inp \<in> {s_reserved, s_confirmed, s_waitlisted}" and "admit inp e n = Inr st"
    and "b = new_booking i org inp e st now" and "unused t b"
  shows "booking_move (bookings t) (bookings (booked org e b t))"
  unfolding booked_rows
  by (rule make) (use assms admit_status [OF assms(2)] in \<open>auto simp: unused_def\<close>)

lemma reserve_tx_move:
  assumes "reserve_tx x org raw now s = (Inr r, u)"
  shows "booking_move (bookings (tabs s)) (bookings (tabs u))"
  using assms
proof (rule reserve_tx_Inr)
  fix i status and le :: loaded_event
  assume "r = \<lparr>rr_booking = new_booking i org (normal_reserve raw) (le_event le) status now, rr_event = Some le,
        rr_created = True, rr_now = now\<rparr>"
    and "admit (normal_reserve raw) (le_event le) (occupied_quantity org (ev_id (le_event le)) (tabs s)) = Inr status"
    and "unused (tabs s) (rr_booking r)" and "tabs u = booked org (le_event le) (rr_booking r) (tabs s)"
  with booked_move [OF reserve_tx_status [OF assms]] show ?thesis by simp
qed (simp add: stay)

lemma create_body_move:
  assumes "create_body x org user r now clock s = (Inr b, u)"
  shows "booking_move (bookings (tabs s)) (bookings (tabs u))"
proof -
  obtain res s1 where "reserve_tx x org (reserve_request user r) now s = (Inr res, s1)"
    using assms unfolding create_body_def and_then_Inr by blast
  note st = reserve_tx_status [OF this]
  from assms show ?thesis
  proof (rule create_body_Inr)
    fix i status and le :: loaded_event
    assume "b = new_booking i org (normal_reserve (reserve_request user r)) (le_event le) status now"
      and "admit (normal_reserve (reserve_request user r)) (le_event le)
         (occupied_quantity org (ev_id (le_event le)) (tabs s)) = Inr status"
      and "unused (tabs s) b" and s: "settles (booked org (le_event le) b (tabs s)) (tabs u)"
    with booked_move [OF st] settles_rows [OF s] show ?thesis by simp
  qed (simp add: stay)
qed

lemma transition_body_move:
  assumes "transition_body x org user i r now clock s = (Inr b, u)" and "distinct (map bk_id (bookings (tabs s)))"
  shows "booking_move (bookings (tabs s)) (bookings (tabs u))"
  using assms by (rule transition_rows) (simp add: advance)

text \<open>Whatever a step does to the bookings is a sequence of such moves.\<close>

definition lives :: "booking_row list \<Rightarrow> tables \<Rightarrow> bool" where
  "lives bs t \<longleftrightarrow> safe t \<and> booking_move\<^sup>*\<^sup>* bs (bookings t)"

lemma livesI: "lives bs t \<Longrightarrow> safe u \<Longrightarrow> booking_move (bookings t) (bookings u) \<Longrightarrow> lives bs u"
  by (auto simp: lives_def)

lemma lives_safe: "lives bs t \<Longrightarrow> safe t"
  by (simp add: lives_def)

lemma safe_ids: "safe t \<Longrightarrow> distinct (map bk_id (bookings t))"
  by (simp add: safe_def booking_ok_def)

lemma create_booking_lives: "keeps (lives bs) (create_booking x org user event req now clock)"
  unfolding create_booking_def
proof (intro keeps_and_then)
  fix s r t u and v :: unit
  assume "lift_res (as_client (validate_create_booking (req\<lparr>cq_event := event\<rparr>))) s = (Inr r, t)"
  then have "cq_quantity r \<le> 10000"
    using validate_create_quantity [of "req\<lparr>cq_event := event\<rparr>" r] by (simp add: ok_simps)
  then show "keeps (lives bs) (transaction (create_body x org user r now clock))"
    by (intro keeps_transaction) (metis livesI lives_safe create_body_safe create_body_move)
qed (intro keeps_reads reads_intros)+

lemma transition_booking_lives: "keeps (lives bs) (transition_booking x org user i raw req now clock)"
  unfolding transition_booking_def Let_def
proof (intro keeps_and_then)
  fix r
  show "keeps (lives bs) (transaction (transition_body x org user i r now clock))"
    by (intro keeps_transaction) (metis livesI lives_safe safe_ids transition_body_safe transition_body_move)
qed (intro keeps_reads reads_intros)+

lemma reserve_offer_lives: "ri_expected inp \<noteq> None \<Longrightarrow> keeps (lives bs) (transaction (reserve_tx x org inp now))"
  by (intro keeps_transaction) (metis ai_quantity reserve_tx_safe reserve_tx_move one_le_numeral livesI lives_safe)

lemma keeps_lives: "keeps safe m \<Longrightarrow> spares bookings m \<Longrightarrow> keeps (lives bs) m"
  unfolding keeps_def spares_def lives_def by simp

lemmas spared_lives = handlers_spare_bookings [THEN keeps_lives [rotated]]

lemma keeps_elsewhere: "keeps safe (create_rule x org user resource r)" "keeps safe (update_rule x org user resource i r)"
  "keeps safe (delete_rule x org user resource i v)"
  by (rule keeps_spares [OF rules_spare(1) safe_cong], assumption, rule keeps_spares [OF rules_spare(2) safe_cong],
      assumption, rule keeps_spares [OF rules_spare(3) safe_cong], assumption)

lemma serve_lives: "admissible r \<Longrightarrow> keeps (lives bs) (serve x org r)"
  by (cases r; simp only: serve.simps admissible.simps; intro keeps_silent create_booking_lives
      transition_booking_lives reserve_offer_lives spared_lives handlers_safe activate_safe keeps_elsewhere; assumption)

lemma step_lives: "booking_step x s u \<Longrightarrow> lives bs (tabs s) \<Longrightarrow> lives bs (tabs u)"
proof (induction rule: booking_step.induct)
  case (served r org s answer u)
  then show ?case using keepsD [OF serve_lives] by blast
next
  case (merged u org source target s)
  have "booking_move (bookings (tabs s)) (bookings (move_standalone org source target (tabs s)))"
    unfolding move_standalone_def by (simp add: handed)
  moreover have "bookings (tabs u) = bookings (move_standalone org source target (tabs s))"
    using merged(1) by (simp add: guarded_def)
  moreover have "safe (tabs u)" using merged moved_safe safe_cong lives_safe by blast
  ultimately show ?case using merged(2) livesI by metis
next
  case (elsewhere u s)
  then have "safe (tabs u) = safe (tabs s)" "bookings (tabs u) = bookings (tabs s)"
    using safe_cong [of "tabs u" "tabs s"] by (simp_all add: guarded_def)
  with elsewhere show ?case by (simp add: lives_def)
qed

lemma steps_move:
  assumes "(booking_step x)\<^sup>*\<^sup>* s u" and "safe (tabs s)"
  shows "booking_move\<^sup>*\<^sup>* (bookings (tabs s)) (bookings (tabs u))"
proof -
  have "lives (bookings (tabs s)) (tabs u)"
    using assms(1)
  proof induction
    case base
    show ?case using assms(2) by (simp add: lives_def)
  next
    case (step y z)
    then show ?case by (blast intro: step_lives)
  qed
  then show ?thesis by (simp add: lives_def)
qed

text \<open>
  The columns of a booking no step writes, the contact of a booking paid for with a package among them, and
  how many moves are left in a status.
\<close>

definition same_booking :: "booking_row \<Rightarrow> booking_row \<Rightarrow> bool" where
  "same_booking b c \<longleftrightarrow> bk_id c = bk_id b \<and> bk_org c = bk_org b \<and> bk_event c = bk_event b
     \<and> bk_quantity c = bk_quantity b \<and> bk_package c = bk_package b \<and> bk_key c = bk_key b \<and> bk_deleted c = bk_deleted b
     \<and> (bk_package b \<noteq> None \<longrightarrow> bk_contact c = bk_contact b)"

definition moves_left :: "string \<Rightarrow> nat" where
  "moves_left st = (if st = s_waitlisted then 4 else if st = s_reserved then 3
     else if st = s_confirmed then 2 else if st = s_checked_in then 1 else 0)"

lemma transition_decreases: "transition_allowed a b \<Longrightarrow> moves_left b < moves_left a"
  by (auto simp: transition_allowed_def moves_left_def split: if_splits)

lemma transitions_bounded: "(transition_allowed ^^ n) a b \<Longrightarrow> n + moves_left b \<le> moves_left a"
proof (induction n arbitrary: b)
  case (Suc n)
  then obtain c where "(transition_allowed ^^ n) a c" "transition_allowed c b" by auto
  with Suc.IH [of c] transition_decreases [of c b] show ?case by simp
qed simp

definition grown :: "booking_row \<Rightarrow> booking_row \<Rightarrow> nat \<Rightarrow> bool" where
  "grown b c n \<longleftrightarrow> same_booking b c \<and> bk_version c = bk_version b + int n
     \<and> (transition_allowed ^^ n) (bk_status b) (bk_status c) \<and> (n = 0 \<longrightarrow> c = b\<lparr>bk_contact := bk_contact c\<rparr>)"

lemma grown_refl: "grown b b 0"
  by (simp add: grown_def same_booking_def)

lemma grown_restated:
  "transition_allowed (bk_status a) st \<Longrightarrow> grown a (set_status user st reason now a) 1"
  unfolding grown_def same_booking_def by (simp add: OO_def)

lemma grown_handed: "bk_package b = None \<Longrightarrow> grown b (b\<lparr>bk_contact := target\<rparr>) 0"
  by (simp add: grown_def same_booking_def)

lemma move_grows:
  assumes "booking_move bs cs" and "b \<in> set bs"
  shows "\<exists>c\<in>set cs. \<exists>n. grown b c n"
  using assms(1)
proof cases
  case stay
  with assms(2) grown_refl show ?thesis by blast
next
  case (make c)
  with assms(2) have "b \<in> set cs" by simp
  with grown_refl show ?thesis by blast
next
  case (advance a st user reason now)
  let ?f = "\<lambda>c. if c = a then set_status user st reason now a else c"
  have "?f b \<in> set cs" unfolding advance(1) set_map using assms(2) by (rule imageI)
  moreover have "\<exists>n. grown b (?f b) n"
  proof (cases "b = a")
    case True
    with grown_restated [OF advance(3)] show ?thesis by (intro exI [of _ 1]) simp
  next
    case False
    with grown_refl show ?thesis by auto
  qed
  ultimately show ?thesis by blast
next
  case (handed org source target)
  let ?f = "\<lambda>c. if standalone org source c then c\<lparr>bk_contact := target\<rparr> else c"
  have "?f b \<in> set cs" unfolding handed update_where_def set_map using assms(2) by (rule imageI)
  moreover have "grown b (?f b) 0"
    using grown_handed [of b target] grown_refl [of b] by (simp add: standalone_def)
  ultimately show ?thesis by blast
qed

lemma same_booking_trans: "same_booking a b \<Longrightarrow> same_booking b c \<Longrightarrow> same_booking a c"
  by (simp add: same_booking_def)

lemma grown_trans:
  assumes "grown a b n" and "grown b c m"
  shows "grown a c (n + m)"
proof -
  have "(transition_allowed ^^ (n + m)) (bk_status a) (bk_status c)"
    using assms unfolding grown_def relpowp_add by blast
  moreover have "c = a\<lparr>bk_contact := bk_contact c\<rparr>" if "n + m = 0"
  proof -
    have b: "b = a\<lparr>bk_contact := bk_contact b\<rparr>" and c: "c = b\<lparr>bk_contact := bk_contact c\<rparr>"
      using assms that unfolding grown_def by blast+
    show ?thesis by (rule trans [OF c]) (subst b, simp)
  qed
  moreover have "same_booking a c" "bk_version c = bk_version a + int (n + m)"
    using assms same_booking_trans [of a b c] by (simp_all add: grown_def)
  ultimately show ?thesis unfolding grown_def by blast
qed

lemma moves_grow:
  assumes "booking_move\<^sup>*\<^sup>* bs cs" and "b \<in> set bs"
  shows "\<exists>c\<in>set cs. \<exists>n. grown b c n"
  using assms(1)
proof induction
  case base
  with assms(2) grown_refl show ?case by blast
next
  case (step cs ds)
  with move_grows [OF step(2)] grown_trans show ?case by blast
qed

text \<open>
  C3: the life of a booking. Whatever is served and whichever contacts are merged after a booking exists, it is
  still there, for the same event, number of places, package and idempotency key; its status has moved along
  the permitted transitions, its version counts them, and there are at most four. A merge can hand a booking
  without a package to another contact; a booking paid for with a package keeps its contact. A booking that
  was completed, cancelled or missed is unchanged but for such a hand-over.
\<close>
theorem life_of_a_booking:
  assumes "reachable x s" and "(booking_step x)\<^sup>*\<^sup>* s u" and "b \<in> set (bookings (tabs s))"
  shows "\<exists>c\<in>set (bookings (tabs u)). \<exists>n\<le>4. same_booking b c \<and> bk_version c = bk_version b + int n
    \<and> (transition_allowed ^^ n) (bk_status b) (bk_status c)
    \<and> (bk_status b \<in> {s_completed, s_cancelled, s_no_show} \<longrightarrow> c = b\<lparr>bk_contact := bk_contact c\<rparr>)"
proof -
  from moves_grow [OF steps_move [OF assms(2) reachable_safe [OF assms(1)]] assms(3)]
  obtain c n where c: "c \<in> set (bookings (tabs u))" "grown b c n" by blast
  then have "n \<le> moves_left (bk_status b)" using transitions_bounded unfolding grown_def by fastforce
  moreover have "moves_left st \<le> 4" "st \<in> {s_completed, s_cancelled, s_no_show} \<Longrightarrow> moves_left st = 0" for st
    by (auto simp: moves_left_def)
  ultimately have "n \<le> 4" "bk_status b \<in> {s_completed, s_cancelled, s_no_show} \<Longrightarrow> n = 0"
    by (fastforce intro: order_trans)+
  with c show ?thesis unfolding grown_def by blast
qed

section \<open>Replays\<close>

text \<open>The booking a successful reservation answers with is stored, under the key of the request.\<close>

definition made_for :: "uuid \<Rightarrow> booking_request \<Rightarrow> booking_row \<Rightarrow> bool" where
  "made_for org r b \<longleftrightarrow> bk_org b = org \<and> bk_key b = trim_space (cq_key r) \<and> bk_event b = cq_event r
     \<and> bk_contact b = cq_contact r \<and> bk_quantity b = cq_quantity r \<and> bk_package b = cq_package r"

lemma reserve_request_simps [simp]:
  "ri_event (reserve_request user r) = cq_event r" "ri_contact (reserve_request user r) = cq_contact r"
  "ri_quantity (reserve_request user r) = cq_quantity r" "ri_package (reserve_request user r) = cq_package r"
  "ri_key (reserve_request user r) = cq_key r"
  by (simp_all add: reserve_request_def)

lemma normal_reserve_more [simp]:
  "ri_event (normal_reserve inp) = ri_event inp" "ri_contact (normal_reserve inp) = ri_contact inp"
  "ri_package (normal_reserve inp) = ri_package inp" "ri_key (normal_reserve inp) = trim_space (ri_key inp)"
  by (simp_all add: normal_reserve_def)

lemma create_body_stored:
  assumes "create_body x org user r now clock s = (Inr b, u)"
  shows "b \<in> set (bookings (tabs u)) \<and> made_for org r b
    \<and> (tabs u = tabs s \<or> (\<forall>c\<in>set (bookings (tabs s)). bk_org c \<noteq> org \<or> bk_key c \<noteq> bk_key b))"
proof -
  let ?inp = "reserve_request user r"
  obtain res s1 where rv: "reserve_tx x org ?inp now s = (Inr res, s1)"
    and rest: "(let b = rr_booking res in
     case rr_event res of
       None \<Rightarrow> ret b
     | Some le \<Rightarrow>
         and_then (charge_booking x org user b (le_event le) (rr_now res) clock) (\<lambda>_.
         and_then (record_tx x org clock (created_activity x user b (le_event le) (rr_now res))) (\<lambda>_.
         and_then (audit_change org user ''booking'' (bk_id b) ''created'' None (Some (booking_json x b))) (\<lambda>_.
         ret b)))) s1 = (Inr b, u)"
    using assms unfolding create_body_def and_then_Inr by blast
  from rv show ?thesis
  proof (rule reserve_tx_Inr)
    fix b0
    assume "res = replayed b0" "tabs s1 = tabs s" "booking_with_key org (trim_space (ri_key ?inp)) (tabs s) = Some b0"
      "\<not> other_booking b0 (normal_reserve ?inp)"
    with rest booking_with_key_SomeD [of org "trim_space (ri_key ?inp)" "tabs s" b0] show ?thesis
      by (auto simp: replayed_def ret_Inr other_booking_def made_for_def)
  next
    fix i status and le :: loaded_event
    assume res: "res = \<lparr>rr_booking = new_booking i org (normal_reserve ?inp) (le_event le) status now,
        rr_event = Some le, rr_created = True, rr_now = now\<rparr>"
      and ev: "event_by_id org (ri_event ?inp) (tabs s) = Some (le_event le)"
    from rest res have b: "b = new_booking i org (normal_reserve ?inp) (le_event le) status now"
      by (auto simp: Let_def ok_simps)
    then have "made_for org r b" using event_by_id_SomeD [OF ev] by (simp add: made_for_def trim_space_idem)
    moreover from assms have "b \<in> set (bookings (tabs u))
      \<and> (tabs u = tabs s \<or> (\<forall>c\<in>set (bookings (tabs s)). bk_org c \<noteq> org \<or> bk_key c \<noteq> bk_key b))"
    proof (rule create_body_Inr)
      fix le' :: loaded_event
      assume "unused (tabs s) b" "settles (booked org (le_event le') b (tabs s)) (tabs u)"
      with settles_rows [of "booked org (le_event le') b (tabs s)" "tabs u"] b show ?thesis
        by (auto simp: booked_rows unused_def)
    qed simp
    ultimately show ?thesis by blast
  qed
qed

lemma reachable_steps: "(booking_step x)\<^sup>*\<^sup>* u v \<Longrightarrow> reachable x u \<Longrightarrow> reachable x v"
proof (induction rule: rtranclp_induct)
  case (step y z)
  then show ?case by (blast intro: reachable.step)
qed

lemma unique_booking:
  assumes "safe t" and "b \<in> set (bookings t)" and "c \<in> set (bookings t)"
  shows "bk_id b = bk_id c \<Longrightarrow> b = c" "bk_org b = bk_org c \<Longrightarrow> bk_key b = bk_key c \<Longrightarrow> b = c"
proof -
  have "inj_on bk_id (set (bookings t))" "inj_on (\<lambda>b. (bk_org b, bk_key b)) (set (bookings t))"
    using assms(1) by (simp_all add: safe_def booking_ok_def distinct_map)
  then show "bk_id b = bk_id c \<Longrightarrow> b = c" "bk_org b = bk_org c \<Longrightarrow> bk_key b = bk_key c \<Longrightarrow> b = c"
    using assms(2,3) by (auto dest: inj_onD)
qed

lemma create_booking_valid:
  assumes "create_booking x org user event req now clock s = (Inr b, u)"
  shows "(cq_event req = nil_uuid \<or> cq_event req = event) \<and>
    validate_create_booking (req\<lparr>cq_event := event\<rparr>) = Inr (req\<lparr>cq_event := event, cq_key := trim_space (cq_key req)\<rparr>)"
proof -
  from assms obtain a t r v where
    "reject (cq_event req \<noteq> nil_uuid \<and> cq_event req \<noteq> event) (ClientError bad_request m_event_mismatch) s = (Inr a, t)"
    "lift_res (as_client (validate_create_booking (req\<lparr>cq_event := event\<rparr>))) t = (Inr r, v)"
    unfolding create_booking_def and_then_Inr by blast
  moreover then have "r = req\<lparr>cq_event := event, cq_key := trim_space (cq_key req)\<rparr>"
    by (auto simp: ok_simps validate_create_booking_def Let_def split: if_splits)
  ultimately show ?thesis by (simp add: ok_simps)
qed

text \<open>The request sent again, by anyone who is logged in, passes the same checks.\<close>

lemma check_reserve_again:
  assumes "create_body x org user r now clock s = (Inr b, u)" and "user2 \<noteq> nil_uuid"
  shows "check_reserve org (normal_reserve (reserve_request user2 r)) v = (Inr (), v)"
proof -
  from assms(1) obtain a t where "check_reserve org (normal_reserve (reserve_request user r)) s = (Inr a, t)"
    unfolding create_body_def reserve_tx_def Let_def and_then_Inr by blast
  with assms(2) show ?thesis
    by (auto simp: check_reserve_def ok_simps and_then_def reject_def normal_reserve_def reserve_request_def
        ai_exceeds_authority_def ret_def fail_def split: if_splits)
qed

lemma first_in_only: "set rs = {r} \<Longrightarrow> first_in p rs = Some r"
proof (induction rs)
  case (Cons a rs)
  then have "a = r" by auto
  from Cons.prems consider "rs = []" | "set rs = {r}" by (cases rs) auto
  then show ?case using Cons.IH \<open>a = r\<close> by cases (simp_all split: if_splits)
qed simp

lemma stored_booking_found:
  assumes "safe t" and "d \<in> set (bookings t)" and "bk_org d = org" and "\<not> bk_deleted d"
  shows "booking_with_key org (bk_key d) t = Some d" "booking_by_id org (bk_id d) t = Some d"
  unfolding booking_with_key_def booking_by_id_def
  by (rule first_in_only, use assms unique_booking [OF assms(1,2)] in force)+

lemma create_body_again:
  assumes "create_body x org user r now clock s = (Inr b, u)" and "user2 \<noteq> nil_uuid" and "faults v = []"
    and "booking_with_key org (trim_space (cq_key r)) (tabs v) = Some d"
    and "bk_event d = cq_event r" "bk_quantity d = cq_quantity r" "bk_package d = cq_package r"
  shows "create_body x org user2 r now2 clock2 v
    = (if bk_contact d = cq_contact r then Inr d else Inl (conflict m_key_reused), v)"
proof -
  let ?inp = "normal_reserve (reserve_request user2 r)"
  have key: "query (booking_with_key org (trim_space (cq_key r))) v = (Inr (Some d), v)"
    using assms(4) by (simp add: query_calm [OF assms(3)])
  have "other_booking d ?inp \<longleftrightarrow> bk_contact d \<noteq> cq_contact r"
    using assms(5-7) by (auto simp: other_booking_def normal_reserve_def)
  then have "lookup_booking org ?inp v = (if bk_contact d = cq_contact r then Inr (Some d) else Inl (conflict m_key_reused), v)"
    unfolding lookup_booking_def by (simp add: and_then_def key reject_def ret_def fail_def)
  then have "reserve_tx x org (reserve_request user2 r) now2 v
      = (if bk_contact d = cq_contact r then Inr (replayed d) else Inl (conflict m_key_reused), v)"
    unfolding reserve_tx_def Let_def
    by (simp add: and_then_def check_reserve_again [OF assms(1,2)] ret_def del: normal_reserve_more)
  then show ?thesis unfolding create_body_def by (simp add: and_then_def replayed_def ret_def)
qed

lemma transaction_idle: "faults s = [] \<Longrightarrow> m s = (r, s) \<Longrightarrow> transaction m s = (r, s)"
  by (cases r) (simp_all add: transaction_def and_then_def poll_calm ret_def)

text \<open>
  C15: a booking is made exactly once. After \<open>CreateBooking\<close> succeeded, and whatever was served and merged
  since, the booking is still there, and the same request, sent again by any user when the database answers,
  writes nothing: it is answered with the booking as far as it has moved on, or, when a merge of contacts
  handed the booking to another contact, with the conflict of a reused key.
\<close>
theorem booking_exactly_once:
  assumes "reachable x s" and "create_booking x org user event req now clock s = (Inr b, u)"
    and "(booking_step x)\<^sup>*\<^sup>* u v" and "faults v = []" and "user2 \<noteq> nil_uuid"
  shows "\<exists>d\<in>set (bookings (tabs v)). same_booking b d \<and>
    create_booking x org user2 event req now2 clock2 v =
      (if bk_contact d = cq_contact req then Inr d
       else Inl (DomainError ''conflict'' ''Idempotency key was already used for a different booking''), v)"
proof -
  let ?r = "req\<lparr>cq_event := event, cq_key := trim_space (cq_key req)\<rparr>"
  have step: "booking_step x s u"
    by (rule booking_step.served [where r = "CreateBooking user event req now clock" and org = org and answer = "Inr ()"])
      (simp_all add: assms(2) and_then_def ret_def)
  have u: "reachable x u" using assms(1) step by (rule reachable.step)
  with assms(3) have okv: "safe (tabs v)" by (blast intro: reachable_safe reachable_steps)
  obtain b0 s1 u1 where run: "create_body x org user ?r now clock s1 = (Inr b0, u1)"
    and t: "tabs s1 = tabs s" "tabs u = tabs u1" and ld: "booking_by_id org (bk_id b0) (tabs u) = Some b"
    using assms(2) by (rule create_booking_Inr)
  note B = create_body_stored [OF run] and L = booking_by_id_SomeD [OF ld]
  have "b = b0" by (rule unique_booking(1) [OF reachable_safe [OF u]]) (use B L t in simp_all)
  with B L t have b: "b \<in> set (bookings (tabs u))" "made_for org ?r b" "\<not> bk_deleted b" by simp_all
  from moves_grow [OF steps_move [OF assms(3) reachable_safe [OF u]] b(1)]
  obtain d n where d: "d \<in> set (bookings (tabs v))" "grown b d n" by blast
  then have same: "same_booking b d" by (simp add: grown_def)
  have D: "bk_org d = org" "\<not> bk_deleted d" "bk_key d = trim_space (cq_key ?r)" "bk_event d = cq_event ?r"
    "bk_quantity d = cq_quantity ?r" "bk_package d = cq_package ?r"
    using same b(2,3) by (simp_all add: same_booking_def made_for_def)
  note found = stored_booking_found [OF okv d(1) D(1,2)]
  have "booking_with_key org (trim_space (cq_key ?r)) (tabs v) = Some d" using found(1) unfolding D(3) .
  from transaction_idle [where m = "create_body x org user2 ?r now2 clock2", OF assms(4) create_body_again [OF run assms(5,4) this D(4-6)]]
  have body: "transaction (create_body x org user2 ?r now2 clock2) v
      = (if bk_contact d = cq_contact req then Inr d else Inl (conflict m_key_reused), v)" by simp
  have ok: "cq_event req = nil_uuid \<or> cq_event req = event" "validate_create_booking (req\<lparr>cq_event := event\<rparr>) = Inr ?r"
    using create_booking_valid [OF assms(2)] by blast+
  have "create_booking x org user2 event req now2 clock2 v
      = (if bk_contact d = cq_contact req then Inr d else Inl (conflict m_key_reused), v)"
    using ok found(2) by (auto simp: create_booking_def and_then_def reject_def ret_def lift_res_def as_client_def body
        or_fail_def first_calm [OF assms(4)])
  with d(1) same show ?thesis unfolding conflict_def m_key_reused_def by blast
qed

end
