(* ===== verification/StaleWrites.thy ===== *)
theory StaleWrites
  imports BookingProperties
begin

text \<open>
  Optimistic version control: the tables whose rows carry a version are interpreted as versioned, and
  a request that was prepared against an older version of a row is refused.
\<close>

interpretation booking_versions: versioned bk_id bk_org bk_version bk_deleted
    "\<lambda>(user, st, why, now). set_status user st why now"
  by unfold_locales (auto split: prod.split)

interpretation event_versions: versioned ev_id ev_org ev_version ev_deleted edit_event
  by unfold_locales (auto simp: edit_event_def split: prod.split)

interpretation rule_versions: versioned ar_id ar_org ar_version ar_deleted edit_rule
  by unfold_locales (auto simp: edit_rule_def split: prod.split)

interpretation time_off_versions: versioned to_id to_org to_version to_deleted edit_time_off
  by unfold_locales (auto simp: edit_time_off_def split: prod.split)

lemma hit_event_guard: "hit_event org i v = event_versions.guard org i v"
  by (rule ext) (auto simp: hit_event_def event_versions.guard_def)

text \<open>
  No lost update on events. Of two replacements of an event that were both prepared against the same
  version, the second is refused and changes nothing.
\<close>
theorem second_event_update_refused:
  assumes "reachable x s" and "update_event x org user i r s = (Inr e, u)" and "eq_version q = eq_version r"
  shows "\<exists>err w. update_event x org user2 i q u = (Inl err, w) \<and> tabs w = tabs u"
proof -
  let ?g = "event_versions.guard org i (eq_version r)"
  have gone: "rows_affected ?g (events (tabs u)) = 0"
    using assms(2)
  proof (rule update_event_Inr)
    fix old and s1 :: "tables db"
    assume old: "event_by_id org i (tabs s) = Some old" "ev_version old = eq_version r"
      and s1: "tabs s1 = (tabs s)\<lparr>events := update_where (hit_event org i (eq_version r)) (edit_event (r, user)) (events (tabs s))\<rparr>"
      and b: "business (tabs u) = business (tabs s1)"
    have "rows_affected ?g (events (tabs s)) \<noteq> 0"
      using event_by_id_SomeD [OF old(1)] old(2)
      by (auto simp: rows_affected_def filter_empty_conv event_versions.guard_def)
    moreover have "distinct (map ev_id (events (tabs s)))"
      using reachable_safe [OF assms(1)] by (simp add: safe_def booking_ok_def)
    moreover have "events (tabs u) = event_versions.edited org i (eq_version r) (r, user) (events (tabs s))"
      using settles_rows [OF settles_side [OF b]] s1 by (simp add: event_versions.edited_def hit_event_guard)
    ultimately show ?thesis using event_versions.no_lost_update by metis
  qed
  obtain res w where run: "update_event x org user2 i q u = (res, w)" by (cases "update_event x org user2 i q u")
  show ?thesis
  proof (cases res)
    case (Inl err)
    with run atomicD [OF handlers_atomic(2), of x org user2 i q u err w] show ?thesis by simp
  next
    case (Inr f)
    with run have "update_event x org user2 i q u = (Inr f, w)" by simp
    then show ?thesis
    proof (rule update_event_Inr)
      fix old
      assume "event_by_id org i (tabs u) = Some old" "ev_version old = eq_version q"
      with event_by_id_SomeD [of org i "tabs u" old] gone assms(3) show ?thesis
        by (auto simp: rows_affected_def filter_empty_conv event_versions.guard_def)
    qed
  qed
qed

section \<open>Stale transitions\<close>

text \<open>A request that changed a table ran the body of its transaction to the end.\<close>

lemma transition_booking_commits:
  assumes "transition_booking x org user i raw req now clock s = (res, u)" and "tabs u \<noteq> tabs s"
  obtains st b s1 u1 where
    "transition_body x org user i (req\<lparr>tq_status := st\<rparr>) now clock s1 = (Inr b, u1)" "tabs s1 = tabs s"
proof (rule ccontr)
  assume no: "\<not> thesis"
  have none: "tabs s1 \<noteq> tabs s"
    if "transition_body x org user i (req\<lparr>tq_status := st\<rparr>) now clock s1 = (Inr b, u1)" for st b s1 u1
    using no that(1) \<open>\<And>st b s1 u1. transition_body x org user i (req\<lparr>tq_status := st\<rparr>) now clock s1 = (Inr b, u1) \<Longrightarrow>
      tabs s1 = tabs s \<Longrightarrow> thesis\<close> by blast
  have "keeps (\<lambda>t. t = tabs s) (transition_booking x org user i raw req now clock)"
    unfolding transition_booking_def Let_def
  proof (intro keeps_and_then)
    fix st
    show "keeps (\<lambda>t. t = tabs s) (transaction (transition_body x org user i (req\<lparr>tq_status := st\<rparr>) now clock))"
      by (rule keeps_transaction) (drule none, simp)
  qed (intro keeps_reads reads_intros)+
  from keepsD [OF this assms(1)] assms(2) show False by simp
qed

lemma transition_booking_version:
  assumes "transition_booking x org user i raw req now clock s = (Inr b, u)" and "safe (tabs s)"
  obtains a c where "a \<in> set (bookings (tabs s))" "bk_id a = i" "bk_org a = org" "bk_version a = tq_version req"
    "c \<in> set (bookings (tabs u))" "bk_id c = i" "bk_version c = tq_version req + 1"
  using assms(1)
proof (rule transition_booking_Inr)
  fix st b0 s1 u1
  assume run: "transition_body x org user i (req\<lparr>tq_status := st\<rparr>) now clock s1 = (Inr b0, u1)"
    and t: "tabs s1 = tabs s" "tabs u = tabs u1"
  have ids: "distinct (map bk_id (bookings (tabs s1)))" using assms(2) t by (simp add: safe_ids)
  from run ids show ?thesis
  proof (rule transition_rows)
    fix a
    let ?r = "req\<lparr>tq_status := st\<rparr>"
    let ?f = "set_status user (tq_status ?r) (tq_reason ?r) now"
    assume a: "a \<in> set (bookings (tabs s1))" "bk_id a = i" "bk_org a = org" "bk_version a = tq_version ?r"
      and u1: "bookings (tabs u1) = map (\<lambda>c. if c = a then ?f a else c) (bookings (tabs s1))"
    have "?f a \<in> set (bookings (tabs u1))" unfolding u1 using a(1) by force
    with a t show ?thesis by (intro that [of a "?f a"]) simp_all
  qed
qed

text \<open>
  C17: no lost update on bookings. Once a transition of a booking succeeded, every later transition that names
  the same or an older version is refused and changes nothing, whatever was served in between.
\<close>
theorem stale_transition_refused:
  assumes "reachable x s" and "transition_booking x org user i raw req now clock s = (Inr b, u)"
    and "(booking_step x)\<^sup>*\<^sup>* u v" and "tq_version req2 \<le> tq_version req"
  shows "\<exists>err w. transition_booking x org user2 i raw2 req2 now2 clock2 v = (Inl err, w)
    \<and> tabs w = tabs v"
proof -
  have step: "booking_step x s u"
    by (rule booking_step.served [where r = "TransitionBooking user i raw req now clock" and org = org and answer = "Inr ()"])
      (simp_all add: assms(2) and_then_def ret_def)
  have u: "reachable x u" using assms(1) step by (rule reachable.step)
  with assms(3) have okv: "safe (tabs v)" by (blast intro: reachable_safe reachable_steps)
  obtain c where c: "c \<in> set (bookings (tabs u))" "bk_id c = i" "bk_version c = tq_version req + 1"
    using assms(2) reachable_safe [OF assms(1)] by (rule transition_booking_version)
  from moves_grow [OF steps_move [OF assms(3) reachable_safe [OF u]] c(1)]
  obtain d n where d: "d \<in> set (bookings (tabs v))" "grown c d n" by blast
  obtain res w where run: "transition_booking x org user2 i raw2 req2 now2 clock2 v = (res, w)"
    by (cases "transition_booking x org user2 i raw2 req2 now2 clock2 v")
  have same: "tabs w = tabs v"
  proof (rule ccontr)
    assume "tabs w \<noteq> tabs v"
    with run obtain st b' s1 u1 where
      "transition_body x org user2 i (req2\<lparr>tq_status := st\<rparr>) now2 clock2 s1 = (Inr b', u1)" and t: "tabs s1 = tabs v"
      by (rule transition_booking_commits)
    from this(1) show False
    proof (rule transition_rows)
      show "distinct (map bk_id (bookings (tabs s1)))" using okv t by (simp add: safe_ids)
      fix a
      assume "a \<in> set (bookings (tabs s1))" "bk_id a = i" "bk_version a = tq_version (req2\<lparr>tq_status := st\<rparr>)"
      with unique_booking(1) [OF okv _ d(1), of a] c d(2) t assms(4) show False
        by (auto simp: grown_def same_booking_def)
    qed
  qed
  show ?thesis
  proof (cases res)
    case (Inl err)
    with run same show ?thesis by simp
  next
    case (Inr f)
    with run have "transition_booking x org user2 i raw2 req2 now2 clock2 v = (Inr f, w)" by simp
    from this okv obtain a where a: "a \<in> set (bookings (tabs v))" "bk_id a = i" "bk_version a = tq_version req2"
      by (rule transition_booking_version)
    have "a = d" using unique_booking(1) [OF okv a(1) d(1)] a(2) c(2) d(2) by (simp add: grown_def same_booking_def)
    with a(3) c(3) d(2) assms(4) show ?thesis by (simp add: grown_def)
  qed
qed

end
