(* ===== verification/SeatRefinement.thy ===== *)
theory SeatRefinement
  imports StaleWrites
begin

text \<open>
  What the booking system promises, without tables: every event has a capacity and a number of places
  taken, and a request takes some, frees some, opens an event, resizes one, or does none of this. Which of
  these a request asks for is read off the request and the rows it names, and what the handlers do to the
  tables is exactly that action.
\<close>

section \<open>The abstract machine\<close>

type_synonym plan = "uuid \<Rightarrow> (int \<times> int) option"

datatype seat_action = Idle | Open uuid int | Take uuid int | Free uuid int | Resize uuid int

fun perform :: "seat_action \<Rightarrow> plan \<Rightarrow> plan option" where
  "perform Idle m = Some m"
| "perform (Open e c) m = (if m e = None \<and> 1 \<le> c \<and> c \<le> 10000 then Some (m(e \<mapsto> (c, 0))) else None)"
| "perform (Take e q) m = (case m e of None \<Rightarrow> None
    | Some (c, n) \<Rightarrow> if 1 \<le> q \<and> n + q \<le> c then Some (m(e \<mapsto> (c, n + q))) else None)"
| "perform (Free e q) m = (case m e of None \<Rightarrow> None
    | Some (c, n) \<Rightarrow> if 1 \<le> q \<and> q \<le> n then Some (m(e \<mapsto> (c, n - q))) else None)"
| "perform (Resize e d) m = (case m e of None \<Rightarrow> None
    | Some (c, n) \<Rightarrow> if 1 \<le> d \<and> d \<le> 10000 \<and> n \<le> d then Some (m(e \<mapsto> (d, n))) else None)"

definition event_row_of :: "uuid \<Rightarrow> tables \<Rightarrow> event_row option" where
  "event_row_of i t = List.find (\<lambda>e. ev_id e = i) (events t)"

definition plan_of :: "tables \<Rightarrow> plan" where
  "plan_of t = (\<lambda>i. map_option (\<lambda>e. (ev_capacity e, occupied_quantity (ev_org e) i t)) (event_row_of i t))"

section \<open>What a request asks for\<close>

definition room :: "plan \<Rightarrow> uuid \<Rightarrow> int \<Rightarrow> bool" where
  "room m e q \<longleftrightarrow> (case m e of None \<Rightarrow> False | Some (c, n) \<Rightarrow> n + q \<le> c)"

text \<open>
  A reservation takes its places unless its key has made a booking before, it asks for the waiting list, or
  the places are not free, when it is put on the waiting list or refused.
\<close>

definition reserve_action :: "uuid \<Rightarrow> reserve_input \<Rightarrow> tables \<Rightarrow> seat_action" where
  "reserve_action org inp t =
     (if booking_with_key org (trim_space (ri_key inp)) t = None \<and> ri_status inp \<noteq> s_waitlisted
         \<and> room (plan_of t) (ri_event inp) (ri_quantity inp)
      then Take (ri_event inp) (ri_quantity inp) else Idle)"

text \<open>A transition moves the places of its own booking, when one of the two statuses occupies them and the other does not.\<close>

definition status_action :: "uuid \<Rightarrow> uuid \<Rightarrow> string \<Rightarrow> tables \<Rightarrow> seat_action" where
  "status_action org i st t =
     (case booking_by_id org i t of None \<Rightarrow> Idle | Some b \<Rightarrow>
        if occupies_capacity (bk_status b) = occupies_capacity st then Idle
        else if occupies_capacity st then Take (bk_event b) (bk_quantity b)
        else Free (bk_event b) (bk_quantity b))"

fun asked :: "env \<Rightarrow> uuid \<Rightarrow> request \<Rightarrow> tables db \<Rightarrow> seat_action" where
  "asked x org (CreateBooking user event r now clock) s =
     reserve_action org (reserve_request user (r\<lparr>cq_event := event\<rparr>)) (tabs s)"
| "asked x org (TransitionBooking user i raw r now clock) s =
     (case status_from_transition raw of Inl _ \<Rightarrow> Idle | Inr st \<Rightarrow> status_action org i st (tabs s))"
| "asked x org (ReserveOffer inp now) s = reserve_action org inp (tabs s)"
| "asked x org (CreateEvent user r) s = Open (fresh_uuid x (minted s)) (eq_capacity r)"
| "asked x org (UpdateEvent user i r) s = Resize i (eq_capacity r)"
| "asked x org _ s = Idle"

section \<open>Looking an event up\<close>

lemma event_row_of_SomeD: "event_row_of i t = Some e \<Longrightarrow> e \<in> set (events t) \<and> ev_id e = i"
  unfolding event_row_of_def by (drule find_Some_mem) simp

lemma event_row_of_None: "event_row_of i t = None \<longleftrightarrow> (\<forall>e\<in>set (events t). ev_id e \<noteq> i)"
  by (auto simp: event_row_of_def find_None_iff)

lemma event_row_ofI:
  assumes "safe t" and "e \<in> set (events t)"
  shows "event_row_of (ev_id e) t = Some e"
proof (cases "event_row_of (ev_id e) t")
  case None
  with assms(2) show ?thesis by (auto simp: event_row_of_None)
next
  case (Some f)
  note F = event_row_of_SomeD [OF Some]
  have "inj_on ev_id (set (events t))" using assms(1) by (simp add: safe_def booking_ok_def distinct_map)
  with F assms(2) Some show ?thesis by (auto dest: inj_onD)
qed

lemma find_update_where:
  "(\<And>e. ev_id (f e) = ev_id e) \<Longrightarrow> List.find (\<lambda>e. ev_id e = i) (update_where p f es)
    = map_option (\<lambda>e. if p e then f e else e) (List.find (\<lambda>e. ev_id e = i) es)"
  by (induction es) (auto simp: update_where_def)

lemma find_snoc:
  "List.find P (xs @ [a]) = (case List.find P xs of None \<Rightarrow> (if P a then Some a else None) | Some b \<Rightarrow> Some b)"
  by (induction xs) auto

lemma plan_of_cong: "events u = events t \<Longrightarrow> bookings u = bookings t \<Longrightarrow> plan_of u = plan_of t"
  by (simp add: plan_of_def event_row_of_def occupied_quantity_def)

lemma settles_plan: "settles t u \<Longrightarrow> plan_of u = plan_of t"
  by (rule plan_of_cong) (simp_all add: settles_rows)

text \<open>Bumping versions does not show in the plan; neither does anything but the places of one event.\<close>

lemma plan_of_bump:
  "plan_of (t\<lparr>events := update_where p (\<lambda>r. r\<lparr>ev_version := ev_version r + 1\<rparr>) es\<rparr>) = plan_of (t\<lparr>events := es\<rparr>)"
  by (rule ext) (simp add: plan_of_def event_row_of_def occupied_quantity_def find_update_where
      option.map_comp comp_def if_distrib cong: if_cong)

lemma plan_of_bookings:
  assumes "safe t" and e: "e \<in> set (events t)"
    and other: "\<And>org i. \<not> (org = ev_org e \<and> i = ev_id e) \<Longrightarrow> occupied_quantity org i (t\<lparr>bookings := bs\<rparr>) = occupied_quantity org i t"
  shows "plan_of (t\<lparr>bookings := bs\<rparr>) =
    (plan_of t)(ev_id e \<mapsto> (ev_capacity e, occupied_quantity (ev_org e) (ev_id e) (t\<lparr>bookings := bs\<rparr>)))"
proof
  fix i
  have rows: "event_row_of i (t\<lparr>bookings := bs\<rparr>) = event_row_of i t" by (simp add: event_row_of_def)
  show "plan_of (t\<lparr>bookings := bs\<rparr>) i =
      ((plan_of t)(ev_id e \<mapsto> (ev_capacity e, occupied_quantity (ev_org e) (ev_id e) (t\<lparr>bookings := bs\<rparr>)))) i"
  proof (cases "i = ev_id e")
    case True
    with event_row_ofI [OF assms(1) e] rows show ?thesis by (simp add: plan_of_def)
  next
    case False
    with other rows show ?thesis by (simp add: plan_of_def)
  qed
qed

lemma plan_at: "safe t \<Longrightarrow> e \<in> set (events t) \<Longrightarrow>
    plan_of t (ev_id e) = Some (ev_capacity e, occupied_quantity (ev_org e) (ev_id e) t)"
  by (simp add: plan_of_def event_row_ofI)

lemma plan_same: "safe t \<Longrightarrow> e \<in> set (events t) \<Longrightarrow>
    (plan_of t)(ev_id e \<mapsto> (ev_capacity e, occupied_quantity (ev_org e) (ev_id e) t)) = plan_of t"
  by (simp add: plan_at map_upd_triv)

lemma plan_ok: "safe t \<Longrightarrow> plan_of t i = Some (c, n) \<Longrightarrow> 0 \<le> n \<and> n \<le> c"
  using event_row_of_SomeD [of i t] booking_okD(5) [of t] occupied_nonneg [of t]
  by (auto simp: plan_of_def safe_def fits_def)

section \<open>The writes, one action each\<close>

lemma booked_plan:
  assumes ok: "safe t" and after: "safe (booked (ev_org e) e b t)" and e: "e \<in> set (events t)"
    and b: "bk_event b = ev_id e" "bk_org b = ev_org e" "1 \<le> bk_quantity b" "\<not> bk_deleted b"
  shows "perform (if occupies_capacity (bk_status b) then Take (ev_id e) (bk_quantity b) else Idle) (plan_of t)
    = Some (plan_of (booked (ev_org e) e b t))"
proof -
  let ?u = "t\<lparr>bookings := bookings t @ [b]\<rparr>"
  have u: "plan_of (booked (ev_org e) e b t) = plan_of ?u"
    unfolding booked_def Let_def using plan_of_bump [where t = ?u and es = "events t"] by simp
  have occ: "occupied_quantity org i ?u = occupied_quantity org i t + (if seats org i b then bk_quantity b else 0)" for org i
    using seat_meter.used_append [of "(org, i)" t b] by (simp add: used_seats)
  have p: "plan_of ?u = (plan_of t)(ev_id e \<mapsto> (ev_capacity e, occupied_quantity (ev_org e) (ev_id e) ?u))"
    by (rule plan_of_bookings [OF ok e]) (use occ b in \<open>auto simp: seats_def\<close>)
  show ?thesis
  proof (cases "occupies_capacity (bk_status b)")
    case True
    have "occupied_quantity (ev_org e) (ev_id e) ?u \<le> ev_capacity e"
      using plan_ok [OF after, of "ev_id e"] unfolding u p by simp
    moreover have "occupied_quantity (ev_org e) (ev_id e) ?u = occupied_quantity (ev_org e) (ev_id e) t + bk_quantity b"
      using occ b True by (simp add: seats_def)
    ultimately show ?thesis unfolding u p using True b(3) by (simp add: plan_at ok e)
  next
    case False
    then have "plan_of ?u = plan_of t" unfolding p using occ plan_same [OF ok e] by (simp add: seats_def)
    with False show ?thesis unfolding u by simp
  qed
qed

text \<open>The status of one booking is rewritten: its places are taken, freed, or stay as they were.\<close>

lemma restated_plan:
  assumes ok: "safe t" and b: "b \<in> set (bookings t)" and e: "e \<in> set (events t)" "ev_id e = bk_event b" "ev_org e = bk_org b"
    and p: "\<And>c. c \<in> set (bookings t) \<Longrightarrow> p c \<longleftrightarrow> c = b"
    and f: "bk_id (f b) = bk_id b" "bk_org (f b) = bk_org b" "bk_event (f b) = bk_event b"
      "bk_quantity (f b) = bk_quantity b" "bk_deleted (f b) = bk_deleted b"
    and after: "safe u" "plan_of u = plan_of (t\<lparr>bookings := update_where p f (bookings t)\<rparr>)"
    and live: "\<not> bk_deleted b"
  shows "perform (if occupies_capacity (bk_status b) = occupies_capacity (bk_status (f b)) then Idle
      else if occupies_capacity (bk_status (f b)) then Take (ev_id e) (bk_quantity b) else Free (ev_id e) (bk_quantity b))
    (plan_of t) = Some (plan_of (t\<lparr>bookings := update_where p f (bookings t)\<rparr>))"
proof -
  let ?u = "t\<lparr>bookings := update_where p f (bookings t)\<rparr>"
  let ?w = "\<lambda>c org i. if seats org i c then bk_quantity b else 0"
  have ids: "distinct (map bk_id (bookings t))" using ok by (rule safe_ids)
  have q: "1 \<le> bk_quantity b" using ok b by (auto simp: safe_def dest: booking_okD(4))
  have new: "occupied_quantity org i ?u = seat_meter.used_but (bk_id b) (org, i) t + ?w (f b) org i" for org i
    using seat_meter.used_replace [where t = t and r = b and p = p and f = f and e = "(org, i)", OF ids b p f(1)] f(4)
    by (simp add: used_seats)
  have old: "occupied_quantity org i t = seat_meter.used_but (bk_id b) (org, i) t + ?w b org i" for org i
    using seat_meter.used_split [OF ids b, of "(org, i)"] by (simp add: used_seats)
  have pl: "plan_of ?u = (plan_of t)(ev_id e \<mapsto> (ev_capacity e, occupied_quantity (ev_org e) (ev_id e) ?u))"
    by (rule plan_of_bookings [OF ok e(1)]) (use new old e f in \<open>auto simp: seats_def\<close>)
  have fit: "occupied_quantity (ev_org e) (ev_id e) ?u \<le> ev_capacity e" "0 \<le> occupied_quantity (ev_org e) (ev_id e) ?u"
    using plan_ok [OF after(1), of "ev_id e"] unfolding after(2) pl by simp_all
  let ?n = "occupied_quantity (ev_org e) (ev_id e) t" and ?m = "occupied_quantity (ev_org e) (ev_id e) ?u"
  let ?w = "\<lambda>c. if occupies_capacity (bk_status c) then bk_quantity b else 0"
  have at: "plan_of t (ev_id e) = Some (ev_capacity e, ?n)" by (rule plan_at [OF ok e(1)])
  have m: "?m = ?n + ?w (f b) - ?w b"
    using new [of "ev_org e" "ev_id e"] old [of "ev_org e" "ev_id e"] e f live by (simp add: seats_def)
  consider "occupies_capacity (bk_status b) = occupies_capacity (bk_status (f b))"
    | "\<not> occupies_capacity (bk_status b)" "occupies_capacity (bk_status (f b))"
    | "occupies_capacity (bk_status b)" "\<not> occupies_capacity (bk_status (f b))" by blast
  then show ?thesis
  proof cases
    case 1
    with m have "plan_of ?u = plan_of t" unfolding pl by (simp add: plan_same [OF ok e(1)])
    with 1 show ?thesis by simp
  next
    case 2
    with m have "?m = ?n + bk_quantity b" by simp
    with 2 fit q show ?thesis unfolding pl by (simp add: at)
  next
    case 3
    with m have "?m = ?n - bk_quantity b" by simp
    with 3 fit q show ?thesis unfolding pl by (simp add: at)
  qed
qed

lemma new_event_plan:
  assumes ok: "safe t" and new: "\<forall>f\<in>set (events t). ev_id f \<noteq> ev_id e"
    and cap: "1 \<le> ev_capacity e" "ev_capacity e \<le> 10000"
  shows "perform (Open (ev_id e) (ev_capacity e)) (plan_of t) = Some (plan_of (t\<lparr>events := events t @ [e]\<rparr>))"
proof -
  have none: "event_row_of (ev_id e) t = None" using new by (simp add: event_row_of_None)
  have zero: "occupied_quantity (ev_org e) (ev_id e) t = 0"
    using occupied_unbooked [of t "ev_id e" "ev_org e"] ok new by (auto simp: safe_def dest: booking_okD(4))
  have "plan_of (t\<lparr>events := events t @ [e]\<rparr>) = (plan_of t)(ev_id e \<mapsto> (ev_capacity e, 0))"
    using none zero by (auto simp: plan_of_def event_row_of_def find_snoc occupied_quantity_def fun_eq_iff split: option.split)
  moreover have "plan_of t (ev_id e) = None" by (simp add: plan_of_def none)
  ultimately show ?thesis using cap by simp
qed

lemma edited_event_plan:
  assumes ok: "safe t" and e: "e \<in> set (events t)" and p: "\<And>f. f \<in> set (events t) \<Longrightarrow> p f \<longleftrightarrow> f = e"
    and g: "\<And>f. ev_id (g f) = ev_id f \<and> ev_org (g f) = ev_org f"
    and cap: "1 \<le> ev_capacity (g e)" "ev_capacity (g e) \<le> 10000" "occupied_quantity (ev_org e) (ev_id e) t \<le> ev_capacity (g e)"
  shows "perform (Resize (ev_id e) (ev_capacity (g e))) (plan_of t) = Some (plan_of (t\<lparr>events := update_where p g (events t)\<rparr>))"
proof -
  let ?n = "occupied_quantity (ev_org e) (ev_id e) t"
  have look: "event_row_of i (t\<lparr>events := update_where p g (events t)\<rparr>)
      = map_option (\<lambda>f. if p f then g f else f) (event_row_of i t)" for i
    unfolding event_row_of_def using g by (simp add: find_update_where)
  have pe: "p e" using p [OF e] by simp
  have "plan_of (t\<lparr>events := update_where p g (events t)\<rparr>) = (plan_of t)(ev_id e \<mapsto> (ev_capacity (g e), ?n))"
  proof
    fix i
    show "plan_of (t\<lparr>events := update_where p g (events t)\<rparr>) i = ((plan_of t)(ev_id e \<mapsto> (ev_capacity (g e), ?n))) i"
    proof (cases "i = ev_id e")
      case True
      with event_row_ofI [OF ok e] look [of i] pe g show ?thesis by (simp add: plan_of_def occupied_quantity_def)
    next
      case False
      have "(if p f then g f else f) = f" if "event_row_of i t = Some f" for f
        using event_row_of_SomeD [OF that] p False by auto
      with look [of i] False show ?thesis
        by (cases "event_row_of i t") (simp_all add: plan_of_def occupied_quantity_def)
    qed
  qed
  then show ?thesis using cap by (simp add: plan_at [OF ok e])
qed

section \<open>The requests\<close>

lemma settled_action:
  "perform a (plan_of t) = Some (plan_of v) \<Longrightarrow> settles v u \<Longrightarrow> perform a (plan_of t) = Some (plan_of u)"
  by (simp add: settles_plan)

lemma admitted:
  assumes "admit inp e n = Inr st" and "ri_status inp \<in> {s_reserved, s_confirmed, s_waitlisted}"
    and "1 \<le> ev_capacity e" "ev_capacity e \<le> 10000" "1 \<le> ri_quantity inp" "ri_quantity inp \<le> 10000"
  shows "occupies_capacity st \<longleftrightarrow> ri_status inp \<noteq> s_waitlisted \<and> n + ri_quantity inp \<le> ev_capacity e"
proof -
  have "in_i64 (ev_capacity e - ri_quantity inp)" using assms(3-6) by (simp add: in_i64_def min_i64_def max_i64_def)
  moreover have "occupies_capacity (ri_status inp) \<longleftrightarrow> ri_status inp \<noteq> s_waitlisted" using assms(2) by auto
  ultimately show ?thesis using assms(1) by (auto simp: admit_def split: if_splits)
qed

text \<open>The reservation of both channels.\<close>

lemma reserved_plan:
  assumes ok: "safe t" and e: "event_by_id org (ri_event raw) t = Some e" and un: "unused t b"
    and b: "b = new_booking j org (normal_reserve raw) e status now" and q: "1 \<le> ri_quantity raw" "ri_quantity raw \<le> 10000"
    and ad: "admit (normal_reserve raw) e (occupied_quantity org (ev_id e) t) = Inr status"
    and st: "ri_status (normal_reserve raw) \<in> {s_reserved, s_confirmed, s_waitlisted}"
  shows "perform (reserve_action org raw t) (plan_of t) = Some (plan_of (booked org e b t))"
proof -
  note E = event_by_id_SomeD [OF e]
  let ?inp = "normal_reserve raw"
  have same: "ri_event ?inp = ri_event raw" "ri_quantity ?inp = ri_quantity raw" by (simp_all add: normal_reserve_def)
  have in_t: "e \<in> set (events t)" "ev_id e = ri_event raw" "ev_org e = org" using E by simp_all
  have cap: "1 \<le> ev_capacity e" "ev_capacity e \<le> 10000"
    using booking_okD(5) [OF _ in_t(1)] ok by (simp_all add: safe_def fits_def)
  have fresh: "booking_with_key org (trim_space (ri_key raw)) t = None"
  proof (cases "booking_with_key org (trim_space (ri_key raw)) t")
    case (Some c)
    from booking_with_key_SomeD [OF Some] un show ?thesis
      unfolding unused_def b by (auto simp: trim_space_idem)
  qed simp
  have "ri_status ?inp \<noteq> s_waitlisted \<longleftrightarrow> ri_status raw \<noteq> s_waitlisted"
    by (simp add: normal_reserve_def s_waitlisted_def s_reserved_def)
  moreover have "plan_of t (ri_event raw) = Some (ev_capacity e, occupied_quantity org (ri_event raw) t)"
    using plan_at [OF ok in_t(1)] in_t(2,3) by simp
  moreover have "bk_status b = status" by (simp add: b new_booking_def)
  ultimately have "reserve_action org raw t
      = (if occupies_capacity (bk_status b) then Take (ev_id e) (bk_quantity b) else Idle)"
    using admitted [OF ad st cap] q same in_t(2) fresh by (simp add: reserve_action_def room_def b new_booking_def)
  moreover have "safe (booked (ev_org e) e b t)"
    using reserved_safe [OF ok, of org "ri_event raw" e b j ?inp status now] e un b q ad in_t(3) same by simp
  ultimately show ?thesis
    using booked_plan [OF ok _ in_t(1), of b] in_t(3) q same by (simp add: b new_booking_def)
qed

lemma reserve_tx_plan:
  assumes run: "reserve_tx x org raw now s = (Inr r, u)" and ok: "safe (tabs s)" and "ri_quantity raw \<le> 10000"
  shows "perform (reserve_action org raw (tabs s)) (plan_of (tabs s)) = Some (plan_of (tabs u))"
  using run
proof (rule reserve_tx_Inr)
  fix b
  assume "tabs u = tabs s" "booking_with_key org (trim_space (ri_key raw)) (tabs s) = Some b"
  then show ?thesis by (simp add: reserve_action_def)
next
  fix i status and le :: loaded_event
  assume "r = \<lparr>rr_booking = new_booking i org (normal_reserve raw) (le_event le) status now, rr_event = Some le,
        rr_created = True, rr_now = now\<rparr>"
    and "event_by_id org (ri_event raw) (tabs s) = Some (le_event le)"
    and "admit (normal_reserve raw) (le_event le) (occupied_quantity org (ev_id (le_event le)) (tabs s)) = Inr status"
    and "unused (tabs s) (rr_booking r)" "0 < ri_quantity raw"
    and "tabs u = booked org (le_event le) (rr_booking r) (tabs s)"
  then show ?thesis
    using reserved_plan [OF ok, of org raw "le_event le" "rr_booking r" i status now] assms(3) reserve_tx_status [OF run]
    by simp
qed

lemma create_body_plan:
  assumes run: "create_body x org user r now clock s = (Inr b, u)" and ok: "safe (tabs s)" and "cq_quantity r \<le> 10000"
  shows "perform (reserve_action org (reserve_request user r) (tabs s)) (plan_of (tabs s)) = Some (plan_of (tabs u))"
proof -
  obtain res s1 where rv: "reserve_tx x org (reserve_request user r) now s = (Inr res, s1)"
    and rest: "(let b = rr_booking res in
     case rr_event res of
       None \<Rightarrow> ret b
     | Some le \<Rightarrow>
         and_then (charge_booking x org user b (le_event le) (rr_now res) clock) (\<lambda>_.
         and_then (record_tx x org clock (created_activity x user b (le_event le) (rr_now res))) (\<lambda>_.
         and_then (audit_change org user ''booking'' (bk_id b) ''created'' None (Some (booking_json x b))) (\<lambda>_.
         ret b)))) s1 = (Inr b, u)"
    using run unfolding create_body_def and_then_Inr by blast
  note plan = reserve_tx_plan [OF rv ok]
  have st: "ri_status (normal_reserve (reserve_request user r)) \<in> {s_reserved, s_confirmed, s_waitlisted}"
    by (rule reserve_tx_status [OF rv])
  from run show ?thesis
  proof (rule create_body_Inr)
    assume idle: "tabs u = tabs s" and in_s: "b \<in> set (bookings (tabs s))"
    from rv have "booking_with_key org (trim_space (cq_key r)) (tabs s) \<noteq> None"
    proof (rule reserve_tx_Inr)
      fix i status and le :: loaded_event
      assume "res = \<lparr>rr_booking = new_booking i org (normal_reserve (reserve_request user r)) (le_event le) status now,
          rr_event = Some le, rr_created = True, rr_now = now\<rparr>" and un: "unused (tabs s) (rr_booking res)"
      with rest have "b = rr_booking res" by (auto simp: Let_def ok_simps)
      with un in_s show ?thesis by (auto simp: unused_def)
    qed simp
    with idle show ?thesis by (auto simp: reserve_action_def)
  next
    fix i status and le :: loaded_event
    assume "b = new_booking i org (normal_reserve (reserve_request user r)) (le_event le) status now"
      and "event_by_id org (cq_event r) (tabs s) = Some (le_event le)"
      and "admit (normal_reserve (reserve_request user r)) (le_event le)
           (occupied_quantity org (ev_id (le_event le)) (tabs s)) = Inr status"
      and "unused (tabs s) b" "0 < cq_quantity r"
      and s: "settles (booked org (le_event le) b (tabs s)) (tabs u)"
    then have "perform (reserve_action org (reserve_request user r) (tabs s)) (plan_of (tabs s))
        = Some (plan_of (booked org (le_event le) b (tabs s)))"
      using reserved_plan [OF ok, of org "reserve_request user r" "le_event le" b i status now] assms(3) st by simp
    then show ?thesis using s by (rule settled_action)
  qed
qed

lemma transition_body_plan:
  assumes run: "transition_body x org user i r now clock s = (Inr b', u)" and ok: "safe (tabs s)"
  shows "perform (status_action org i (tq_status r) (tabs s)) (plan_of (tabs s)) = Some (plan_of (tabs u))"
  using run
proof (rule transition_body_Inr)
  fix b :: booking_row and e v
  let ?f = "set_status user (tq_status r) (tq_reason r) now"
  let ?p = "\<lambda>b. bk_id b = i \<and> bk_org b = org \<and> bk_version b = tq_version r \<and> \<not> bk_deleted b"
  let ?bump = "occupies_capacity (bk_status b) \<noteq> occupies_capacity (tq_status r)"
  assume b: "booking_by_id org i (tabs s) = Some b" "bk_version b = tq_version r"
    and e: "event_by_id org (bk_event b) (tabs s) = Some e" and v: "settles (tabs s) v"
    and u: "settles (restated org i (tq_version r) ?f ?bump (ev_id e) v) (tabs u)"
  note B = booking_by_id_SomeD [OF b(1)] and E = event_by_id_SomeD [OF e]
  have okv: "safe v" using v ok by (rule settles_safe)
  have in_v: "b \<in> set (bookings v)" "e \<in> set (events v)"
    using B E schedule_eqD [of v "tabs s"] v by (simp_all add: settles_def)
  let ?v1 = "v\<lparr>bookings := update_where ?p ?f (bookings v)\<rparr>"
  have same: "plan_of (restated org i (tq_version r) ?f ?bump (ev_id e) v) = plan_of ?v1"
    unfolding restated_def Let_def using plan_of_bump [where t = ?v1 and es = "events v"] by simp
  have after: "safe (tabs u)" "plan_of (tabs u) = plan_of ?v1"
    using transition_body_safe [OF run ok] settles_plan [OF u] same by simp_all
  have only: "?p c \<longleftrightarrow> c = b" if "c \<in> set (bookings v)" for c
    using unique_booking(1) [OF okv that in_v(1)] B b(2) by auto
  have "perform (if occupies_capacity (bk_status b) = occupies_capacity (bk_status (?f b)) then Idle
      else if occupies_capacity (bk_status (?f b)) then Take (ev_id e) (bk_quantity b) else Free (ev_id e) (bk_quantity b))
    (plan_of v) = Some (plan_of ?v1)"
    by (rule restated_plan [OF okv in_v _ _ only _ _ _ _ _ after]) (use B E in simp_all)
  moreover have "status_action org i (tq_status r) (tabs s)
    = (if occupies_capacity (bk_status b) = occupies_capacity (bk_status (?f b)) then Idle
      else if occupies_capacity (bk_status (?f b)) then Take (ev_id e) (bk_quantity b) else Free (ev_id e) (bk_quantity b))"
    using b(1) E by (simp add: status_action_def)
  ultimately show ?thesis unfolding settles_plan [OF v] after(2) by (simp only:)
qed

lemma create_event_plan:
  assumes "create_event x org user r s = (Inr e, u)" and ok: "safe (tabs s)"
  shows "perform (Open (fresh_uuid x (minted s)) (eq_capacity r)) (plan_of (tabs s)) = Some (plan_of (tabs u))"
  using assms(1)
proof (rule create_event_Inr)
  fix s1 :: "tables db"
  assume s1: "tabs s1 = (tabs s)\<lparr>events := events (tabs s) @ [e]\<rparr>" "business (tabs u) = business (tabs s1)"
    and e: "e = new_event (fresh_uuid x (minted s)) org user r (if eq_status r = [] then s_scheduled else eq_status r)"
    and val: "validate_event r False = Inr ()" and new: "\<forall>f\<in>set (events (tabs s)). ev_id f \<noteq> ev_id e"
  have "ev_id e = fresh_uuid x (minted s)" "ev_capacity e = eq_capacity r" by (simp_all add: e new_event_def)
  then have "perform (Open (fresh_uuid x (minted s)) (eq_capacity r)) (plan_of (tabs s)) = Some (plan_of (tabs s1))"
    unfolding s1(1) using new_event_plan [OF ok new] validate_event_Inr [OF val] by simp
  then show ?thesis using settles_side [OF s1(2)] by (rule settled_action)
qed

lemma update_event_plan:
  assumes "update_event x org user i r s = (Inr e, u)" and ok: "safe (tabs s)"
  shows "perform (Resize i (eq_capacity r)) (plan_of (tabs s)) = Some (plan_of (tabs u))"
  using assms(1)
proof (rule update_event_Inr)
  fix old and s1 :: "tables db"
  assume old: "event_by_id org i (tabs s) = Some old" "ev_version old = eq_version r" and val: "validate_event r True = Inr ()"
    and room: "occupied_excluding org i nil_uuid (tabs s) \<le> eq_capacity r"
    and s1: "tabs s1 = (tabs s)\<lparr>events := update_where (hit_event org i (eq_version r)) (edit_event (r, user)) (events (tabs s))\<rparr>"
      "business (tabs u) = business (tabs s1)"
  note O = event_by_id_SomeD [OF old(1)]
  have inj: "inj_on ev_id (set (events (tabs s)))" using ok by (simp add: safe_def booking_ok_def distinct_map)
  have only: "hit_event org i (eq_version r) f \<longleftrightarrow> f = old" if "f \<in> set (events (tabs s))" for f
    using inj_onD [OF inj _ that, of old] O old(2) by (auto simp: hit_event_def)
  have "perform (Resize (ev_id old) (ev_capacity (edit_event (r, user) old))) (plan_of (tabs s)) = Some (plan_of (tabs s1))"
    unfolding s1(1) by (rule edited_event_plan [OF ok _ only])
      (use O room validate_event_Inr [OF val] in \<open>simp_all add: occupied_excluding_none\<close>)
  then have "perform (Resize i (eq_capacity r)) (plan_of (tabs s)) = Some (plan_of (tabs s1))" using O by simp
  then show ?thesis using settles_side [OF s1(2)] by (rule settled_action)
qed

section \<open>The simulation\<close>

text \<open>
  What is asked is done: a request that is answered has performed its action on the plan; a refused one has
  performed none, unless its booking is committed and only its answer could not be loaded.
\<close>

definition carried :: "seat_action \<Rightarrow> tables \<Rightarrow> err + 'a \<Rightarrow> tables \<Rightarrow> bool" where
  "carried a t answer u \<longleftrightarrow> (case answer of
     Inr _ \<Rightarrow> perform a (plan_of t) = Some (plan_of u)
   | Inl e \<Rightarrow> plan_of u = plan_of t \<or> (e = load_failed \<and> perform a (plan_of t) = Some (plan_of u)))"

lemma done_atomic:
  assumes "atomic m" and "m s = (answer, u)"
    and "\<And>a. m s = (Inr a, u) \<Longrightarrow> perform act (plan_of (tabs s)) = Some (plan_of (tabs u))"
  shows "carried act (tabs s) answer (tabs u)"
  using assms atomicD [OF assms(1)] by (cases answer) (simp_all add: carried_def)

lemma done_committed:
  assumes "and_then (transaction m) (\<lambda>b. or_fail (first (q b)) load_failed) s = (answer, u)"
    and body: "\<And>b s1 u1. m s1 = (Inr b, u1) \<Longrightarrow> tabs s1 = tabs s \<Longrightarrow>
      perform act (plan_of (tabs s)) = Some (plan_of (tabs u1))"
  shows "carried act (tabs s) answer (tabs u)"
proof (cases "transaction m s")
  case (Pair res w)
  show ?thesis
  proof (cases res)
    case (Inl e)
    with Pair assms(1) have "answer = Inl e" "u = w" by (simp_all add: and_then_def)
    with Inl Pair transaction_Inl [of m s e w] show ?thesis by (simp add: carried_def)
  next
    case (Inr b)
    with Pair have tr: "transaction m s = (Inr b, w)" by simp
    with assms(1) have ld: "or_fail (first (q b)) load_failed w = (answer, u)" by (simp add: and_then_def)
    have "tabs u = tabs w" using sparesD [OF spares_reads [OF reads_or_fail [OF reads_first]] ld] .
    moreover obtain s1 u1 where "m s1 = (Inr b, u1)" "tabs s1 = tabs s" "tabs w = tabs u1"
      using tr by (rule transaction_Inr)
    ultimately have "perform act (plan_of (tabs s)) = Some (plan_of (tabs u))" using body by simp
    moreover have "answer = Inl e \<Longrightarrow> e = load_failed" for e
      using ld by (auto simp: or_fail_def split: prod.splits sum.splits)
    ultimately show ?thesis by (cases answer) (simp_all add: carried_def)
  qed
qed

lemma done_first:
  assumes "and_then (lift_res r) f s = (answer, u)" and "\<And>a. r = Inr a \<Longrightarrow> f a s = (answer, u) \<Longrightarrow> carried act (tabs s) answer (tabs u)"
  shows "carried act (tabs s) answer (tabs u)"
  using assms by (cases r) (auto simp: and_then_def lift_res_def carried_def)

lemma done_reject:
  assumes "and_then (reject c e) f s = (answer, u)" and "f () s = (answer, u) \<Longrightarrow> carried act (tabs s) answer (tabs u)"
  shows "carried act (tabs s) answer (tabs u)"
  using assms by (cases c) (auto simp: and_then_def reject_def ret_def fail_def carried_def)

lemma create_booking_done:
  assumes "create_booking x org user event req now clock s = (answer, u)" and ok: "safe (tabs s)"
  shows "carried (reserve_action org (reserve_request user (req\<lparr>cq_event := event\<rparr>)) (tabs s)) (tabs s) answer (tabs u)"
  using assms(1) unfolding create_booking_def load_failed_def [symmetric]
proof (elim done_reject done_first)
  fix r
  assume "as_client (validate_create_booking (req\<lparr>cq_event := event\<rparr>)) = Inr r"
    and run: "and_then (transaction (create_body x org user r now clock))
      (\<lambda>b. or_fail (first (booking_by_id org (bk_id b))) load_failed) s = (answer, u)"
  then have vr: "validate_create_booking (req\<lparr>cq_event := event\<rparr>) = Inr r" by simp
  then have r: "r = req\<lparr>cq_event := event, cq_key := trim_space (cq_key req)\<rparr>"
    unfolding validate_create_booking_def Let_def by (auto split: if_splits)
  have act: "reserve_action org (reserve_request user (req\<lparr>cq_event := event\<rparr>)) t = reserve_action org (reserve_request user r) t" for t
    by (simp add: reserve_action_def r reserve_request_def trim_space_idem)
  from run show ?thesis
  proof (rule done_committed)
    fix b s1 u1
    assume "create_body x org user r now clock s1 = (Inr b, u1)" "tabs s1 = tabs s"
    with create_body_plan [of x org user r now clock s1 b u1] ok validate_create_quantity [OF vr]
    show "perform (reserve_action org (reserve_request user (req\<lparr>cq_event := event\<rparr>)) (tabs s)) (plan_of (tabs s))
        = Some (plan_of (tabs u1))" unfolding act by simp
  qed
qed

lemma transition_booking_done:
  assumes "transition_booking x org user i raw req now clock s = (answer, u)" and ok: "safe (tabs s)"
  shows "carried (case status_from_transition raw of Inl _ \<Rightarrow> Idle | Inr st \<Rightarrow> status_action org i st (tabs s)) (tabs s) answer (tabs u)"
  using assms(1) unfolding transition_booking_def Let_def load_failed_def [symmetric]
proof (elim done_reject done_first)
  fix st v
  assume st: "as_client (status_from_transition raw) = Inr st"
    and run: "and_then (transaction (transition_body x org user i (req\<lparr>tq_status := st\<rparr>) now clock))
      (\<lambda>updated. or_fail (first (booking_by_id org (bk_id updated))) load_failed) s = (answer, u)"
  from run show ?thesis
  proof (rule done_committed)
    fix b s1 u1
    assume "transition_body x org user i (req\<lparr>tq_status := st\<rparr>) now clock s1 = (Inr b, u1)" "tabs s1 = tabs s"
    with transition_body_plan [of x org user i "req\<lparr>tq_status := st\<rparr>" now clock s1 b u1] ok st
    show "perform (case status_from_transition raw of Inl _ \<Rightarrow> Idle | Inr st \<Rightarrow> status_action org i st (tabs s)) (plan_of (tabs s))
        = Some (plan_of (tabs u1))" by simp
  qed
qed

lemma reserve_offer_done:
  assumes "transaction (reserve_tx x org inp now) s = (answer, u)" and ok: "safe (tabs s)" and "ri_expected inp \<noteq> None"
  shows "carried (reserve_action org inp (tabs s)) (tabs s) answer (tabs u)"
  using atomic_transaction assms(1)
proof (rule done_atomic)
  fix r
  assume "transaction (reserve_tx x org inp now) s = (Inr r, u)"
  then obtain s1 u1 where run: "reserve_tx x org inp now s1 = (Inr r, u1)" and t: "tabs s1 = tabs s" "tabs u = tabs u1"
    by (rule transaction_Inr)
  have "tabs u1 = tabs s1 \<and> booking_with_key org (trim_space (ri_key inp)) (tabs s1) \<noteq> None \<or> ri_quantity inp = 1"
    using run by (rule reserve_tx_Inr) (use assms(3) in \<open>auto simp: ai_exceeds_authority_def normal_reserve_def\<close>)
  then show "perform (reserve_action org inp (tabs s)) (plan_of (tabs s)) = Some (plan_of (tabs u))"
  proof
    assume "ri_quantity inp = 1"
    with reserve_tx_plan [OF run] ok show ?thesis unfolding t by simp
  qed (auto simp: t reserve_action_def)
qed

section \<open>Requests that move no place\<close>

lemma guarded_plan: "guarded u = guarded t \<Longrightarrow> plan_of u = plan_of t"
  by (rule plan_of_cong) (simp_all add: guarded_def)

lemma schedule_plan: "schedule u = schedule t \<Longrightarrow> plan_of u = plan_of t"
  using schedule_eqD [of u t] by (intro plan_of_cong)

lemma spares_weaken: "spares g q \<Longrightarrow> (\<And>t u. g u = g t \<Longrightarrow> h u = h t) \<Longrightarrow> spares h q"
  unfolding spares_def by blast

lemma plan_audit [spares_intros]: "spares plan_of (audit_change org user rtype rid action old new)"
  by (rule spares_weaken [OF guarded_audit]) (rule guarded_plan)

lemma plan_of_time_offs [simp]: "plan_of (t\<lparr>time_offs := rs\<rparr>) = plan_of t"
  by (rule plan_of_cong) simp_all

lemma plan_writes [spares_intros]:
  "spares plan_of (execute (insert_time_off r))" "spares plan_of (execute (replace_time_off org resource i v d))"
  "spares plan_of (execute (delete_time_off_row i))"
  by (rule spares_execute; auto simp: insert_time_off_def replace_time_off_def delete_time_off_row_def Let_def
      split: if_splits)+

lemma time_offs_spare_plan:
  "spares plan_of (create_time_off x org user resource tr)" "spares plan_of (update_time_off x org user resource i tr)"
  "spares plan_of (delete_time_off x org user resource i v)"
  unfolding create_time_off_def update_time_off_def delete_time_off_def Let_def ensure_time_off_free_def
    ensure_resource_tenant_def
  by (intro spares_intros reads_intros)+

lemma others_spare_plan:
  "spares plan_of (create_rule x org user resource r)" "spares plan_of (update_rule x org user resource i r)"
  "spares plan_of (delete_rule x org user resource i v)" "spares plan_of (transaction (grant_credits x org p user now pre))"
  by (rule spares_weaken [OF rules_spare(1) guarded_plan], assumption, rule spares_weaken [OF rules_spare(2) guarded_plan],
      assumption, rule spares_weaken [OF rules_spare(3) guarded_plan], assumption)
    (rule spares_transaction, rule spares_weaken [OF grant_spares schedule_plan], assumption)

lemma done_spared: "spares plan_of m \<Longrightarrow> m s = (answer, u) \<Longrightarrow> carried Idle (tabs s) answer (tabs u)"
  using sparesD [of plan_of m s answer u] by (simp add: carried_def split: sum.split)

lemmas spared_done = time_offs_spare_plan [THEN done_spared] others_spare_plan [THEN done_spared]

lemma done_silent: "silent m s = (answer, u) \<Longrightarrow> (\<And>b. m s = (b, u) \<Longrightarrow> carried a (tabs s) b (tabs u)) \<Longrightarrow> carried a (tabs s) answer (tabs u)"
  by (cases "m s"; cases "fst (m s)") (auto simp: and_then_def ret_def carried_def)

text \<open>The steps that serve no request, merges of contacts among them, move no place either.\<close>

lemma unserved_idle:
  "guarded (tabs u) = guarded (move_standalone org source target (tabs s)) \<Longrightarrow> carried Idle (tabs s) answer (tabs u)"
  "guarded (tabs u) = guarded (tabs s) \<Longrightarrow> carried Idle (tabs s) answer (tabs u)"
proof -
  have "plan_of (move_standalone org source target (tabs s)) = plan_of (tabs s)"
    using moved_occupied [of _ _ org source target "tabs s"]
    by (simp add: plan_of_def event_row_of_def move_standalone_def)
  then show "guarded (tabs u) = guarded (move_standalone org source target (tabs s)) \<Longrightarrow> carried Idle (tabs s) answer (tabs u)"
    using guarded_plan [of "tabs u" "move_standalone org source target (tabs s)"] by (simp add: carried_def split: sum.split)
  show "guarded (tabs u) = guarded (tabs s) \<Longrightarrow> carried Idle (tabs s) answer (tabs u)"
    using guarded_plan [of "tabs u" "tabs s"] by (simp add: carried_def split: sum.split)
qed

lemma serve_carried:
  assumes "admissible r" and "serve x org r s = (answer, u)" and "safe (tabs s)"
  shows "carried (asked x org r s) (tabs s) answer (tabs u)"
  using assms
  apply (cases r)
  apply (simp_all only: serve.simps asked.simps admissible.simps)
  apply (erule done_silent, erule create_booking_done, assumption)
  apply (erule done_silent, erule transition_booking_done, assumption)
  apply (erule done_silent, erule reserve_offer_done, assumption, assumption)
  apply (erule done_silent, erule done_atomic [OF handlers_atomic(1)], erule create_event_plan, assumption)
  apply (erule done_silent, erule done_atomic [OF handlers_atomic(2)], erule update_event_plan, assumption)
  apply (erule done_silent, erule spared_done)+
  done

text \<open>
  C5: the handlers implement the seat machine. From a reachable state every request that is answered performs
  on the plan of the tables exactly the action it asks for: a reservation takes its places when its key is
  new, they are free and the waiting list is not asked for, and takes none otherwise; a transition takes or
  frees the places of its own booking just when the booking begins or ceases to occupy them; an event is
  opened or resized as requested, never below the places taken; no other request moves a place. A refused
  request moves none, unless its booking is committed and only the answer could not be loaded.
\<close>
theorem handlers_refine_seat_machine:
  assumes "reachable x s" and "admissible r" and "serve x org r s = (answer, u)"
  shows "case answer of
      Inr _ \<Rightarrow> perform (asked x org r s) (plan_of (tabs s)) = Some (plan_of (tabs u))
    | Inl e \<Rightarrow> plan_of (tabs u) = plan_of (tabs s)
        \<or> (e = ClientError 500 ''Failed to load booking''
           \<and> perform (asked x org r s) (plan_of (tabs s)) = Some (plan_of (tabs u)))"
proof -
  have failed: "load_failed = ClientError 500 ''Failed to load booking''"
    by (simp add: load_failed_def server_error_def m_load_booking_def)
  from serve_carried [OF assms(2,3) reachable_safe [OF assms(1)]]
  show ?thesis unfolding carried_def failed .
qed

end
