(* ===== verification/CreditMoves.thy ===== *)
theory CreditMoves
  imports BookingProperties
begin

text \<open>
  What a transition does to the credits of the package a booking is paid with: which entry it writes to
  the ledger, and that it writes one only for a package in force.
\<close>

text \<open>The entry a change of status from that of the booking calls for: its key, its type and its amount.\<close>

definition settlement :: "env \<Rightarrow> booking_row \<Rightarrow> string \<Rightarrow> (string \<times> string \<times> int) option" where
  "settlement x b st =
     (if bk_package b = None then None
      else if \<not> occupies_capacity (bk_status b) \<and> occupies_capacity st
        then Some (reserve_key x b, ''reserve'', - bk_quantity b)
      else if occupies_capacity (bk_status b) \<and> st = s_cancelled then Some (release_key x b, ''release'', bk_quantity b)
      else if occupies_capacity (bk_status b) \<and> st \<in> {s_completed, s_no_show}
        then Some (redeem_key x b, ''redeem'', - bk_quantity b)
      else None)"

text \<open>The package of the booking, owned by its contact, active, begun and not expired.\<close>

definition in_force :: "uuid \<Rightarrow> booking_row \<Rightarrow> time \<Rightarrow> tables \<Rightarrow> package_row \<Rightarrow> bool" where
  "in_force org b now t p \<longleftrightarrow> p \<in> set (packages t) \<and> cp_org p = org \<and> bk_package b = Some (cp_id p)
     \<and> cp_contact p = bk_contact b \<and> cp_status p = ''active'' \<and> \<not> cp_deleted p
     \<and> \<not> later (cp_starts p) now \<and> (cp_expires p = None \<or> later (cp_expires p) now)"

definition settled_by :: "uuid \<Rightarrow> booking_row \<Rightarrow> time \<Rightarrow> tables \<Rightarrow> tables \<Rightarrow> string \<Rightarrow> string \<Rightarrow> int \<Rightarrow> bool" where
  "settled_by org b now t u key kind delta \<longleftrightarrow>
     (if ledger_has org key t then ledger u = ledger t
      else \<exists>p l. in_force org b now t p \<and> ledger u = ledger t @ [l] \<and> le_org l = org \<and> le_key l = key \<and> le_type l = kind
        \<and> le_delta l = delta \<and> le_booking l = Some (bk_id b) \<and> le_package l = cp_id p)"

lemma active_package_SomeD:
  "active_package org i c t = Some p \<Longrightarrow> p \<in> set (packages t) \<and> cp_id p = i \<and> cp_org p = org \<and> cp_contact p = c
    \<and> cp_status p = ''active'' \<and> \<not> cp_deleted p"
  unfolding active_package_def by (drule first_in_filterD) simp

lemma loaded_in_force: "load_credit_balance org b service now s = (Inr refs, u) \<Longrightarrow> in_force org b now (tabs s) (cr_package refs)"
  using load_credit_Inr [of org b service now s refs u] unfolding in_force_def by (blast dest: active_package_SomeD)

lemma credit_move_settles:
  assumes run: "credit_move x org b service user now clock key kind reason delta short msg f put s = (Inr (), u)"
  shows "settled_by org b clock (tabs s) (tabs u) key kind delta"
proof (cases "ledger_has org key (tabs s)")
  case True
  from run show ?thesis by (rule credit_move_Inr) (use True in \<open>simp_all add: settled_by_def\<close>)
next
  case False
  from run obtain ex s1 where q: "query (ledger_has org key) s = (Inr ex, s1)"
    and rest: "(if ex then ret () else
       and_then (load_credit_balance org b service clock) (\<lambda>refs.
       let c = cr_balance refs; unlimited = en_unlimited (cr_entitlement refs); c' = (if unlimited then c else f c) in
       and_then (reject (\<not> unlimited \<and> short c) (client_conflict msg)) (\<lambda>_.
       and_then (if unlimited then ret () else execute (update_balance org (cb_id c) (put c'))) (\<lambda>_.
       and_then (mint (fresh_uuid x)) (\<lambda>i.
       execute (insert_ledger (credit_entry i org refs (Some (bk_id b)) kind delta (cb_available c') key reason user now))))))) s1
       = (Inr (), u)"
    unfolding credit_move_def and_then_Inr by blast
  note Q = query_Inr [OF q]
  let ?un = "\<lambda>refs. en_unlimited (cr_entitlement refs)"
  from rest Q False obtain refs s2 s3 v i s4 where ld: "load_credit_balance org b service clock s1 = (Inr refs, s2)"
    and up: "(if ?un refs then ret () else execute (update_balance org (cb_id (cr_balance refs))
        (put (f (cr_balance refs))))) s2 = (Inr v, s3)"
    and i: "mint (fresh_uuid x) s3 = (Inr i, s4)"
    and ins: "execute (insert_ledger (credit_entry i org refs (Some (bk_id b)) kind delta
        (cb_available (if ?un refs then cr_balance refs else f (cr_balance refs))) key reason user now)) s4 = (Inr (), u)"
    by (auto simp: Let_def ok_simps split: if_splits)
  have "ledger (tabs s3) = ledger (tabs s2)"
  proof (cases "?un refs")
    case False
    with up have "execute (update_balance org (cb_id (cr_balance refs)) (put (f (cr_balance refs)))) s2 = (Inr v, s3)" by simp
    from execute_Inr [OF this] show ?thesis
      by (auto simp: update_balance_def Let_def split: if_splits dest!: arg_cong [of _ "tabs s3" ledger])
  qed (use up in \<open>simp add: ok_simps\<close>)
  moreover have "tabs s2 = tabs s" using load_credit_Inr [OF ld] Q by simp
  moreover have "tabs u = (tabs s3)\<lparr>ledger := ledger (tabs s3) @ [credit_entry i org refs (Some (bk_id b)) kind delta
      (cb_available (if ?un refs then cr_balance refs else f (cr_balance refs))) key reason user now]\<rparr>"
    using execute_Inr [OF ins] mint_Inr [OF i] unfolding insert_ledger_def by (simp split: if_splits)
  moreover have "in_force org b clock (tabs s) (cr_package refs)" using loaded_in_force [OF ld] Q by simp
  ultimately show ?thesis using False by (auto simp: settled_by_def credit_entry_def)
qed

lemma settle_credit_settled:
  assumes "settle_credit x org user b e st now clock s = (Inr (), u)"
  shows "case settlement x b st of None \<Rightarrow> ledger (tabs u) = ledger (tabs s)
    | Some (key, kind, delta) \<Rightarrow> settled_by org b clock (tabs s) (tabs u) key kind delta"
proof -
  from assms obtain s1 s2 where
    r1: "(if \<not> occupies_capacity (bk_status b) \<and> occupies_capacity st \<and> bk_package b \<noteq> None
        then reserve_credit x org b (ev_service e) user now clock else ret ()) s = (Inr (), s1)" and
    r2: "(if occupies_capacity (bk_status b) \<and> st = s_cancelled \<and> bk_package b \<noteq> None
        then release_credit x org b (ev_service e) user now clock else ret ()) s1 = (Inr (), s2)" and
    r3: "(if occupies_capacity (bk_status b) \<and> (st = s_completed \<or> st = s_no_show) \<and> bk_package b \<noteq> None
        then consume_credit x org b (ev_service e) user now clock else ret ()) s2 = (Inr (), u)"
    by (auto simp: settle_credit_def Let_def and_then_Inr)
  have ends: "s_completed \<noteq> s_cancelled" "s_no_show \<noteq> s_cancelled"
    by (simp_all add: s_completed_def s_cancelled_def s_no_show_def)
  consider "bk_package b = None" | "bk_package b \<noteq> None" "\<not> occupies_capacity (bk_status b)"
    | "bk_package b \<noteq> None" "occupies_capacity (bk_status b)" "st = s_cancelled"
    | "bk_package b \<noteq> None" "occupies_capacity (bk_status b)" "st \<in> {s_completed, s_no_show}"
    | "bk_package b \<noteq> None" "occupies_capacity (bk_status b)" "st \<notin> {s_cancelled, s_completed, s_no_show}" by blast
  then show ?thesis
  proof cases
    case 2
    then have "s2 = s1" "u = s2" using r2 r3 by (simp_all add: ret_Inr)
    show ?thesis
    proof (cases "occupies_capacity st")
      case True
      with r1 2 have "reserve_credit x org b (ev_service e) user now clock s = (Inr (), s1)" by simp
      from credit_move_settles [OF this [unfolded reserve_credit_move]] 2 True \<open>s2 = s1\<close> \<open>u = s2\<close>
      show ?thesis by (auto simp: settlement_def)
    next
      case False
      with r1 2 \<open>s2 = s1\<close> \<open>u = s2\<close> show ?thesis by (auto simp: settlement_def ret_Inr)
    qed
  next
    case 3
    with r1 r2 r3 ends have "release_credit x org b (ev_service e) user now clock s = (Inr (), u)" by (auto simp: ret_Inr)
    from credit_move_settles [OF this [unfolded release_credit_move]] 3 ends show ?thesis
      by (auto simp: settlement_def)
  next
    case 4
    with r1 r2 r3 ends have "consume_credit x org b (ev_service e) user now clock s = (Inr (), u)" by (auto simp: ret_Inr)
    from credit_move_settles [OF this [unfolded consume_credit_move]] 4 ends show ?thesis
      by (auto simp: settlement_def)
  qed (use r1 r2 r3 in \<open>auto simp: settlement_def ret_Inr\<close>)
qed

lemma settled_by_cong: "ledger u = ledger v \<Longrightarrow> settled_by org b now t u = settled_by org b now t v"
  by (intro ext) (simp add: settled_by_def)

lemma transition_body_settled:
  assumes "transition_body x org user i r now clock s = (Inr b', u)" and "booking_by_id org i (tabs s) = Some b"
  shows "case settlement x b (tq_status r) of None \<Rightarrow> ledger (tabs u) = ledger (tabs s)
    | Some (key, kind, delta) \<Rightarrow> settled_by org b clock (tabs s) (tabs u) key kind delta"
proof -
  let ?f = "set_status user (tq_status r) (tq_reason r) now"
  from assms(1) obtain c e s1 s2 s3 n s4 s5 s6 a s7 w where
    l: "load_for_transition org i r s = (Inr (c, e), s1)" and
    k: "check_capacity org c e (tq_status r) s1 = (Inr (), s2)" "settle_credit x org user c e (tq_status r) now clock s2 = (Inr (), s3)" and
    wr: "execute (write_status org i (tq_version r) ?f) s3 = (Inr n, s4)" and
    bu: "(if status_occupies (bk_status c) \<noteq> status_occupies (tq_status r)
       then bump_event_version org (ev_id e) else ret ()) s4 = (Inr (), s5)" and
    rd: "first (booking_by_id org i) s5 = (Inr b', s6)" and
    ac: "record_tx x org clock (status_activity x user c b' (tq_reason r) now) s6 = (Inr a, s7)" and
    au: "audit_change org user ''booking'' i ''updated'' (Some (booking_json x c)) (Some (booking_json x b')) s7 = (Inr w, u)"
    unfolding transition_body_def by (auto simp: ok_simps split: prod.splits)
  have c: "c = b" and s2: "tabs s2 = tabs s"
    using load_for_transition_Inr [OF l] check_capacity_Inr [OF k(1)] assms(2) by simp_all
  have "ledger (tabs s4) = ledger (tabs s3)" 
    using execute_Inr [OF wr] by (auto simp: write_status_def Let_def dest!: arg_cong [of _ "tabs s4" ledger])
  moreover have "ledger (tabs s5) = ledger (tabs s4)"
  proof (cases "status_occupies (bk_status c) \<noteq> status_occupies (tq_status r)")
    case True
    with bu obtain m where "execute (bump_event org (ev_id e)) s4 = (Inr m, s5)"
      by (auto simp: bump_event_version_def ok_simps)
    from bump_Inr [OF this] show ?thesis by simp
  qed (use bu in \<open>simp add: ret_Inr\<close>)
  moreover have "ledger (tabs u) = ledger (tabs s5)"
    using business_credits(2) [OF side_Inr [OF record_tx_side ac]] business_credits(2) [OF side_Inr [OF audit_change_side au]]
      first_Inr [OF rd] by simp
  ultimately have u: "ledger (tabs u) = ledger (tabs s3)" by simp
  from settle_credit_settled [OF k(2)] show ?thesis unfolding c s2 settled_by_cong [OF u] u .
qed

text \<open>
  C7: a transition moves credits exactly as its status calls for. When \<open>TransitionBooking\<close> succeeds on a booking paid
  with a package, leaving the waiting list reserves its credits, a cancellation releases them, completion and a
  missed visit consume them, each with one new ledger entry of the quantity of the booking, and none when the
  entry was written before; and an entry is written only for a package that its contact owns, that is active,
  has begun and has not expired. Every other transition, and every booking without a package, leaves the ledger alone.
\<close>
theorem transition_settles_credits:
  assumes "transition_booking x org user i raw req now clock s = (Inr b', u)"
    and "status_from_transition raw = Inr st" and "booking_by_id org i (tabs s) = Some b"
  shows "case settlement x b st of None \<Rightarrow> ledger (tabs u) = ledger (tabs s)
    | Some (key, kind, delta) \<Rightarrow> settled_by org b clock (tabs s) (tabs u) key kind delta"
  using assms(1)
proof (rule transition_booking_Inr)
  fix st' b0 s1 u1
  assume "status_from_transition raw = Inr st'" and t: "tabs s1 = tabs s" "tabs u = tabs u1"
    and run: "transition_body x org user i (req\<lparr>tq_status := st'\<rparr>) now clock s1 = (Inr b0, u1)"
  with assms(2) have "st' = st" by simp
  with transition_body_settled [OF run, of b] assms(3) show ?thesis unfolding t by simp
qed

end
