(* ===== verification/Guards.thy ===== *)
theory Guards
  imports BookingProperties
begin

text \<open>
  What the guards of the handlers establish about the rows they let through: the authority of an AI
  reservation and the opening hours of a resource.
\<close>

section \<open>AI reservations\<close>

lemma normal_offer [simp]:
  "ri_expected (normal_reserve inp) = ri_expected inp" "ri_actor (normal_reserve inp) = ri_actor inp"
  "ri_waitlist (normal_reserve inp) = ri_waitlist inp" "ri_offer_expires (normal_reserve inp) = ri_offer_expires inp"
  by (simp_all add: normal_reserve_def)

lemma check_expected_facts: "check_expected inp le = Inr () \<Longrightarrow> ri_expected inp = Some facts \<Longrightarrow> facts_for_event le = Inr facts"
  by (auto simp: check_expected_def same_facts_def res_bind_def split: sum.splits if_splits)

lemma facts_for_event_eq:
  "facts_for_event le = Inr facts \<Longrightarrow> sf_event facts = ev_id (le_event le) \<and> sf_event_version facts = ev_version (le_event le)
    \<and> sf_starts facts = ev_starts (le_event le) \<and> sf_ends facts = ev_ends (le_event le)
    \<and> sf_capacity facts = ev_capacity (le_event le)"
  unfolding facts_for_event_def Let_def by (auto split: option.splits if_splits)


section \<open>Opening hours\<close>

definition opens :: "zone \<Rightarrow> rule_row \<Rightarrow> time \<Rightarrow> time \<Rightarrow> bool" where
  "opens z r a b \<longleftrightarrow> ar_weekday r = local_weekday z a
     \<and> (\<forall>f. ar_from r = Some f \<longrightarrow> stored_date_key f \<le> local_date_key z a)
     \<and> (\<forall>f. ar_until r = Some f \<longrightarrow> local_date_key z a \<le> stored_date_key f)
     \<and> (\<exists>os oe. local_minute (ar_start r) = Some os \<and> local_minute (ar_end r) = Some oe
          \<and> os * minute \<le> local_clock_ns z a \<and> local_clock_ns z b \<le> oe * minute)"

lemma admitted_rule:
  "admitted_by_rules date weekday a b rs = Inr () \<Longrightarrow>
     \<exists>r\<in>set rs. ar_weekday r = weekday \<and> (\<forall>f. ar_from r = Some f \<longrightarrow> stored_date_key f \<le> date)
       \<and> (\<forall>f. ar_until r = Some f \<longrightarrow> date \<le> stored_date_key f)
       \<and> (\<exists>os oe. local_minute (ar_start r) = Some os \<and> local_minute (ar_end r) = Some oe
            \<and> os * minute \<le> a \<and> b \<le> oe * minute)"
  by (induction rs) (auto split: if_splits option.splits simp: not_less)

lemma check_slot_open:
  assumes "check_slot x org r s_scheduled ex s = (Inr v, u)" and "active_rules org (eq_resource r) (tabs s) \<noteq> []"
  shows "\<exists>rs z. resource_by_id org (eq_resource r) (tabs s) = Some rs \<and> load_location x (trim_space (rs_timezone rs)) = Some z
    \<and> local_date_key z (eq_starts r) = local_date_key z (eq_ends r)
    \<and> (\<exists>q\<in>set (active_rules org (eq_resource r) (tabs s)). opens z q (eq_starts r) (eq_ends r))"
proof -
  from assms(1) obtain sv rs s1 s2 where
    ref: "event_references org (eq_service r) (eq_resource r) s = (Inr (sv, rs), s1)" and
    rec: "ensure_within_recurring x org (eq_resource r) (eq_starts r) (eq_ends r) s1 = (Inr (), s2)"
    unfolding check_slot_def by (auto simp: ok_simps split: prod.splits)
  have s1: "tabs s1 = tabs s" by (rule reads_Inr [OF reads_event_references ref])
  from rec obtain qs t where q: "query (active_rules org (eq_resource r)) s1 = (Inr qs, t)"
    and rest: "(if qs = [] then ret () else and_then (resource_location x org (eq_resource r))
      (\<lambda>z. lift_res (check_recurring z qs (eq_starts r) (eq_ends r)))) t = (Inr (), s2)"
    unfolding ensure_within_recurring_def by (auto simp: ok_simps)
  have qs: "qs = active_rules org (eq_resource r) (tabs s)" "tabs t = tabs s" using query_Inr [OF q] s1 by simp_all
  with rest assms(2) obtain rw t2 z where f: "first (resource_by_id org (eq_resource r)) t = (Inr rw, t2)"
    and z: "load_location x (trim_space (rs_timezone rw)) = Some z"
    and ck: "check_recurring z qs (eq_starts r) (eq_ends r) = Inr ()"
    unfolding resource_location_def by (auto simp: ok_simps split: option.splits)
  have "local_date_key z (eq_starts r) = local_date_key z (eq_ends r)"
    "admitted_by_rules (local_date_key z (eq_starts r)) (local_weekday z (eq_starts r)) (local_clock_ns z (eq_starts r))
      (local_clock_ns z (eq_ends r)) qs = Inr ()"
    using ck unfolding check_recurring_def by (auto split: if_splits)
  with admitted_rule [OF this(2)] first_Inr [OF f] z qs show ?thesis unfolding opens_def by (auto 0 3)
qed

text \<open>
  C28: opening hours. A scheduled event that was created, for a resource that has active recurring rules, lies
  on one calendar day of the zone of the resource, and some active rule of that weekday, in force on
  that date, opens before it starts and closes after it ends.
\<close>
theorem scheduled_event_within_opening_hours:
  assumes "create_event x org user r s = (Inr e, u)" and "ev_status e = s_scheduled"
    and "active_rules org (ev_resource e) (tabs s) \<noteq> []"
  shows "\<exists>rs z. resource_by_id org (ev_resource e) (tabs s) = Some rs \<and> load_location x (trim_space (rs_timezone rs)) = Some z
    \<and> local_date_key z (ev_starts e) = local_date_key z (ev_ends e)
    \<and> (\<exists>q\<in>set (active_rules org (ev_resource e) (tabs s)). opens z q (ev_starts e) (ev_ends e))"
proof -
  let ?st = "if eq_status r = [] then s_scheduled else eq_status r"
  from assms(1) obtain i s0 where i: "mint (fresh_uuid x) s = (Inr i, s0)"
    and tr: "transaction (and_then (check_slot x org r ?st nil_uuid) (\<lambda>_.
        and_then (execute (insert_event (new_event i org user r ?st))) (\<lambda>_.
        and_then (audit_change org user ''booking_event'' i ''created'' None
          (Some (event_json x (new_event i org user r ?st)))) (\<lambda>_.
        ret (new_event i org user r ?st))))) s0 = (Inr e, u)"
    unfolding create_event_def Let_def by (auto simp: ok_simps)
  from tr obtain t0 u0 where body: "and_then (check_slot x org r ?st nil_uuid) (\<lambda>_.
        and_then (execute (insert_event (new_event i org user r ?st))) (\<lambda>_.
        and_then (audit_change org user ''booking_event'' i ''created'' None
          (Some (event_json x (new_event i org user r ?st)))) (\<lambda>_.
        ret (new_event i org user r ?st)))) t0 = (Inr e, u0)"
    and t0: "tabs t0 = tabs s0" "tabs u = tabs u0" by (rule transaction_Inr)
  from body obtain a t1 where ck: "check_slot x org r ?st nil_uuid t0 = (Inr a, t1)"
    and e: "e = new_event i org user r ?st"
    by (auto simp: ok_simps)
  have t: "tabs t0 = tabs s" using t0 mint_Inr [OF i] by simp
  have st: "?st = s_scheduled" using assms(2) e by simp
  from check_slot_open [OF ck [unfolded st]] assms(3) e t show ?thesis by simp
qed

end
