(* ===== verification/BookingCases.thy ===== *)
theory BookingCases
  imports BookingRuns SeatRefinement CreditMoves Guards
begin

text \<open>The properties of single requests, applied to the run of the sample tenant.\<close>

lemma serve_step: "admissible r \<Longrightarrow> booking_step x s (after (serve x org r) s)"
  unfolding after_def by (rule booking_step.served [where r = r and org = org]) (simp_all add: prod_eq_iff)

lemma one_step: "booking_step x s u \<Longrightarrow> (booking_step x)\<^sup>*\<^sup>* s u"
  by (rule r_into_rtranclp)

section \<open>Refused requests\<close>

theorem refused_request_changes_nothing_witness:
  "tabs (snd (overlapping_time_off run5)) = tabs run5"
proof -
  have "overlapping_time_off run5
      = (Inl (ClientError 409 ''Resource time off overlaps an existing time-off interval''), snd (overlapping_time_off run5))"
    by (rule prod_eqI, rule trans [OF lunch_taken]) (simp_all only: fst_conv snd_conv)
  from refused_request_changes_nothing [OF this] show ?thesis by simp
qed

section \<open>The life of a booking\<close>

lemma booking0_stored: "booking0 \<in> set (bookings (tabs run3))" "bk_status booking0 = s_reserved" "bk_version booking0 = 1"
  using run3_facts unfolding booking0_def by (cases "bookings (tabs run3)"; simp)+

lemma run6_step: "booking_step x0 run3 run6"
  unfolding run6_def by (rule serve_step) simp

theorem life_of_a_booking_witness:
  "\<exists>c\<in>set (bookings (tabs run6)). \<exists>n\<le>4. same_booking booking0 c \<and> bk_version c = 1 + int n
    \<and> (transition_allowed ^^ n) s_reserved (bk_status c)"
  using life_of_a_booking [OF run3_reachable one_step [OF run6_step] booking0_stored(1)]
  unfolding booking0_stored(2,3) by blast

lemma served_answer:
  assumes "succeeds m s"
  shows "silent m s = (Inr (), after (silent m) s)"
proof -
  obtain a u where "m s = (Inr a, u)" using succeeds_run [OF assms] by blast
  then show ?thesis unfolding after_def and_then_def ret_def by simp
qed

abbreviation "confirm_it \<equiv> TransitionBooking user0 (bk_id booking0) ''confirm'' confirm0 now0 now0"

theorem handlers_refine_seat_machine_witness:
  "perform (asked x0 org0 confirm_it run3) (plan_of (tabs run3)) = Some (plan_of (tabs run6))"
proof -
  have "serve x0 org0 confirm_it run3 = (Inr (), run6)"
    unfolding run6_def serve.simps by (rule served_answer [OF confirmed])
  from handlers_refine_seat_machine [OF run3_reachable _ this] show ?thesis by simp
qed

section \<open>A cancellation\<close>

theorem transition_settles_credits_witness:
  "\<exists>p l. in_force org0 booking0 now0 (tabs run3) p \<and> cp_id p = 53
    \<and> ledger (tabs (after cancelling run3)) = ledger (tabs run3) @ [l] \<and> le_type l = ''release'' \<and> le_delta l = 2"
proof -
  obtain c where c: "booking_by_id org0 (bk_id booking0) (tabs run3) = Some c" using booking0_paid(1) by blast
  have only: "bookings (tabs run3) = [booking0]" "bk_quantity booking0 = 2"
    using run3_facts unfolding booking0_def by (cases "bookings (tabs run3)"; simp)+
  then have "c = booking0" using booking_by_id_SomeD [OF c] by simp
  with c have found: "booking_by_id org0 (bk_id booking0) (tabs run3) = Some booking0" by simp
  have st: "status_from_transition ''cancel'' = Inr s_cancelled" by code_simp
  have "settlement x0 booking0 s_cancelled = Some (release_key x0 booking0, ''release'', 2)"
    using booking0_paid(2) booking0_stored(2) only(2) by (simp add: settlement_def)
  with transition_settles_credits [OF succeeds_run [OF cancelled] st found] booking0_paid(3)
  obtain p l where "in_force org0 booking0 now0 (tabs run3) p"
    "ledger (tabs (after cancelling run3)) = ledger (tabs run3) @ [l]" "le_type l = ''release''" "le_delta l = 2"
    by (auto simp: settled_by_def)
  moreover then have "cp_id p = 53" using booking0_paid(2) by (simp add: in_force_def)
  ultimately show ?thesis by blast
qed

section \<open>Stale requests\<close>

theorem stale_transition_refused_witness:
  "\<exists>err w. transition_booking x0 org0 user0 (bk_id booking0) ''cancel'' confirm0 now0 now0 (after confirming run3) = (Inl err, w)
    \<and> tabs w = tabs (after confirming run3)"
  by (rule stale_transition_refused [OF run3_reachable succeeds_run [OF confirmed] rtranclp.rtrancl_refl]) simp

section \<open>Two edits of an event\<close>

theorem second_event_update_refused_witness:
  "\<exists>err w. update_event x0 org0 8 event_id (wider\<lparr>eq_capacity := 1\<rparr>) (after widening run2) = (Inl err, w)
    \<and> tabs w = tabs (after widening run2)"
  by (rule second_event_update_refused [OF run2_reachable succeeds_run [OF widened]]) simp

section \<open>An AI reservation\<close>


section \<open>Opening hours\<close>

theorem scheduled_event_within_opening_hours_witness:
  "\<exists>rs z. resource_by_id org0 (ev_resource (answer opening run7)) (tabs run7) = Some rs
    \<and> load_location x0 (trim_space (rs_timezone rs)) = Some z
    \<and> local_date_key z (ev_starts (answer opening run7)) = local_date_key z (ev_ends (answer opening run7))
    \<and> (\<exists>q\<in>set (active_rules org0 (ev_resource (answer opening run7)) (tabs run7)).
        opens z q (ev_starts (answer opening run7)) (ev_ends (answer opening run7)))"
  by (rule scheduled_event_within_opening_hours) (use opened in \<open>auto intro: succeeds_run\<close>)

section \<open>The same booking twice\<close>

lemma create_booking_run:
  assumes "cq_event req = nil_uuid" and "validate_create_booking (req\<lparr>cq_event := event\<rparr>) = Inr r"
    and "succeeds (transaction (create_body x org user r now clock)) s"
    and "faults (after (transaction (create_body x org user r now clock)) s) = []"
    and "booking_by_id org (bk_id (answer (transaction (create_body x org user r now clock)) s))
      (tabs (after (transaction (create_body x org user r now clock)) s)) = Some b"
  shows "create_booking x org user event req now clock s = (Inr b, after (transaction (create_body x org user r now clock)) s)"
  unfolding create_booking_def assms(1,2) as_client_def
  by (simp add: and_then_def reject_def ret_def lift_res_def succeeds_run [OF assms(3)] or_fail_run first_calm assms(4,5))

theorem booking_exactly_once_witness:
  "\<exists>d\<in>set (bookings (tabs run3)). fst (create_booking x0 org0 8 event_id booking_request0 now0 now0 run3)
    = (if bk_contact d = cq_contact booking_request0 then Inr d
       else Inl (DomainError ''conflict'' ''Idempotency key was already used for a different booking''))"
proof -
  have none: "cq_event booking_request0 = nil_uuid" by (simp add: booking_request0_def)
  obtain b where b: "booking_by_id org0 (bk_id (answer booking_it run2)) (tabs run3) = Some b"
    using booking_it_found by blast
  have once: "create_booking x0 org0 user0 event_id booking_request0 now0 now0 run2 = (Inr b, run3)"
    unfolding run3_def
    by (rule create_booking_run [OF none booking0_valid booking0_written])
      (use run3_calm b in \<open>simp_all only: run3_def [symmetric]\<close>)
  have "(8::uuid) \<noteq> nil_uuid" by simp
  from booking_exactly_once [OF run2_reachable once rtranclp.rtrancl_refl run3_calm this]
  obtain d where "d \<in> set (bookings (tabs run3))" "create_booking x0 org0 8 event_id booking_request0 now0 now0 run3
      = (if bk_contact d = cq_contact booking_request0 then Inr d
         else Inl (DomainError ''conflict'' ''Idempotency key was already used for a different booking''), run3)"
    by blast
  then show ?thesis by (intro bexI [of _ d]) (simp_all only: fst_conv)
qed

end
