(* ===== verification/BookingGaps.thy ===== *)
theory BookingGaps
  imports BookingCases
begin

text \<open>
  Runs of the sample tenant on which the handlers do what they should not: each lemma is a concrete,
  evaluated counterpart of a finding.
\<close>

section \<open>A waiting list outlives its event\<close>

text \<open>
  The event is cancelled while a contact is on its waiting list
  (only reserved, confirmed and checked-in bookings stop the cancellation), and the waitlisted booking
  can still be confirmed on it.
\<close>
lemma cancelled_event_confirms_waitlisted:
  "map (\<lambda>e. (ev_id e, ev_status e)) (events (tabs run8)) = [(event_id, s_cancelled)]
   \<and> succeeds (transition_booking x0 org0 user0 waiting_id ''confirm'' confirm0 now0 now0) run8"
  using runs_evaluated by blast

section \<open>An event without a status\<close>

text \<open>
  Replacing an event with a request that leaves the status empty, which creating one reads as scheduled,
  succeeds and stores an event that has no status at all.
\<close>
lemma update_stores_empty_status:
  "succeeds (update_event x0 org0 user0 event_id (slot0\<lparr>eq_version := 1\<rparr>)) run2
   \<and> map ev_status (events (tabs (after (update_event x0 org0 user0 event_id (slot0\<lparr>eq_version := 1\<rparr>)) run2))) = [[]]"
  using runs_evaluated by blast

section \<open>An inactive rule that is active\<close>

text \<open>
  A rule created as inactive is not checked against the other rules of the weekday and is nevertheless
  stored active: the resource has two overlapping active rules.
\<close>
lemma inactive_rule_stored_active:
  "succeeds switched_off run7
   \<and> map (\<lambda>r. (ar_weekday r, ar_start r, ar_end r, ar_active r)) (rules (tabs (after switched_off run7)))
     = [(1, ''09:00'', ''17:00'', True), (1, ''09:00'', ''17:00'', True)]"
  using runs_evaluated by blast

section \<open>A package that expired\<close>

text \<open>
  The booking of a contact whose package has expired can still be confirmed, but cancelling it is refused
  with a conflict, because giving the credit back demands a package that is in force.
\<close>
lemma expired_package_blocks_cancel:
  "succeeds (transition_booking x0 org0 user0 (bk_id booking0) ''confirm'' confirm0 (day0 + 31 * day_ns) (day0 + 31 * day_ns)) run3
   \<and> fst (transition_booking x0 org0 user0 (bk_id booking0) ''cancel'' confirm0 (day0 + 31 * day_ns) (day0 + 31 * day_ns) run3)
   = Inl (ClientError 409 ''Contact package has expired'')"
  using runs_evaluated by blast

end
