(* ===== verification/Encoding.thy ===== *)
theory Encoding
  imports GoStd
begin

text \<open>
  What the offers use of \<^verbatim>\<open>encoding/base64\<close> and \<^verbatim>\<open>encoding/hex\<close>: the raw URL encoding without padding, its
  decoder (which skips line breaks and ignores left-over bits, as Go's does unless it is strict), and
  hexadecimal. Strings are lists of bytes.
\<close>

section \<open>Bytes and sextets\<close>

abbreviation byte :: "char \<Rightarrow> int" where "byte c \<equiv> of_char c"

lemma byte_range: "0 \<le> byte c \<and> byte c < 256"
  by (cases c) (simp add: of_char_def)

lemma char_of_byte [simp]: "(char_of (byte c) :: char) = c"
  by simp

definition alphabet :: string where
  "alphabet = ''ABCDEFGHIJKLMNOPQRSTUVWXYZabcdefghijklmnopqrstuvwxyz0123456789-_''"

definition sextet :: "int \<Rightarrow> char" where
  "sextet n = alphabet ! nat n"

fun position :: "char \<Rightarrow> string \<Rightarrow> int option" where
  "position c [] = None"
| "position c (d # s) = (if c = d then Some 0 else map_option (\<lambda>n. n + 1) (position c s))"

definition unsextet :: "char \<Rightarrow> int option" where
  "unsextet c = position c alphabet"

lemma position_nth: "distinct s \<Longrightarrow> n < length s \<Longrightarrow> position (s ! n) s = Some (int n)"
proof (induction s arbitrary: n)
  case (Cons d s)
  then show ?case by (cases n) auto
qed simp

lemma position_SomeD: "position c s = Some n \<Longrightarrow> 0 \<le> n \<and> nat n < length s \<and> s ! nat n = c"
proof (induction s arbitrary: n)
  case (Cons d s)
  show ?case
  proof (cases "c = d")
    case False
    with Cons.prems obtain m where m: "position c s = Some m" "n = m + 1" by auto
    with Cons.IH [OF m(1)] show ?thesis by (simp add: nat_add_distrib)
  qed (use Cons.prems in auto)
qed simp

lemma alphabet_facts: "distinct alphabet" "length alphabet = 64"
  by (simp_all add: alphabet_def)

lemma unsextet_sextet: "0 \<le> n \<Longrightarrow> n < 64 \<Longrightarrow> unsextet (sextet n) = Some n"
  unfolding unsextet_def sextet_def using position_nth [OF alphabet_facts(1), of "nat n"]
  by (simp add: alphabet_facts nat_less_iff)

lemma sextet_unsextet: "unsextet c = Some n \<Longrightarrow> sextet n = c \<and> 0 \<le> n \<and> n < 64"
  unfolding unsextet_def sextet_def using position_SomeD [of c alphabet n] by (auto simp: alphabet_facts)

section \<open>base64.RawURLEncoding\<close>

fun base64 :: "string \<Rightarrow> string" where
  "base64 [] = []"
| "base64 [a] = [sextet (byte a div 4), sextet (byte a mod 4 * 16)]"
| "base64 [a, b] =
     [sextet (byte a div 4), sextet (byte a mod 4 * 16 + byte b div 16), sextet (byte b mod 16 * 4)]"
| "base64 (a # b # c # s) =
     [sextet (byte a div 4), sextet (byte a mod 4 * 16 + byte b div 16),
      sextet (byte b mod 16 * 4 + byte c div 64), sextet (byte c mod 64)] @ base64 s"

fun unsextets :: "string \<Rightarrow> int list option" where
  "unsextets [] = Some []"
| "unsextets (c # s) =
     (case unsextet c of None \<Rightarrow> None | Some n \<Rightarrow> map_option ((#) n) (unsextets s))"

fun join_sextets :: "int list \<Rightarrow> string option" where
  "join_sextets [] = Some []"
| "join_sextets [p] = None"
| "join_sextets [p, q] = Some [char_of (p * 4 + q div 16)]"
| "join_sextets [p, q, r] = Some [char_of (p * 4 + q div 16), char_of (q mod 16 * 16 + r div 4)]"
| "join_sextets (p # q # r # t # ns) =
     map_option (\<lambda>s. [char_of (p * 4 + q div 16), char_of (q mod 16 * 16 + r div 4), char_of (r mod 4 * 64 + t)] @ s)
       (join_sextets ns)"

definition line_break :: "char \<Rightarrow> bool" where
  "line_break c \<longleftrightarrow> c = CHR 0x0A \<or> c = CHR 0x0D"

definition unbase64 :: "string \<Rightarrow> string option" where
  "unbase64 s = (case unsextets (filter (\<lambda>c. \<not> line_break c) s) of
     None \<Rightarrow> None
   | Some ns \<Rightarrow> join_sextets ns)"

lemma digit_pair:
  fixes v w k :: int
  assumes "0 \<le> w" "w < k"
  shows "(v * k + w) div k = v" "(v * k + w) mod k = w"
  using assms by (simp_all add: div_add1_eq mult.commute)

lemma byte_digits:
  "0 \<le> byte c div 4" "byte c div 4 < 64" "0 \<le> byte c div 16" "byte c div 16 < 16" "0 \<le> byte c div 64" "byte c div 64 < 4"
  "0 \<le> byte c mod 4" "byte c mod 4 < 4" "0 \<le> byte c mod 16" "byte c mod 16 < 16" "0 \<le> byte c mod 64" "byte c mod 64 < 64"
  using byte_range [of c] by linarith+

lemma split_bytes:
  "byte a mod 4 * 16 + byte b div 16 < 64" "byte b mod 16 * 4 + byte c div 64 < 64"
  "byte a mod 4 * 16 < 64" "byte b mod 16 * 4 < 64"
  "0 \<le> byte a mod 4 * 16 + byte b div 16" "0 \<le> byte b mod 16 * 4 + byte c div 64"
  "0 \<le> byte a mod 4 * 16" "0 \<le> byte b mod 16 * 4"
  using byte_digits [of a] byte_digits [of b] byte_digits [of c] by linarith+

lemma join_bytes:
  "char_of (byte a div 4 * 4 + (byte a mod 4 * 16 + byte b div 16) div 16) = a"
  "char_of (byte a div 4 * 4 + byte a mod 4 * 16 div 16) = a"
  "char_of ((byte a mod 4 * 16 + byte b div 16) mod 16 * 16 + (byte b mod 16 * 4 + byte c div 64) div 4) = b"
  "char_of ((byte a mod 4 * 16 + byte b div 16) mod 16 * 16 + byte b mod 16 * 4 div 4) = b"
  "char_of ((byte b mod 16 * 4 + byte c div 64) mod 4 * 64 + byte c mod 64) = c"
proof -
  note digits = byte_digits [of a] byte_digits [of b] byte_digits [of c]
  have "(byte a mod 4 * 16 + byte b div 16) div 16 = byte a mod 4" "(byte a mod 4 * 16 + byte b div 16) mod 16 = byte b div 16"
    "(byte b mod 16 * 4 + byte c div 64) div 4 = byte b mod 16" "(byte b mod 16 * 4 + byte c div 64) mod 4 = byte c div 64"
    using digits by (simp_all only: digit_pair)
  then show "char_of (byte a div 4 * 4 + (byte a mod 4 * 16 + byte b div 16) div 16) = a"
    "char_of (byte a div 4 * 4 + byte a mod 4 * 16 div 16) = a"
    "char_of ((byte a mod 4 * 16 + byte b div 16) mod 16 * 16 + (byte b mod 16 * 4 + byte c div 64) div 4) = b"
    "char_of ((byte a mod 4 * 16 + byte b div 16) mod 16 * 16 + byte b mod 16 * 4 div 4) = b"
    "char_of ((byte b mod 16 * 4 + byte c div 64) mod 4 * 64 + byte c mod 64) = c"
    by (simp_all only: div_mult_mod_eq char_of_byte nonzero_mult_div_cancel_right)
qed

lemma sextet_not_break: "0 \<le> n \<Longrightarrow> n < 64 \<Longrightarrow> \<not> line_break (sextet n)"
proof -
  assume "0 \<le> n" "n < 64"
  then have "sextet n \<in> set alphabet" unfolding sextet_def by (simp add: alphabet_facts nat_less_iff)
  moreover have "\<forall>c\<in>set alphabet. \<not> line_break c" by (simp add: alphabet_def line_break_def)
  ultimately show ?thesis by blast
qed

lemma base64_clean: "filter (\<lambda>c. \<not> line_break c) (base64 s) = base64 s"
  by (induction s rule: base64.induct) (simp_all add: sextet_not_break split_bytes byte_digits)

lemma unsextets_Cons: "0 \<le> n \<Longrightarrow> n < 64 \<Longrightarrow> unsextets (sextet n # s) = map_option ((#) n) (unsextets s)"
  by (simp add: unsextet_sextet)

lemma join_base64: "(case unsextets (base64 s) of None \<Rightarrow> None | Some ns \<Rightarrow> join_sextets ns) = Some s"
proof (induction s rule: base64.induct)
  case (4 a b c s)
  then obtain ns where ns: "unsextets (base64 s) = Some ns" "join_sextets ns = Some s"
    by (auto split: option.splits)
  then show ?case
    by (simp only: base64.simps append.simps unsextets_Cons split_bytes byte_digits option.map option.case
        join_sextets.simps join_bytes ns)
qed (simp_all only: base64.simps append.simps unsextets.simps(1) unsextets_Cons split_bytes byte_digits option.map option.case
    join_sextets.simps join_bytes)

lemma unbase64_base64: "unbase64 (base64 s) = Some s"
  unfolding unbase64_def base64_clean by (rule join_base64)

section \<open>hex.DecodeString\<close>

definition hex_digit :: "char \<Rightarrow> bool" where
  "hex_digit c \<longleftrightarrow> c \<in> set ''0123456789abcdefABCDEF''"

definition is_hex :: "string \<Rightarrow> bool" where
  "is_hex s \<longleftrightarrow> even (length s) \<and> list_all hex_digit s"

definition hex_nibble :: "int \<Rightarrow> char" where
  "hex_nibble n = ''0123456789abcdef'' ! nat n"

definition hex_encode :: "string \<Rightarrow> string" where
  "hex_encode s = concat (map (\<lambda>c. [hex_nibble (byte c div 16), hex_nibble (byte c mod 16)]) s)"

lemma hex_encode_length [simp]: "length (hex_encode s) = 2 * length s"
  by (induction s) (simp_all add: hex_encode_def)

lemma hex_nibble_digit: "0 \<le> n \<Longrightarrow> n < 16 \<Longrightarrow> hex_digit (hex_nibble n)"
proof -
  assume n: "0 \<le> n" "n < 16"
  then have "hex_nibble n \<in> set ''0123456789abcdef''" unfolding hex_nibble_def by (intro nth_mem) simp
  then show ?thesis by (auto simp: hex_digit_def)
qed

lemma hex_encode_hex: "is_hex (hex_encode s)"
proof -
  have "list_all hex_digit (hex_encode s)"
    by (induction s) (simp_all add: hex_encode_def hex_nibble_digit byte_digits)
  then show ?thesis by (simp add: is_hex_def)
qed

end
