(* ===== verification/Offers.thy ===== *)
theory Offers
  imports BookingCore Calendar Encoding
begin

text \<open>
  \<^verbatim>\<open>internal/booking/booking.go\<close>, the conversation with a customer: the intent a model may return, the offer of
  up to three slots, the token that confirms one of them, and the texts. Taken as parameters: the text
  of a JSON body as a tree (\<^verbatim>\<open>encoding/json\<close>), \<^verbatim>\<open>uuid.Parse\<close>, the random bytes of the tokens and the
  hash of the reservation key. \<open>OfferJSON\<close> and \<open>OfferFingerprint\<close> marshal JSON and are not modelled.
\<close>

section \<open>JSON trees\<close>

datatype json =
    JNull
  | JBool bool
  | JNumber string
  | JString string
  | JArray "json list"
  | JObject "(string \<times> json) list"

text \<open>\<open>walk\<close>: no object repeats a key, at any depth.\<close>

fun strict_walk :: "json \<Rightarrow> bool" where
  "strict_walk (JObject ps) \<longleftrightarrow> distinct (map fst ps) \<and> list_all (\<lambda>p. strict_walk (snd p)) ps"
| "strict_walk (JArray items) \<longleftrightarrow> list_all strict_walk items"
| "strict_walk _ \<longleftrightarrow> True"

definition m_json_size :: string where "m_json_size = ''JSON body is empty or oversized''"
definition m_json_duplicate :: string where "m_json_duplicate = ''duplicate JSON key''"
definition m_json_decode :: string where "m_json_decode = ''json: cannot decode''"

definition strict_json :: "(string \<Rightarrow> (err, json) result) \<Rightarrow> string \<Rightarrow> (json \<Rightarrow> (err, 'a) result) \<Rightarrow> (err, 'a) result" where
  "strict_json read raw decode =
     (if raw = [] \<or> 32768 < length raw then Inl (invalid m_json_size)
      else res_bind (read raw) (\<lambda>tree.
        if strict_walk tree then decode tree else Inl (invalid m_json_duplicate)))"

section \<open>Intents\<close>

record intent =
  it_action :: string
  it_reply :: string
  it_service :: string
  it_date :: string

text \<open>A string sets the field, null leaves it, any other value and any other key is an error.\<close>

fun decode_field :: "string \<times> json \<Rightarrow> intent \<Rightarrow> (err, intent) result" where
  "decode_field (key, v) i =
     (let k = fold_key key in
      if k \<notin> {''action'', ''reply'', ''service'', ''date''} then Inl (OtherError m_json_decode)
      else (case v of
        JNull \<Rightarrow> Inr i
      | JString s \<Rightarrow> Inr (if k = ''action'' then i\<lparr>it_action := s\<rparr>
          else if k = ''reply'' then i\<lparr>it_reply := s\<rparr>
          else if k = ''service'' then i\<lparr>it_service := s\<rparr>
          else i\<lparr>it_date := s\<rparr>)
      | _ \<Rightarrow> Inl (OtherError m_json_decode)))"

fun decode_fields :: "(string \<times> json) list \<Rightarrow> intent \<Rightarrow> (err, intent) result" where
  "decode_fields [] i = Inr i"
| "decode_fields (f # fs) i = res_bind (decode_field f i) (decode_fields fs)"

definition no_intent :: intent where
  "no_intent = \<lparr>it_action = [], it_reply = [], it_service = [], it_date = []\<rparr>"

definition decode_intent :: "json \<Rightarrow> (err, intent) result" where
  "decode_intent tree =
     (case tree of
        JNull \<Rightarrow> Inr no_intent
      | JObject ps \<Rightarrow> decode_fields ps no_intent
      | _ \<Rightarrow> Inl (OtherError m_json_decode))"

definition booking_claims :: "string list" where
  "booking_claims = [''confirmed'', ''reserved'', ''booked'', ''scheduled'', ''disahkan'', ''ditempah'', ''dijadualkan'', ''book '']"

definition m_intent_size :: string where "m_intent_size = ''intent is oversized''"
definition m_intent_fields :: string where "m_intent_fields = ''intent fields are oversized''"
definition m_intent_ids :: string where "m_intent_ids = ''model-selected identifiers are forbidden''"
definition m_intent_date :: string where "m_intent_date = ''date must be YYYY-MM-DD''"
definition m_intent_reply :: string where "m_intent_reply = ''invalid reply intent''"
definition m_intent_claim :: string where
  "m_intent_claim = ''model reply cannot claim a booking or issue confirmation syntax''"
definition m_intent_offer :: string where
  "m_intent_offer = ''offer requires a service name only and optional exact date''"
definition m_intent_handoff :: string where "m_intent_handoff = ''invalid handoff intent''"
definition m_intent_action :: string where "m_intent_action = ''unknown intent action''"

definition check_intent :: "(string \<Rightarrow> bool) \<Rightarrow> intent \<Rightarrow> (err, intent) result" where
  "check_intent is_uuid i =
     (if 2000 < length (it_reply i) \<or> 120 < length (it_service i) \<or> 10 < length (it_date i)
      then Inl (invalid m_intent_fields)
      else if it_service i \<noteq> [] \<and> is_uuid (it_service i) then Inl (invalid m_intent_ids)
      else if it_date i \<noteq> [] \<and> parse_date (it_date i) = None then Inl (invalid m_intent_date)
      else if it_action i = ''reply'' then
        (if trim_space (it_reply i) = [] \<or> it_service i \<noteq> [] \<or> it_date i \<noteq> [] then Inl (invalid m_intent_reply)
         else if list_ex (\<lambda>claim. contains (lower_text (it_reply i)) claim) booking_claims
         then Inl (invalid m_intent_claim)
         else Inr i)
      else if it_action i = ''offer'' then
        (if it_reply i \<noteq> [] \<or> trim_space (it_service i) = [] then Inl (invalid m_intent_offer) else Inr i)
      else if it_action i = ''handoff'' then
        (if it_service i \<noteq> [] \<or> it_date i \<noteq> [] then Inl (invalid m_intent_handoff) else Inr i)
      else Inl (invalid m_intent_action))"

definition parse_intent ::
  "(string \<Rightarrow> (err, json) result) \<Rightarrow> (string \<Rightarrow> bool) \<Rightarrow> string \<Rightarrow> (err, intent) result" where
  "parse_intent read is_uuid raw =
     (if 8192 < length raw then Inl (invalid m_intent_size)
      else res_bind (strict_json read raw decode_intent) (check_intent is_uuid))"

definition handoff_markers :: "string list" where
  "handoff_markers = [''human'', ''speak to staff'', ''talk to staff'', ''speak to an agent'', ''talk to an agent'',
     ''receptionist'', ''manusia'', ''bercakap dengan staf'', ''emergency'', ''chest pain'', ''cannot breathe'',
     ''can'' @ [CHR 0x27] @ ''t breathe'', ''suicide'', ''overdose'', ''unconscious'', ''severe bleeding'', ''kecemasan'',
     ''sakit dada'', ''sesak nafas'', ''diagnos'', ''symptom'', ''dosage'', ''side effect'', ''medical advice'',
     ''treatment advice'', ''what medicine'', ''which medicine'', ''should i take'', ''ubat apa'', ''kesan sampingan'']"

definition requires_handoff :: "string \<Rightarrow> bool" where
  "requires_handoff text = list_ex (\<lambda>marker. contains (lower_text text) marker) handoff_markers"

section \<open>Offers\<close>

record binding =
  bd_org :: uuid
  bd_account :: uuid
  bd_contact :: uuid
  bd_scope :: uuid
  bd_channel :: string
  bd_revision :: string
  bd_digest :: string

record choice =
  ch_token :: string
  ch_slot :: slot_facts

record offer =
  of_schema :: int
  of_id :: uuid
  of_binding :: binding
  of_origin :: uuid
  of_message :: uuid
  of_created :: time
  of_expires :: time
  of_choices :: "choice list"

record slot =
  sl_event :: loaded_event
  sl_booked :: int
  sl_remaining :: int
  sl_timezone :: string
  sl_local_starts :: string
  sl_local_ends :: string

definition valid_binding :: "binding \<Rightarrow> bool" where
  "valid_binding b \<longleftrightarrow> bd_org b \<noteq> nil_uuid \<and> bd_account b \<noteq> nil_uuid \<and> bd_contact b \<noteq> nil_uuid
     \<and> bd_scope b \<noteq> nil_uuid \<and> trim_space (bd_channel b) \<noteq> [] \<and> trim_space (bd_revision b) \<noteq> []
     \<and> length (bd_revision b) \<le> 128 \<and> length (bd_digest b) = 64 \<and> is_hex (bd_digest b)"

definition valid_token :: "string \<Rightarrow> bool" where
  "valid_token t = (case unbase64 t of None \<Rightarrow> False | Some raw \<Rightarrow> length raw = 32 \<and> base64 raw = t)"

definition book_word :: string where "book_word = ''BOOK ''"

definition confirmation_token :: "string \<Rightarrow> string \<times> bool" where
  "confirmation_token text =
     (if \<not> has_prefix text book_word then ([], False)
      else (drop (length book_word) text, valid_token (drop (length book_word) text)))"

definition thirty_minutes :: int where "thirty_minutes = 30 * minute"

definition m_offer_scope :: string where "m_offer_scope = ''invalid offer scope''"
definition m_offer_slot :: string where "m_offer_slot = ''offer contains unavailable or duplicate slot''"
definition m_offer_random :: string where "m_offer_random = ''crypto/rand failed''"
definition m_durable_offer :: string where "m_durable_offer = ''invalid durable offer''"
definition m_durable_choice :: string where "m_durable_choice = ''invalid durable choice''"
definition m_slot_timezone :: string where "m_slot_timezone = ''invalid slot timezone''"
definition m_offer_gone :: string where
  "m_offer_gone = ''Booking offer is unavailable or expired; request a fresh offer''"
definition m_other_offer :: string where "m_other_offer = ''confirmation does not belong to this offer''"

definition bad_choice :: "string list \<Rightarrow> uuid list \<Rightarrow> time \<Rightarrow> choice \<Rightarrow> bool" where
  "bad_choice seen used created c =
     (let s = ch_slot c in
      \<not> valid_token (ch_token c) \<or> ch_token c \<in> set seen \<or> sf_event s \<in> set used \<or> sf_event s = nil_uuid
      \<or> sf_service s = nil_uuid \<or> sf_resource s = nil_uuid \<or> sf_event_version s < 1 \<or> sf_service_version s < 1
      \<or> sf_resource_version s < 1 \<or> sf_capacity s < 1 \<or> sf_starts s \<le> created \<or> sf_ends s \<le> sf_starts s
      \<or> trim_space (sf_service_name s) = [] \<or> trim_space (sf_resource_name s) = [])"

fun validate_choices :: "env \<Rightarrow> string list \<Rightarrow> uuid list \<Rightarrow> time \<Rightarrow> choice list \<Rightarrow> (err, unit) result" where
  "validate_choices x seen used created [] = Inr ()"
| "validate_choices x seen used created (c # cs) =
     (if bad_choice seen used created c then Inl (invalid m_durable_choice)
      else if load_location x (sf_timezone (ch_slot c)) = None then Inl (invalid m_slot_timezone)
      else validate_choices x (ch_token c # seen) (sf_event (ch_slot c) # used) created cs)"

definition validate_offer :: "env \<Rightarrow> offer \<Rightarrow> (err, unit) result" where
  "validate_offer x off =
     (if of_schema off \<noteq> 1 \<or> of_id off = nil_uuid \<or> \<not> valid_binding (of_binding off) \<or> of_origin off = nil_uuid
        \<or> of_message off = nil_uuid \<or> is_zero_time (of_created off) \<or> of_expires off \<le> of_created off
        \<or> thirty_minutes < sub_time (of_expires off) (of_created off)
        \<or> length (of_choices off) < 1 \<or> 3 < length (of_choices off)
      then Inl (invalid m_durable_offer)
      else validate_choices x [] [] (of_created off) (of_choices off))"

text \<open>
  The loop of \<open>NewOffer\<close>. \<open>draws\<close> is what \<open>rand.Read\<close> put into the 32 bytes of each token, None an error.
\<close>

fun offer_choices :: "binding \<Rightarrow> time \<Rightarrow> uuid list \<Rightarrow> slot list \<Rightarrow> string option list \<Rightarrow> (err, choice list) result" where
  "offer_choices b now seen [] draws = Inr []"
| "offer_choices b now seen (s # ss) draws =
     (let e = le_event (sl_event s) in
      if ev_org e \<noteq> bd_org b \<or> sl_remaining s < 1 \<or> ev_starts e \<le> now \<or> ev_id e \<in> set seen
      then Inl (invalid m_offer_slot)
      else res_bind (facts_for_event (sl_event s)) (\<lambda>facts.
        case draws of
          Some raw # ds \<Rightarrow> res_bind (offer_choices b now (ev_id e # seen) ss ds) (\<lambda>cs.
            Inr (\<lparr>ch_token = base64 raw, ch_slot = facts\<rparr> # cs))
        | _ \<Rightarrow> Inl (OtherError m_offer_random)))"

definition new_offer ::
  "env \<Rightarrow> uuid \<Rightarrow> string option list \<Rightarrow> binding \<Rightarrow> uuid \<Rightarrow> uuid \<Rightarrow> slot list \<Rightarrow> time \<Rightarrow> int \<Rightarrow> (err, offer) result" where
  "new_offer x i draws b origin message slots now ttl =
     (if \<not> valid_binding b \<or> origin = nil_uuid \<or> message = nil_uuid \<or> ttl \<le> 0 \<or> thirty_minutes < ttl
        \<or> length slots < 1 \<or> 3 < length slots
      then Inl (invalid m_offer_scope)
      else res_bind (offer_choices b now [] slots draws) (\<lambda>cs.
        let off = \<lparr>of_schema = 1, of_id = i, of_binding = b, of_origin = origin, of_message = message,
          of_created = now, of_expires = now + ttl, of_choices = cs\<rparr> in
        res_bind (validate_offer x off) (\<lambda>_. Inr off)))"

fun choice_with :: "string \<Rightarrow> choice list \<Rightarrow> choice option" where
  "choice_with token [] = None"
| "choice_with token (c # cs) = (if ch_token c = token then Some c else choice_with token cs)"

definition validate_confirmation ::
  "env \<Rightarrow> offer \<Rightarrow> binding \<Rightarrow> string \<Rightarrow> bool \<Rightarrow> time \<Rightarrow> (err, choice) result" where
  "validate_confirmation x off b token sent now =
     res_bind (validate_offer x off) (\<lambda>_.
       if of_binding off \<noteq> b \<or> \<not> sent \<or> now < of_created off \<or> of_expires off \<le> now \<or> \<not> valid_token token
       then Inl (conflict m_offer_gone)
       else (case choice_with token (of_choices off) of
           Some c \<Rightarrow> Inr c
         | None \<Rightarrow> Inl (invalid m_other_offer)))"

text \<open>\<open>sha\<close> is \<open>sha256.Sum256\<close>: 32 bytes.\<close>

definition reservation_key :: "env \<Rightarrow> (string \<Rightarrow> string) \<Rightarrow> uuid \<Rightarrow> string \<Rightarrow> string" where
  "reservation_key x sha i token =
     ''ai-booking:'' @ hex_encode (sha (''rereply:ai-booking:reservation:v1'' @ [CHR 0x0A] @ show_uuid x i @ [CHR 0x0A] @ token))"

section \<open>The texts a customer reads\<close>

definition pad_number :: "nat \<Rightarrow> int \<Rightarrow> string" where
  "pad_number width n = (let s = show_nat (nat n) in replicate (width - length s) (CHR ''0'') @ s)"

text \<open>The layout \<^verbatim>\<open>2006-01-02 15:04\<close> in a zone.\<close>

definition local_minute_text :: "zone \<Rightarrow> time \<Rightarrow> string" where
  "local_minute_text z t =
     (case local_civil z t of (y, m, d) \<Rightarrow>
        let clock = local_clock_ns z t div minute in
        pad_number 4 y @ ''-'' @ pad_number 2 m @ ''-'' @ pad_number 2 d @ '' ''
          @ pad_number 2 (clock div 60) @ '':'' @ pad_number 2 (clock mod 60))"

definition em_dash :: string where
  "em_dash = '' '' @ [CHR 0xE2, CHR 0x80, CHR 0x94] @ '' ''"

definition choice_text :: "env \<Rightarrow> nat \<Rightarrow> choice \<Rightarrow> string" where
  "choice_text x n c =
     (let s = ch_slot c; z = (case load_location x (sf_timezone s) of Some z \<Rightarrow> z | None \<Rightarrow> utc) in
      show_nat n @ ''. '' @ sf_service_name s @ em_dash @ sf_resource_name s @ em_dash @ local_minute_text z (sf_starts s)
        @ '' ('' @ sf_timezone s @ '')'' @ em_dash @ sf_location s @ [CHR 0x0A]
        @ ''To confirm this choice, send exactly: BOOK '' @ ch_token c @ [CHR 0x0A])"

fun choice_texts :: "env \<Rightarrow> nat \<Rightarrow> choice list \<Rightarrow> string" where
  "choice_texts x n [] = []"
| "choice_texts x n (c # cs) = choice_text x n c @ choice_texts x (Suc n) cs"

definition m_ask_staff :: string where "m_ask_staff = ''Please ask staff to help arrange your booking.''"
definition m_choices_head :: string where
  "m_choices_head = ''Available booking choices (one place; no payment taken):''"
definition m_choices_foot :: string where
  "m_choices_foot = ''Choices expire soon and capacity is checked again on confirmation.''"
definition m_reserved_unknown :: string where
  "m_reserved_unknown = ''Your booking is reserved. Please ask staff for the appointment details.''"

definition render_offer :: "env \<Rightarrow> offer \<Rightarrow> string" where
  "render_offer x off =
     (case validate_offer x off of
        Inl _ \<Rightarrow> m_ask_staff
      | Inr _ \<Rightarrow> m_choices_head @ [CHR 0x0A] @ choice_texts x 1 (of_choices off) @ m_choices_foot)"

definition render_confirmation :: "env \<Rightarrow> choice \<Rightarrow> string" where
  "render_confirmation x c =
     (let s = ch_slot c in
      case load_location x (sf_timezone s) of
        None \<Rightarrow> m_reserved_unknown
      | Some z \<Rightarrow> ''Your place is reserved: '' @ sf_service_name s @ '' with '' @ sf_resource_name s @ '' on ''
          @ local_minute_text z (sf_starts s) @ '' ('' @ sf_timezone s @ ''), '' @ sf_location s @ ''. No payment was taken.'')"

section \<open>Confirming an offer\<close>

lemma valid_token_iff: "valid_token t \<longleftrightarrow> (\<exists>raw. length raw = 32 \<and> t = base64 raw)"
  by (auto simp: valid_token_def unbase64_base64 split: option.splits)

text \<open>
  C29: tokens and their text: the token a customer sends back after BOOK is read as itself, and it is
  accepted exactly when it encodes 32 bytes; different bytes give different tokens.
\<close>
theorem confirmation_round_trip:
  "confirmation_token (''BOOK '' @ t) = (t, \<exists>raw. length raw = 32 \<and> t = base64 raw)
   \<and> unbase64 (base64 raw1) = Some raw1 \<and> (base64 raw1 = base64 raw2 \<longleftrightarrow> raw1 = raw2)"
proof -
  have "base64 raw1 = base64 raw2 \<Longrightarrow> raw1 = raw2" using unbase64_base64 by (metis option.inject)
  then show ?thesis
    by (auto simp: confirmation_token_def book_word_def has_prefix_iff valid_token_iff unbase64_base64)
qed

lemma validate_choicesD:
  assumes "validate_choices x seen used created cs = Inr ()"
  shows "distinct (map ch_token cs) \<and> set (map ch_token cs) \<inter> set seen = {}
    \<and> distinct (map (\<lambda>c. sf_event (ch_slot c)) cs) \<and> set (map (\<lambda>c. sf_event (ch_slot c)) cs) \<inter> set used = {}
    \<and> (\<forall>c\<in>set cs. valid_token (ch_token c) \<and> created < sf_starts (ch_slot c) \<and> sf_starts (ch_slot c) < sf_ends (ch_slot c)
        \<and> 1 \<le> sf_capacity (ch_slot c) \<and> load_location x (sf_timezone (ch_slot c)) \<noteq> None)"
  using assms
proof (induction cs arbitrary: seen used)
  case (Cons c cs)
  then have ok: "\<not> bad_choice seen used created c" "load_location x (sf_timezone (ch_slot c)) \<noteq> None"
    "validate_choices x (ch_token c # seen) (sf_event (ch_slot c) # used) created cs = Inr ()"
    by (auto split: if_splits)
  from Cons.IH [OF ok(3)] ok(1,2) show ?case
    by (auto simp: bad_choice_def Let_def)
qed simp

lemma choice_with_SomeD: "choice_with t cs = Some c \<Longrightarrow> c \<in> set cs \<and> ch_token c = t"
  by (induction cs) (auto split: if_splits)

lemma choice_with_mem: "distinct (map ch_token cs) \<Longrightarrow> c \<in> set cs \<Longrightarrow> choice_with (ch_token c) cs = Some c"
  by (induction cs) (auto simp: image_iff)

lemma validate_offer_choices:
  "validate_offer x off = Inr () \<Longrightarrow> validate_choices x [] [] (of_created off) (of_choices off) = Inr ()"
  by (auto simp: validate_offer_def split: if_splits)

text \<open>
  C30: every choice of an offer can be taken, and only as offered. For an offer \<open>NewOffer\<close> made, sending BOOK
  and the token of a choice within its life is accepted and selects that very choice.
\<close>
theorem offered_choice_confirms:
  assumes "new_offer x i draws b origin message slots now ttl = Inr off" and "c \<in> set (of_choices off)"
    and "now \<le> later_on" and "later_on < now + ttl"
  shows "confirmation_token (''BOOK '' @ ch_token c) = (ch_token c, True)
    \<and> validate_confirmation x off b (ch_token c) True later_on = Inr c"
proof -
  from assms(1) obtain cs where off: "off = \<lparr>of_schema = 1, of_id = i, of_binding = b, of_origin = origin, of_message = message,
          of_created = now, of_expires = now + ttl, of_choices = cs\<rparr>"
    and ok: "validate_offer x off = Inr ()"
    unfolding new_offer_def Let_def by (auto split: if_splits simp: res_bind_Inr_iff)
  note D = validate_choicesD [OF validate_offer_choices [OF ok]]
  have "choice_with (ch_token c) (of_choices off) = Some c" using D assms(2) by (intro choice_with_mem) auto
  moreover have "valid_token (ch_token c)" using D assms(2) by auto
  ultimately show ?thesis
    using ok off assms(3,4)
    by (simp add: validate_confirmation_def confirmation_token_def book_word_def has_prefix_iff)
qed

text \<open>
  C31: a confirmation that is accepted names one choice of the offer by its token and no other choice has
  that token; the offer was sent, bound to the same tenant, channel account, contact and revision, and
  is still open.
\<close>
theorem accepted_confirmation_sound:
  assumes "validate_confirmation x off b token sent now = Inr c"
  shows "c \<in> set (of_choices off) \<and> ch_token c = token \<and> (\<forall>d\<in>set (of_choices off). ch_token d = token \<longrightarrow> d = c)
    \<and> sent \<and> of_binding off = b \<and> of_created off \<le> now \<and> now < of_expires off
    \<and> sub_time (of_expires off) (of_created off) \<le> 30 * minute"
proof -
  from assms have ok: "validate_offer x off = Inr ()" and found: "choice_with token (of_choices off) = Some c"
    and rest: "of_binding off = b" "sent" "of_created off \<le> now" "now < of_expires off"
    unfolding validate_confirmation_def by (auto split: if_splits option.splits simp: res_bind_Inr_iff)
  note D = validate_choicesD [OF validate_offer_choices [OF ok]] and C = choice_with_SomeD [OF found]
  have "sub_time (of_expires off) (of_created off) \<le> 30 * minute"
    using ok by (auto simp: validate_offer_def thirty_minutes_def split: if_splits)
  moreover have "d = c" if "d \<in> set (of_choices off)" "ch_token d = token" for d
    using D C that by (auto simp: distinct_map dest: inj_onD)
  ultimately show ?thesis using C rest by blast
qed

end
