(* ===== verification/Slots.thy ===== *)
theory Slots
  imports Offers Guards
begin

text \<open>
  \<^verbatim>\<open>internal/booking/booking.go\<close>, the list of bookable slots, and what being listed promises. \<open>lower\<close> is the
  \<^verbatim>\<open>LOWER\<close> of the database, whose locale the code does not fix.
\<close>

section \<open>The query\<close>

record slot_filter =
  fl_from :: time
  fl_to :: time
  fl_service_id :: "uuid option"
  fl_resource_id :: "uuid option"
  fl_service :: string
  fl_date :: string
  fl_limit :: int
  fl_offset :: int

record slot_page =
  pg_slots :: "slot list"
  pg_total :: nat

definition m_slot_scope :: string where "m_slot_scope = ''invalid booking availability scope''"
definition m_slot_date :: string where "m_slot_date = ''date must be YYYY-MM-DD''"
definition m_slot_definitions :: string where "m_slot_definitions = ''booking slot definitions unavailable''"
definition m_unknown_zone :: string where "m_unknown_zone = ''unknown time zone''"

text \<open>\<^verbatim>\<open>BTRIM\<close> and \<^verbatim>\<open>TO_CHAR(... AT TIME ZONE ..., 'YYYY-MM-DD')\<close>.\<close>

definition btrim :: "string \<Rightarrow> string" where
  "btrim s = rev (dropWhile (\<lambda>c. c = CHR '' '') (rev (dropWhile (\<lambda>c. c = CHR '' '') s)))"

definition local_date_text :: "zone \<Rightarrow> time \<Rightarrow> string" where
  "local_date_text z t =
     (case local_civil z t of (y, m, d) \<Rightarrow> pad_number 4 y @ ''-'' @ pad_number 2 m @ ''-'' @ pad_number 2 d)"

text \<open>The layout \<open>time.RFC3339\<close> in a zone.\<close>

definition local_rfc3339 :: "zone \<Rightarrow> time \<Rightarrow> string" where
  "local_rfc3339 z t =
     (let clock = local_clock_ns z t div second_ns; off = quot (z t) 60 in
      local_date_text z t @ ''T'' @ pad_number 2 (clock div 3600) @ '':'' @ pad_number 2 (clock div 60 mod 60)
        @ '':'' @ pad_number 2 (clock mod 60)
        @ (if z t = 0 then ''Z''
           else (if off < 0 then ''-'' else ''+'') @ pad_number 2 (\<bar>off\<bar> div 60) @ '':'' @ pad_number 2 (\<bar>off\<bar> mod 60)))"

definition chosen :: "uuid option \<Rightarrow> uuid \<Rightarrow> bool" where
  "chosen want i \<longleftrightarrow> (case want of None \<Rightarrow> True | Some w \<Rightarrow> i = w)"

definition slot_open :: "uuid \<Rightarrow> slot_filter \<Rightarrow> tables \<Rightarrow> event_row \<Rightarrow> bool" where
  "slot_open org f t e \<longleftrightarrow>
     ev_org e = org \<and> ev_status e = s_scheduled \<and> \<not> ev_deleted e \<and> fl_from f \<le> ev_starts e \<and> ev_starts e \<le> fl_to f
     \<and> occupied_quantity org (ev_id e) t < ev_capacity e
     \<and> chosen (fl_service_id f) (ev_service e) \<and> chosen (fl_resource_id f) (ev_resource e)"

definition slot_named :: "(string \<Rightarrow> string) \<Rightarrow> uuid \<Rightarrow> slot_filter \<Rightarrow> tables \<Rightarrow> event_row \<Rightarrow> bool" where
  "slot_named lower org f t e \<longleftrightarrow>
     (case (active_service org (ev_service e) t, active_resource org (ev_resource e) t) of
        (Some sv, Some rs) \<Rightarrow>
          trim_space (fl_service f) = [] \<or> lower (btrim (sv_name sv)) = lower (trim_space (fl_service f))
      | _ \<Rightarrow> False)"

definition event_zone :: "env \<Rightarrow> uuid \<Rightarrow> tables \<Rightarrow> event_row \<Rightarrow> zone option" where
  "event_zone x org t e =
     (case active_resource org (ev_resource e) t of None \<Rightarrow> None | Some rs \<Rightarrow> load_location x (rs_timezone rs))"

definition slot_candidates :: "(string \<Rightarrow> string) \<Rightarrow> uuid \<Rightarrow> slot_filter \<Rightarrow> tables \<Rightarrow> event_row list" where
  "slot_candidates lower org f t = filter (\<lambda>e. slot_open org f t e \<and> slot_named lower org f t e) (events t)"

definition on_date :: "env \<Rightarrow> uuid \<Rightarrow> slot_filter \<Rightarrow> tables \<Rightarrow> event_row \<Rightarrow> bool" where
  "on_date x org f t e \<longleftrightarrow>
     fl_date f = [] \<or> (case event_zone x org t e of None \<Rightarrow> False | Some z \<Rightarrow> local_date_text z (ev_starts e) = fl_date f)"

text \<open>The rows of the query; an unknown time zone of a resource is an error of the database.\<close>

definition slot_rows :: "env \<Rightarrow> (string \<Rightarrow> string) \<Rightarrow> uuid \<Rightarrow> slot_filter \<Rightarrow> tables \<Rightarrow> err + event_row list" where
  "slot_rows x lower org f t =
     (let es = slot_candidates lower org f t in
      if fl_date f \<noteq> [] \<and> list_ex (\<lambda>e. event_zone x org t e = None) es then Inl (DriverError m_unknown_zone)
      else Inr (sort_key ev_starts (sort_key ev_id (filter (on_date x org f t) es))))"

definition fetch :: "('t \<Rightarrow> err + 'a) \<Rightarrow> ('t, 'a) tx" where
  "fetch q = and_then (query q) lift_res"

section \<open>Listing\<close>

definition to_slot :: "env \<Rightarrow> uuid \<Rightarrow> loaded_event \<times> int \<Rightarrow> (err, slot) result" where
  "to_slot x org row = (case row of (le, n) \<Rightarrow>
     (case (le_service le, le_resource le) of
        (Some sv, Some rs) \<Rightarrow>
          (case load_location x (rs_timezone rs) of
             None \<Rightarrow> Inl (OtherError m_unknown_zone)
           | Some z \<Rightarrow>
               let e = le_event le;
                   e' = (if trim_space (ev_location e) = [] then e\<lparr>ev_location := trim_space (rs_location rs)\<rparr> else e) in
               Inr \<lparr>sl_event = le\<lparr>le_event := e'\<rparr>, sl_booked = n, sl_remaining = wrap64 (ev_capacity e - n),
                 sl_timezone = rs_timezone rs, sl_local_starts = local_rfc3339 z (ev_starts e),
                 sl_local_ends = local_rfc3339 z (ev_ends e)\<rparr>)
      | _ \<Rightarrow> Inl (OtherError m_slot_definitions)))"

fun to_slots :: "env \<Rightarrow> uuid \<Rightarrow> (loaded_event \<times> int) list \<Rightarrow> (err, slot list) result" where
  "to_slots x org [] = Inr []"
| "to_slots x org (r # rs) = res_bind (to_slot x org r) (\<lambda>s. res_bind (to_slots x org rs) (\<lambda>ss. Inr (s # ss)))"

definition list_slots :: "env \<Rightarrow> (string \<Rightarrow> string) \<Rightarrow> uuid \<Rightarrow> slot_filter \<Rightarrow> (tables, slot_page) tx" where
  "list_slots x lower org f =
     and_then (reject (org = nil_uuid \<or> is_zero_time (fl_from f) \<or> fl_to f \<le> fl_from f \<or> fl_limit f < 1
       \<or> 250 < fl_limit f \<or> fl_offset f < 0) (invalid m_slot_scope)) (\<lambda>_.
     and_then (reject (fl_date f \<noteq> [] \<and> parse_date (fl_date f) = None) (invalid m_slot_date)) (\<lambda>_.
     and_then (fetch (slot_rows x lower org f)) (\<lambda>counted.
     and_then (fetch (\<lambda>t. case slot_rows x lower org f t of Inl e \<Rightarrow> Inl e
       | Inr es \<Rightarrow> Inr (map (\<lambda>e. (e, occupied_quantity org (ev_id e) t)) (take (nat (fl_limit f)) (drop (nat (fl_offset f)) es))))) (\<lambda>page.
     and_then (query (\<lambda>t. map (\<lambda>(e, n). (e, n, active_service org (ev_service e) t)) page)) (\<lambda>served.
     and_then (query (\<lambda>t. map (\<lambda>(e, n, sv). (\<lparr>le_event = e, le_service = sv,
       le_resource = active_resource org (ev_resource e) t\<rparr>, n)) served)) (\<lambda>loaded.
     and_then (lift_res (to_slots x org loaded)) (\<lambda>slots.
     ret \<lparr>pg_slots = slots, pg_total = length counted\<rparr>)))))))"

section \<open>What a listed slot promises\<close>

lemma fetch_Inr: "fetch q s = (Inr a, u) \<Longrightarrow> q (tabs s) = Inr a \<and> tabs u = tabs s"
  unfolding fetch_def by (auto simp: ok_simps dest!: query_Inr)

lemma to_slots_mem:
  "to_slots x org rows = Inr slots \<Longrightarrow> s \<in> set slots \<Longrightarrow> \<exists>r\<in>set rows. to_slot x org r = Inr s"
  by (induction rows arbitrary: slots) (auto simp: res_bind_Inr_iff)

lemma to_slot_Inr:
  assumes "to_slot x org (le, n) = Inr s"
  obtains sv rs where "le_service le = Some sv" "le_resource le = Some rs" "sl_booked s = n"
    "sl_remaining s = wrap64 (ev_capacity (le_event le) - n)"
    "sl_event s = le\<lparr>le_event := (if trim_space (ev_location (le_event le)) = []
      then (le_event le)\<lparr>ev_location := trim_space (rs_location rs)\<rparr> else le_event le)\<rparr>"
  using assms unfolding to_slot_def by (auto simp: Let_def split: option.splits)

text \<open>A slot of the page is an open event with the definitions that are active.\<close>

lemma listed_slot:
  assumes "list_slots x lower org f s = (Inr pg, u)" and "sl \<in> set (pg_slots pg)"
  obtains e sv rs where "e \<in> set (events (tabs s))" "slot_open org f (tabs s) e"
    "active_service org (ev_service e) (tabs s) = Some sv" "active_resource org (ev_resource e) (tabs s) = Some rs"
    "sl_remaining sl = wrap64 (ev_capacity e - occupied_quantity org (ev_id e) (tabs s))"
    "sl_event sl = \<lparr>le_event = (if trim_space (ev_location e) = [] then e\<lparr>ev_location := trim_space (rs_location rs)\<rparr> else e),
      le_service = Some sv, le_resource = Some rs\<rparr>"
proof -
  from assms(1) obtain counted t1 rows t2 served t3 loaded slots where
    c: "fetch (slot_rows x lower org f) s = (Inr counted, t1)" and
    p: "fetch (\<lambda>t. case slot_rows x lower org f t of Inl e \<Rightarrow> Inl e
       | Inr es \<Rightarrow> Inr (map (\<lambda>e. (e, occupied_quantity org (ev_id e) t)) (take (nat (fl_limit f)) (drop (nat (fl_offset f)) es)))) t1
      = (Inr rows, t2)" and
    q: "query (\<lambda>t. map (\<lambda>(e, n). (e, n, active_service org (ev_service e) t)) rows) t2 = (Inr served, t3)" and
    r: "query (\<lambda>t. map (\<lambda>(e, n, sv). (\<lparr>le_event = e, le_service = sv,
       le_resource = active_resource org (ev_resource e) t\<rparr>, n)) served) t3 = (Inr loaded, u)" and
    sl: "to_slots x org loaded = Inr slots" and pg: "pg = \<lparr>pg_slots = slots, pg_total = length counted\<rparr>"
    unfolding list_slots_def by (auto simp: ok_simps)
  note C = fetch_Inr [OF c] and P = fetch_Inr [OF p] and Q = query_Inr [OF q] and R = query_Inr [OF r]
  have same: "tabs t1 = tabs s" "tabs t2 = tabs s" "tabs t3 = tabs s" using C P Q by simp_all
  have "sl \<in> set slots" using assms(2) pg by simp
  with to_slots_mem [OF sl] obtain le n where le: "(le, n) \<in> set loaded" "to_slot x org (le, n) = Inr sl" by force
  from P same C have rows: "rows = map (\<lambda>e. (e, occupied_quantity org (ev_id e) (tabs s)))
      (take (nat (fl_limit f)) (drop (nat (fl_offset f)) counted))" by simp
  with le(1) Q R same obtain e where e: "e \<in> set counted" "n = occupied_quantity org (ev_id e) (tabs s)"
    "le = \<lparr>le_event = e, le_service = active_service org (ev_service e) (tabs s),
      le_resource = active_resource org (ev_resource e) (tabs s)\<rparr>"
    by (auto dest!: in_set_takeD in_set_dropD)
  have "e \<in> set (slot_candidates lower org f (tabs s))"
    using C e(1) unfolding slot_rows_def Let_def by (auto split: if_splits)
  then have ev: "e \<in> set (events (tabs s))" "slot_open org f (tabs s) e" by (auto simp: slot_candidates_def)
  from le(2) show ?thesis
    by (rule to_slot_Inr) (use that [OF ev] e in auto)
qed

lemma first_calm_Some: "faults s = [] \<Longrightarrow> q (tabs s) = Some r \<Longrightarrow> first q s = (Inr r, s)"
  by (simp add: first_calm)

lemma or_not_found_calm: "m s = (Inr a, t) \<Longrightarrow> or_not_found m e s = (Inr a, t)"
  by (simp add: or_not_found_def)

lemma bind_calm: "m s = (Inr a, t) \<Longrightarrow> and_then m f s = f a t"
  by (simp add: and_then_def)

lemma reject_calm: "\<not> c \<Longrightarrow> reject c e s = (Inr (), s)"
  by (simp add: reject_def ret_def)

lemma lock_event_calm:
  assumes "faults s = []" "org \<noteq> nil_uuid" "event \<noteq> nil_uuid" "event_by_id org event (tabs s) = Some e" "ev_status e = s_scheduled"
    "active_service org (ev_service e) (tabs s) = Some sv" "active_resource org (ev_resource e) (tabs s) = Some rs"
  shows "lock_event org event s = (Inr \<lparr>le_event = e, le_service = Some sv, le_resource = Some rs\<rparr>, s)"
  unfolding lock_event_def
  by (simp add: assms bind_calm [OF reject_calm] bind_calm [OF or_not_found_calm [OF first_calm_Some]] ret_def)

lemma event_by_id_mem:
  assumes "safe t" "e \<in> set (events t)" "ev_org e = org" "\<not> ev_deleted e"
  shows "event_by_id org (ev_id e) t = Some e"
proof -
  have inj: "inj_on ev_id (set (events t))" using assms(1) by (simp add: safe_def booking_ok_def distinct_map)
  have "e \<in> set (filter (\<lambda>r. ev_id r = ev_id e \<and> ev_org r = org \<and> \<not> ev_deleted r) (events t))" using assms(2-4) by simp
  then have "event_by_id org (ev_id e) t \<noteq> None" unfolding event_by_id_def first_in_None_iff by (metis empty_iff empty_set)
  then obtain f where f: "event_by_id org (ev_id e) t = Some f" by blast
  from event_by_id_SomeD [OF f] inj_onD [OF inj, of f e] assms(2) f show ?thesis by simp
qed

lemma relocated:
  "ev_id (e\<lparr>ev_location := l\<rparr>) = ev_id e" "ev_org (e\<lparr>ev_location := l\<rparr>) = ev_org e"
  "ev_service (e\<lparr>ev_location := l\<rparr>) = ev_service e" "ev_resource (e\<lparr>ev_location := l\<rparr>) = ev_resource e"
  "ev_version (e\<lparr>ev_location := l\<rparr>) = ev_version e" "ev_starts (e\<lparr>ev_location := l\<rparr>) = ev_starts e"
  "ev_ends (e\<lparr>ev_location := l\<rparr>) = ev_ends e" "ev_capacity (e\<lparr>ev_location := l\<rparr>) = ev_capacity e"
  "ev_location (e\<lparr>ev_location := l\<rparr>) = l"
  by (cases e; simp)+

lemma facts_of_listed:
  "facts_for_event \<lparr>le_event = (if trim_space (ev_location e) = [] then e\<lparr>ev_location := trim_space (rs_location rs)\<rparr> else e),
      le_service = Some sv, le_resource = Some rs\<rparr>
    = facts_for_event \<lparr>le_event = e, le_service = Some sv, le_resource = Some rs\<rparr>"
proof (cases "trim_space (ev_location e) = []")
  case True
  have "(if trim_space (trim_space (rs_location rs)) = [] then trim_space (rs_location rs) else trim_space (trim_space (rs_location rs)))
      = trim_space (rs_location rs)"
    by (simp only: trim_space_idem if_cancel)
  with True show ?thesis
    unfolding facts_for_event_def Let_def loaded_event.simps option.case prod.case if_P [OF True]
    by (simp only: relocated trim_space_idem if_cancel refl if_True)
next
  case False
  then show ?thesis by (simp only: if_False)
qed

lemma execute_calm_Inr: "faults s = [] \<Longrightarrow> f (tabs s) = Inr (a, t) \<Longrightarrow> execute f s = (Inr a, s\<lparr>tabs := t\<rparr>)"
  by (simp add: execute_calm)

lemma mint_calm: "mint fresh s = (Inr (fresh (minted s)), s\<lparr>minted := Suc (minted s)\<rparr>)"
  by (simp add: mint_def)

lemma event_rows_affected:
  assumes "safe t" and "e \<in> set (events t)" and "ev_org e = org" and "\<not> ev_deleted e"
  shows "rows_affected (\<lambda>r. ev_id r = ev_id e \<and> ev_org r = org \<and> \<not> ev_deleted r) (events t) = 1"
proof -
  let ?p = "\<lambda>r. ev_id r = ev_id e \<and> ev_org r = org \<and> \<not> ev_deleted r"
  have dist: "distinct (map ev_id (events t))" using assms(1) by (simp add: safe_def booking_ok_def)
  have inj: "inj_on ev_id (set (events t))" and d: "distinct (events t)" using dist by (simp_all add: distinct_map)
  have p: "?p r \<longleftrightarrow> r = e" if "r \<in> set (events t)" for r
    using inj_onD [OF inj _ that assms(2)] assms(3,4) by blast
  have "set (filter ?p (events t)) = {e}" using p assms(2) by force
  moreover have "distinct (filter ?p (events t))" using d by simp
  ultimately have "length (filter ?p (events t)) = card {e}" by (simp only: distinct_card [symmetric])
  then show ?thesis by (simp add: rows_affected_def)
qed

section \<open>A listed slot can be booked\<close>

text \<open>The reservation an AI channel asks for when a customer confirms a choice.\<close>

definition ai_reservation :: "slot_facts \<Rightarrow> uuid \<Rightarrow> string \<Rightarrow> string \<Rightarrow> jsonb \<Rightarrow> time \<Rightarrow> reserve_input" where
  "ai_reservation facts contact source key md expires =
    \<lparr>ri_event = sf_event facts, ri_contact = contact, ri_quantity = 1, ri_status = s_reserved, ri_source = source,
     ri_notes = [], ri_package = None, ri_waitlist = False, ri_key = key, ri_metadata = md, ri_actor = None,
     ri_expected = Some facts, ri_offer_expires = expires\<rparr>"

definition ready_to_book :: "env \<Rightarrow> uuid \<Rightarrow> uuid \<Rightarrow> string \<Rightarrow> time \<Rightarrow> time \<Rightarrow> tables db \<Rightarrow> bool" where
  "ready_to_book x org contact key expires now v \<longleftrightarrow>
     faults v = [] \<and> org \<noteq> nil_uuid \<and> contact \<noteq> nil_uuid \<and> trim_space key \<noteq> [] \<and> rune_count (trim_space key) \<le> 255
     \<and> (case contact_by_id org contact (tabs v) of Some c \<Rightarrow> ct_merged_into c = None | None \<Rightarrow> False)
     \<and> (\<forall>b\<in>set (bookings (tabs v)). bk_id b \<noteq> fresh_uuid x (minted v) \<and> (bk_org b = org \<longrightarrow> bk_key b \<noteq> trim_space key))
     \<and> \<not> is_zero_time expires \<and> now < expires \<and> has_entitlement_tx org now v = (Inr True, v)"

lemma reserve_slot_calm:
  assumes ready: "ready_to_book x org contact key expires now v" and ok: "safe (tabs v)"
    and e: "e \<in> set (events (tabs v))" "ev_org e = org" "\<not> ev_deleted e" "now < ev_starts e"
      "occupied_quantity org (ev_id e) (tabs v) < ev_capacity e"
    and facts: "facts_for_event \<lparr>le_event = e, le_service = sv, le_resource = rs\<rparr> = Inr facts"
  shows "\<exists>r u. reserve_slot x org (normal_reserve (ai_reservation facts contact source key md expires))
    \<lparr>le_event = e, le_service = sv, le_resource = rs\<rparr> now v = (Inr r, u) \<and> rr_created r \<and> bk_event (rr_booking r) = ev_id e"
proof -
  let ?inp = "normal_reserve (ai_reservation facts contact source key md expires)"
  let ?le = "\<lparr>le_event = e, le_service = sv, le_resource = rs\<rparr>"
  let ?i = "fresh_uuid x (minted v)"
  let ?b = "new_booking ?i org ?inp e s_reserved now"
  let ?v1 = "v\<lparr>minted := Suc (minted v)\<rparr>"
  have calm: "faults v = []" using ready by (simp add: ready_to_book_def)
  have inp: "ri_expected ?inp = Some facts" "ri_status ?inp = s_reserved" "ri_quantity ?inp = 1"
    "ri_offer_expires ?inp = expires" "ri_key ?inp = trim_space key" "ri_package ?inp = None"
    by (simp_all add: normal_reserve_def ai_reservation_def booking_status_nonempty)
  have "fits (tabs v) e" using ok e(1) by (simp add: safe_def booking_okD(5))
  then have "wrap64 (ev_capacity e - 1) = ev_capacity e - 1" by (intro wrap_small) (simp add: fits_def)
  then have ad: "admit ?inp e (occupied_quantity org (ev_id e) (tabs v)) = Inr s_reserved"
    using e(5) inp by (simp add: admit_def)
  have ex: "check_expected ?inp ?le = Inr ()" using facts inp by (simp add: check_expected_def same_facts_def)
  have st: "ensure_not_started (Some e) now = Inr ()" using e(4) by (simp add: ensure_not_started_def)
  have off: "check_offer org ?inp now v = (Inr (), v)"
    using ready inp by (simp add: check_offer_def ready_to_book_def and_then_def reject_def ret_def)
  have "insert_booking ?b (tabs v) = Inr ((), (tabs v)\<lparr>bookings := bookings (tabs v) @ [?b]\<rparr>)"
    using ready inp by (auto simp: insert_booking_def ready_to_book_def package_of_another_def new_booking_def)
  then have ins: "execute (insert_booking ?b) ?v1 = (Inr (), ?v1\<lparr>tabs := (tabs v)\<lparr>bookings := bookings (tabs v) @ [?b]\<rparr>\<rparr>)"
    using calm by (intro execute_calm_Inr) simp_all
  let ?v2 = "?v1\<lparr>tabs := (tabs v)\<lparr>bookings := bookings (tabs v) @ [?b]\<rparr>\<rparr>"
  obtain t where bump: "bump_event org (ev_id e) (tabs ?v2) = Inr (1, t)"
    using event_rows_affected [OF ok e(1-3)] by (simp add: bump_event_def Let_def)
  have ex2: "execute (bump_event org (ev_id e)) ?v2 = (Inr 1, ?v2\<lparr>tabs := t\<rparr>)"
    using bump calm by (intro execute_calm_Inr) simp_all
  have "write_booking x org ?inp ?le s_reserved now v
      = (Inr \<lparr>rr_booking = ?b, rr_event = Some ?le, rr_created = True, rr_now = now\<rparr>, ?v2\<lparr>tabs := t\<rparr>)"
    unfolding write_booking_def Let_def
    by (simp add: and_then_def mint_calm ins ex2 reject_def ret_def)
  then show ?thesis
    unfolding reserve_slot_def
    by (simp add: ex ad st off lift_res_def query_calm calm and_then_def)
qed

lemma no_such_key:
  assumes "\<forall>b\<in>set (bookings t). bk_org b = org \<longrightarrow> bk_key b \<noteq> key"
  shows "booking_with_key org key t = None"
  unfolding booking_with_key_def first_in_None_iff using assms by (auto simp: filter_empty_conv)

lemma ai_reservation_runs:
  assumes ready: "ready_to_book x org contact key expires now v" and ok: "safe (tabs v)"
    and e: "e \<in> set (events (tabs v))" "ev_org e = org" "\<not> ev_deleted e" "ev_status e = s_scheduled" "now < ev_starts e"
      "occupied_quantity org (ev_id e) (tabs v) < ev_capacity e"
    and defs: "active_service org (ev_service e) (tabs v) = Some sv" "active_resource org (ev_resource e) (tabs v) = Some rs"
    and facts: "facts_for_event \<lparr>le_event = e, le_service = Some sv, le_resource = Some rs\<rparr> = Inr facts"
  shows "\<exists>r u. reserve_tx x org (ai_reservation facts contact source key md expires) now v = (Inr r, u)
    \<and> rr_created r \<and> bk_event (rr_booking r) = ev_id e"
proof -
  let ?inp = "normal_reserve (ai_reservation facts contact source key md expires)"
  let ?le = "\<lparr>le_event = e, le_service = Some sv, le_resource = Some rs\<rparr>"
  have calm: "faults v = []" and org: "org \<noteq> nil_uuid" using ready by (simp_all add: ready_to_book_def)
  have id: "sf_event facts = ev_id e" using facts_for_event_eq [OF facts] by simp
  have nz: "ev_id e \<noteq> nil_uuid" using facts by (auto simp: facts_for_event_def Let_def split: if_splits)
  have inp: "ri_event ?inp = ev_id e" "ri_contact ?inp = contact" "ri_quantity ?inp = 1" "ri_status ?inp = s_reserved"
    "ri_key ?inp = trim_space key" "ri_actor ?inp = None" "ri_package ?inp = None" "\<not> ri_waitlist ?inp"
    "ri_expected ?inp = Some facts" "ri_offer_expires ?inp = expires"
    by (simp_all add: normal_reserve_def ai_reservation_def booking_status_nonempty id)
  have chk: "check_reserve org ?inp v = (Inr (), v)"
    using ready inp nz unfolding check_reserve_def ready_to_book_def
    by (simp add: and_then_def reject_def ret_def ai_exceeds_authority_def)
  have look: "lookup_booking org ?inp v = (Inr None, v)"
    using no_such_key [of "tabs v" org "trim_space key"] ready inp
    by (simp add: lookup_booking_def and_then_def query_calm calm ready_to_book_def ret_def)
  obtain c where c: "contact_by_id org contact (tabs v) = Some c" "ct_merged_into c = None"
    using ready by (auto simp: ready_to_book_def split: option.splits)
  have con: "or_not_found (first (contact_by_id org (ri_contact ?inp))) (invalid m_contact_tenant) v = (Inr c, v)"
    using c inp by (intro or_not_found_calm first_calm_Some calm) simp
  have ev: "event_by_id org (ev_id e) (tabs v) = Some e" by (rule event_by_id_mem [OF ok e(1-3)])
  have lk: "lock_event org (ri_event ?inp) v = (Inr ?le, v)"
    unfolding inp(1) by (rule lock_event_calm [OF calm org nz ev e(4) defs])
  obtain r u where r: "reserve_slot x org ?inp ?le now v = (Inr r, u)" "rr_created r" "bk_event (rr_booking r) = ev_id e"
    using reserve_slot_calm [OF ready ok e(1-3,5,6) facts] by blast
  obtain i where i: "i = ?inp" by blast
  have "reserve_new x org i now v = (Inr r, u)"
    unfolding reserve_new_def using c con lk look r unfolding i [symmetric] by (simp add: and_then_def reject_def ret_def)
  then have "reserve_tx x org (ai_reservation facts contact source key md expires) now v = (Inr r, u)"
    unfolding reserve_tx_def Let_def using chk look unfolding i [symmetric] by (simp add: and_then_def)
  with r show ?thesis by blast
qed

lemma offer_choices_mem:
  "offer_choices b now seen ss ds = Inr cs \<Longrightarrow> c \<in> set cs \<Longrightarrow> \<exists>sl\<in>set ss. facts_for_event (sl_event sl) = Inr (ch_slot c)"
proof (induction ss arbitrary: seen ds cs)
  case (Cons s ss)
  from Cons.prems(1) obtain facts raw ds' cs' where
    f: "facts_for_event (sl_event s) = Inr facts" "offer_choices b now (ev_id (le_event (sl_event s)) # seen) ss ds' = Inr cs'"
      "cs = \<lparr>ch_token = base64 raw, ch_slot = facts\<rparr> # cs'"
    by (cases ds; cases "hd ds") (auto simp: Let_def res_bind_Inr_iff split: if_splits)
  show ?case using Cons.IH [OF f(2)] Cons.prems(2) f(1,3) by auto
qed simp

text \<open>
  C32: what is offered can be had. When a slot was listed, an offer was made of the page, and the customer's
  confirmation of the choice was accepted, then, as long as the tables are still as they were listed,
  the event has not started and the tenant, the contact and the key are in order, the reservation of
  the choice succeeds and books the event that was shown.
\<close>
theorem offered_slot_can_be_booked:
  assumes "reachable x s" and "list_slots x lower org f s = (Inr pg, s1)"
    and "new_offer x i draws b origin message (pg_slots pg) now ttl = Inr off" and "bd_org b = org"
    and "validate_confirmation x off b token True now2 = Inr c"
    and "tabs v = tabs s" and "now2 < sf_starts (ch_slot c)"
    and "ready_to_book x org contact key (of_expires off) now2 v"
  shows "\<exists>r u. reserve_tx x org (ai_reservation (ch_slot c) contact source key md (of_expires off)) now2 v = (Inr r, u)
    \<and> rr_created r \<and> bk_event (rr_booking r) = sf_event (ch_slot c)"
proof -
  have ok: "safe (tabs v)" using reachable_safe [OF assms(1)] assms(6) by simp
  have c: "c \<in> set (of_choices off)"
    using assms(5) unfolding validate_confirmation_def
    by (auto split: if_splits option.splits simp: res_bind_Inr_iff dest!: choice_with_SomeD)
  from assms(3) obtain cs where "offer_choices b now [] (pg_slots pg) draws = Inr cs" "of_choices off = cs"
    unfolding new_offer_def Let_def by (auto split: if_splits simp: res_bind_Inr_iff)
  with offer_choices_mem c obtain sl where sl: "sl \<in> set (pg_slots pg)" "facts_for_event (sl_event sl) = Inr (ch_slot c)" by blast
  obtain e sv rs where e: "e \<in> set (events (tabs s))" "slot_open org f (tabs s) e"
    and d: "active_service org (ev_service e) (tabs s) = Some sv" "active_resource org (ev_resource e) (tabs s) = Some rs"
    and shown: "sl_event sl = \<lparr>le_event = (if trim_space (ev_location e) = [] then e\<lparr>ev_location := trim_space (rs_location rs)\<rparr> else e),
      le_service = Some sv, le_resource = Some rs\<rparr>"
    using assms(2) sl(1) by (rule listed_slot)
  have facts: "facts_for_event \<lparr>le_event = e, le_service = Some sv, le_resource = Some rs\<rparr> = Inr (ch_slot c)"
    using sl(2) unfolding shown facts_of_listed .
  note F = facts_for_event_eq [OF facts]
  have "\<exists>r u. reserve_tx x org (ai_reservation (ch_slot c) contact source key md (of_expires off)) now2 v = (Inr r, u)
    \<and> rr_created r \<and> bk_event (rr_booking r) = ev_id e"
    by (rule ai_reservation_runs [OF assms(8) ok _ _ _ _ _ _ _ _ facts])
      (use e d F assms(6,7) in \<open>auto simp: slot_open_def\<close>)
  then show ?thesis using F by simp
qed

end
