(* ===== verification/OfferRuns.thy ===== *)
theory OfferRuns
  imports Slots BookingRuns
begin

text \<open>
  Offers on the sample tenant: the open slot is listed, offered, confirmed and reserved, and the properties
  of \<^verbatim>\<open>internal/booking/booking.go\<close> that concern a conversation are applied to it.
\<close>

section \<open>Intents\<close>

definition offer_reply :: json where
  "offer_reply = JObject [(''action'', JString ''offer''), (''service'', JString ''M''), (''date'', JString ''2027-03-01'')]"

definition looks_like_uuid :: "string \<Rightarrow> bool" where
  "looks_like_uuid s \<longleftrightarrow> length s = 36"

text \<open>
  The check for repeated keys of a model's answer and the decoder behind it disagree on what a key is.
  An answer that names its action twice, once with a capital letter, passes the check, and the second one is
  the action that is taken; spelled the same way twice, it is refused.
\<close>
theorem repeated_key_in_other_case_accepted:
  "parse_intent (\<lambda>_. Inr (JObject [(''action'', JString ''offer''), (''service'', JString ''M''), (''Action'', JString ''handoff''), (''SERVICE'', JString [])]))
     looks_like_uuid ''{}'' = Inr \<lparr>it_action = ''handoff'', it_reply = [], it_service = [], it_date = []\<rparr>
   \<and> parse_intent (\<lambda>_. Inr (JObject [(''action'', JString ''offer''), (''service'', JString ''M''), (''action'', JString ''handoff''), (''service'', JString [])]))
     looks_like_uuid ''{}'' = Inl (invalid m_json_duplicate)"
  by code_simp

section \<open>An offer\<close>

definition today :: slot_filter where
  "today = \<lparr>fl_from = now0, fl_to = day0 + day_ns, fl_service_id = None, fl_resource_id = None, fl_service = '' m '',
     fl_date = ''2027-03-01'', fl_limit = 3, fl_offset = 0\<rparr>"

definition lower0 :: "string \<Rightarrow> string" where "lower0 s = map lower_char s"

definition binding0 :: binding where
  "binding0 = \<lparr>bd_org = org0, bd_account = 71, bd_contact = 12, bd_scope = 72, bd_channel = ''W'', bd_revision = ''1'',
     bd_digest = replicate 64 (CHR ''a'')\<rparr>"

definition draws0 :: "string option list" where "draws0 = [Some (replicate 32 (CHR ''x''))]"

abbreviation "listing \<equiv> list_slots x0 lower0 org0 today"

definition page0 :: slot_page where "page0 = answer listing run2"
definition offer0 :: offer where
  "offer0 = (case new_offer x0 80 draws0 binding0 81 82 (pg_slots page0) now0 (20 * minute) of Inr off \<Rightarrow> off)"
definition choice0 :: choice where "choice0 = hd (of_choices offer0)"

definition asked :: time where "asked = at_clock 8 10"

lemma evaluated_offer:
  "(let s = run2 in succeeds listing s \<and> ready_to_book x0 org0 12 ''ai-1'' (at_clock 8 20) asked s
     \<and> (let p = answer listing s; offering = new_offer x0 80 draws0 binding0 81 82 (pg_slots p) now0 (20 * minute) in
        (case offering of Inl _ \<Rightarrow> False | Inr off \<Rightarrow>
           (case of_choices off of [] \<Rightarrow> False | c # _ \<Rightarrow>
              validate_confirmation x0 off binding0 (ch_token c) True asked = Inr c \<and> asked < sf_starts (ch_slot c)
              \<and> of_expires off = at_clock 8 20 \<and> ch_token c = base64 (replicate 32 (CHR ''x''))))))"
  by code_simp

lemma offer0_made:
  "new_offer x0 80 draws0 binding0 81 82 (pg_slots page0) now0 (20 * minute) = Inr offer0"
  "choice0 \<in> set (of_choices offer0)"
  "validate_confirmation x0 offer0 binding0 (ch_token choice0) True asked = Inr choice0"
  "asked < sf_starts (ch_slot choice0)" "of_expires offer0 = at_clock 8 20"
  "ch_token choice0 = base64 (replicate 32 (CHR ''x''))"
  using evaluated_offer unfolding offer0_def choice0_def page0_def Let_def
  by (auto split: sum.splits list.splits)

lemma page0_listed: "listing run2 = (Inr page0, after listing run2)"
  unfolding page0_def using evaluated_offer by (intro succeeds_run) (simp add: Let_def)

theorem offered_choice_confirms_witness:
  "confirmation_token (''BOOK '' @ ch_token choice0) = (ch_token choice0, True)
   \<and> validate_confirmation x0 offer0 binding0 (ch_token choice0) True asked = Inr choice0"
  by (rule offered_choice_confirms [OF offer0_made(1,2)])
    (simp_all add: asked_def now0_def at_clock_def minute_def)

theorem accepted_confirmation_sound_witness:
  "ch_token choice0 = base64 (replicate 32 (CHR ''x'')) \<and> asked < of_expires offer0
   \<and> {d \<in> set (of_choices offer0). ch_token d = ch_token choice0} = {choice0}"
  using accepted_confirmation_sound [OF offer0_made(3)] offer0_made(6) by blast

theorem offered_slot_can_be_booked_witness:
  "\<exists>r u. reserve_tx x0 org0 (ai_reservation (ch_slot choice0) 12 ''ai'' ''ai-1'' [] (of_expires offer0)) asked run2 = (Inr r, u)
     \<and> rr_created r \<and> bk_event (rr_booking r) = sf_event (ch_slot choice0)"
proof -
  have "ready_to_book x0 org0 12 ''ai-1'' (of_expires offer0) asked run2"
    using evaluated_offer offer0_made(5) by (simp add: Let_def)
  moreover have "bd_org binding0 = org0" by (simp add: binding0_def)
  ultimately show ?thesis
    using offered_slot_can_be_booked [OF run2_reachable page0_listed offer0_made(1) _ offer0_made(3) refl offer0_made(4)] by blast
qed

end
