(* ===== verification/Catalogue.thy ===== *)
theory Catalogue
  imports Schedule
begin

text \<open>
  The booking catalogue of \<^verbatim>\<open>internal/handlers/product_booking_commerce.go\<close>: services with their eligible
  resources, and resources, created, replaced and deleted. A definition is deleted only while no schedule,
  package or link refers to it, and no audit row shows that one ever did.
\<close>

section \<open>Requests\<close>

record service_request =
  vr_name :: string
  vr_description :: string
  vr_kind :: string
  vr_duration :: int
  vr_before :: int
  vr_after :: int
  vr_capacity :: int
  vr_price :: int
  vr_currency :: string
  vr_reminder :: jsonb
  vr_active :: "bool option"
  vr_metadata :: jsonb
  vr_resources :: "uuid list"
  vr_version :: int

record resource_request =
  er_user :: "uuid option"
  er_clear_user :: bool
  er_name :: string
  er_kind :: string
  er_timezone :: string
  er_location :: string
  er_active :: "bool option"
  er_metadata :: jsonb
  er_version :: int

record delete_request =
  dq_version :: int
  dq_confirm :: bool

definition m_name :: string where "m_name = ''name is required and must not exceed 255 characters''"
definition m_description :: string where "m_description = ''description must not exceed 10000 characters''"
definition m_service_kind :: string where "m_service_kind = ''invalid booking service kind''"
definition m_duration_range :: string where "m_duration_range = ''duration_minutes must be between 1 and 1440''"
definition m_buffers :: string where "m_buffers = ''booking buffers must be between 0 and 1440 minutes''"
definition m_default_capacity :: string where "m_default_capacity = ''default_capacity must be between 1 and 10000''"
definition m_price :: string where "m_price = ''price_minor must be zero or greater''"
definition m_currency :: string where "m_currency = ''currency must be a three-letter uppercase ISO code''"
definition m_resource_uuids :: string where "m_resource_uuids = ''resource_ids must contain valid UUIDs''"
definition m_resource_twice :: string where "m_resource_twice = ''resource_ids must not contain duplicates''"
definition m_resource_kind :: string where "m_resource_kind = ''invalid booking resource kind''"
definition m_timezone_length :: string where "m_timezone_length = ''timezone is required and must not exceed 100 characters''"
definition m_timezone_iana :: string where "m_timezone_iana = ''timezone must be a valid IANA timezone''"
definition m_location_length :: string where "m_location_length = ''location must not exceed 255 characters''"
definition m_user_both :: string where "m_user_both = ''user_id and clear_user_id cannot both be set''"
definition m_user_uuid :: string where "m_user_uuid = ''user_id must be a valid UUID''"
definition m_resources_tenant :: string where
  "m_resources_tenant = ''One or more resource_ids do not belong to the organization''"
definition m_name_taken :: "string \<Rightarrow> string" where "m_name_taken label = ''A '' @ label @ '' with this name already exists''"
definition m_service_missing :: string where "m_service_missing = ''Booking service not found''"
definition m_service_modified :: string where "m_service_modified = ''Booking service was modified; refresh and retry''"
definition m_resource_modified :: string where "m_resource_modified = ''Booking resource was modified; refresh and retry''"
definition m_service_state :: string where "m_service_state = ''booking service active state was not persisted''"
definition m_resource_state :: string where "m_resource_state = ''booking resource active state was not persisted''"
definition m_not_member :: "string \<Rightarrow> string" where
  "m_not_member field = field @ '' does not belong to an active organization member''"
definition m_not_tenant :: "string \<Rightarrow> string" where
  "m_not_tenant field = field @ '' does not belong to the organization''"

text \<open>Three bytes, each a capital letter.\<close>

definition valid_currency :: "string \<Rightarrow> bool" where
  "valid_currency raw =
     (let s = trim_space raw in length s = 3 \<and> list_all (\<lambda>c. 65 \<le> code c \<and> code c \<le> 90) s)"

definition valid_service_kind :: "string \<Rightarrow> bool" where
  "valid_service_kind k \<longleftrightarrow> k = ''appointment'' \<or> k = ''class''"

definition valid_resource_kind :: "string \<Rightarrow> bool" where
  "valid_resource_kind k \<longleftrightarrow> k \<in> {''practitioner'', ''instructor'', ''staff'', ''room'', ''equipment''}"

fun check_resource_ids :: "uuid list \<Rightarrow> uuid list \<Rightarrow> string option" where
  "check_resource_ids seen [] = None"
| "check_resource_ids seen (i # is) =
     (if i = nil_uuid then Some m_resource_uuids
      else if i \<in> set seen then Some m_resource_twice
      else check_resource_ids (i # seen) is)"

definition validate_service :: "service_request \<Rightarrow> bool \<Rightarrow> (string, service_request) result" where
  "validate_service raw updating =
     (let r = raw\<lparr>vr_name := trim_space (vr_name raw), vr_currency := upper_text (trim_space (vr_currency raw))\<rparr> in
      if vr_name r = [] \<or> 255 < rune_count (vr_name r) then Inl m_name
      else if 10000 < rune_count (vr_description r) then Inl m_description
      else if \<not> valid_service_kind (vr_kind r) then Inl m_service_kind
      else if vr_duration r < 1 \<or> 1440 < vr_duration r then Inl m_duration_range
      else if vr_before r < 0 \<or> 1440 < vr_before r \<or> vr_after r < 0 \<or> 1440 < vr_after r then Inl m_buffers
      else if vr_capacity r < 1 \<or> 10000 < vr_capacity r then Inl m_default_capacity
      else if vr_price r < 0 then Inl m_price
      else if \<not> valid_currency (vr_currency r) then Inl m_currency
      else if updating \<and> vr_version r < 1 then Inl m_version
      else (case check_resource_ids [] (vr_resources r) of Some m \<Rightarrow> Inl m | None \<Rightarrow> Inr r))"

definition validate_resource :: "env \<Rightarrow> resource_request \<Rightarrow> bool \<Rightarrow> (string, resource_request) result" where
  "validate_resource x raw updating =
     (let r = raw\<lparr>er_name := trim_space (er_name raw), er_timezone := trim_space (er_timezone raw)\<rparr> in
      if er_name r = [] \<or> 255 < rune_count (er_name r) then Inl m_name
      else if \<not> valid_resource_kind (er_kind r) then Inl m_resource_kind
      else if er_timezone r = [] \<or> 100 < rune_count (er_timezone r) then Inl m_timezone_length
      else if load_location x (er_timezone r) = None then Inl m_timezone_iana
      else if 255 < rune_count (er_location r) then Inl m_location_length
      else if er_clear_user r \<and> er_user r \<noteq> None then Inl m_user_both
      else if er_user r = Some nil_uuid then Inl m_user_uuid
      else if updating \<and> er_version r < 1 then Inl m_version
      else Inr r)"

section \<open>Shared checks\<close>

definition validate_resource_ids :: "uuid \<Rightarrow> uuid list \<Rightarrow> (tables, unit) tx" where
  "validate_resource_ids org ids =
     (if ids = [] then ret ()
      else and_then (query (\<lambda>t. length (filter (\<lambda>r. rs_org r = org \<and> rs_id r \<in> set ids \<and> \<not> rs_deleted r) (resources t)))) (\<lambda>n.
        reject (n \<noteq> length ids) (ClientError bad_request m_resources_tenant)))"

text \<open>The live rows of a table as identifier, organization and name.\<close>

type_synonym named = "tables \<Rightarrow> (uuid \<times> uuid \<times> string) list"

definition service_names :: named where
  "service_names t = map (\<lambda>r. (sv_id r, sv_org r, sv_name r)) (filter (\<lambda>r. \<not> sv_deleted r) (services t))"

definition resource_names :: named where
  "resource_names t = map (\<lambda>r. (rs_id r, rs_org r, rs_name r)) (filter (\<lambda>r. \<not> rs_deleted r) (resources t))"

definition name_hits :: "env \<Rightarrow> named \<Rightarrow> uuid \<Rightarrow> string \<Rightarrow> uuid \<Rightarrow> tables \<Rightarrow> nat" where
  "name_hits x rows org name ex t =
     length (filter (\<lambda>(i, o', n). o' = org \<and> db_lower x n = db_lower x (trim_space name) \<and> (ex = nil_uuid \<or> i \<noteq> ex)) (rows t))"

definition ensure_unique_name :: "env \<Rightarrow> named \<Rightarrow> uuid \<Rightarrow> string \<Rightarrow> uuid \<Rightarrow> string \<Rightarrow> (tables, unit) tx" where
  "ensure_unique_name x rows org name ex label =
     and_then (query (name_hits x rows org name ex)) (\<lambda>n. reject (0 < n) (client_conflict (m_name_taken label)))"

definition ensure_member :: "uuid \<Rightarrow> uuid \<Rightarrow> string \<Rightarrow> (tables, unit) tx" where
  "ensure_member org user field =
     and_then (query (\<lambda>t. length (filter (\<lambda>m. m = (org, user)) (members t)))) (\<lambda>n.
     reject (n \<noteq> 1) (ClientError bad_request (m_not_member field)))"

definition ensure_contact :: "uuid \<Rightarrow> uuid \<Rightarrow> (tables, unit) tx" where
  "ensure_contact org i =
     and_then (query (\<lambda>t. length (filter (\<lambda>c. ct_id c = i \<and> ct_org c = org \<and> \<not> ct_deleted c) (contacts t)))) (\<lambda>n.
     reject (n \<noteq> 1) (ClientError bad_request (m_not_tenant ''contact_id'')))"

section \<open>Services\<close>

definition new_service :: "uuid \<Rightarrow> uuid \<Rightarrow> uuid \<Rightarrow> service_request \<Rightarrow> bool \<Rightarrow> service_row" where
  "new_service i org user r active =
    \<lparr>sv_id = i, sv_org = org, sv_name = trim_space (vr_name r), sv_description = trim_space (vr_description r),
     sv_kind = vr_kind r, sv_duration = vr_duration r, sv_buffer_before = vr_before r, sv_buffer_after = vr_after r,
     sv_default_capacity = vr_capacity r, sv_price = vr_price r, sv_currency = upper_text (trim_space (vr_currency r)),
     sv_reminder = vr_reminder r, sv_active = active, sv_metadata = vr_metadata r, sv_version = 1,
     sv_created_by = Some user, sv_updated_by = Some user, sv_deleted = False\<rparr>"

definition service_values :: "service_row \<Rightarrow> bool" where
  "service_values s \<longleftrightarrow> 0 < sv_duration s \<and> 0 \<le> sv_buffer_before s \<and> 0 \<le> sv_buffer_after s
     \<and> 0 < sv_default_capacity s \<and> 0 \<le> sv_price s"

definition insert_service :: "service_row \<Rightarrow> tables \<Rightarrow> err + unit \<times> tables" where
  "insert_service s t =
     (if \<exists>r\<in>set (services t). sv_id r = sv_id s then Inl (DriverError ''duplicate key: booking_services'')
      else if \<not> service_values s then Inl (DriverError ''check constraint: chk_booking_services_values'')
      else Inr ((), t\<lparr>services := services t @ [s\<lparr>sv_active := stored_active (sv_active s)\<rparr>]\<rparr>))"

definition set_service_inactive :: "uuid \<Rightarrow> uuid \<Rightarrow> tables \<Rightarrow> err + nat \<times> tables" where
  "set_service_inactive org i t =
     (let p = (\<lambda>r. sv_id r = i \<and> sv_org r = org \<and> \<not> sv_deleted r) in
      Inr (rows_affected p (services t), t\<lparr>services := update_where p (\<lambda>r. r\<lparr>sv_active := False\<rparr>) (services t)\<rparr>))"

definition link_row :: "uuid \<Rightarrow> uuid \<Rightarrow> uuid \<Rightarrow> uuid \<Rightarrow> service_resource_row" where
  "link_row i org service resource =
    \<lparr>sr_id = i, sr_org = org, sr_service = service, sr_resource = resource, sr_active = True, sr_version = 1,
     sr_deleted = False\<rparr>"

text \<open>One \<open>INSERT\<close> for all links; \<open>Unscoped().Delete\<close> before it removes the old ones.\<close>

fun mint_links :: "env \<Rightarrow> uuid \<Rightarrow> uuid \<Rightarrow> uuid list \<Rightarrow> (tables, service_resource_row list) tx" where
  "mint_links x org service [] = ret []"
| "mint_links x org service (r # rs) =
     and_then (mint (fresh_uuid x)) (\<lambda>i.
     and_then (mint_links x org service rs) (\<lambda>ls. ret (link_row i org service r # ls)))"

definition link_key :: "service_resource_row \<Rightarrow> uuid \<times> uuid \<times> uuid" where
  "link_key l = (sr_org l, sr_service l, sr_resource l)"

definition insert_links :: "service_resource_row list \<Rightarrow> tables \<Rightarrow> err + unit \<times> tables" where
  "insert_links ls t =
     (let rows = service_resources t @ ls in
      if distinct (map sr_id rows) \<and> distinct (map link_key rows) then Inr ((), t\<lparr>service_resources := rows\<rparr>)
      else Inl (DriverError ''duplicate key: booking_service_resources''))"

definition delete_links :: "uuid \<Rightarrow> uuid \<Rightarrow> tables \<Rightarrow> err + unit \<times> tables" where
  "delete_links org service t =
     Inr ((), t\<lparr>service_resources := filter (\<lambda>l. \<not> (sr_org l = org \<and> sr_service l = service)) (service_resources t)\<rparr>)"

definition replace_service_resources :: "env \<Rightarrow> uuid \<Rightarrow> uuid \<Rightarrow> uuid list \<Rightarrow> (tables, unit) tx" where
  "replace_service_resources x org service ids =
     and_then (execute (delete_links org service)) (\<lambda>_.
     if ids = [] then ret ()
     else and_then (mint_links x org service ids) (\<lambda>ls. execute (insert_links ls)))"

definition keep_service_inactive :: "uuid \<Rightarrow> service_row \<Rightarrow> bool \<Rightarrow> (tables, service_row) tx" where
  "keep_service_inactive org s active =
     (if active then ret s
      else and_then (execute (set_service_inactive org (sv_id s))) (\<lambda>n.
        and_then (reject (n \<noteq> 1) (OtherError m_service_state)) (\<lambda>_. ret (s\<lparr>sv_active := False\<rparr>))))"

definition create_service :: "env \<Rightarrow> uuid \<Rightarrow> uuid \<Rightarrow> service_request \<Rightarrow> (tables, service_row) tx" where
  "create_service x org user raw =
     and_then (lift_res (as_client (validate_service raw False))) (\<lambda>r.
     let active = (case vr_active r of None \<Rightarrow> True | Some b \<Rightarrow> b) in
     and_then (mint (fresh_uuid x)) (\<lambda>i.
     let s = new_service i org user r active in
     transaction
       (and_then (validate_resource_ids org (vr_resources r)) (\<lambda>_.
        and_then (ensure_unique_name x service_names org (sv_name s) nil_uuid ''booking service'') (\<lambda>_.
        and_then (execute (insert_service s)) (\<lambda>_.
        and_then (keep_service_inactive org (s\<lparr>sv_active := stored_active active\<rparr>) active) (\<lambda>stored.
        and_then (replace_service_resources x org i (vr_resources r)) (\<lambda>_.
        and_then (audit_change org user ''booking_service'' i ''created'' None (Some (service_json x stored))) (\<lambda>_.
        ret stored)))))))))"

definition service_by_id :: "uuid \<Rightarrow> uuid \<Rightarrow> tables \<Rightarrow> service_row option" where
  "service_by_id org i t =
     first_in (by_key sv_id) (filter (\<lambda>r. sv_id r = i \<and> sv_org r = org \<and> \<not> sv_deleted r) (services t))"

definition edit_service :: "service_request \<times> bool \<times> uuid \<Rightarrow> service_row \<Rightarrow> service_row" where
  "edit_service d s = (case d of (r, active, user) \<Rightarrow>
     s\<lparr>sv_name := trim_space (vr_name r), sv_description := trim_space (vr_description r), sv_kind := vr_kind r,
       sv_duration := vr_duration r, sv_buffer_before := vr_before r, sv_buffer_after := vr_after r,
       sv_default_capacity := vr_capacity r, sv_price := vr_price r,
       sv_currency := upper_text (trim_space (vr_currency r)), sv_reminder := vr_reminder r, sv_active := active,
       sv_metadata := vr_metadata r, sv_updated_by := Some user, sv_version := sv_version s + 1\<rparr>)"

definition replace_service :: "uuid \<Rightarrow> uuid \<Rightarrow> int \<Rightarrow> service_request \<times> bool \<times> uuid \<Rightarrow> tables \<Rightarrow> err + nat \<times> tables" where
  "replace_service org i v d t =
     (let p = (\<lambda>r. sv_id r = i \<and> sv_org r = org \<and> sv_version r = v \<and> \<not> sv_deleted r);
          rows = update_where p (edit_service d) (services t) in
      if list_all service_values rows then Inr (rows_affected p (services t), t\<lparr>services := rows\<rparr>)
      else Inl (DriverError ''check constraint: chk_booking_services_values''))"

definition update_service :: "env \<Rightarrow> uuid \<Rightarrow> uuid \<Rightarrow> uuid \<Rightarrow> service_request \<Rightarrow> (tables, service_row) tx" where
  "update_service x org user i raw =
     and_then (lift_res (as_client (validate_service raw True))) (\<lambda>r.
     transaction
       (and_then (or_fail (first (service_by_id org i)) (ClientError not_found m_service_missing)) (\<lambda>old.
        and_then (reject (sv_version old \<noteq> vr_version r) (client_conflict m_service_modified)) (\<lambda>_.
        and_then (validate_resource_ids org (vr_resources r)) (\<lambda>_.
        and_then (ensure_unique_name x service_names org (trim_space (vr_name r)) i ''booking service'') (\<lambda>_.
        let active = (case vr_active r of None \<Rightarrow> sv_active old | Some b \<Rightarrow> b) in
        and_then (execute (replace_service org i (vr_version r) (r, active, user))) (\<lambda>n.
        and_then (reject (n \<noteq> 1) (client_conflict m_service_modified)) (\<lambda>_.
        and_then (replace_service_resources x org i (vr_resources r)) (\<lambda>_.
        and_then (first (service_by_id org i)) (\<lambda>updated.
        and_then (audit_change org user ''booking_service'' i ''updated''
          (Some (service_json x old)) (Some (service_json x updated))) (\<lambda>_.
        ret updated)))))))))))"

section \<open>Resources\<close>

definition new_resource :: "uuid \<Rightarrow> uuid \<Rightarrow> uuid \<Rightarrow> resource_request \<Rightarrow> bool \<Rightarrow> resource_row" where
  "new_resource i org user r active =
    \<lparr>rs_id = i, rs_org = org, rs_user = er_user r, rs_name = trim_space (er_name r), rs_kind = er_kind r,
     rs_timezone = trim_space (er_timezone r), rs_location = trim_space (er_location r), rs_active = active,
     rs_metadata = er_metadata r, rs_version = 1, rs_created_by = Some user, rs_updated_by = Some user,
     rs_deleted = False\<rparr>"

definition insert_resource :: "resource_row \<Rightarrow> tables \<Rightarrow> err + unit \<times> tables" where
  "insert_resource s t =
     (if \<exists>r\<in>set (resources t). rs_id r = rs_id s then Inl (DriverError ''duplicate key: booking_resources'')
      else Inr ((), t\<lparr>resources := resources t @ [s\<lparr>rs_active := stored_active (rs_active s)\<rparr>]\<rparr>))"

definition set_resource_inactive :: "uuid \<Rightarrow> uuid \<Rightarrow> tables \<Rightarrow> err + nat \<times> tables" where
  "set_resource_inactive org i t =
     (let p = (\<lambda>r. rs_id r = i \<and> rs_org r = org \<and> \<not> rs_deleted r) in
      Inr (rows_affected p (resources t), t\<lparr>resources := update_where p (\<lambda>r. r\<lparr>rs_active := False\<rparr>) (resources t)\<rparr>))"

definition keep_resource_inactive :: "uuid \<Rightarrow> resource_row \<Rightarrow> bool \<Rightarrow> (tables, resource_row) tx" where
  "keep_resource_inactive org s active =
     (if active then ret s
      else and_then (execute (set_resource_inactive org (rs_id s))) (\<lambda>n.
        and_then (reject (n \<noteq> 1) (OtherError m_resource_state)) (\<lambda>_. ret (s\<lparr>rs_active := False\<rparr>))))"

definition ensure_member_option :: "uuid \<Rightarrow> uuid option \<Rightarrow> (tables, unit) tx" where
  "ensure_member_option org user = (case user of None \<Rightarrow> ret () | Some u \<Rightarrow> ensure_member org u ''user_id'')"

definition create_resource :: "env \<Rightarrow> uuid \<Rightarrow> uuid \<Rightarrow> resource_request \<Rightarrow> (tables, resource_row) tx" where
  "create_resource x org user raw =
     and_then (lift_res (as_client (validate_resource x raw False))) (\<lambda>r.
     let active = (case er_active r of None \<Rightarrow> True | Some b \<Rightarrow> b) in
     and_then (mint (fresh_uuid x)) (\<lambda>i.
     let s = new_resource i org user r active in
     transaction
       (and_then (ensure_member_option org (rs_user s)) (\<lambda>_.
        and_then (ensure_unique_name x resource_names org (rs_name s) nil_uuid ''booking resource'') (\<lambda>_.
        and_then (execute (insert_resource s)) (\<lambda>_.
        and_then (keep_resource_inactive org (s\<lparr>rs_active := stored_active active\<rparr>) active) (\<lambda>stored.
        and_then (audit_change org user ''booking_resource'' i ''created'' None (Some (resource_json x stored))) (\<lambda>_.
        ret stored))))))))"

definition edit_resource :: "resource_request \<times> uuid option \<times> bool \<times> uuid \<Rightarrow> resource_row \<Rightarrow> resource_row" where
  "edit_resource d s = (case d of (r, ref, active, user) \<Rightarrow>
     s\<lparr>rs_user := ref, rs_name := trim_space (er_name r), rs_kind := er_kind r,
       rs_timezone := trim_space (er_timezone r), rs_location := trim_space (er_location r), rs_active := active,
       rs_metadata := er_metadata r, rs_updated_by := Some user, rs_version := rs_version s + 1\<rparr>)"

definition replace_resource ::
  "uuid \<Rightarrow> uuid \<Rightarrow> int \<Rightarrow> resource_request \<times> uuid option \<times> bool \<times> uuid \<Rightarrow> tables \<Rightarrow> err + nat \<times> tables" where
  "replace_resource org i v d t =
     (let p = (\<lambda>r. rs_id r = i \<and> rs_org r = org \<and> rs_version r = v \<and> \<not> rs_deleted r) in
      Inr (rows_affected p (resources t), t\<lparr>resources := update_where p (edit_resource d) (resources t)\<rparr>))"

definition update_resource :: "env \<Rightarrow> uuid \<Rightarrow> uuid \<Rightarrow> uuid \<Rightarrow> resource_request \<Rightarrow> (tables, resource_row) tx" where
  "update_resource x org user i raw =
     and_then (lift_res (as_client (validate_resource x raw True))) (\<lambda>r.
     transaction
       (and_then (or_fail (first (resource_by_id org i)) (ClientError not_found m_resource_missing)) (\<lambda>old.
        and_then (reject (rs_version old \<noteq> er_version r) (client_conflict m_resource_modified)) (\<lambda>_.
        and_then (ensure_member_option org (er_user r)) (\<lambda>_.
        and_then (ensure_unique_name x resource_names org (trim_space (er_name r)) i ''booking resource'') (\<lambda>_.
        let ref = (if er_clear_user r then None else case er_user r of None \<Rightarrow> rs_user old | Some u \<Rightarrow> Some u);
            active = (case er_active r of None \<Rightarrow> rs_active old | Some b \<Rightarrow> b) in
        and_then (execute (replace_resource org i (er_version r) (r, ref, active, user))) (\<lambda>n.
        and_then (reject (n \<noteq> 1) (client_conflict m_resource_modified)) (\<lambda>_.
        and_then (first (resource_by_id org i)) (\<lambda>updated.
        and_then (audit_change org user ''booking_resource'' i ''updated''
          (Some (resource_json x old)) (Some (resource_json x updated))) (\<lambda>_.
        ret updated))))))))))"

end
