(* ===== verification/Packages.thy ===== *)
theory Packages
  imports Catalogue
begin

text \<open>
  Package definitions of \<^verbatim>\<open>internal/handlers/product_booking_commerce.go\<close>: a price, a validity in days and
  the services it entitles to. The entitlements are fixed once the package was purchased.
\<close>

record entitlement_input =
  ei_service :: uuid
  ei_credits :: int
  ei_unlimited :: bool

record package_request =
  kr_name :: string
  kr_description :: string
  kr_price :: int
  kr_currency :: string
  kr_validity :: int
  kr_active :: "bool option"
  kr_metadata :: jsonb
  kr_entitlements :: "entitlement_input list option"
  kr_version :: int

definition m_validity :: string where "m_validity = ''validity_days must be between 1 and 3650''"
definition m_one_entitlement :: string where "m_one_entitlement = ''at least one entitlement is required''"
definition m_empty_entitlements :: string where "m_empty_entitlements = ''entitlements cannot be empty''"
definition m_entitlement_service :: string where "m_entitlement_service = ''entitlement booking_service_id is required''"
definition m_entitlement_twice :: string where "m_entitlement_twice = ''entitlements must not repeat a booking service''"
definition m_unlimited_credits :: string where "m_unlimited_credits = ''unlimited entitlements must set credits to zero''"
definition m_credits_range :: string where
  "m_credits_range = ''finite entitlement credits must be between 1 and 1000000''"
definition m_entitlement_tenant :: string where
  "m_entitlement_tenant = ''One or more entitlement services are inactive or outside the organization''"
definition m_package_missing :: string where "m_package_missing = ''Package not found''"
definition m_package_modified :: string where "m_package_modified = ''Package was modified; refresh and retry''"
definition m_purchased :: string where
  "m_purchased = ''Package entitlements cannot change after the package has been purchased''"

fun check_entitlements :: "uuid list \<Rightarrow> entitlement_input list \<Rightarrow> string option" where
  "check_entitlements seen [] = None"
| "check_entitlements seen (e # es) =
     (if ei_service e = nil_uuid then Some m_entitlement_service
      else if ei_service e \<in> set seen then Some m_entitlement_twice
      else if ei_unlimited e \<and> ei_credits e \<noteq> 0 then Some m_unlimited_credits
      else if \<not> ei_unlimited e \<and> (ei_credits e < 1 \<or> 1000000 < ei_credits e) then Some m_credits_range
      else check_entitlements (ei_service e # seen) es)"

definition given_entitlements :: "package_request \<Rightarrow> entitlement_input list" where
  "given_entitlements r = (case kr_entitlements r of None \<Rightarrow> [] | Some es \<Rightarrow> es)"

definition validate_package :: "package_request \<Rightarrow> bool \<Rightarrow> (string, package_request) result" where
  "validate_package raw updating =
     (let r = raw\<lparr>kr_name := trim_space (kr_name raw), kr_currency := upper_text (trim_space (kr_currency raw))\<rparr> in
      if kr_name r = [] \<or> 255 < rune_count (kr_name r) then Inl m_name
      else if 10000 < rune_count (kr_description r) then Inl m_description
      else if kr_price r < 0 then Inl m_price
      else if \<not> valid_currency (kr_currency r) then Inl m_currency
      else if kr_validity r < 1 \<or> 3650 < kr_validity r then Inl m_validity
      else if updating \<and> kr_version r < 1 then Inl m_version
      else if \<not> updating \<and> given_entitlements r = [] then Inl m_one_entitlement
      else if kr_entitlements r = Some [] then Inl m_empty_entitlements
      else (case check_entitlements [] (given_entitlements r) of Some m \<Rightarrow> Inl m | None \<Rightarrow> Inr r))"

definition package_names :: named where
  "package_names t = map (\<lambda>r. (pd_id r, pd_org r, pd_name r)) (filter (\<lambda>r. \<not> pd_deleted r) (definitions t))"

definition validate_entitlement_references :: "uuid \<Rightarrow> entitlement_input list \<Rightarrow> (tables, unit) tx" where
  "validate_entitlement_references org es =
     (if es = [] then ret ()
      else and_then (query (\<lambda>t. length (filter (\<lambda>s. sv_org s = org \<and> sv_id s \<in> set (map ei_service es) \<and> sv_active s
          \<and> \<not> sv_deleted s) (services t)))) (\<lambda>n.
        reject (n \<noteq> length es) (ClientError bad_request m_entitlement_tenant)))"

definition new_definition :: "uuid \<Rightarrow> uuid \<Rightarrow> uuid \<Rightarrow> package_request \<Rightarrow> bool \<Rightarrow> definition_row" where
  "new_definition i org user r active =
    \<lparr>pd_id = i, pd_org = org, pd_name = trim_space (kr_name r), pd_description = trim_space (kr_description r),
     pd_price = kr_price r, pd_currency = upper_text (trim_space (kr_currency r)), pd_validity_days = kr_validity r,
     pd_active = active, pd_metadata = kr_metadata r, pd_version = 1, pd_created_by = Some user,
     pd_updated_by = Some user, pd_deleted = False\<rparr>"

definition definition_values :: "definition_row \<Rightarrow> bool" where
  "definition_values d \<longleftrightarrow> 0 \<le> pd_price d \<and> 0 < pd_validity_days d"

definition insert_definition :: "definition_row \<Rightarrow> tables \<Rightarrow> err + unit \<times> tables" where
  "insert_definition d t =
     (if \<exists>r\<in>set (definitions t). pd_id r = pd_id d then Inl (DriverError ''duplicate key: package_definitions'')
      else if \<not> definition_values d then Inl (DriverError ''check constraint: chk_package_definitions_values'')
      else Inr ((), t\<lparr>definitions := definitions t @ [d\<lparr>pd_active := stored_active (pd_active d)\<rparr>]\<rparr>))"

text \<open>\<open>created\<close> is the time \<^verbatim>\<open>gorm\<close> stamps on all rows of one \<open>Create\<close>.\<close>

definition entitlement_of :: "uuid \<Rightarrow> uuid \<Rightarrow> uuid \<Rightarrow> time \<Rightarrow> entitlement_input \<Rightarrow> entitlement_row" where
  "entitlement_of i org def created e =
    \<lparr>en_id = i, en_org = org, en_definition = def, en_service = ei_service e, en_credits = ei_credits e,
     en_unlimited = ei_unlimited e, en_version = 1, en_created_at = created, en_deleted = False\<rparr>"

fun entitlements_from_input ::
  "env \<Rightarrow> uuid \<Rightarrow> uuid \<Rightarrow> time \<Rightarrow> entitlement_input list \<Rightarrow> (tables, entitlement_row list) tx" where
  "entitlements_from_input x org def created [] = ret []"
| "entitlements_from_input x org def created (e # es) =
     and_then (mint (fresh_uuid x)) (\<lambda>i.
     and_then (entitlements_from_input x org def created es) (\<lambda>rows. ret (entitlement_of i org def created e # rows)))"

definition entitlement_values :: "entitlement_row \<Rightarrow> bool" where
  "entitlement_values e \<longleftrightarrow> (if en_unlimited e then 0 \<le> en_credits e else 0 < en_credits e)"

definition insert_entitlements :: "entitlement_row list \<Rightarrow> tables \<Rightarrow> err + unit \<times> tables" where
  "insert_entitlements es t =
     (if \<not> distinct (map en_id (entitlements t @ es)) then Inl (DriverError ''duplicate key: package_entitlements'')
      else if \<not> list_all entitlement_values es then Inl (DriverError ''check constraint: chk_package_entitlements_credits'')
      else Inr ((), t\<lparr>entitlements := entitlements t @ es\<rparr>))"

definition delete_entitlements :: "uuid \<Rightarrow> uuid \<Rightarrow> tables \<Rightarrow> err + unit \<times> tables" where
  "delete_entitlements org def t =
     Inr ((), t\<lparr>entitlements := filter (\<lambda>e. \<not> (en_org e = org \<and> en_definition e = def)) (entitlements t)\<rparr>)"

definition create_package ::
  "env \<Rightarrow> uuid \<Rightarrow> uuid \<Rightarrow> package_request \<Rightarrow> time \<Rightarrow> (tables, definition_row \<times> entitlement_row list) tx" where
  "create_package x org user raw created =
     and_then (lift_res (as_client (validate_package raw False))) (\<lambda>r.
     let active = (case kr_active r of None \<Rightarrow> True | Some b \<Rightarrow> b) in
     and_then (mint (fresh_uuid x)) (\<lambda>i.
     let d = new_definition i org user r active in
     transaction
       (and_then (validate_entitlement_references org (given_entitlements r)) (\<lambda>_.
        and_then (ensure_unique_name x package_names org (pd_name d) nil_uuid ''package'') (\<lambda>_.
        and_then (execute (insert_definition d)) (\<lambda>_.
        let stored = d\<lparr>pd_active := stored_active active\<rparr> in
        and_then (entitlements_from_input x org i created (given_entitlements r)) (\<lambda>es.
        and_then (execute (insert_entitlements es)) (\<lambda>_.
        and_then (audit_change org user ''package_definition'' i ''created'' None (Some (definition_json x stored es))) (\<lambda>_.
        ret (stored, es))))))))))"

definition definition_by_id :: "uuid \<Rightarrow> uuid \<Rightarrow> tables \<Rightarrow> definition_row option" where
  "definition_by_id org i t =
     first_in (by_key pd_id) (filter (\<lambda>r. pd_id r = i \<and> pd_org r = org \<and> \<not> pd_deleted r) (definitions t))"

definition edit_definition :: "package_request \<times> bool \<times> uuid \<Rightarrow> definition_row \<Rightarrow> definition_row" where
  "edit_definition e d = (case e of (r, active, user) \<Rightarrow>
     d\<lparr>pd_name := trim_space (kr_name r), pd_description := trim_space (kr_description r), pd_price := kr_price r,
       pd_currency := upper_text (trim_space (kr_currency r)), pd_validity_days := kr_validity r, pd_active := active,
       pd_metadata := kr_metadata r, pd_updated_by := Some user, pd_version := pd_version d + 1\<rparr>)"

definition replace_definition ::
  "uuid \<Rightarrow> uuid \<Rightarrow> int \<Rightarrow> package_request \<times> bool \<times> uuid \<Rightarrow> tables \<Rightarrow> err + nat \<times> tables" where
  "replace_definition org i v e t =
     (let p = (\<lambda>r. pd_id r = i \<and> pd_org r = org \<and> pd_version r = v \<and> \<not> pd_deleted r);
          rows = update_where p (edit_definition e) (definitions t) in
      if list_all definition_values rows then Inr (rows_affected p (definitions t), t\<lparr>definitions := rows\<rparr>)
      else Inl (DriverError ''check constraint: chk_package_definitions_values''))"

definition check_unpurchased :: "uuid \<Rightarrow> uuid \<Rightarrow> entitlement_input list \<Rightarrow> (tables, unit) tx" where
  "check_unpurchased org i es =
     and_then (query (\<lambda>t. length (filter (\<lambda>p. cp_org p = org \<and> cp_definition p = i \<and> \<not> cp_deleted p) (packages t)))) (\<lambda>n.
     and_then (reject (0 < n) (client_conflict m_purchased)) (\<lambda>_.
     validate_entitlement_references org es))"

definition replace_entitlements :: "env \<Rightarrow> uuid \<Rightarrow> uuid \<Rightarrow> time \<Rightarrow> entitlement_input list \<Rightarrow> (tables, unit) tx" where
  "replace_entitlements x org i created es =
     and_then (execute (delete_entitlements org i)) (\<lambda>_.
     and_then (entitlements_from_input x org i created es) (\<lambda>rows. execute (insert_entitlements rows)))"

definition preloaded_entitlements :: "uuid \<Rightarrow> uuid \<Rightarrow> tables \<Rightarrow> entitlement_row list" where
  "preloaded_entitlements org def t =
     filter (\<lambda>e. en_org e = org \<and> en_definition e = def \<and> \<not> en_deleted e) (entitlements t)"

text \<open>\<open>retire\<close>: the caller may retire a package (\<open>requirePermission\<close>); without it the answer is already sent.\<close>

definition m_permission :: string where "m_permission = ''Insufficient permissions''"

definition update_package ::
  "env \<Rightarrow> uuid \<Rightarrow> uuid \<Rightarrow> uuid \<Rightarrow> bool \<Rightarrow> package_request \<Rightarrow> time \<Rightarrow> (tables, definition_row \<times> entitlement_row list) tx" where
  "update_package x org user i retire raw created =
     and_then (lift_res (as_client (validate_package raw True))) (\<lambda>r.
     and_then (reject (kr_active r = Some False \<and> \<not> retire) (ClientError 403 m_permission)) (\<lambda>_.
     transaction
       (and_then (or_fail (first (definition_by_id org i)) (ClientError not_found m_package_missing)) (\<lambda>old.
        and_then (reject (pd_version old \<noteq> kr_version r) (client_conflict m_package_modified)) (\<lambda>_.
        and_then (ensure_unique_name x package_names org (trim_space (kr_name r)) i ''package'') (\<lambda>_.
        and_then (case kr_entitlements r of None \<Rightarrow> ret () | Some es \<Rightarrow> check_unpurchased org i es) (\<lambda>_.
        let active = (case kr_active r of None \<Rightarrow> pd_active old | Some b \<Rightarrow> b) in
        and_then (execute (replace_definition org i (kr_version r) (r, active, user))) (\<lambda>n.
        and_then (reject (n \<noteq> 1) (client_conflict m_package_modified)) (\<lambda>_.
        and_then (case kr_entitlements r of None \<Rightarrow> ret () | Some es \<Rightarrow> replace_entitlements x org i created es) (\<lambda>_.
        and_then (first (definition_by_id org i)) (\<lambda>updated.
        and_then (query (preloaded_entitlements org i)) (\<lambda>es.
        and_then (audit_change org user ''package_definition'' i ''updated''
          (Some (definition_json x old [])) (Some (definition_json x updated es))) (\<lambda>_.
        ret (updated, es))))))))))))))"

end
