(* ===== verification/Invoices.thy ===== *)
theory Invoices
  imports Packages Offers
begin

text \<open>
  Commerce invoices of \<^verbatim>\<open>internal/handlers/product_booking_commerce.go\<close>: checked money arithmetic, the lines of
  an invoice priced by the server, \<open>CreateCommerceInvoice\<close> and \<open>CreateInvoicePaymentIntent\<close>. \<open>clock n\<close> is
  what the n-th place of the request that reads the clock reads. A fingerprint is the digest of the normalized request's JSON.
\<close>

section \<open>Money\<close>

definition safe_money_multiply :: "int \<Rightarrow> int \<Rightarrow> int option" where
  "safe_money_multiply amount quantity =
     (if amount < 0 \<or> quantity < 0 then None
      else if quantity \<noteq> 0 \<and> quot max_i64 quantity < amount then None
      else Some (wrap64 (amount * quantity)))"

definition safe_money_add :: "int \<Rightarrow> int \<Rightarrow> int option" where
  "safe_money_add left right =
     (if left < 0 \<or> right < 0 \<or> max_i64 - right < left then None else Some (wrap64 (left + right)))"

lemma money_range: "0 \<le> n \<Longrightarrow> n \<le> max_i64 \<Longrightarrow> wrap64 n = n"
  by (rule wrap64_id) (simp add: in_i64_def min_i64_def)

lemma safe_money_multiply_Some:
  "safe_money_multiply a q = Some p \<Longrightarrow> p = a * q \<and> 0 \<le> p \<and> p \<le> max_i64"
proof -
  assume p: "safe_money_multiply a q = Some p"
  then have nn: "0 \<le> a" "0 \<le> q" and w: "p = wrap64 (a * q)" and le: "q \<noteq> 0 \<Longrightarrow> a \<le> quot max_i64 q"
    by (auto simp: safe_money_multiply_def split: if_splits)
  have max: "0 \<le> max_i64" by (simp add: max_i64_def)
  have "a * q \<le> max_i64"
  proof (cases "q = 0")
    case True
    with max show ?thesis by simp
  next
    case False
    with nn(2) have q: "0 < q" by simp
    have "a \<le> max_i64 div q" using le [OF False] quot_nonneg [OF max q] by simp
    then have "a * q \<le> max_i64 div q * q" using q by (intro mult_right_mono) auto
    also have "\<dots> \<le> max_i64" by (metis div_mult_mod_eq le_add_same_cancel1 pos_mod_sign q)
    finally show ?thesis .
  qed
  then show ?thesis using w nn by (simp add: money_range)
qed

lemma safe_money_add_Some:
  "safe_money_add a b = Some p \<Longrightarrow> p = a + b \<and> 0 \<le> a \<and> 0 \<le> b \<and> p \<le> max_i64"
  by (auto simp: safe_money_add_def money_range split: if_splits)

section \<open>Requests\<close>

record line_input =
  li_booking :: "uuid option"
  li_package :: "uuid option"
  li_definition :: "uuid option"
  li_description :: string
  li_quantity :: int
  li_unit :: "int option"
  li_tax :: int
  li_metadata :: jsonb

record invoice_request =
  vq_contact :: uuid
  vq_currency :: string
  vq_discount :: int
  vq_due :: "time option"
  vq_lines :: "line_input list"
  vq_key :: string
  vq_metadata :: jsonb

definition m_contact_required :: string where "m_contact_required = ''contact_id is required''"
definition m_discount :: string where "m_discount = ''discount_minor must be zero or greater''"
definition m_line_count :: string where "m_line_count = ''lines must contain between 1 and 100 items''"
definition m_due_at :: string where "m_due_at = ''due_at must be a valid timestamp''"
definition m_due_past :: string where "m_due_past = ''due_at cannot be in the past''"
definition m_discount_subtotal :: string where "m_discount_subtotal = ''discount_minor cannot exceed the invoice subtotal''"
definition m_invoice_request :: string where "m_invoice_request = ''Invalid invoice request''"
definition m_invoice_reuse :: string where "m_invoice_reuse = ''Idempotency key was already used for a different invoice''"
definition m_subtotal_large :: string where "m_subtotal_large = ''invoice subtotal is too large''"
definition m_tax_large :: string where "m_tax_large = ''invoice tax is too large''"
definition m_total_large :: string where "m_total_large = ''invoice total is too large''"

definition s_open :: string where "s_open = ''open''"
definition s_paid :: string where "s_paid = ''paid''"

lemma invoice_status_neq [simp]: "s_open \<noteq> s_paid" "s_paid \<noteq> s_open"
  by (simp_all add: s_open_def s_paid_def)

definition validate_invoice :: "invoice_request \<Rightarrow> time \<Rightarrow> (string, invoice_request) result" where
  "validate_invoice raw now =
     (let r = raw\<lparr>vq_currency := upper_text (trim_space (vq_currency raw)), vq_key := trim_space (vq_key raw)\<rparr> in
      if vq_contact r = nil_uuid then Inl m_contact_required
      else if \<not> valid_currency (vq_currency r) then Inl m_currency
      else if vq_discount r < 0 then Inl m_discount
      else if length (vq_lines r) < 1 \<or> 100 < length (vq_lines r) then Inl m_line_count
      else if vq_key r = [] \<or> 255 < rune_count (vq_key r) then Inl m_key
      else (case vq_due r of
          None \<Rightarrow> Inr r
        | Some due \<Rightarrow> if is_zero_time due then Inl m_due_at
            else if due < now - 5 * minute then Inl m_due_past else Inr r))"

section \<open>Fingerprints\<close>

text \<open>The JSON members of a request, \<open>omitempty\<close> applied.\<close>

definition uuid_member :: "env \<Rightarrow> string \<Rightarrow> uuid option \<Rightarrow> jsonb" where
  "uuid_member x k v = (case v of None \<Rightarrow> [] | Some i \<Rightarrow> [(k, Str (show_uuid x i))])"

definition time_member :: "env \<Rightarrow> string \<Rightarrow> time option \<Rightarrow> jsonb" where
  "time_member x k v = (case v of None \<Rightarrow> [] | Some t \<Rightarrow> [(k, Str (rfc3339_nano x t))])"

definition int_member :: "string \<Rightarrow> int \<Rightarrow> jsonb" where
  "int_member k n = (if n = 0 then [] else [(k, Int64 n)])"

definition text_member :: "string \<Rightarrow> string \<Rightarrow> jsonb" where
  "text_member k s = (if s = [] then [] else [(k, Str s)])"

definition object_member :: "string \<Rightarrow> jsonb \<Rightarrow> jsonb" where
  "object_member k m = (if m = [] then [] else [(k, Object m)])"

definition line_json :: "env \<Rightarrow> line_input \<Rightarrow> any" where
  "line_json x l = Object (uuid_member x ''booking_id'' (li_booking l) @ uuid_member x ''contact_package_id'' (li_package l)
     @ uuid_member x ''package_definition_id'' (li_definition l) @ text_member ''description'' (trim_space (li_description l))
     @ int_member ''quantity'' (li_quantity l)
     @ (case li_unit l of None \<Rightarrow> [] | Some n \<Rightarrow> [(''unit_amount_minor'', Int64 n)])
     @ int_member ''tax_minor'' (li_tax l) @ object_member ''metadata'' (li_metadata l))"

definition invoice_fingerprint :: "env \<Rightarrow> invoice_request \<Rightarrow> string option" where
  "invoice_fingerprint x r = json_digest x
     ([(''contact_id'', Str (show_uuid x (vq_contact r))), (''currency'', Str (upper_text (trim_space (vq_currency r))))]
      @ int_member ''discount_minor'' (vq_discount r) @ time_member x ''due_at'' (vq_due r)
      @ [(''lines'', Array (map (line_json x) (vq_lines r))), (''idempotency_key'', Str [])]
      @ object_member ''metadata'' (vq_metadata r))"

section \<open>Lines\<close>

definition line_error :: "nat \<Rightarrow> string \<Rightarrow> err" where
  "line_error n text = ClientError bad_request (''line '' @ show_nat n @ text)"

definition booking_of_contact :: "uuid \<Rightarrow> uuid \<Rightarrow> uuid \<Rightarrow> tables \<Rightarrow> booking_row option" where
  "booking_of_contact org contact i t =
     first_in (by_key bk_id) (filter (\<lambda>b. bk_id b = i \<and> bk_org b = org \<and> bk_contact b = contact \<and> \<not> bk_deleted b) (bookings t))"

definition package_of_contact :: "uuid \<Rightarrow> uuid \<Rightarrow> uuid \<Rightarrow> tables \<Rightarrow> package_row option" where
  "package_of_contact org contact i t =
     first_in (by_key cp_id) (filter (\<lambda>p. cp_id p = i \<and> cp_org p = org \<and> cp_contact p = contact \<and> \<not> cp_deleted p) (packages t))"

definition active_definition :: "uuid \<Rightarrow> uuid \<Rightarrow> tables \<Rightarrow> definition_row option" where
  "active_definition org i t =
     first_in (by_key pd_id) (filter (\<lambda>d. pd_id d = i \<and> pd_org d = org \<and> pd_active d \<and> \<not> pd_deleted d) (definitions t))"

definition or_text :: "string \<Rightarrow> string \<Rightarrow> string" where
  "or_text s d = (if s = [] then d else s)"

definition or_one :: "int \<Rightarrow> int" where
  "or_one q = (if q = 0 then 1 else q)"

text \<open>Quantity, unit amount and description of a line.\<close>

type_synonym priced = "int \<times> int \<times> string"

definition booking_line :: "uuid \<Rightarrow> uuid \<Rightarrow> string \<Rightarrow> nat \<Rightarrow> line_input \<Rightarrow> uuid \<Rightarrow> (tables, priced) tx" where
  "booking_line org contact currency n inp i =
     and_then (reject (i = nil_uuid) (line_error n '' booking_id must be a valid UUID'')) (\<lambda>_.
     and_then (or_fail
       (and_then (first (booking_of_contact org contact i)) (\<lambda>b.
        and_then (first (event_by_id org (bk_event b))) (\<lambda>e.
        and_then (first (service_by_id org (ev_service e))) (\<lambda>sv. ret (b, sv)))))
       (line_error n '' booking_id does not belong to the invoice contact'')) (\<lambda>(b, sv).
     and_then (reject (bk_status b = s_cancelled) (line_error n '' cannot invoice a cancelled booking'')) (\<lambda>_.
     and_then (reject (sv_currency sv \<noteq> currency) (line_error n '' currency does not match the invoice'')) (\<lambda>_.
     ret (bk_quantity b, sv_price sv, or_text (trim_space (li_description inp)) (sv_name sv))))))"

definition package_line :: "uuid \<Rightarrow> uuid \<Rightarrow> string \<Rightarrow> nat \<Rightarrow> line_input \<Rightarrow> uuid \<Rightarrow> (tables, priced) tx" where
  "package_line org contact currency n inp i =
     and_then (reject (i = nil_uuid) (line_error n '' contact_package_id must be a valid UUID'')) (\<lambda>_.
     and_then (or_fail
       (and_then (first (package_of_contact org contact i)) (\<lambda>p.
        and_then (query (definition_by_id org (cp_definition p))) (\<lambda>d. ret (p, d))))
       (line_error n '' contact_package_id does not belong to the invoice contact'')) (\<lambda>(p, d).
     and_then (reject (cp_currency p \<noteq> currency) (line_error n '' currency does not match the invoice'')) (\<lambda>_.
     ret (1, cp_amount p,
       or_text (or_text (trim_space (li_description inp)) (case d of None \<Rightarrow> [] | Some d \<Rightarrow> pd_name d)) ''Package purchase''))))"

definition definition_line :: "uuid \<Rightarrow> string \<Rightarrow> nat \<Rightarrow> line_input \<Rightarrow> uuid \<Rightarrow> (tables, priced) tx" where
  "definition_line org currency n inp i =
     and_then (reject (i = nil_uuid) (line_error n '' package_definition_id must be a valid UUID'')) (\<lambda>_.
     and_then (or_fail (first (active_definition org i))
       (line_error n '' package_definition_id is not an active tenant package'')) (\<lambda>d.
     and_then (reject (pd_currency d \<noteq> currency) (line_error n '' currency does not match the invoice'')) (\<lambda>_.
     ret (or_one (li_quantity inp), pd_price d, or_text (trim_space (li_description inp)) (pd_name d)))))"

definition custom_line :: "nat \<Rightarrow> line_input \<Rightarrow> (tables, priced) tx" where
  "custom_line n inp =
     (case li_unit inp of
        None \<Rightarrow> fail (line_error n '' unit_amount_minor is required for a custom line'')
      | Some u \<Rightarrow> ret (or_one (li_quantity inp), u, trim_space (li_description inp)))"

definition linked :: "uuid option \<Rightarrow> nat" where
  "linked v = (case v of None \<Rightarrow> 0 | Some _ \<Rightarrow> 1)"

definition resolve_line :: "uuid \<Rightarrow> uuid \<Rightarrow> string \<Rightarrow> nat \<Rightarrow> line_input \<Rightarrow> (tables, priced) tx" where
  "resolve_line org contact currency n inp =
     and_then (reject (1 < linked (li_booking inp) + linked (li_package inp) + linked (li_definition inp))
       (line_error n '' may link to only one domain item'')) (\<lambda>_.
     and_then (reject (li_tax inp < 0) (line_error n '' tax_minor must be zero or greater'')) (\<lambda>_.
     case li_booking inp of
       Some i \<Rightarrow> booking_line org contact currency n inp i
     | None \<Rightarrow> (case li_package inp of
         Some i \<Rightarrow> package_line org contact currency n inp i
       | None \<Rightarrow> (case li_definition inp of
           Some i \<Rightarrow> definition_line org currency n inp i
         | None \<Rightarrow> custom_line n inp))))"

definition or_too_large :: "int option \<Rightarrow> err \<Rightarrow> (err, int) result" where
  "or_too_large v e = (case v of None \<Rightarrow> Inl e | Some n \<Rightarrow> Inr n)"

text \<open>Subtotal, tax and total so far.\<close>

type_synonym totals = "int \<times> int \<times> int"

definition price_line :: "nat \<Rightarrow> line_input \<Rightarrow> priced \<Rightarrow> totals \<Rightarrow> (err, int \<times> int \<times> totals) result" where
  "price_line n inp pr acc = (case pr of (q, u, d) \<Rightarrow> case acc of (subtotal, tax, amount) \<Rightarrow>
     if d = [] \<or> 1000 < rune_count d then Inl (line_error n '' description is required and must not exceed 1000 characters'')
     else if q < 1 \<or> 1000000 < q then Inl (line_error n '' quantity must be between 1 and 1000000'')
     else if u < 0 then Inl (line_error n '' unit amount must be zero or greater'')
     else
       res_bind (or_too_large (safe_money_multiply u q) (line_error n '' amount is too large'')) (\<lambda>sub.
       res_bind (or_too_large (safe_money_add sub (li_tax inp)) (line_error n '' total is too large'')) (\<lambda>tot.
       res_bind (or_too_large (safe_money_add subtotal sub) (ClientError bad_request m_subtotal_large)) (\<lambda>subtotal'.
       res_bind (or_too_large (safe_money_add tax (li_tax inp)) (ClientError bad_request m_tax_large)) (\<lambda>tax'.
       res_bind (or_too_large (safe_money_add amount tot) (ClientError bad_request m_total_large)) (\<lambda>amount'.
       Inr (sub, tot, subtotal', tax', amount')))))))"

definition new_line :: "uuid \<Rightarrow> uuid \<Rightarrow> uuid \<Rightarrow> line_input \<Rightarrow> priced \<Rightarrow> int \<Rightarrow> int \<Rightarrow> line_row" where
  "new_line i org iv inp pr sub tot = (case pr of (q, u, d) \<Rightarrow>
     \<lparr>ln_id = i, ln_org = org, ln_invoice = iv, ln_booking = li_booking inp, ln_package = li_package inp,
      ln_definition = li_definition inp, ln_description = d, ln_quantity = q, ln_unit = u, ln_subtotal = sub,
      ln_tax = li_tax inp, ln_total = tot, ln_metadata = li_metadata inp, ln_version = 1, ln_deleted = False\<rparr>)"

fun build_lines ::
  "env \<Rightarrow> uuid \<Rightarrow> invoice_row \<Rightarrow> nat \<Rightarrow> totals \<Rightarrow> line_input list \<Rightarrow> (tables, line_row list \<times> totals) tx" where
  "build_lines x org iv n acc [] = ret ([], acc)"
| "build_lines x org iv n acc (inp # inps) =
     and_then (resolve_line org (iv_contact iv) (iv_currency iv) n inp) (\<lambda>pr.
     and_then (lift_res (price_line n inp pr acc)) (\<lambda>(sub, tot, acc').
     and_then (mint (fresh_uuid x)) (\<lambda>i.
     and_then (build_lines x org iv (Suc n) acc' inps) (\<lambda>(ls, tots).
     ret (new_line i org (iv_id iv) inp pr sub tot # ls, tots)))))"

definition build_invoice_lines ::
  "env \<Rightarrow> uuid \<Rightarrow> invoice_row \<Rightarrow> line_input list \<Rightarrow> (tables, line_row list \<times> totals) tx" where
  "build_invoice_lines x org iv inputs = build_lines x org iv 1 (0, 0, 0) inputs"

section \<open>Rows\<close>

definition line_values :: "line_row \<Rightarrow> bool" where
  "line_values l \<longleftrightarrow> 0 < ln_quantity l \<and> 0 \<le> ln_unit l \<and> ln_subtotal l = ln_quantity l * ln_unit l \<and> 0 \<le> ln_tax l
     \<and> ln_total l = ln_subtotal l + ln_tax l"

definition invoice_values :: "invoice_row \<Rightarrow> bool" where
  "invoice_values v \<longleftrightarrow> 0 \<le> iv_subtotal v \<and> 0 \<le> iv_discount v \<and> iv_discount v \<le> iv_subtotal v \<and> 0 \<le> iv_tax v
     \<and> 0 \<le> iv_total v \<and> iv_total v = iv_subtotal v - iv_discount v + iv_tax v
     \<and> 0 \<le> iv_paid v \<and> iv_paid v \<le> iv_total v \<and> 0 \<le> iv_due v \<and> iv_due v = iv_total v - iv_paid v"

text \<open>\<open>ON CONFLICT (organization_id, idempotency_key) DO NOTHING\<close>: was a row written?\<close>

definition insert_invoice :: "invoice_row \<Rightarrow> tables \<Rightarrow> err + bool \<times> tables" where
  "insert_invoice v t =
     (if \<not> invoice_values v then Inl (DriverError ''check constraint: chk_commerce_invoices_equation'')
      else if \<exists>w\<in>set (invoices t). iv_org w = iv_org v \<and> iv_key w = iv_key v then Inr (False, t)
      else if \<exists>w\<in>set (invoices t). iv_id w = iv_id v \<or> iv_org w = iv_org v \<and> iv_number w = iv_number v
      then Inl (DriverError ''duplicate key: commerce_invoices'')
      else Inr (True, t\<lparr>invoices := invoices t @ [v]\<rparr>))"

definition insert_lines :: "line_row list \<Rightarrow> tables \<Rightarrow> err + unit \<times> tables" where
  "insert_lines ls t =
     (if \<not> distinct (map ln_id (lines t @ ls)) then Inl (DriverError ''duplicate key: invoice_lines'')
      else if \<not> list_all line_values ls then Inl (DriverError ''check constraint: chk_invoice_lines_equation'')
      else Inr ((), t\<lparr>lines := lines t @ ls\<rparr>))"

definition invoice_with_key :: "uuid \<Rightarrow> string \<Rightarrow> tables \<Rightarrow> invoice_row option" where
  "invoice_with_key org key t =
     first_in (by_key iv_id) (filter (\<lambda>v. iv_org v = org \<and> iv_key v = key \<and> \<not> iv_deleted v) (invoices t))"

definition text_at :: "jsonb \<Rightarrow> string \<Rightarrow> string" where
  "text_at m k = (case map_of m k of Some (Str s) \<Rightarrow> s | _ \<Rightarrow> [])"

definition invoice_number :: "env \<Rightarrow> time \<Rightarrow> uuid \<Rightarrow> string" where
  "invoice_number x now j =
     (case local_civil utc now of (y, m, d) \<Rightarrow>
        ''INV-'' @ pad_number 4 y @ pad_number 2 m @ pad_number 2 d @ ''-''
          @ to_upper (take 10 (filter (\<lambda>c. c \<noteq> CHR ''-'') (show_uuid x j))))"

definition new_invoice ::
  "env \<Rightarrow> uuid \<Rightarrow> uuid \<Rightarrow> uuid \<Rightarrow> uuid \<Rightarrow> uuid \<Rightarrow> string \<Rightarrow> string \<Rightarrow> int \<Rightarrow> time option \<Rightarrow> jsonb \<Rightarrow> time \<Rightarrow> invoice_row" where
  "new_invoice x i j org user contact key currency discount due md now =
    \<lparr>iv_id = i, iv_org = org, iv_contact = contact, iv_number = invoice_number x now j, iv_key = key, iv_status = s_open,
     iv_currency = currency, iv_subtotal = 0, iv_discount = discount, iv_tax = 0, iv_total = 0, iv_paid = 0, iv_due = 0,
     iv_issued_at = Some now, iv_due_at = due, iv_paid_at = None, iv_metadata = md, iv_version = 1,
     iv_created_by = Some user, iv_updated_by = Some user, iv_deleted = False\<rparr>"

text \<open>Totals written into the invoice; nothing to pay means paid.\<close>

definition with_totals :: "totals \<Rightarrow> int \<Rightarrow> time \<Rightarrow> invoice_row \<Rightarrow> invoice_row" where
  "with_totals tots discount now v = (case tots of (subtotal, tax, amount) \<Rightarrow>
     let due = wrap64 (amount - discount);
         w = v\<lparr>iv_subtotal := subtotal, iv_tax := tax, iv_total := due, iv_due := due\<rparr> in
     if due = 0 then w\<lparr>iv_status := s_paid, iv_paid_at := Some now\<rparr> else w)"

definition invoice_activity :: "env \<Rightarrow> uuid \<Rightarrow> invoice_row \<Rightarrow> jsonb \<Rightarrow> time \<Rightarrow> activity_input" where
  "invoice_activity x user v extra now =
    \<lparr>in_contact = iv_contact v, in_lead = None, in_type = ''invoice.created'', in_category = ''invoice'',
     in_title = ''Invoice created'', in_summary = iv_number v, in_actor_type = ''user'', in_actor = Some user,
     in_source_type = ''commerce_invoice'', in_source = Some (iv_id v), in_occurred = now,
     in_metadata = [(''status'', Str (iv_status v)), (''currency'', Str (iv_currency v)), (''total_minor'', Int64 (iv_total v)),
       (''due_minor'', Int64 (iv_due v))] @ extra,
     in_webhook = [], in_key = ''invoice-created:'' @ show_uuid x (iv_id v)\<rparr>"

section \<open>Creating an invoice\<close>

definition same_invoice :: "string \<Rightarrow> invoice_row \<Rightarrow> (tables, invoice_row) tx" where
  "same_invoice print v =
     and_then (reject (text_at (iv_metadata v) ''idempotency_fingerprint'' \<noteq> print) (client_conflict m_invoice_reuse)) (\<lambda>_. ret v)"

text \<open>\<open>Preload\<close> is one more query for an association of the answer.\<close>

definition preload :: "('t, unit) tx" where
  "preload = query (\<lambda>_. ())"

definition load_invoice_by_key :: "uuid \<Rightarrow> string \<Rightarrow> (tables, invoice_row) tx" where
  "load_invoice_by_key org key =
     and_then (first (invoice_with_key org key)) (\<lambda>v. and_then preload (\<lambda>_. ret v))"

text \<open>\<open>errors.Is(err, gorm.ErrRecordNotFound)\<close> after a lookup: found, or none.\<close>

definition lookup :: "('t, 'r) tx \<Rightarrow> ('t, 'r option) tx" where
  "lookup m s = (case m s of
     (Inr r, t) \<Rightarrow> (Inr (Some r), t)
   | (Inl e, t) \<Rightarrow> if e = RecordNotFound then (Inr None, t) else (Inl e, t))"

definition write_invoice ::
  "env \<Rightarrow> uuid \<Rightarrow> uuid \<Rightarrow> string \<Rightarrow> invoice_row \<Rightarrow> line_row list \<Rightarrow> time \<Rightarrow> time \<Rightarrow> (tables, invoice_row) tx" where
  "write_invoice x org user print v ls now clock =
     and_then (execute (insert_invoice v)) (\<lambda>written.
     if \<not> written then and_then (load_invoice_by_key org (iv_key v)) (same_invoice print)
     else
       and_then (execute (insert_lines ls)) (\<lambda>_.
       and_then (record_tx x org clock (invoice_activity x user v [] now)) (\<lambda>_.
       and_then (audit_change org user ''commerce_invoice'' (iv_id v) ''created'' None (Some (invoice_json x v ls))) (\<lambda>_.
       ret v))))"

definition invoice_body ::
  "env \<Rightarrow> uuid \<Rightarrow> uuid \<Rightarrow> invoice_request \<Rightarrow> string \<Rightarrow> invoice_row \<Rightarrow> time \<Rightarrow> time \<Rightarrow> (tables, invoice_row) tx" where
  "invoice_body x org user r print v now clock =
     and_then (lookup (load_invoice_by_key org (iv_key v))) (\<lambda>found.
     case found of
       Some old \<Rightarrow> same_invoice print old
     | None \<Rightarrow>
         and_then (ensure_contact org (vq_contact r)) (\<lambda>_.
         and_then (build_invoice_lines x org v (vq_lines r)) (\<lambda>(ls, tots).
         and_then (reject (fst tots < vq_discount r) (ClientError bad_request m_discount_subtotal)) (\<lambda>_.
         write_invoice x org user print (with_totals tots (vq_discount r) now v) ls now clock))))"

definition create_invoice ::
  "env \<Rightarrow> uuid \<Rightarrow> uuid \<Rightarrow> invoice_request \<Rightarrow> (nat \<Rightarrow> time) \<Rightarrow> (tables, invoice_row) tx" where
  "create_invoice x org user raw clock =
     and_then (lift_res (as_client (validate_invoice raw (clock 0)))) (\<lambda>r.
     case invoice_fingerprint x r of
       None \<Rightarrow> fail (ClientError bad_request m_invoice_request)
     | Some print \<Rightarrow>
         and_then (mint (fresh_uuid x)) (\<lambda>i.
         and_then (mint (fresh_uuid x)) (\<lambda>j.
         let md = AList.update ''idempotency_fingerprint'' (Str print) (vq_metadata r);
             v = new_invoice x i j org user (vq_contact r) (trim_space (vq_key r)) (upper_text (trim_space (vq_currency r)))
               (vq_discount r) (vq_due r) md (clock 1) in
         transaction (invoice_body x org user r print v (clock 1) (clock 2)))))"

end
