(* ===== verification/Payments.thy ===== *)
theory Payments
  imports Invoices
begin

text \<open>
  Payments of \<^verbatim>\<open>internal/handlers/product_booking_commerce.go\<close>: the intent to collect through a provider, the
  manual payment a member of staff confirms, the account it is booked on, and the packages a paid invoice
  activates. \<open>clock n\<close> is what the n-th place of the request that reads the clock reads.
\<close>

section \<open>Payment intents\<close>

record intent_request =
  nq_account :: uuid
  nq_amount :: "int option"
  nq_key :: string
  nq_expires :: "time option"
  nq_metadata :: jsonb

definition m_account_required :: string where "m_account_required = ''provider_account_id is required''"
definition m_amount_positive :: string where "m_amount_positive = ''amount_minor must be greater than zero''"
definition m_expires :: string where "m_expires = ''expires_at must be a future timestamp''"
definition m_intent_reuse :: string where
  "m_intent_reuse = ''Idempotency key was already used for a different payment intent''"
definition m_invoice_missing :: string where "m_invoice_missing = ''Invoice not found''"
definition m_intent_open :: string where
  "m_intent_open = ''Only an open invoice with an outstanding balance can receive a payment intent''"
definition m_account_inactive :: string where
  "m_account_inactive = ''provider_account_id does not belong to an active payment account''"
definition m_manual_intent :: string where
  "m_manual_intent = ''Manual payment accounts do not create provider payment intents''"
definition m_amount_due :: string where
  "m_amount_due = ''amount_minor cannot exceed the outstanding invoice balance''"

definition validate_intent :: "intent_request \<Rightarrow> time \<Rightarrow> (string, intent_request) result" where
  "validate_intent raw now =
     (let r = raw\<lparr>nq_key := trim_space (nq_key raw)\<rparr> in
      if nq_account r = nil_uuid then Inl m_account_required
      else if (case nq_amount r of None \<Rightarrow> False | Some n \<Rightarrow> n \<le> 0) then Inl m_amount_positive
      else if nq_key r = [] \<or> 255 < rune_count (nq_key r) then Inl m_key
      else if (case nq_expires r of None \<Rightarrow> False | Some e \<Rightarrow> is_zero_time e \<or> e \<le> now) then Inl m_expires
      else Inr r)"

definition intent_with_key :: "uuid \<Rightarrow> string \<Rightarrow> tables \<Rightarrow> intent_row option" where
  "intent_with_key org key t =
     first_in (by_key pi_id) (filter (\<lambda>p. pi_org p = org \<and> pi_key p = key \<and> \<not> pi_deleted p) (intents t))"

definition same_intent :: "uuid \<Rightarrow> intent_request \<Rightarrow> intent_row \<Rightarrow> (tables, intent_row) tx" where
  "same_intent i r p =
     and_then (reject (pi_invoice p \<noteq> i \<or> pi_account p \<noteq> nq_account r
         \<or> (case nq_amount r of None \<Rightarrow> False | Some n \<Rightarrow> pi_amount p \<noteq> n)) (client_conflict m_intent_reuse)) (\<lambda>_. ret p)"

definition invoice_by_id :: "uuid \<Rightarrow> uuid \<Rightarrow> tables \<Rightarrow> invoice_row option" where
  "invoice_by_id org i t =
     first_in (by_key iv_id) (filter (\<lambda>v. iv_id v = i \<and> iv_org v = org \<and> \<not> iv_deleted v) (invoices t))"

definition active_account :: "uuid \<Rightarrow> uuid \<Rightarrow> tables \<Rightarrow> account_row option" where
  "active_account org i t =
     first_in (by_key pa_id) (filter (\<lambda>a. pa_id a = i \<and> pa_org a = org \<and> pa_active a \<and> \<not> pa_deleted a) (accounts t))"

definition is_manual :: "account_row \<Rightarrow> bool" where
  "is_manual a \<longleftrightarrow> equal_fold (trim_space (pa_provider a)) ''manual''"

definition insert_intent :: "intent_row \<Rightarrow> tables \<Rightarrow> err + bool \<times> tables" where
  "insert_intent p t =
     (if pi_amount p \<le> 0 then Inl (DriverError ''check constraint: chk_payment_intents_amount'')
      else if \<exists>q\<in>set (intents t). pi_org q = pi_org p \<and> pi_key q = pi_key p then Inr (False, t)
      else if \<exists>q\<in>set (intents t). pi_id q = pi_id p then Inl (DriverError ''duplicate key: payment_intents'')
      else Inr (True, t\<lparr>intents := intents t @ [p]\<rparr>))"

definition new_intent :: "uuid \<Rightarrow> uuid \<Rightarrow> uuid \<Rightarrow> intent_request \<Rightarrow> account_row \<Rightarrow> invoice_row \<Rightarrow> int \<Rightarrow> intent_row" where
  "new_intent i org user r a v amount =
    \<lparr>pi_id = i, pi_org = org, pi_account = pa_id a, pi_invoice = iv_id v, pi_contact = iv_contact v,
     pi_key = trim_space (nq_key r), pi_amount = amount, pi_currency = iv_currency v, pi_status = ''pending'',
     pi_expires = nq_expires r,
     pi_metadata = AList.update ''collection_attempted'' (Boolean False) (AList.update ''adapter_dispatched'' (Boolean False) (nq_metadata r)),
     pi_version = 1, pi_created_by = Some user, pi_deleted = False\<rparr>"

definition intent_body :: "env \<Rightarrow> uuid \<Rightarrow> uuid \<Rightarrow> uuid \<Rightarrow> intent_request \<Rightarrow> (tables, intent_row) tx" where
  "intent_body x org user i r =
     and_then (lookup (first (intent_with_key org (trim_space (nq_key r))))) (\<lambda>found.
     case found of
       Some p \<Rightarrow> same_intent i r p
     | None \<Rightarrow>
         and_then (or_fail (first (invoice_by_id org i)) (ClientError not_found m_invoice_missing)) (\<lambda>v.
         and_then (reject (iv_status v \<noteq> s_open \<or> iv_due v \<le> 0) (client_conflict m_intent_open)) (\<lambda>_.
         and_then (or_fail (first (active_account org (nq_account r))) (ClientError bad_request m_account_inactive)) (\<lambda>a.
         and_then (reject (is_manual a) (ClientError bad_request m_manual_intent)) (\<lambda>_.
         let amount = (case nq_amount r of None \<Rightarrow> iv_due v | Some n \<Rightarrow> n) in
         and_then (reject (iv_due v < amount) (ClientError bad_request m_amount_due)) (\<lambda>_.
         and_then (mint (fresh_uuid x)) (\<lambda>j.
         let p = new_intent j org user r a v amount in
         and_then (execute (insert_intent p)) (\<lambda>written.
         if \<not> written then and_then (first (intent_with_key org (trim_space (nq_key r)))) (same_intent i r)
         else and_then (audit_change org user ''payment_intent'' j ''created'' None (Some (intent_json x p))) (\<lambda>_. ret p)))))))))"

definition create_payment_intent ::
  "env \<Rightarrow> uuid \<Rightarrow> uuid \<Rightarrow> uuid \<Rightarrow> intent_request \<Rightarrow> time \<Rightarrow> (tables, intent_row) tx" where
  "create_payment_intent x org user i raw now =
     and_then (lift_res (as_client (validate_intent raw now))) (\<lambda>r. transaction (intent_body x org user i r))"

section \<open>The request to record a manual payment\<close>

record payment_request =
  yq_version :: int
  yq_amount :: int
  yq_currency :: string
  yq_account :: "uuid option"
  yq_reference :: string
  yq_notes :: string
  yq_key :: string
  yq_occurred :: "time option"
  yq_confirm :: bool
  yq_metadata :: jsonb

definition m_confirm_manual :: string where
  "m_confirm_manual = ''confirm_manual must be true to record an external manual payment''"
definition m_account_uuid :: string where "m_account_uuid = ''provider_account_id must be a valid UUID''"
definition m_reference :: string where "m_reference = ''reference is required and must not exceed 255 characters''"
definition m_occurred :: string where
  "m_occurred = ''occurred_at must be a valid timestamp that is not in the future''"
definition m_payment_reuse :: string where "m_payment_reuse = ''Idempotency key was already used for a different payment''"
definition m_invoice_modified :: string where "m_invoice_modified = ''Invoice was modified; refresh and retry''"
definition m_payment_open :: string where
  "m_payment_open = ''Only an open invoice with an outstanding balance can receive a manual payment''"
definition m_payment_currency :: string where
  "m_payment_currency = ''Payment currency must match the invoice currency''"
definition m_reference_taken :: string where "m_reference_taken = ''Manual payment reference has already been recorded''"
definition m_payment_duplicate :: string where
  "m_payment_duplicate = ''Manual payment reference or idempotency key has already been recorded''"
definition m_only_manual :: string where
  "m_only_manual = ''Only a manual payment account can record manual payments''"
definition m_manual_inactive :: string where
  "m_manual_inactive = ''The organization'' @ [CHR 0x27] @ ''s manual payment account is inactive''"
definition m_package_changed :: string where
  "m_package_changed = ''Contact package was modified while applying the payment''"

definition validate_payment :: "payment_request \<Rightarrow> time \<Rightarrow> (string, payment_request) result" where
  "validate_payment raw now =
     (let r = raw\<lparr>yq_currency := upper_text (trim_space (yq_currency raw)), yq_key := trim_space (yq_key raw),
            yq_reference := trim_space (yq_reference raw)\<rparr> in
      if \<not> yq_confirm r then Inl m_confirm_manual
      else if yq_version r < 1 then Inl m_version
      else if yq_amount r \<le> 0 then Inl m_amount_positive
      else if \<not> valid_currency (yq_currency r) then Inl m_currency
      else if yq_account r = Some nil_uuid then Inl m_account_uuid
      else if yq_reference r = [] \<or> 255 < rune_count (yq_reference r) then Inl m_reference
      else if yq_key r = [] \<or> 255 < rune_count (yq_key r) then Inl m_key
      else if 10000 < rune_count (yq_notes r) then Inl m_notes
      else if (case yq_occurred r of None \<Rightarrow> False | Some t \<Rightarrow> is_zero_time t \<or> now + 5 * minute < t) then Inl m_occurred
      else Inr r)"

section \<open>The account\<close>

definition manual_account :: "uuid \<Rightarrow> string \<Rightarrow> tables \<Rightarrow> account_row option" where
  "manual_account org external t =
     first_in (by_key pa_id) (filter (\<lambda>a. pa_org a = org \<and> pa_provider a = ''manual'' \<and> pa_external a = external
       \<and> \<not> pa_deleted a) (accounts t))"

definition new_manual_account :: "uuid \<Rightarrow> uuid \<Rightarrow> uuid \<Rightarrow> string \<Rightarrow> account_row" where
  "new_manual_account i org user external =
    \<lparr>pa_id = i, pa_org = org, pa_name = ''Manual payments'', pa_provider = ''manual'', pa_external = external,
     pa_environment = ''live'', pa_active = True, pa_metadata = [(''system_managed'', Boolean True)], pa_version = 1,
     pa_created_by = Some user, pa_updated_by = Some user, pa_deleted = False\<rparr>"

definition insert_account :: "env \<Rightarrow> account_row \<Rightarrow> tables \<Rightarrow> err + unit \<times> tables" where
  "insert_account x a t =
     (if \<exists>b\<in>set (accounts t). pa_id b = pa_id a \<or> pa_org b = pa_org a \<and> db_lower x (pa_provider b) = db_lower x (pa_provider a)
          \<and> pa_environment b = pa_environment a \<and> db_lower x (pa_external b) = db_lower x (pa_external a)
      then Inl (DriverError ''duplicate key: payment_provider_accounts'')
      else Inr ((), t\<lparr>accounts := accounts t @ [a]\<rparr>))"

definition organization_row :: "uuid \<Rightarrow> tables \<Rightarrow> uuid option" where
  "organization_row org t = (if org \<in> set (organizations t) then Some org else None)"

definition resolve_manual_account :: "env \<Rightarrow> uuid \<Rightarrow> uuid \<Rightarrow> uuid option \<Rightarrow> (tables, account_row) tx" where
  "resolve_manual_account x org user requested =
     (case requested of
        Some i \<Rightarrow>
          and_then (or_fail (first (active_account org i)) (ClientError bad_request m_account_inactive)) (\<lambda>a.
          and_then (reject (\<not> is_manual a) (ClientError bad_request m_only_manual)) (\<lambda>_. ret a))
      | None \<Rightarrow>
          and_then (first (organization_row org)) (\<lambda>_.
          let external = ''manual:'' @ show_uuid x org in
          and_then (lookup (first (manual_account org external))) (\<lambda>found.
          case found of
            Some a \<Rightarrow> and_then (reject (\<not> pa_active a) (client_conflict m_manual_inactive)) (\<lambda>_. ret a)
          | None \<Rightarrow>
              and_then (mint (fresh_uuid x)) (\<lambda>i.
              let a = new_manual_account i org user external in
              and_then (execute (insert_account x a)) (\<lambda>_. ret a)))))"

section \<open>Activating the packages of a paid invoice\<close>

definition pending_packages :: "uuid \<Rightarrow> uuid \<Rightarrow> tables \<Rightarrow> package_row list" where
  "pending_packages org invoice t =
     filter (\<lambda>p. cp_org p = org \<and> cp_invoice p = Some invoice \<and> cp_status p = ''pending'' \<and> \<not> cp_deleted p) (packages t)"

definition activated :: "uuid \<Rightarrow> time \<Rightarrow> package_row \<Rightarrow> package_row" where
  "activated user now p =
     p\<lparr>cp_starts := (case cp_starts p of None \<Rightarrow> Some now | Some s \<Rightarrow> Some s), cp_status := ''active'',
       cp_version := cp_version p + 1, cp_updated_by := Some user\<rparr>"

definition package_values :: "package_row \<Rightarrow> bool" where
  "package_values p \<longleftrightarrow> 0 \<le> cp_amount p \<and> (case (cp_expires p, cp_starts p) of (Some e, Some s) \<Rightarrow> s < e | _ \<Rightarrow> True)"

definition activate_package_row :: "uuid \<Rightarrow> uuid \<Rightarrow> package_row \<Rightarrow> tables \<Rightarrow> err + nat \<times> tables" where
  "activate_package_row org user p t =
     (let q = (\<lambda>r. cp_id r = cp_id p \<and> cp_org r = org \<and> cp_status r = ''pending'' \<and> cp_version r = cp_version p - 1 \<and> \<not> cp_deleted r);
          rows = update_where q (\<lambda>r. r\<lparr>cp_status := cp_status p, cp_starts := cp_starts p, cp_updated_by := Some user,
            cp_version := cp_version p\<rparr>) (packages t) in
      if list_all package_values rows then Inr (rows_affected q (packages t), t\<lparr>packages := rows\<rparr>)
      else Inl (DriverError ''check constraint: chk_contact_packages_values''))"

definition activate_package :: "env \<Rightarrow> uuid \<Rightarrow> uuid \<Rightarrow> uuid \<Rightarrow> time \<Rightarrow> package_row \<Rightarrow> (tables, unit) tx" where
  "activate_package x org user payment now old =
     (let p = activated user now old in
      and_then (execute (activate_package_row org user p)) (\<lambda>n.
      and_then (reject (n \<noteq> 1) (client_conflict m_package_changed)) (\<lambda>_.
      and_then (grant_credits x org p user now (''contact-package-payment:'' @ show_uuid x payment)) (\<lambda>_.
      audit_change org user ''contact_package'' (cp_id p) ''updated'' (Some (package_json x old)) (Some (package_json x p))))))"

definition activate_paid_packages :: "env \<Rightarrow> uuid \<Rightarrow> invoice_row \<Rightarrow> uuid \<Rightarrow> uuid \<Rightarrow> time \<Rightarrow> (tables, unit) tx" where
  "activate_paid_packages x org v user payment now =
     and_then (query (pending_packages org (iv_id v))) (\<lambda>ps. for_each ps (activate_package x org user payment now))"

section \<open>Recording the payment\<close>

definition payment_with_key :: "uuid \<Rightarrow> string \<Rightarrow> tables \<Rightarrow> payment_row option" where
  "payment_with_key org key t =
     first_in (by_key pt_id) (filter (\<lambda>p. pt_org p = org \<and> pt_key p = key) (payments t))"

definition same_payment :: "uuid \<Rightarrow> payment_request \<Rightarrow> payment_row \<Rightarrow> bool" where
  "same_payment i r p \<longleftrightarrow> pt_invoice p = Some i \<and> pt_amount p = yq_amount r
     \<and> pt_currency p = upper_text (trim_space (yq_currency r)) \<and> equal_fold (pt_reference p) (trim_space (yq_reference r))"

definition reference_hits :: "env \<Rightarrow> uuid \<Rightarrow> uuid \<Rightarrow> string \<Rightarrow> tables \<Rightarrow> nat" where
  "reference_hits x org account reference t =
     length (filter (\<lambda>p. pt_org p = org \<and> pt_account p = account \<and> db_lower x (pt_reference p) = db_lower x reference) (payments t))"

definition new_payment :: "uuid \<Rightarrow> uuid \<Rightarrow> payment_request \<Rightarrow> account_row \<Rightarrow> invoice_row \<Rightarrow> time \<Rightarrow> payment_row" where
  "new_payment i org r a v occurred =
     (let md = AList.update ''provider_collection_attempted'' (Boolean False) (AList.update ''manual'' (Boolean True) (yq_metadata r));
          notes = trim_space (yq_notes r) in
      \<lparr>pt_id = i, pt_org = org, pt_account = pa_id a, pt_invoice = Some (iv_id v), pt_type = ''charge'',
       pt_reference = trim_space (yq_reference r), pt_key = trim_space (yq_key r), pt_amount = yq_amount r,
       pt_currency = iv_currency v, pt_status = ''succeeded'',
       pt_metadata = (if notes = [] then md else AList.update ''notes'' (Str notes) md), pt_occurred = occurred\<rparr>)"

definition insert_payment :: "env \<Rightarrow> payment_row \<Rightarrow> tables \<Rightarrow> err + unit \<times> tables" where
  "insert_payment x p t =
     (if pt_amount p \<le> 0 then Inl (DriverError ''check constraint: chk_payment_transactions_amount'')
      else if \<exists>q\<in>set (payments t). pt_id q = pt_id p \<or> pt_org q = pt_org p \<and> pt_key q = pt_key p
          \<or> pt_reference p \<noteq> [] \<and> pt_reference q \<noteq> [] \<and> pt_org q = pt_org p \<and> pt_account q = pt_account p
            \<and> db_lower x (pt_reference q) = db_lower x (pt_reference p)
      then Inl (DriverError ''duplicate key: payment_transactions'')
      else Inr ((), t\<lparr>payments := payments t @ [p]\<rparr>))"

text \<open>\<open>bookingCommerceUniqueConstraintError\<close>: the text of a driver error tells a unique constraint.\<close>

definition unique_constraint_error :: "err \<Rightarrow> bool" where
  "unique_constraint_error e =
     (case e of
        DriverError m \<Rightarrow> contains (lower_text m) ''duplicate key'' \<or> contains (lower_text m) ''unique constraint''
      | _ \<Rightarrow> False)"

definition or_duplicate :: "('s, err, 'a) action \<Rightarrow> err \<Rightarrow> ('s, err, 'a) action" where
  "or_duplicate m e s = (case m s of
     (Inl e', t) \<Rightarrow> (Inl (if unique_constraint_error e' then e else e'), t)
   | (Inr a, t) \<Rightarrow> (Inr a, t))"

definition pay_invoice :: "uuid \<Rightarrow> int \<Rightarrow> time \<Rightarrow> invoice_row \<Rightarrow> invoice_row" where
  "pay_invoice user amount now v =
     (let w = v\<lparr>iv_paid := wrap64 (iv_paid v + amount), iv_due := wrap64 (iv_due v - amount), iv_version := iv_version v + 1,
            iv_updated_by := Some user\<rparr> in
      if iv_due w = 0 then w\<lparr>iv_status := s_paid, iv_paid_at := Some now\<rparr> else w)"

definition write_paid :: "uuid \<Rightarrow> int \<Rightarrow> uuid \<Rightarrow> invoice_row \<Rightarrow> tables \<Rightarrow> err + nat \<times> tables" where
  "write_paid org version user w t =
     (let q = (\<lambda>v. iv_id v = iv_id w \<and> iv_org v = org \<and> iv_version v = version \<and> \<not> iv_deleted v);
          rows = update_where q (\<lambda>v. v\<lparr>iv_paid := iv_paid w, iv_due := iv_due w, iv_status := iv_status w,
            iv_paid_at := iv_paid_at w, iv_updated_by := Some user, iv_version := iv_version w\<rparr>) (invoices t) in
      if list_all invoice_values rows then Inr (rows_affected q (invoices t), t\<lparr>invoices := rows\<rparr>)
      else Inl (DriverError ''check constraint: chk_commerce_invoices_equation''))"

definition payment_activity :: "env \<Rightarrow> uuid \<Rightarrow> invoice_row \<Rightarrow> payment_row \<Rightarrow> activity_input" where
  "payment_activity x user v p =
    \<lparr>in_contact = iv_contact v, in_lead = None, in_type = ''payment.recorded'', in_category = ''payment'',
     in_title = ''Payment recorded'', in_summary = iv_number v, in_actor_type = ''user'', in_actor = Some user,
     in_source_type = ''payment_transaction'', in_source = Some (pt_id p), in_occurred = pt_occurred p,
     in_metadata = [(''invoice_id'', Str (show_uuid x (iv_id v))), (''amount_minor'', Int64 (pt_amount p)),
       (''currency'', Str (pt_currency p)), (''status'', Str (pt_status p)), (''manual'', Boolean True)],
     in_webhook = [], in_key = ''payment-recorded:'' @ show_uuid x (pt_id p)\<rparr>"

definition paid_activity :: "env \<Rightarrow> uuid \<Rightarrow> invoice_row \<Rightarrow> payment_row \<Rightarrow> activity_input" where
  "paid_activity x user v p =
    \<lparr>in_contact = iv_contact v, in_lead = None, in_type = ''invoice.paid'', in_category = ''invoice'',
     in_title = ''Invoice paid'', in_summary = iv_number v, in_actor_type = ''user'', in_actor = Some user,
     in_source_type = ''commerce_invoice'', in_source = Some (iv_id v), in_occurred = pt_occurred p,
     in_metadata = [(''currency'', Str (iv_currency v)), (''paid_minor'', Int64 (iv_paid v)),
       (''payment_id'', Str (show_uuid x (pt_id p))), (''version'', Int64 (iv_version v))],
     in_webhook = [],
     in_key = ''invoice-paid:'' @ show_uuid x (iv_id v) @ '':'' @ show_nat (nat (iv_version v))\<rparr>"

record payment_result =
  pr_invoice :: invoice_row
  pr_payment :: payment_row
  pr_idempotent :: bool

text \<open>Everything the payment changes, once the invoice is locked and the checks have passed.\<close>

definition settle_invoice ::
  "env \<Rightarrow> uuid \<Rightarrow> uuid \<Rightarrow> payment_request \<Rightarrow> invoice_row \<Rightarrow> account_row \<Rightarrow> (nat \<Rightarrow> time) \<Rightarrow> (tables, payment_result) tx" where
  "settle_invoice x org user r v a clock =
     and_then (mint (fresh_uuid x)) (\<lambda>i.
     let p = new_payment i org r a v (case yq_occurred r of None \<Rightarrow> clock 1 | Some t \<Rightarrow> t) in
     and_then (or_duplicate (execute (insert_payment x p)) (client_conflict m_payment_duplicate)) (\<lambda>_.
     let w = pay_invoice user (yq_amount r) (clock 2) v in
     and_then (execute (write_paid org (yq_version r) user w)) (\<lambda>n.
     and_then (reject (n \<noteq> 1) (client_conflict m_invoice_modified)) (\<lambda>_.
     and_then (if iv_status w = s_paid then activate_paid_packages x org w user i (clock 3) else ret ()) (\<lambda>_.
     and_then (record_tx x org (clock 4) (payment_activity x user w p)) (\<lambda>_.
     and_then (if iv_status w = s_paid
       then and_then (record_tx x org (clock 5) (paid_activity x user w p)) (\<lambda>_. ret ()) else ret ()) (\<lambda>_.
     and_then (audit_change org user ''payment_transaction'' i ''created'' None (Some (payment_json x p))) (\<lambda>_.
     and_then (audit_change org user ''commerce_invoice'' (iv_id w) ''updated'' (Some (invoice_json x v [])) (Some (invoice_json x w []))) (\<lambda>_.
     ret \<lparr>pr_invoice = w, pr_payment = p, pr_idempotent = False\<rparr>)))))))))"

definition check_payable :: "payment_request \<Rightarrow> invoice_row \<Rightarrow> (tables, unit) tx" where
  "check_payable r v =
     and_then (reject (iv_version v \<noteq> yq_version r) (client_conflict m_invoice_modified)) (\<lambda>_.
     and_then (reject (iv_status v \<noteq> s_open \<or> iv_due v \<le> 0) (client_conflict m_payment_open)) (\<lambda>_.
     and_then (reject (upper_text (trim_space (yq_currency r)) \<noteq> iv_currency v) (ClientError bad_request m_payment_currency)) (\<lambda>_.
     reject (iv_due v < yq_amount r) (ClientError bad_request m_amount_due))))"

definition replay_payment :: "uuid \<Rightarrow> payment_request \<Rightarrow> payment_row \<Rightarrow> (tables, unit) tx" where
  "replay_payment i r p = reject (\<not> same_payment i r p) (client_conflict m_payment_reuse)"

definition payment_body ::
  "env \<Rightarrow> uuid \<Rightarrow> uuid \<Rightarrow> uuid \<Rightarrow> payment_request \<Rightarrow> (nat \<Rightarrow> time) \<Rightarrow> (tables, payment_result) tx" where
  "payment_body x org user i r clock =
     and_then (lookup (first (payment_with_key org (trim_space (yq_key r))))) (\<lambda>found.
     case found of
       Some p \<Rightarrow>
         and_then (replay_payment i r p) (\<lambda>_.
         and_then (or_fail (first (invoice_by_id org i)) (ClientError not_found m_invoice_missing)) (\<lambda>v.
         ret \<lparr>pr_invoice = v, pr_payment = p, pr_idempotent = True\<rparr>))
     | None \<Rightarrow>
         and_then (or_fail (first (invoice_by_id org i)) (ClientError not_found m_invoice_missing)) (\<lambda>v.
         and_then (lookup (first (payment_with_key org (trim_space (yq_key r))))) (\<lambda>found2.
         case found2 of
           Some p \<Rightarrow> and_then (replay_payment i r p) (\<lambda>_. ret \<lparr>pr_invoice = v, pr_payment = p, pr_idempotent = True\<rparr>)
         | None \<Rightarrow>
             and_then (check_payable r v) (\<lambda>_.
             and_then (resolve_manual_account x org user (yq_account r)) (\<lambda>a.
             and_then (query (reference_hits x org (pa_id a) (trim_space (yq_reference r)))) (\<lambda>hits.
             and_then (reject (0 < hits) (client_conflict m_reference_taken)) (\<lambda>_.
             settle_invoice x org user r v a clock)))))))"

definition record_manual_payment ::
  "env \<Rightarrow> uuid \<Rightarrow> uuid \<Rightarrow> uuid \<Rightarrow> payment_request \<Rightarrow> (nat \<Rightarrow> time) \<Rightarrow> (tables, payment_result) tx" where
  "record_manual_payment x org user i raw clock =
     and_then (lift_res (as_client (validate_payment raw (clock 0)))) (\<lambda>r. transaction (payment_body x org user i r clock))"

end
