(* ===== verification/Sales.thy ===== *)
theory Sales
  imports Payments
begin

text \<open>
  Packages of a contact in \<^verbatim>\<open>internal/handlers/product_booking_commerce.go\<close>: \<open>CreateContactPackage\<close> grants or
  purchases one, \<open>SellContactPackage\<close> invoices and assigns one in a single transaction.
\<close>

section \<open>Requests\<close>

record grant_request =
  gq_contact :: uuid
  gq_definition :: uuid
  gq_invoice :: "uuid option"
  gq_starts :: "time option"
  gq_source :: string
  gq_key :: string
  gq_metadata :: jsonb

text \<open>A nil metadata map and an empty one are told apart: the sale writes into a map it was given.\<close>

record sale_request =
  sq_contact :: uuid
  sq_definition :: uuid
  sq_due :: "time option"
  sq_key :: string
  sq_metadata :: "jsonb option"

definition m_contact_definition :: string where
  "m_contact_definition = ''contact_id and package_definition_id are required''"
definition m_invoice_uuid :: string where "m_invoice_uuid = ''invoice_id must be a valid UUID''"
definition m_source_length :: string where "m_source_length = ''source must not exceed 50 characters''"
definition m_purchase_reuse :: string where
  "m_purchase_reuse = ''Idempotency key was already used for a different package purchase''"
definition m_operation_reuse :: string where
  "m_operation_reuse = ''Idempotency key was already used for a different package operation''"
definition m_active_package :: string where
  "m_active_package = ''package_definition_id does not belong to an active package''"
definition m_definition_tenant :: string where
  "m_definition_tenant = ''package_definition_id does not belong to this organization''"
definition m_invoice_contact :: string where "m_invoice_contact = ''invoice_id does not belong to the contact''"
definition m_invoice_currency :: string where
  "m_invoice_currency = ''Invoice currency does not match the package currency''"
definition m_invoice_fund :: string where
  "m_invoice_fund = ''Only an open or paid invoice can fund a package purchase''"
definition m_unallocated :: string where
  "m_unallocated = ''Invoice has no unallocated line for this package definition''"
definition m_load_package :: string where "m_load_package = ''Failed to load contact package''"
definition m_load_invoice :: string where "m_load_invoice = ''Failed to load package invoice''"
definition m_sale_request :: string where "m_sale_request = ''Invalid package sale request''"

definition validate_grant :: "grant_request \<Rightarrow> (string, grant_request) result" where
  "validate_grant raw =
     (let r = raw\<lparr>gq_key := trim_space (gq_key raw), gq_source := trim_space (gq_source raw)\<rparr> in
      if gq_contact r = nil_uuid \<or> gq_definition r = nil_uuid then Inl m_contact_definition
      else if gq_invoice r = Some nil_uuid then Inl m_invoice_uuid
      else if gq_key r = [] \<or> 255 < rune_count (gq_key r) then Inl m_key
      else if 50 < rune_count (gq_source r) then Inl m_source_length
      else Inr r)"

definition validate_sale :: "sale_request \<Rightarrow> (string, sale_request) result" where
  "validate_sale raw =
     (let r = raw\<lparr>sq_key := trim_space (sq_key raw)\<rparr> in
      if sq_contact r = nil_uuid \<or> sq_definition r = nil_uuid then Inl m_contact_definition
      else if sq_key r = [] \<or> 255 < rune_count (sq_key r) then Inl m_key
      else if (case sq_due r of None \<Rightarrow> False | Some t \<Rightarrow> is_zero_time t) then Inl m_due_at
      else Inr r)"

section \<open>Rows\<close>

definition package_with_key :: "uuid \<Rightarrow> string \<Rightarrow> tables \<Rightarrow> package_row option" where
  "package_with_key org key t =
     first_in (by_key cp_id) (filter (\<lambda>p. cp_org p = org \<and> cp_key p = key \<and> \<not> cp_deleted p) (packages t))"

text \<open>\<open>ON CONFLICT (organization_id, idempotency_key) DO NOTHING\<close>: was a row written?\<close>

definition insert_package :: "package_row \<Rightarrow> tables \<Rightarrow> err + bool \<times> tables" where
  "insert_package p t =
     (if \<not> package_values p then Inl (DriverError ''check constraint: chk_contact_packages_values'')
      else if \<exists>q\<in>set (packages t). cp_org q = cp_org p \<and> cp_key q = cp_key p then Inr (False, t)
      else if \<exists>q\<in>set (packages t). cp_id q = cp_id p then Inl (DriverError ''duplicate key: contact_packages'')
      else Inr (True, t\<lparr>packages := packages t @ [p]\<rparr>))"

definition validity_end :: "definition_row \<Rightarrow> time \<Rightarrow> time option" where
  "validity_end d starts = (if 0 < pd_validity_days d then Some (starts + pd_validity_days d * day_ns) else None)"

section \<open>Granting or purchasing a package\<close>

definition same_purchase :: "grant_request \<Rightarrow> package_row \<Rightarrow> (tables, package_row) tx" where
  "same_purchase r p =
     and_then (reject (cp_contact p \<noteq> gq_contact r \<or> cp_definition p \<noteq> gq_definition r \<or> cp_invoice p \<noteq> gq_invoice r)
       (client_conflict m_purchase_reuse)) (\<lambda>_. ret p)"

definition invoice_of_contact :: "uuid \<Rightarrow> uuid \<Rightarrow> uuid \<Rightarrow> tables \<Rightarrow> invoice_row option" where
  "invoice_of_contact org contact i t =
     first_in (by_key iv_id) (filter (\<lambda>v. iv_id v = i \<and> iv_org v = org \<and> iv_contact v = contact \<and> \<not> iv_deleted v) (invoices t))"

definition purchased_quantity :: "uuid \<Rightarrow> uuid \<Rightarrow> uuid \<Rightarrow> tables \<Rightarrow> int" where
  "purchased_quantity org invoice def t =
     sum_list (map ln_quantity (filter (\<lambda>l. ln_org l = org \<and> ln_invoice l = invoice \<and> ln_definition l = Some def
       \<and> \<not> ln_deleted l) (lines t)))"

definition allocated :: "uuid \<Rightarrow> uuid \<Rightarrow> uuid \<Rightarrow> tables \<Rightarrow> nat" where
  "allocated org invoice def t =
     length (filter (\<lambda>p. cp_org p = org \<and> cp_invoice p = Some invoice \<and> cp_definition p = def \<and> \<not> cp_deleted p) (packages t))"

text \<open>The status a new package gets: pending while its invoice is open.\<close>

definition check_funding :: "uuid \<Rightarrow> grant_request \<Rightarrow> definition_row \<Rightarrow> (tables, string) tx" where
  "check_funding org r d =
     (case gq_invoice r of
        None \<Rightarrow> ret ''active''
      | Some i \<Rightarrow>
          and_then (or_fail (first (invoice_of_contact org (gq_contact r) i)) (ClientError bad_request m_invoice_contact)) (\<lambda>v.
          and_then (reject (iv_currency v \<noteq> pd_currency d) (ClientError bad_request m_invoice_currency)) (\<lambda>_.
          and_then (reject (iv_status v \<noteq> s_open \<and> iv_status v \<noteq> s_paid) (client_conflict m_invoice_fund)) (\<lambda>_.
          and_then (query (purchased_quantity org (iv_id v) (pd_id d))) (\<lambda>bought.
          and_then (query (allocated org (iv_id v) (pd_id d))) (\<lambda>used.
          and_then (reject (bought \<le> int used) (client_conflict m_unallocated)) (\<lambda>_.
          ret (if iv_status v \<noteq> s_paid then ''pending'' else ''active''))))))))"

definition new_package :: "uuid \<Rightarrow> uuid \<Rightarrow> uuid \<Rightarrow> grant_request \<Rightarrow> definition_row \<Rightarrow> string \<Rightarrow> time \<Rightarrow> package_row" where
  "new_package i org user r d status starts =
    \<lparr>cp_id = i, cp_org = org, cp_contact = gq_contact r, cp_definition = pd_id d, cp_invoice = gq_invoice r,
     cp_status = status, cp_starts = Some starts, cp_expires = validity_end d starts, cp_amount = pd_price d,
     cp_currency = pd_currency d, cp_source = trim_space (gq_source r), cp_key = trim_space (gq_key r),
     cp_metadata = gq_metadata r, cp_version = 1, cp_created_by = Some user, cp_updated_by = Some user,
     cp_deleted = False\<rparr>"

definition write_package ::
  "env \<Rightarrow> uuid \<Rightarrow> uuid \<Rightarrow> grant_request \<Rightarrow> package_row \<Rightarrow> time \<Rightarrow> (tables, package_row) tx" where
  "write_package x org user r p now =
     and_then (execute (insert_package p)) (\<lambda>written.
     if \<not> written then and_then (first (package_with_key org (trim_space (gq_key r)))) (same_purchase r)
     else
       and_then (if cp_status p = ''active''
         then grant_credits x org p user now (''contact-package-grant:'' @ show_uuid x (cp_id p)) else ret ()) (\<lambda>_.
       and_then (audit_change org user ''contact_package'' (cp_id p) ''created'' None (Some (package_json x p))) (\<lambda>_.
       ret p)))"

definition grant_body :: "env \<Rightarrow> uuid \<Rightarrow> uuid \<Rightarrow> grant_request \<Rightarrow> time \<Rightarrow> (tables, package_row) tx" where
  "grant_body x org user r now =
     and_then (lookup (first (package_with_key org (gq_key r)))) (\<lambda>found.
     case found of
       Some p \<Rightarrow> same_purchase r p
     | None \<Rightarrow>
         and_then (ensure_contact org (gq_contact r)) (\<lambda>_.
         and_then (or_fail (first (active_definition org (gq_definition r))) (ClientError bad_request m_active_package)) (\<lambda>d.
         and_then (lookup (first (package_with_key org (gq_key r)))) (\<lambda>found2.
         case found2 of
           Some p \<Rightarrow> same_purchase r p
         | None \<Rightarrow>
             and_then (check_funding org r d) (\<lambda>status.
             and_then (mint (fresh_uuid x)) (\<lambda>i.
             write_package x org user r
               (new_package i org user r d status (case gq_starts r of None \<Rightarrow> now | Some s \<Rightarrow> s)) now))))))"

definition package_by_id :: "uuid \<Rightarrow> uuid \<Rightarrow> tables \<Rightarrow> package_row option" where
  "package_by_id org i t =
     first_in (by_key cp_id) (filter (\<lambda>p. cp_id p = i \<and> cp_org p = org \<and> \<not> cp_deleted p) (packages t))"

text \<open>The reload for the answer, with \<open>n\<close> preloaded associations.\<close>

definition load_package :: "uuid \<Rightarrow> uuid \<Rightarrow> nat \<Rightarrow> (tables, package_row) tx" where
  "load_package org i n =
     and_then (first (package_by_id org i)) (\<lambda>p. and_then (for_each (replicate n ()) (\<lambda>_. preload)) (\<lambda>_. ret p))"

definition create_contact_package ::
  "env \<Rightarrow> uuid \<Rightarrow> uuid \<Rightarrow> grant_request \<Rightarrow> time \<Rightarrow> (tables, package_row) tx" where
  "create_contact_package x org user raw now =
     and_then (lift_res (as_client (validate_grant raw))) (\<lambda>r.
     and_then (transaction (grant_body x org user r now)) (\<lambda>p.
     or_fail (load_package org (cp_id p) 2) (ClientError server_error m_load_package)))"

section \<open>Selling a package\<close>

definition given_metadata :: "sale_request \<Rightarrow> jsonb" where
  "given_metadata r = (case sq_metadata r of None \<Rightarrow> [] | Some m \<Rightarrow> m)"

definition sale_fingerprint :: "env \<Rightarrow> sale_request \<Rightarrow> string option" where
  "sale_fingerprint x r = json_digest x
     ([(''contact_id'', Str (show_uuid x (sq_contact r))), (''package_definition_id'', Str (show_uuid x (sq_definition r)))]
      @ time_member x ''due_at'' (sq_due r) @ [(''idempotency_key'', Str [])] @ object_member ''metadata'' (given_metadata r))"

definition sale_mark :: "jsonb \<Rightarrow> string" where
  "sale_mark m = text_at m ''package_sale_fingerprint''"

definition marked :: "string \<Rightarrow> jsonb \<Rightarrow> jsonb" where
  "marked print m = AList.update ''package_sale_fingerprint'' (Str print) (AList.update ''workflow'' (Str ''package_sale'') m)"

definition sale_invoice_request :: "sale_request \<Rightarrow> definition_row \<Rightarrow> invoice_request" where
  "sale_invoice_request r d =
    \<lparr>vq_contact = sq_contact r, vq_currency = pd_currency d, vq_discount = 0, vq_due = sq_due r,
     vq_lines = [\<lparr>li_booking = None, li_package = None, li_definition = Some (pd_id d), li_description = [],
       li_quantity = 1, li_unit = None, li_tax = 0, li_metadata = []\<rparr>],
     vq_key = sq_key r, vq_metadata = given_metadata r\<rparr>"

definition m_digest :: string where "m_digest = ''json: unsupported value''"

definition replay_sale :: "uuid \<Rightarrow> sale_request \<Rightarrow> string \<Rightarrow> package_row \<Rightarrow> (tables, invoice_row \<times> package_row) tx" where
  "replay_sale org r print p =
     (case cp_invoice p of
        None \<Rightarrow> fail (client_conflict m_operation_reuse)
      | Some i \<Rightarrow>
          and_then (reject (cp_contact p \<noteq> sq_contact r \<or> cp_definition p \<noteq> sq_definition r
            \<or> sale_mark (cp_metadata p) \<noteq> print) (client_conflict m_operation_reuse)) (\<lambda>_.
          and_then (first (invoice_of_contact org (sq_contact r) i)) (\<lambda>v. ret (v, p))))"

text \<open>
  The look-up after a lost race goes into the variable that holds the new invoice; GORM adds the identifier it finds
  there to the query.
\<close>

definition own_invoice :: "uuid \<Rightarrow> string \<Rightarrow> uuid \<Rightarrow> tables \<Rightarrow> invoice_row option" where
  "own_invoice org key i t =
     first_in (by_key iv_id) (filter (\<lambda>v. iv_org v = org \<and> iv_key v = key \<and> iv_id v = i \<and> \<not> iv_deleted v) (invoices t))"

definition write_sale_invoice ::
  "env \<Rightarrow> uuid \<Rightarrow> uuid \<Rightarrow> sale_request \<Rightarrow> string \<Rightarrow> invoice_row \<Rightarrow> line_row list \<Rightarrow> time \<Rightarrow> time \<Rightarrow> (tables, invoice_row) tx" where
  "write_sale_invoice x org user r print v ls now clock =
     and_then (execute (insert_invoice v)) (\<lambda>written.
     if \<not> written then
       and_then (first (own_invoice org (sq_key r) (iv_id v))) (\<lambda>w.
       and_then (reject (sale_mark (iv_metadata w) \<noteq> print) (client_conflict m_invoice_reuse)) (\<lambda>_. ret w))
     else
       and_then (execute (insert_lines ls)) (\<lambda>_.
       and_then (audit_change org user ''commerce_invoice'' (iv_id v) ''created'' None (Some (invoice_json x v ls))) (\<lambda>_.
       and_then (record_tx x org clock (invoice_activity x user v [(''workflow'', Str ''package_sale'')] now)) (\<lambda>_.
       ret v))))"

text \<open>A new invoice for the sale, of the request the server makes itself.\<close>

definition sale_invoice ::
  "env \<Rightarrow> uuid \<Rightarrow> uuid \<Rightarrow> sale_request \<Rightarrow> definition_row \<Rightarrow> string \<Rightarrow> string \<Rightarrow> (nat \<Rightarrow> time) \<Rightarrow> (tables, invoice_row) tx" where
  "sale_invoice x org user r d print inner clock =
     and_then (lift_res (as_client (validate_invoice (sale_invoice_request r d) (clock 0)))) (\<lambda>q.
     and_then (mint (fresh_uuid x)) (\<lambda>i.
     and_then (mint (fresh_uuid x)) (\<lambda>j.
     let md = AList.update ''idempotency_fingerprint'' (Str inner) (marked print (given_metadata r));
         v = new_invoice x i j org user (sq_contact r) (sq_key r) (pd_currency d) 0 (sq_due r) md (clock 1) in
     and_then (build_invoice_lines x org v (vq_lines q)) (\<lambda>(ls, tots).
     write_sale_invoice x org user r print (with_totals tots 0 (clock 1) v) ls (clock 1) (clock 2)))))"

definition find_sale_invoice ::
  "env \<Rightarrow> uuid \<Rightarrow> uuid \<Rightarrow> sale_request \<Rightarrow> definition_row \<Rightarrow> string \<Rightarrow> string \<Rightarrow> (nat \<Rightarrow> time) \<Rightarrow> (tables, bool \<times> invoice_row) tx" where
  "find_sale_invoice x org user r d print inner clock =
     and_then (lookup (first (invoice_with_key org (sq_key r)))) (\<lambda>found.
     case found of
       Some v \<Rightarrow>
         and_then (reject (sale_mark (iv_metadata v) \<noteq> print \<or> iv_contact v \<noteq> sq_contact r \<or> iv_currency v \<noteq> pd_currency d)
           (client_conflict m_invoice_reuse)) (\<lambda>_. ret (False, v))
     | None \<Rightarrow> and_then (sale_invoice x org user r d print inner clock) (\<lambda>v. ret (True, v)))"

text \<open>
  The metadata of the package. A map the request brought is the map of the invoice as well, so what a new
  invoice put into it is there.
\<close>

definition package_metadata :: "sale_request \<Rightarrow> string \<Rightarrow> string \<Rightarrow> bool \<Rightarrow> jsonb" where
  "package_metadata r print inner invoiced =
     (case sq_metadata r of
        None \<Rightarrow> marked print []
      | Some m \<Rightarrow> if invoiced then marked print (AList.update ''idempotency_fingerprint'' (Str inner) (marked print m))
          else marked print m)"

definition sold_package ::
  "uuid \<Rightarrow> uuid \<Rightarrow> uuid \<Rightarrow> sale_request \<Rightarrow> definition_row \<Rightarrow> invoice_row \<Rightarrow> jsonb \<Rightarrow> time \<Rightarrow> package_row" where
  "sold_package i org user r d v md now =
    \<lparr>cp_id = i, cp_org = org, cp_contact = sq_contact r, cp_definition = pd_id d, cp_invoice = Some (iv_id v),
     cp_status = (if iv_status v = s_paid then ''active'' else ''pending''), cp_starts = Some now,
     cp_expires = validity_end d now, cp_amount = pd_price d, cp_currency = pd_currency d, cp_source = ''staff_sale'',
     cp_key = sq_key r, cp_metadata = md, cp_version = 1, cp_created_by = Some user, cp_updated_by = Some user,
     cp_deleted = False\<rparr>"

definition sold_activity :: "env \<Rightarrow> uuid \<Rightarrow> definition_row \<Rightarrow> invoice_row \<Rightarrow> package_row \<Rightarrow> time \<Rightarrow> activity_input" where
  "sold_activity x user d v p now =
    \<lparr>in_contact = cp_contact p, in_lead = None, in_type = ''package.sold'', in_category = ''package'',
     in_title = ''Package sold'', in_summary = pd_name d, in_actor_type = ''user'', in_actor = Some user,
     in_source_type = ''contact_package'', in_source = Some (cp_id p), in_occurred = now,
     in_metadata = [(''package_definition_id'', Str (show_uuid x (pd_id d))), (''invoice_id'', Str (show_uuid x (iv_id v))),
       (''status'', Str (cp_status p)), (''currency'', Str (cp_currency p)), (''amount_minor'', Int64 (cp_amount p)),
       (''expires_at'', case cp_expires p of None \<Rightarrow> Null | Some e \<Rightarrow> Str (rfc3339_nano x e))],
     in_webhook = [], in_key = ''package-sold:'' @ show_uuid x (cp_id p)\<rparr>"

definition same_sale :: "sale_request \<Rightarrow> string \<Rightarrow> invoice_row \<Rightarrow> package_row \<Rightarrow> (tables, invoice_row \<times> package_row) tx" where
  "same_sale r print v p =
     and_then (reject (cp_contact p \<noteq> sq_contact r \<or> cp_definition p \<noteq> sq_definition r \<or> cp_invoice p \<noteq> Some (iv_id v)
       \<or> sale_mark (cp_metadata p) \<noteq> print) (client_conflict m_operation_reuse)) (\<lambda>_. ret (v, p))"

definition assign_package ::
  "env \<Rightarrow> uuid \<Rightarrow> uuid \<Rightarrow> sale_request \<Rightarrow> definition_row \<Rightarrow> string \<Rightarrow> invoice_row \<Rightarrow> jsonb \<Rightarrow> time \<Rightarrow> time \<Rightarrow>
     (tables, invoice_row \<times> package_row) tx" where
  "assign_package x org user r d print v md now clock =
     and_then (mint (fresh_uuid x)) (\<lambda>i.
     let p = sold_package i org user r d v md now in
     and_then (execute (insert_package p)) (\<lambda>written.
     if \<not> written then and_then (first (package_with_key org (sq_key r))) (same_sale r print v)
     else
       and_then (if cp_status p = ''active''
         then grant_credits x org p user now (''contact-package-sale:'' @ show_uuid x i) else ret ()) (\<lambda>_.
       and_then (audit_change org user ''contact_package'' i ''created'' None (Some (package_json x p))) (\<lambda>_.
       and_then (record_tx x org clock (sold_activity x user d v p now)) (\<lambda>_.
       ret (v, p))))))"

definition sale_body ::
  "env \<Rightarrow> uuid \<Rightarrow> uuid \<Rightarrow> sale_request \<Rightarrow> string \<Rightarrow> (nat \<Rightarrow> time) \<Rightarrow> (tables, invoice_row \<times> package_row) tx" where
  "sale_body x org user r print clock =
     and_then (or_fail (first (definition_by_id org (sq_definition r))) (ClientError bad_request m_definition_tenant)) (\<lambda>d.
     and_then (lookup (first (package_with_key org (sq_key r)))) (\<lambda>found.
     case found of
       Some p \<Rightarrow> replay_sale org r print p
     | None \<Rightarrow>
         and_then (reject (\<not> pd_active d) (ClientError bad_request m_active_package)) (\<lambda>_.
         and_then (ensure_contact org (sq_contact r)) (\<lambda>_.
         case invoice_fingerprint x (sale_invoice_request r d) of
           None \<Rightarrow> fail (OtherError m_digest)
         | Some inner \<Rightarrow>
             and_then (find_sale_invoice x org user r d print inner clock) (\<lambda>(invoiced, v).
             assign_package x org user r d print v (package_metadata r print inner invoiced) (clock 3) (clock 4))))))"

definition sell_contact_package ::
  "env \<Rightarrow> uuid \<Rightarrow> uuid \<Rightarrow> sale_request \<Rightarrow> (nat \<Rightarrow> time) \<Rightarrow> (tables, invoice_row \<times> package_row) tx" where
  "sell_contact_package x org user raw clock =
     and_then (lift_res (as_client (validate_sale raw))) (\<lambda>r.
     case sale_fingerprint x r of
       None \<Rightarrow> fail (ClientError bad_request m_sale_request)
     | Some print \<Rightarrow>
         and_then (transaction (sale_body x org user r print clock)) (\<lambda>(v, p).
         and_then (or_fail (and_then (first (invoice_by_id org (iv_id v))) (\<lambda>w. and_then preload (\<lambda>_. ret w)))
           (ClientError server_error m_load_invoice)) (\<lambda>v'.
         and_then (or_fail (load_package org (cp_id p) 3) (ClientError server_error m_load_package)) (\<lambda>p'.
         ret (v', p')))))"

end
