(* ===== verification/Triples.thy ===== *)
theory Triples
  imports Atomicity
begin

text \<open>
  Facts about the successful runs of an action: \<open>maintains I m\<close> says that they keep \<open>I\<close> of the tables. The
  rules follow the structure of the code, so that a handler's proof is a list of facts about its statements.
\<close>

definition maintains :: "('t \<Rightarrow> bool) \<Rightarrow> ('t, 'a) tx \<Rightarrow> bool" where
  "maintains I m \<longleftrightarrow> (\<forall>s a u. m s = (Inr a, u) \<longrightarrow> I (tabs s) \<longrightarrow> I (tabs u))"

named_theorems maintains_intros

lemma maintainsI: "(\<And>s a u. m s = (Inr a, u) \<Longrightarrow> I (tabs s) \<Longrightarrow> I (tabs u)) \<Longrightarrow> maintains I m"
  by (simp add: maintains_def)

lemma maintainsD: "maintains I m \<Longrightarrow> m s = (Inr a, u) \<Longrightarrow> I (tabs s) \<Longrightarrow> I (tabs u)"
  unfolding maintains_def by blast

lemma maintains_reads: "reads m \<Longrightarrow> maintains I m"
  by (rule maintainsI) (simp add: reads_Inr)

lemma maintains_and_then [maintains_intros]:
  "maintains I m \<Longrightarrow> (\<And>a. maintains I (f a)) \<Longrightarrow> maintains I (and_then m f)"
  unfolding maintains_def and_then_Inr by blast

lemma maintains_if [maintains_intros]: "maintains I m \<Longrightarrow> maintains I n \<Longrightarrow> maintains I (if c then m else n)"
  by simp

lemma maintains_option [maintains_intros]:
  "maintains I m \<Longrightarrow> (\<And>a. maintains I (f a)) \<Longrightarrow> maintains I (case v of None \<Rightarrow> m | Some a \<Rightarrow> f a)"
  by (cases v) simp_all

lemma maintains_prod [maintains_intros]: "(\<And>a b. maintains I (f a b)) \<Longrightarrow> maintains I (case v of (a, b) \<Rightarrow> f a b)"
  by (cases v) simp

lemma maintains_for_each [maintains_intros]: "(\<And>a. maintains I (f a)) \<Longrightarrow> maintains I (for_each xs f)"
  by (induction xs) (auto intro: maintains_intros maintains_reads reads_intros)

lemma maintains_execute:
  "(\<And>t a t'. f t = Inr (a, t') \<Longrightarrow> I t \<Longrightarrow> I t') \<Longrightarrow> maintains I (execute f)"
  by (rule maintainsI) (drule execute_Inr, blast)

lemma maintains_transaction [maintains_intros]: "maintains I m \<Longrightarrow> maintains I (transaction m)"
  unfolding maintains_def by (metis transaction_Inr)

lemma maintains_or_fail [maintains_intros]: "maintains I m \<Longrightarrow> maintains I (or_fail m e)"
  by (simp add: maintains_def or_fail_Inr)

lemma maintains_spares: "spares g m \<Longrightarrow> (\<And>t u. g t = g u \<Longrightarrow> I t \<Longrightarrow> I u) \<Longrightarrow> maintains I m"
  unfolding spares_def maintains_def by (metis snd_conv)

lemma keeps_maintains: "atomic m \<Longrightarrow> maintains I m \<Longrightarrow> keeps I m"
  by (rule keeps_atomic) (auto dest: maintainsD)

lemma keeps_maintains_transaction: "maintains I m \<Longrightarrow> keeps I (transaction m)"
  by (rule keeps_transaction) (auto dest: maintainsD)

lemma spares_for_all [spares_intros]: "(\<And>a. spares g (f a)) \<Longrightarrow> spares g (for_each xs f)"
  by (induction xs) (auto intro: spares_intros reads_intros)

lemma spares_case_option [spares_intros]:
  "spares g m \<Longrightarrow> (\<And>a. spares g (f a)) \<Longrightarrow> spares g (case v of None \<Rightarrow> m | Some a \<Rightarrow> f a)"
  by (cases v) simp_all

lemma spares_case_prod [spares_intros]: "(\<And>a b. spares g (f a b)) \<Longrightarrow> spares g (case v of (a, b) \<Rightarrow> f a b)"
  by (cases v) simp

lemma reads_case_prod [reads_intros]: "(\<And>a b. reads (f a b)) \<Longrightarrow> reads (case v of (a, b) \<Rightarrow> f a b)"
  by (cases v) simp

lemma reads_for_each [reads_intros]: "(\<And>a. reads (f a)) \<Longrightarrow> reads (for_each xs f)"
  by (induction xs) (auto intro: reads_intros)

lemma atomic_case_option [atomic_intros]:
  "atomic m \<Longrightarrow> (\<And>a. atomic (f a)) \<Longrightarrow> atomic (case v of None \<Rightarrow> m | Some a \<Rightarrow> f a)"
  by (cases v) simp_all

end
