(* ===== verification/MoneySafety.thy ===== *)
theory MoneySafety
  imports Sales Interfaces Triples
begin

text \<open>
  The arithmetic of invoices. Every invoice is the sum of its lines less its discount, what is paid is the
  sum of its payments, and it is paid exactly when nothing is due. \<open>money_ok\<close> is the invariant; here it
  is shown of creating an invoice and of writing a payment into one.
\<close>

section \<open>Totals of lines\<close>

definition sum_subtotals :: "line_row list \<Rightarrow> int" where "sum_subtotals ls = sum_list (map ln_subtotal ls)"
definition sum_taxes :: "line_row list \<Rightarrow> int" where "sum_taxes ls = sum_list (map ln_tax ls)"

text \<open>What a line is worth, without machine integers.\<close>

definition exact_line :: "line_row \<Rightarrow> bool" where
  "exact_line l \<longleftrightarrow> line_values l \<and> ln_total l \<le> max_i64 \<and> ln_quantity l \<le> 1000000"

definition exact_totals :: "totals \<Rightarrow> bool" where
  "exact_totals acc \<longleftrightarrow> (case acc of (subtotal, tax, amount) \<Rightarrow>
     0 \<le> subtotal \<and> 0 \<le> tax \<and> amount = subtotal + tax \<and> amount \<le> max_i64)"

lemma price_line_Inr:
  assumes "price_line n inp pr acc = Inr (sub, tot, acc')"
  shows "exact_line (new_line i org iv inp pr sub tot)
    \<and> fst acc' = fst acc + sub \<and> fst (snd acc') = fst (snd acc) + li_tax inp \<and> snd (snd acc') = snd (snd acc) + tot
    \<and> (exact_totals acc \<longrightarrow> exact_totals acc')"
proof -
  obtain q u d where pr: "pr = (q, u, d)" by (cases pr)
  obtain a b c where acc: "acc = (a, b, c)" by (cases acc)
  from assms obtain v1 v2 v3 v4 where q: "1 \<le> q" "q \<le> 1000000" "0 \<le> u" "safe_money_multiply u q = Some sub"
    "safe_money_add sub (li_tax inp) = Some tot" "safe_money_add a sub = Some v1" "safe_money_add b (li_tax inp) = Some v2"
    "safe_money_add c tot = Some v3" "acc' = (v1, v2, v3)"
    unfolding price_line_def pr acc by (auto simp: or_too_large_def split: if_splits option.splits)
  note M = safe_money_multiply_Some [OF q(4)] and A = safe_money_add_Some [OF q(5)] safe_money_add_Some [OF q(6)]
    safe_money_add_Some [OF q(7)] safe_money_add_Some [OF q(8)]
  show ?thesis
    using M A q(1-3) unfolding pr acc q(9)
    by (auto simp: exact_line_def line_values_def new_line_def exact_totals_def mult.commute)
qed

lemma build_lines_Inr:
  assumes "build_lines x org iv n acc inputs s = (Inr (ls, acc'), u)"
  shows "(\<forall>l\<in>set ls. exact_line l \<and> ln_org l = org \<and> ln_invoice l = iv_id iv \<and> \<not> ln_deleted l)
    \<and> fst acc' = fst acc + sum_subtotals ls \<and> fst (snd acc') = fst (snd acc) + sum_taxes ls
    \<and> (exact_totals acc \<longrightarrow> exact_totals acc') \<and> map ln_definition ls = map li_definition inputs"
  using assms
proof (induction inputs arbitrary: n acc ls acc' s)
  case Nil
  then show ?case by (simp add: ret_Inr sum_subtotals_def sum_taxes_def)
next
  case (Cons inp inps)
  then obtain pr s1 sub tot acc1 s2 i s3 ls' where
    p: "price_line n inp pr acc = Inr (sub, tot, acc1)" and
    r: "build_lines x org iv (Suc n) acc1 inps s3 = (Inr (ls', acc'), u)" and
    ls: "ls = new_line i org (iv_id iv) inp pr sub tot # ls'"
    by (auto simp: ok_simps split: prod.splits)
  note P = price_line_Inr [OF p, of i org "iv_id iv"] and R = Cons.IH [OF r]
  have l: "ln_org (new_line i org (iv_id iv) inp pr sub tot) = org"
    "ln_invoice (new_line i org (iv_id iv) inp pr sub tot) = iv_id iv" "ln_subtotal (new_line i org (iv_id iv) inp pr sub tot) = sub"
    "ln_tax (new_line i org (iv_id iv) inp pr sub tot) = li_tax inp" "\<not> ln_deleted (new_line i org (iv_id iv) inp pr sub tot)"
    "ln_definition (new_line i org (iv_id iv) inp pr sub tot) = li_definition inp"
    by (cases pr; simp add: new_line_def)+
  show ?case unfolding ls using P R l by (auto simp: sum_subtotals_def sum_taxes_def)
qed

lemma reads_resolve_line: "reads (resolve_line org contact currency n inp)"
  unfolding resolve_line_def booking_line_def package_line_def definition_line_def custom_line_def
  by (intro reads_intros)

lemma reads_build_lines: "reads (build_lines x org iv n acc inputs)"
  by (induction inputs arbitrary: n acc) (auto intro!: reads_intros reads_resolve_line)

lemma build_invoice_lines_Inr:
  assumes "build_invoice_lines x org iv inputs s = (Inr (ls, tots), u)"
  shows "tabs u = tabs s \<and> (\<forall>l\<in>set ls. exact_line l \<and> ln_org l = org \<and> ln_invoice l = iv_id iv \<and> \<not> ln_deleted l)
    \<and> tots = (sum_subtotals ls, sum_taxes ls, sum_subtotals ls + sum_taxes ls) \<and> exact_totals tots
    \<and> map ln_definition ls = map li_definition inputs"
proof -
  have e: "exact_totals (0, 0, 0)" by (simp add: exact_totals_def max_i64_def)
  note B = build_lines_Inr [OF assms [unfolded build_invoice_lines_def]]
  note B1 = B [THEN conjunct1] and B2 = B [THEN conjunct2, THEN conjunct1]
    and B3 = B [THEN conjunct2, THEN conjunct2, THEN conjunct1]
    and B4 = B [THEN conjunct2, THEN conjunct2, THEN conjunct2, THEN conjunct1]
    and B5 = B [THEN conjunct2, THEN conjunct2, THEN conjunct2, THEN conjunct2]
  have t: "exact_totals tots" using B4 e by (rule mp)
  have "tots = (sum_subtotals ls, sum_taxes ls, sum_subtotals ls + sum_taxes ls)"
    using B2 B3 t by (cases tots) (simp add: exact_totals_def)
  then show ?thesis
    using reads_Inr [OF reads_build_lines assms [unfolded build_invoice_lines_def]] t B1 B5 by blast
qed

section \<open>The invariant\<close>

type_synonym owed = "uuid \<times> uuid"

definition counts_payment :: "owed \<Rightarrow> payment_row \<Rightarrow> bool" where
  "counts_payment k p \<longleftrightarrow> pt_org p = fst k \<and> pt_invoice p = Some (snd k) \<and> pt_type p = ''charge'' \<and> pt_status p = ''succeeded''"

definition counts_line :: "owed \<Rightarrow> line_row \<Rightarrow> bool" where
  "counts_line k l \<longleftrightarrow> ln_org l = fst k \<and> ln_invoice l = snd k"

definition iv_key_of :: "invoice_row \<Rightarrow> owed" where
  "iv_key_of v = (iv_org v, iv_id v)"

definition collected :: "owed \<Rightarrow> tables \<Rightarrow> int" where
  "collected k t = sum_list (map pt_amount (filter (counts_payment k) (payments t)))"

definition line_subtotals :: "owed \<Rightarrow> tables \<Rightarrow> int" where
  "line_subtotals k t = sum_list (map ln_subtotal (filter (counts_line k) (lines t)))"

definition line_taxes :: "owed \<Rightarrow> tables \<Rightarrow> int" where
  "line_taxes k t = sum_list (map ln_tax (filter (counts_line k) (lines t)))"

interpretation money: metered payments "\<lambda>rs t. t\<lparr>payments := rs\<rparr>" pt_id counts_payment pt_amount
  by unfold_locales simp

interpretation subtotals: metered lines "\<lambda>rs t. t\<lparr>lines := rs\<rparr>" ln_id counts_line ln_subtotal
  by unfold_locales simp

interpretation taxes: metered lines "\<lambda>rs t. t\<lparr>lines := rs\<rparr>" ln_id counts_line ln_tax
  by unfold_locales simp

lemma collected_used: "collected = money.used"
  by (intro ext) (simp add: collected_def money.used_def)

lemma lines_used: "line_subtotals = subtotals.used" "line_taxes = taxes.used"
  by (intro ext, simp add: line_subtotals_def subtotals.used_def line_taxes_def taxes.used_def)+

definition settled :: "invoice_row \<Rightarrow> bool" where
  "settled v \<longleftrightarrow> (if iv_due v = 0 then iv_status v = s_paid \<and> iv_paid_at v \<noteq> None
     else iv_status v = s_open \<and> iv_paid_at v = None)"

definition invoice_ok :: "tables \<Rightarrow> invoice_row \<Rightarrow> bool" where
  "invoice_ok t v \<longleftrightarrow> invoice_values v \<and> iv_total v \<le> max_i64 \<and> settled v
     \<and> iv_subtotal v = line_subtotals (iv_key_of v) t \<and> iv_tax v = line_taxes (iv_key_of v) t
     \<and> iv_paid v = collected (iv_key_of v) t"

definition money_ok :: "tables \<Rightarrow> bool" where
  "money_ok t \<longleftrightarrow> distinct (map iv_id (invoices t))
     \<and> (\<forall>v\<in>set (invoices t). invoice_ok t v)
     \<and> (\<forall>l\<in>set (lines t). exact_line l \<and> (ln_org l, ln_invoice l) \<in> iv_key_of ` set (invoices t))
     \<and> (\<forall>p\<in>set (payments t). 0 < pt_amount p \<and> (\<exists>i. pt_invoice p = Some i \<and> (pt_org p, i) \<in> iv_key_of ` set (invoices t)))"

definition ledger_of_money :: "tables \<Rightarrow> invoice_row list \<times> line_row list \<times> payment_row list" where
  "ledger_of_money t = (invoices t, lines t, payments t)"

lemma money_ok_cong: "ledger_of_money t = ledger_of_money u \<Longrightarrow> money_ok t = money_ok u"
  by (simp add: ledger_of_money_def money_ok_def invoice_ok_def line_subtotals_def line_taxes_def collected_def)

section \<open>A new invoice\<close>

lemma money_ok_new_invoice:
  assumes ok: "money_ok t" and new: "\<forall>w\<in>set (invoices t). iv_id w \<noteq> iv_id v"
    and ls: "\<forall>l\<in>set ls. exact_line l \<and> ln_org l = iv_org v \<and> ln_invoice l = iv_id v"
    and v: "invoice_values v" "iv_total v \<le> max_i64" "settled v" "iv_paid v = 0"
      "iv_subtotal v = sum_subtotals ls" "iv_tax v = sum_taxes ls"
  shows "money_ok (t\<lparr>invoices := invoices t @ [v], lines := lines t @ ls\<rparr>)"
proof -
  let ?u = "t\<lparr>invoices := invoices t @ [v], lines := lines t @ ls\<rparr>"
  have keys: "iv_key_of w \<noteq> iv_key_of v" if "w \<in> set (invoices t)" for w using new that by (auto simp: iv_key_of_def)
  have mine: "filter (counts_line (iv_key_of v)) ls = ls" using ls by (auto simp: counts_line_def iv_key_of_def filter_id_conv)
  have others: "filter (counts_line k) ls = []" if "k \<noteq> iv_key_of v" for k
    using ls that by (auto simp: counts_line_def iv_key_of_def filter_empty_conv)
  have none: "filter (counts_line (iv_key_of v)) (lines t) = []"
    using ok keys unfolding money_ok_def filter_empty_conv by (force simp: counts_line_def iv_key_of_def)
  have unpaid: "collected (iv_key_of v) t = 0"
  proof -
    have "filter (counts_payment (iv_key_of v)) (payments t) = []"
      using ok keys unfolding money_ok_def filter_empty_conv by (force simp: counts_payment_def iv_key_of_def)
    then show ?thesis by (simp add: collected_def)
  qed
  have sums: "line_subtotals k ?u = line_subtotals k t + (if k = iv_key_of v then sum_subtotals ls else 0)"
    "line_taxes k ?u = line_taxes k t + (if k = iv_key_of v then sum_taxes ls else 0)" for k
    using mine others [of k] by (auto simp: line_subtotals_def line_taxes_def sum_subtotals_def sum_taxes_def)
  have old: "line_subtotals (iv_key_of v) t = 0" "line_taxes (iv_key_of v) t = 0"
    using none by (simp_all add: line_subtotals_def line_taxes_def)
  have coll: "collected k ?u = collected k t" for k by (simp add: collected_def)
  have "invoice_ok ?u w" if "w \<in> set (invoices ?u)" for w
  proof (cases "w = v")
    case True
    with v unpaid show ?thesis by (simp add: invoice_ok_def sums old coll)
  next
    case False
    with that have w: "w \<in> set (invoices t)" by simp
    then have "invoice_ok t w" using ok by (simp add: money_ok_def)
    with keys [OF w] show ?thesis by (simp add: invoice_ok_def sums coll)
  qed
  moreover have "distinct (map iv_id (invoices ?u))" using ok new by (auto simp: money_ok_def)
  moreover have "exact_line l \<and> (ln_org l, ln_invoice l) \<in> iv_key_of ` set (invoices ?u)" if "l \<in> set (lines ?u)" for l
    using that ok ls by (auto simp: money_ok_def iv_key_of_def)
  ultimately show ?thesis using ok by (auto simp: money_ok_def)
qed

section \<open>A payment\<close>

lemma money_ok_payment:
  assumes ok: "money_ok t" and v: "v \<in> set (invoices t)"
    and p: "pt_org p = iv_org v" "pt_invoice p = Some (iv_id v)" "pt_type p = ''charge''" "pt_status p = ''succeeded''"
      "0 < pt_amount p" "pt_amount p \<le> iv_due v"
    and w: "f v = w" "\<And>q. iv_id (f q) = iv_id q" "\<And>q. iv_org (f q) = iv_org q" "iv_subtotal w = iv_subtotal v" "iv_tax w = iv_tax v"
      "iv_total w = iv_total v" "iv_discount w = iv_discount v" "iv_paid w = iv_paid v + pt_amount p"
      "iv_due w = iv_due v - pt_amount p" "settled w"
    and hit: "\<And>q. q \<in> set (invoices t) \<Longrightarrow> c q \<longleftrightarrow> q = v"
  shows "money_ok (t\<lparr>payments := payments t @ [p], invoices := update_where c f (invoices t)\<rparr>)"
proof -
  let ?u = "t\<lparr>payments := payments t @ [p], invoices := update_where c f (invoices t)\<rparr>"
  have ids: "map iv_id (invoices ?u) = map iv_id (invoices t)" "map iv_key_of (invoices ?u) = map iv_key_of (invoices t)"
    by (simp_all add: map_update_where_same iv_key_of_def w(2,3))
  have keys: "iv_key_of ` set (invoices ?u) = iv_key_of ` set (invoices t)" using ids(2) by (metis set_map)
  have inj: "inj_on iv_id (set (invoices t))" using ok by (simp add: money_ok_def distinct_map)
  have coll: "collected k ?u = collected k t + (if k = iv_key_of v then pt_amount p else 0)" for k
    using p by (cases k) (auto simp: collected_def counts_payment_def iv_key_of_def)
  have same: "line_subtotals k ?u = line_subtotals k t" "line_taxes k ?u = line_taxes k t" for k
    by (simp_all add: line_subtotals_def line_taxes_def)
  have "invoice_ok ?u q" if "q \<in> set (invoices ?u)" for q
  proof -
    from that obtain r where r: "r \<in> set (invoices t)" "q = (if c r then f r else r)" by (auto simp: in_update_where)
    have okr: "invoice_ok t r" using ok r(1) by (simp add: money_ok_def)
    show ?thesis
    proof (cases "r = v")
      case True
      with r hit v w have q: "q = w" by simp
      have "iv_key_of w = iv_key_of v" using w(1-3) by (auto simp: iv_key_of_def)
      then show ?thesis
        using okr True p(5,6) w unfolding q invoice_ok_def coll same
        by (simp add: invoice_values_def)
    next
      case False
      with r hit have q: "q = r" by auto
      have "iv_id r \<noteq> iv_id v" using inj_onD [OF inj _ r(1) v] False by blast
      then have "iv_key_of r \<noteq> iv_key_of v" by (simp add: iv_key_of_def)
      with okr show ?thesis unfolding q invoice_ok_def coll same by simp
    qed
  qed
  moreover have "\<exists>i. pt_invoice q = Some i \<and> (pt_org q, i) \<in> iv_key_of ` set (invoices ?u)" if "q \<in> set (payments ?u)" for q
    using that ok p v unfolding keys by (auto simp: money_ok_def iv_key_of_def)
  moreover have "0 < pt_amount q" if "q \<in> set (payments ?u)" for q using that ok p by (auto simp: money_ok_def)
  ultimately show ?thesis
    using ok ids(1) unfolding money_ok_def keys by simp
qed

end
