(* ===== verification/ShopSafety.thy ===== *)
theory ShopSafety
  imports MoneySafety EventSafety BookingSystem
begin

text \<open>
  Packages follow payments: a package bought with an invoice is pending exactly while the invoice is open,
  and credits exist only for packages that are not pending. Shown of every commerce handler, together with
  the arithmetic of invoices and the soundness of the credit ledger.
\<close>

section \<open>The invariant\<close>

definition funded :: "tables \<Rightarrow> package_row \<Rightarrow> bool" where
  "funded t p \<longleftrightarrow> cp_status p \<in> {''pending'', ''active'', ''expired''} \<and> \<not> cp_deleted p
     \<and> (case cp_invoice p of
          None \<Rightarrow> cp_status p \<noteq> ''pending''
        | Some i \<Rightarrow> \<exists>v\<in>set (invoices t). iv_id v = i \<and> iv_org v = cp_org p \<and> (cp_status p = ''pending'' \<longleftrightarrow> iv_status v = s_open))"

definition credited :: "package_row list \<Rightarrow> balance_row \<Rightarrow> bool" where
  "credited ps b \<longleftrightarrow> (\<exists>p\<in>set ps. cp_id p = cb_package b \<and> cp_org p = cb_org b \<and> cp_status p \<noteq> ''pending'')"

definition packages_ok :: "tables \<Rightarrow> bool" where
  "packages_ok t \<longleftrightarrow> distinct (map cp_id (packages t)) \<and> (\<forall>p\<in>set (packages t). funded t p)
     \<and> (\<forall>b\<in>set (balances t). credited (packages t) b)"

lemma funded_cong: "invoices t = invoices u \<Longrightarrow> funded t = funded u"
  by (intro ext) (simp add: funded_def cong: option.case_cong)

text \<open>What the invariant of sales looks at.\<close>

definition shop_view ::
  "tables \<Rightarrow> invoice_row list \<times> line_row list \<times> payment_row list \<times> package_row list \<times> (uuid \<times> uuid \<times> uuid) list" where
  "shop_view t = (invoices t, lines t, payments t, packages t, map balance_key (balances t))"

lemma packages_ok_cong:
  assumes "shop_view t = shop_view u"
  shows "packages_ok t = packages_ok u"
proof -
  have eq: "invoices t = invoices u" "packages t = packages u" "map balance_key (balances t) = map balance_key (balances u)"
    using assms by (simp_all add: shop_view_def)
  have keys: "(\<forall>b\<in>set (balances t). credited ps b) \<longleftrightarrow> (\<forall>k\<in>set (map balance_key (balances t)).
      \<exists>p\<in>set ps. cp_id p = fst (snd k) \<and> cp_org p = fst k \<and> cp_status p \<noteq> ''pending'')" for ps and t :: tables
    by (simp add: credited_def balance_key_def)
  show ?thesis unfolding packages_ok_def keys eq funded_cong [OF eq(1)] ..
qed

lemma money_ok_view: "shop_view t = shop_view u \<Longrightarrow> money_ok t = money_ok u"
  by (rule money_ok_cong) (simp add: shop_view_def ledger_of_money_def)

definition calendar_of :: "tables \<Rightarrow> event_row list \<times> booking_row list \<times> time_off_row list" where
  "calendar_of t = (events t, bookings t, time_offs t)"

definition shop_ok :: "tables \<Rightarrow> bool" where
  "shop_ok t \<longleftrightarrow> safe t \<and> money_ok t \<and> packages_ok t"

lemma shop_ok_cong: "guarded t = guarded u \<Longrightarrow> shop_view t = shop_view u \<Longrightarrow> shop_ok t = shop_ok u"
  using safe_cong money_ok_view packages_ok_cong unfolding shop_ok_def by metis

text \<open>A change beside the calendar that keeps the ledger sound keeps the booking invariant.\<close>

lemma safe_beside:
  assumes "safe t" and "calendar_of u = calendar_of t" and "credits_ok t \<Longrightarrow> credits_ok u"
  shows "safe u"
  using assms booking_ok_cong [of u t] schedule_ok_cong [of u t] by (simp add: safe_def calendar_of_def)

section \<open>Granting credits\<close>

lemma schedule_calendar: "schedule u = schedule t \<Longrightarrow> calendar_of u = calendar_of t"
  using schedule_eqD [of u t] by (simp add: calendar_of_def)

lemma grant_balances:
  assumes "grant_credits x org p user now pre s = (Inr (), u)"
  shows "\<forall>b\<in>set (balances (tabs u)). b \<in> set (balances (tabs s)) \<or> cb_package b = cp_id p \<and> cb_org b = org"
proof -
  let ?I = "\<lambda>t. \<forall>b\<in>set (balances t). b \<in> set (balances (tabs s)) \<or> cb_package b = cp_id p \<and> cb_org b = org"
  have b: "maintains ?I (execute (insert_balance (new_balance i org p e)))" for i e
    by (rule maintains_execute) (auto simp: insert_balance_def new_balance_def Let_def split: if_splits)
  have l: "maintains ?I (execute (insert_ledger r))" for r
    by (rule maintains_execute) (auto simp: insert_ledger_def split: if_splits)
  have "maintains ?I (grant_credits x org p user now pre)"
    unfolding grant_credits_def grant_entitlement_def
    by (intro maintains_intros b l maintains_reads reads_intros)
  from maintainsD [OF this assms] show ?thesis by simp
qed

text \<open>What a grant leaves: the tables but for balances, ledger, timeline and log, and a sound ledger.\<close>

lemma grant_effect:
  assumes "grant_credits x org p user now pre s = (Inr (), u)"
  shows "schedule (tabs u) = schedule (tabs s)" "credits_ok (tabs s) \<Longrightarrow> credits_ok (tabs u)"
  using sparesD [OF grant_spares assms] grant_credits_ok [OF assms] by simp_all

lemma grant_credited:
  assumes "grant_credits x org p user now pre s = (Inr (), u)" and "\<forall>b\<in>set (balances (tabs s)). credited ps b"
    and "q \<in> set ps" "cp_id q = cp_id p" "cp_org q = org" "cp_status q \<noteq> ''pending''"
  shows "\<forall>b\<in>set (balances (tabs u)). credited ps b"
proof
  fix b assume "b \<in> set (balances (tabs u))"
  with grant_balances [OF assms(1)] consider "b \<in> set (balances (tabs s))" | "cb_package b = cp_id p" "cb_org b = org" by blast
  then show "credited ps b"
    using assms(2-6) unfolding credited_def by cases (blast, metis)
qed

section \<open>Activating the packages of a paid invoice\<close>

definition paid_invoice :: "tables \<Rightarrow> uuid \<Rightarrow> uuid \<Rightarrow> bool" where
  "paid_invoice t org i \<longleftrightarrow> (\<exists>v\<in>set (invoices t). iv_id v = i \<and> iv_org v = org \<and> iv_status v = s_paid)"

definition activating :: "uuid \<Rightarrow> uuid \<Rightarrow> package_row list \<Rightarrow> tables \<Rightarrow> bool" where
  "activating org i ps t \<longleftrightarrow> distinct (map cp_id (packages t)) \<and> set ps \<subseteq> set (packages t) \<and> distinct (map cp_id ps)
     \<and> (\<forall>p\<in>set ps. cp_org p = org \<and> cp_invoice p = Some i \<and> cp_status p = ''pending'' \<and> \<not> cp_deleted p)
     \<and> (\<forall>p\<in>set (packages t). p \<in> set ps \<or> funded t p) \<and> (\<forall>b\<in>set (balances t). credited (packages t) b)
     \<and> paid_invoice t org i"

lemma activate_package_effect:
  assumes "activate_package x org user payment now old s = (Inr (), u)" and act: "activating org i (old # ps) (tabs s)"
  shows "activating org i ps (tabs u) \<and> ledger_of_money (tabs u) = ledger_of_money (tabs s)
    \<and> calendar_of (tabs u) = calendar_of (tabs s) \<and> (credits_ok (tabs s) \<longrightarrow> credits_ok (tabs u))"
proof -
  let ?t = "tabs s" and ?p = "activated user now old"
  let ?c = "\<lambda>r. cp_id r = cp_id ?p \<and> cp_org r = org \<and> cp_status r = ''pending'' \<and> cp_version r = cp_version ?p - 1 \<and> \<not> cp_deleted r"
  let ?g = "\<lambda>r. r\<lparr>cp_status := cp_status ?p, cp_starts := cp_starts ?p, cp_updated_by := Some user, cp_version := cp_version ?p\<rparr>"
  let ?rows = "update_where ?c ?g (packages ?t)"
  from assms(1) obtain s1 s2 where
    1: "execute (activate_package_row org user ?p) s = (Inr 1, s1)" and
    2: "grant_credits x org ?p user now (''contact-package-payment:'' @ show_uuid x payment) s1 = (Inr (), s2)" and
    3: "audit_change org user ''contact_package'' (cp_id ?p) ''updated'' (Some (package_json x old)) (Some (package_json x ?p)) s2 = (Inr (), u)"
    unfolding activate_package_def Let_def by (auto simp: ok_simps)
  have t1: "tabs s1 = ?t\<lparr>packages := ?rows\<rparr>"
    using execute_Inr [OF 1] by (auto simp: activate_package_row_def Let_def split: if_splits)
  have old: "old \<in> set (packages ?t)" "cp_org old = org" "cp_invoice old = Some i" "cp_status old = ''pending''" "\<not> cp_deleted old"
    and dist: "distinct (map cp_id (packages ?t))" and rest: "set ps \<subseteq> set (packages ?t)" "cp_id old \<notin> cp_id ` set ps"
    using act by (auto simp: activating_def)
  have inj: "inj_on cp_id (set (packages ?t))" using dist by (simp add: distinct_map)
  have hit: "?c r \<longleftrightarrow> r = old" if "r \<in> set (packages ?t)" for r
    using inj_onD [OF inj _ that old(1)] old by (auto simp: activated_def)
  have rows: "?rows = map (\<lambda>r. if r = old then ?g r else r) (packages ?t)"
    unfolding update_where_def using hit by (intro map_cong) auto
  have in_rows: "r \<in> set ?rows \<longleftrightarrow> r = ?g old \<or> r \<in> set (packages ?t) \<and> r \<noteq> old" for r
    unfolding rows using old(1) by auto
  have g: "cp_id (?g r) = cp_id r" "cp_org (?g r) = cp_org r" "cp_invoice (?g r) = cp_invoice r" "cp_status (?g r) = ''active''"
    "cp_deleted (?g r) = cp_deleted r" for r by (simp_all add: activated_def)
  have inv: "invoices (tabs s1) = invoices ?t" "balances (tabs s1) = balances ?t" unfolding t1 by simp_all
  have paid: "paid_invoice ?t org i" using act by (simp add: activating_def)
  have new: "funded (tabs s1) (?g old)"
    using paid old g(2) unfolding funded_def paid_invoice_def inv
    by (auto simp: activated_def)
  note G = grant_effect [OF 2] and D = schedule_eqD [OF grant_effect(1) [OF 2]]
  have bal1: "\<forall>b\<in>set (balances (tabs s1)). credited ?rows b"
  proof
    fix b assume "b \<in> set (balances (tabs s1))"
    then have "credited (packages ?t) b" using act inv by (simp add: activating_def)
    then obtain r where r: "r \<in> set (packages ?t)" "cp_id r = cb_package b" "cp_org r = cb_org b" "cp_status r \<noteq> ''pending''"
      by (auto simp: credited_def)
    with old(4) have "r \<in> set ?rows" unfolding in_rows by auto
    with r show "credited ?rows b" by (auto simp: credited_def)
  qed
  have g_in: "?g old \<in> set ?rows" unfolding in_rows by blast
  have bal2: "\<forall>b\<in>set (balances (tabs s2)). credited ?rows b"
    by (rule grant_credited [OF 2 bal1 g_in]) (simp_all add: old activated_def)
  have side: "business (tabs u) = business (tabs s2)" by (rule side_Inr [OF audit_change_side 3])
  note B = business_credits [OF side] and E = schedule_eqD [OF business_schedule [OF side]]
  have p2: "packages (tabs u) = ?rows" using E D t1 by simp
  have i2: "invoices (tabs u) = invoices ?t" "lines (tabs u) = lines ?t" "payments (tabs u) = payments ?t" using E D t1 by simp_all
  have ids: "map cp_id ?rows = map cp_id (packages ?t)" by (rule map_update_where_same) simp
  have "funded (tabs u) r" if "r \<in> set ?rows" "r \<notin> set ps" for r
  proof -
    from that(1) consider "r = ?g old" | "r \<in> set (packages ?t)" "r \<noteq> old" unfolding in_rows by blast
    then show ?thesis
    proof cases
      case 1
      with new show ?thesis using funded_cong [of "tabs u" "tabs s1"] i2(1) inv(1) by simp
    next
      case 2
      with act that(2) have "funded ?t r" by (auto simp: activating_def)
      then show ?thesis using funded_cong [of "tabs u" ?t] i2(1) by simp
    qed
  qed
  moreover have "set ps \<subseteq> set ?rows"
  proof
    fix r assume "r \<in> set ps"
    with rest have "r \<in> set (packages ?t)" "r \<noteq> old" by auto
    then show "r \<in> set ?rows" unfolding in_rows by blast
  qed
  moreover have "\<forall>b\<in>set (balances (tabs u)). credited (packages (tabs u)) b" using bal2 B(1) p2 by simp
  ultimately have "activating org i ps (tabs u)"
    using act ids dist paid unfolding activating_def p2 by (auto simp: paid_invoice_def i2)
  moreover have "calendar_of (tabs u) = calendar_of ?t" using E D t1 by (simp add: calendar_of_def)
  moreover have "credits_ok ?t \<longrightarrow> credits_ok (tabs u)"
    using B(3) G(2) credits_ok_cong [of "tabs s1" ?t] t1 by simp
  ultimately show ?thesis using i2 by (simp add: ledger_of_money_def)
qed

lemma activate_all_effect:
  assumes "for_each ps (activate_package x org user payment now) s = (Inr (), u)" and "activating org i ps (tabs s)"
  shows "activating org i [] (tabs u) \<and> ledger_of_money (tabs u) = ledger_of_money (tabs s)
    \<and> calendar_of (tabs u) = calendar_of (tabs s) \<and> (credits_ok (tabs s) \<longrightarrow> credits_ok (tabs u))"
  using assms
proof (induction ps arbitrary: s)
  case Nil
  then show ?case by (simp add: ret_Inr)
next
  case (Cons p ps)
  then obtain s1 where 1: "activate_package x org user payment now p s = (Inr (), s1)"
    and 2: "for_each ps (activate_package x org user payment now) s1 = (Inr (), u)"
    by (auto simp: and_then_Inr)
  note A = activate_package_effect [OF 1 Cons.prems(2)]
  from Cons.IH [OF 2] A show ?case by simp
qed

end
