(* ===== verification/Retirement.thy ===== *)
theory Retirement
  imports Catalogue
begin

text \<open>
  Deleting a service or a resource: \<open>deleteBookingDefinition\<close> and \<open>ensureBookingDefinitionUnused\<close> of
  \<^verbatim>\<open>internal/handlers/product_booking_commerce.go\<close>. The changes of an audit row are the JSON the audit log
  stored.
\<close>

definition m_confirm_delete :: string where
  "m_confirm_delete = ''version must be at least 1 and confirm_delete must be true''"
definition m_missing :: "string \<Rightarrow> string" where "m_missing label = label @ '' not found''"
definition m_modified :: "string \<Rightarrow> string" where "m_modified label = label @ '' was modified; refresh and retry''"
definition m_deactivate :: "string \<Rightarrow> string" where "m_deactivate label = ''Deactivate this '' @ label @ '' before deleting it''"
definition m_dependencies :: string where
  "m_dependencies = ''This definition has booking/schedule history or remaining dependencies; keep it deactivated''"
definition m_unverified :: string where
  "m_unverified = ''Business history cannot be verified; keep this definition deactivated''"
definition m_schedule_history :: string where
  "m_schedule_history = ''This definition has retained schedule history; keep it deactivated''"
definition m_unverified_purchase :: string where
  "m_unverified_purchase = ''Purchase history cannot be verified; keep this definition deactivated''"
definition m_purchase_history :: string where
  "m_purchase_history = ''This definition has retained purchase history; keep it deactivated''"

section \<open>Remaining dependencies\<close>

text \<open>The counts are unscoped: soft-deleted rows count.\<close>

definition dependencies :: "uuid \<Rightarrow> uuid \<Rightarrow> bool \<Rightarrow> (tables \<Rightarrow> nat) list" where
  "dependencies org i service =
     (if service then
        [\<lambda>t. length (filter (\<lambda>e. ev_org e = org \<and> ev_service e = i) (events t)),
         \<lambda>t. length (filter (\<lambda>l. sr_org l = org \<and> sr_service l = i) (service_resources t)),
         \<lambda>t. length (filter (\<lambda>e. en_org e = org \<and> en_service e = i) (entitlements t))]
      else
        [\<lambda>t. length (filter (\<lambda>e. ev_org e = org \<and> ev_resource e = i) (events t)),
         \<lambda>t. length (filter (\<lambda>l. sr_org l = org \<and> sr_resource l = i) (service_resources t)),
         \<lambda>t. length (filter (\<lambda>r. ar_org r = org \<and> ar_resource r = i) (rules t)),
         \<lambda>t. length (filter (\<lambda>r. to_org r = org \<and> to_resource r = i) (time_offs t))])"

section \<open>Retained history\<close>

definition change_field :: "jsonb \<Rightarrow> string option" where
  "change_field c = (case map_of c ''field'' of Some (Str n) \<Rightarrow> if n = [] then None else Some n | _ \<Rightarrow> None)"

definition change_value :: "jsonb \<Rightarrow> string \<Rightarrow> any" where
  "change_value c k = (case map_of c k of None \<Rightarrow> Null | Some v \<Rightarrow> v)"

text \<open>A string that is a UUID and not the nil one.\<close>

definition uuid_value :: "env \<Rightarrow> any \<Rightarrow> uuid option" where
  "uuid_value x v = (case v of
     Str raw \<Rightarrow> (case parse_uuid x raw of Some i \<Rightarrow> if i = nil_uuid then None else Some i | None \<Rightarrow> None)
   | _ \<Rightarrow> None)"

definition check_schedule_value :: "env \<Rightarrow> uuid \<Rightarrow> any \<Rightarrow> (tables, unit) tx" where
  "check_schedule_value x i v =
     (if v = Null then ret ()
      else (case uuid_value x v of
        None \<Rightarrow> fail (client_conflict m_unverified)
      | Some p \<Rightarrow> reject (p = i) (client_conflict m_schedule_history)))"

definition check_purchases :: "uuid \<Rightarrow> uuid \<Rightarrow> (tables, unit) tx" where
  "check_purchases org def =
     and_then (query (\<lambda>t. length (filter (\<lambda>p. cp_org p = org \<and> cp_definition p = def) (packages t)))) (\<lambda>n.
     and_then (reject (n \<noteq> 0) (client_conflict m_purchase_history)) (\<lambda>_.
     and_then (query (\<lambda>t. length (filter (\<lambda>l. ln_org l = org \<and> ln_definition l = Some def) (lines t)))) (\<lambda>m.
     reject (m \<noteq> 0) (client_conflict m_purchase_history))))"

definition check_entry :: "env \<Rightarrow> uuid \<Rightarrow> uuid \<Rightarrow> uuid \<Rightarrow> any \<Rightarrow> (tables, unit) tx" where
  "check_entry x org i def entry =
     (case entry of
        Object e \<Rightarrow>
          (case uuid_value x (change_value e ''booking_service_id'') of
             None \<Rightarrow> fail (client_conflict m_unverified_purchase)
           | Some p \<Rightarrow> if p \<noteq> i then ret () else check_purchases org def)
      | _ \<Rightarrow> fail (client_conflict m_unverified_purchase))"

definition check_entries :: "env \<Rightarrow> uuid \<Rightarrow> uuid \<Rightarrow> uuid \<Rightarrow> any \<Rightarrow> (tables, unit) tx" where
  "check_entries x org i def v =
     (if v = Null then ret ()
      else (case v of
        Array es \<Rightarrow> for_each es (check_entry x org i def)
      | _ \<Rightarrow> fail (client_conflict m_unverified_purchase)))"

definition check_change :: "env \<Rightarrow> uuid \<Rightarrow> uuid \<Rightarrow> bool \<Rightarrow> audit_row \<Rightarrow> jsonb \<Rightarrow> (tables, unit) tx" where
  "check_change x org i service row c =
     and_then (reject (change_field c = None) (client_conflict m_unverified)) (\<lambda>_.
     and_then (if au_type row = ''booking_event'' \<and> change_field c = Some (if service then ''service_id'' else ''resource_id'')
       then for_each [change_value c ''old_value'', change_value c ''new_value''] (check_schedule_value x i) else ret ()) (\<lambda>_.
     if service \<and> au_type row = ''package_definition'' \<and> change_field c = Some ''entitlements''
     then for_each [change_value c ''old_value'', change_value c ''new_value''] (check_entries x org i (au_resource row))
     else ret ()))"

definition check_log :: "env \<Rightarrow> uuid \<Rightarrow> uuid \<Rightarrow> bool \<Rightarrow> audit_row \<Rightarrow> (tables, unit) tx" where
  "check_log x org i service row =
     and_then (reject (au_changes row = []) (client_conflict m_unverified)) (\<lambda>_.
     for_each (au_changes row) (check_change x org i service row))"

definition history :: "uuid \<Rightarrow> bool \<Rightarrow> tables \<Rightarrow> audit_row list" where
  "history org service t =
     filter (\<lambda>l. au_org l = org \<and> (au_type l = ''booking_event'' \<or> service \<and> au_type l = ''package_definition'')) (audits t)"

definition ensure_unused :: "env \<Rightarrow> uuid \<Rightarrow> uuid \<Rightarrow> bool \<Rightarrow> (tables, unit) tx" where
  "ensure_unused x org i service =
     and_then (for_each (dependencies org i service) (\<lambda>count.
       and_then (query count) (\<lambda>n. reject (n \<noteq> 0) (client_conflict m_dependencies)))) (\<lambda>_.
     and_then (query (history org service)) (\<lambda>logs.
     for_each logs (check_log x org i service)))"

section \<open>The tombstone\<close>

definition delete_service_row :: "uuid \<Rightarrow> uuid \<Rightarrow> uuid \<Rightarrow> int \<Rightarrow> tables \<Rightarrow> err + nat \<times> tables" where
  "delete_service_row org user i v t =
     (let p = (\<lambda>r. sv_id r = i \<and> sv_org r = org \<and> sv_version r = v \<and> \<not> sv_active r \<and> \<not> sv_deleted r) in
      Inr (rows_affected p (services t), t\<lparr>services := update_where p
        (\<lambda>r. r\<lparr>sv_deleted := True, sv_updated_by := Some user, sv_version := sv_version r + 1\<rparr>) (services t)\<rparr>))"

definition delete_resource_row :: "uuid \<Rightarrow> uuid \<Rightarrow> uuid \<Rightarrow> int \<Rightarrow> tables \<Rightarrow> err + nat \<times> tables" where
  "delete_resource_row org user i v t =
     (let p = (\<lambda>r. rs_id r = i \<and> rs_org r = org \<and> rs_version r = v \<and> \<not> rs_active r \<and> \<not> rs_deleted r) in
      Inr (rows_affected p (resources t), t\<lparr>resources := update_where p
        (\<lambda>r. r\<lparr>rs_deleted := True, rs_updated_by := Some user, rs_version := rs_version r + 1\<rparr>) (resources t)\<rparr>))"

text \<open>Active mark, version and JSON map of the locked row.\<close>

definition load_definition :: "env \<Rightarrow> uuid \<Rightarrow> uuid \<Rightarrow> bool \<Rightarrow> (tables, bool \<times> int \<times> jsonb) tx" where
  "load_definition x org i service =
     (if service then and_then (first (service_by_id org i)) (\<lambda>r. ret (sv_active r, sv_version r, service_json x r))
      else and_then (first (resource_by_id org i)) (\<lambda>r. ret (rs_active r, rs_version r, resource_json x r)))"

definition delete_definition :: "env \<Rightarrow> uuid \<Rightarrow> uuid \<Rightarrow> uuid \<Rightarrow> bool \<Rightarrow> delete_request \<Rightarrow> (tables, int) tx" where
  "delete_definition x org user i service r =
     (let label = (if service then ''booking service'' else ''booking resource'') in
      and_then (reject (dq_version r < 1 \<or> \<not> dq_confirm r) (ClientError bad_request m_confirm_delete)) (\<lambda>_.
      transaction
        (and_then (or_not_found (load_definition x org i service) (ClientError not_found (m_missing label))) (\<lambda>(active, version, json).
         and_then (reject (version \<noteq> dq_version r) (client_conflict (m_modified label))) (\<lambda>_.
         and_then (reject active (client_conflict (m_deactivate label))) (\<lambda>_.
         and_then (ensure_unused x org i service) (\<lambda>_.
         and_then (if service then execute (delete_service_row org user i (dq_version r))
           else execute (delete_resource_row org user i (dq_version r))) (\<lambda>n.
         and_then (reject (n \<noteq> 1) (client_conflict (m_modified label))) (\<lambda>_.
         and_then (audit_change org user (if service then ''booking_service'' else ''booking_resource'') i ''deleted'' (Some json) None) (\<lambda>_.
         ret (wrap64 (dq_version r + 1))))))))))))"

end
