(* ===== verification/ShopHandlers.thy ===== *)
theory ShopHandlers
  imports ShopSafety Retirement
begin

text \<open>
  Every commerce handler keeps the invariant of \<open>ShopSafety\<close>: creating an invoice or a payment intent,
  recording a payment, granting and selling a package, and the catalogue, which touches none of its tables.
\<close>

section \<open>Lookups\<close>

lemma lookup_Some: "lookup m s = (Inr (Some r), u) \<longleftrightarrow> m s = (Inr r, u)"
  by (auto simp: lookup_def split: prod.splits sum.splits if_splits)

lemma reads_lookup [reads_intros]: "reads m \<Longrightarrow> reads (lookup m)"
  unfolding reads_def lookup_def by (auto split: prod.split sum.split) (metis snd_conv)+

lemma or_duplicate_Inr: "or_duplicate m e s = (Inr a, u) \<longleftrightarrow> m s = (Inr a, u)"
  by (auto simp: or_duplicate_def split: prod.splits sum.splits)

lemma reads_preload [reads_intros]: "reads preload"
  unfolding preload_def by (rule reads_query)

lemma side_views:
  assumes "side m" and "m s = (r, u)"
  shows "guarded (tabs u) = guarded (tabs s)" "shop_view (tabs u) = shop_view (tabs s)"
proof -
  have b: "business (tabs u) = business (tabs s)" using assms unfolding side_def by (metis snd_conv)
  show "guarded (tabs u) = guarded (tabs s)" by (rule business_guarded [OF b])
  show "shop_view (tabs u) = shop_view (tabs s)"
    using business_credits [OF b] schedule_eqD [OF business_schedule [OF b]] by (simp add: shop_view_def)
qed

text \<open>What neither the calendar nor sales look at.\<close>

definition views :: "tables \<Rightarrow> (event_row list \<times> booking_row list \<times> time_off_row list \<times> balance_row list \<times> ledger_row list)
    \<times> (invoice_row list \<times> line_row list \<times> payment_row list \<times> package_row list \<times> (uuid \<times> uuid \<times> uuid) list)" where
  "views t = (guarded t, shop_view t)"

lemma views_cong: "views t = views u \<Longrightarrow> shop_ok t = shop_ok u"
  by (rule shop_ok_cong) (simp_all add: views_def)

lemma views_parts:
  assumes "views u = views t"
  shows "invoices u = invoices t" "lines u = lines t" "payments u = payments t" "packages u = packages t"
    "events u = events t" "bookings u = bookings t" "time_offs u = time_offs t" "balances u = balances t" "ledger u = ledger t"
  using assms by (simp_all add: views_def guarded_def shop_view_def)

lemma spares_side [spares_intros]:
  "spares views (audit_change org user rtype rid action old new)" "spares views (record_tx x org now inp)"
  using side_views [OF audit_change_side] side_views [OF record_tx_side]
  by (auto simp: spares_def views_def) (metis prod.collapse)+

lemma views_update:
  "views (t\<lparr>services := a\<rparr>) = views t" "views (t\<lparr>resources := b\<rparr>) = views t" "views (t\<lparr>service_resources := c\<rparr>) = views t"
  "views (t\<lparr>definitions := d\<rparr>) = views t" "views (t\<lparr>entitlements := e\<rparr>) = views t" "views (t\<lparr>accounts := f\<rparr>) = views t"
  "views (t\<lparr>intents := g\<rparr>) = views t"
  by (simp_all add: views_def guarded_def shop_view_def)

section \<open>The catalogue\<close>

lemma catalogue_statements [spares_intros]:
  "spares views (execute (insert_service sv))" "spares views (execute (set_service_inactive org i))"
  "spares views (execute (insert_links ls))" "spares views (execute (delete_links org i))"
  "spares views (execute (replace_service org i v d))" "spares views (execute (insert_resource rs))"
  "spares views (execute (set_resource_inactive org i))" "spares views (execute (replace_resource org i v e))"
  "spares views (execute (delete_service_row org user i v))" "spares views (execute (delete_resource_row org user i v))"
  "spares views (execute (insert_definition pd))" "spares views (execute (insert_entitlements es))"
  "spares views (execute (delete_entitlements org i))" "spares views (execute (replace_definition org i v k))"
  "spares views (execute (insert_account x a))"
  "spares views (execute (insert_intent p))"
  by (rule spares_execute;
      auto simp: insert_service_def set_service_inactive_def insert_links_def delete_links_def replace_service_def
        insert_resource_def set_resource_inactive_def replace_resource_def delete_service_row_def delete_resource_row_def
        insert_definition_def insert_entitlements_def delete_entitlements_def replace_definition_def insert_account_def
        insert_intent_def Let_def views_update split: if_splits)+

lemma reads_checks [reads_intros]:
  "reads (validate_resource_ids org ids)" "reads (ensure_unique_name x rows org name ex label)"
  "reads (ensure_member_option org u)" "reads (ensure_contact org c)" "reads (validate_entitlement_references org es)"
  "reads (check_unpurchased org i es)"
  unfolding validate_resource_ids_def ensure_unique_name_def ensure_member_option_def ensure_member_def ensure_contact_def
    validate_entitlement_references_def check_unpurchased_def
  by (intro reads_intros)+

lemma reads_ensure_unused [reads_intros]: "reads (ensure_unused x org i service)"
  unfolding ensure_unused_def check_log_def check_change_def check_schedule_value_def check_entries_def check_entry_def
    check_purchases_def
  by (auto intro!: reads_intros split: any.split)

lemma reads_mint_links [reads_intros]: "reads (mint_links x org service ids)"
  by (induction ids) (auto intro!: reads_intros)

lemma reads_entitlements [reads_intros]: "reads (entitlements_from_input x org i created es)"
  by (induction es) (auto intro!: reads_intros)

lemma reads_load_definition [reads_intros]: "reads (load_definition x org i service)"
  unfolding load_definition_def by (intro reads_intros)

lemma catalogue_spares:
  "spares views (create_service x org user svr)" "spares views (update_service x org user i svr)"
  "spares views (create_resource x org user rsr)" "spares views (update_resource x org user i rsr)"
  "spares views (delete_definition x org user i service dr)"
  "spares views (create_package x org user kr created)" "spares views (update_package x org user i retire kr created)"
  unfolding create_service_def update_service_def create_resource_def update_resource_def delete_definition_def
    create_package_def update_package_def keep_service_inactive_def keep_resource_inactive_def
    replace_service_resources_def replace_entitlements_def Let_def
  by (intro spares_intros reads_intros)+

lemma reads_or_same [reads_intros]:
  "reads (same_intent i r p)" "reads (same_invoice print v)" "reads (same_purchase gr q)" "reads (same_sale sr print v q)"
  "reads (replay_payment i yr pay)" "reads (load_invoice_by_key org key)" "reads (check_payable yr v)"
  unfolding same_intent_def same_invoice_def same_purchase_def same_sale_def replay_payment_def load_invoice_by_key_def
    check_payable_def
  by (intro reads_intros)+

lemma intent_spares: "spares views (create_payment_intent x org user i r now)"
  unfolding create_payment_intent_def intent_body_def Let_def
  by (intro spares_intros reads_intros)

lemma manual_account_spares: "spares views (resolve_manual_account x org user requested)"
  unfolding resolve_manual_account_def Let_def
  by (intro spares_intros reads_intros)

section \<open>Creating an invoice\<close>

lemma with_totals_ok:
  assumes "exact_totals tots" and "0 \<le> d" "d \<le> fst tots"
    and "iv_paid v = 0" "iv_discount v = d" "iv_status v = s_open" "iv_paid_at v = None"
  shows "invoice_values (with_totals tots d now v) \<and> iv_total (with_totals tots d now v) \<le> max_i64
    \<and> settled (with_totals tots d now v) \<and> iv_paid (with_totals tots d now v) = 0
    \<and> iv_subtotal (with_totals tots d now v) = fst tots \<and> iv_tax (with_totals tots d now v) = fst (snd tots)"
proof -
  obtain a b c where t: "tots = (a, b, c)" by (cases tots)
  have e: "0 \<le> a" "0 \<le> b" "c = a + b" "c \<le> max_i64" "d \<le> a" using assms(1,3) unfolding t by (simp_all add: exact_totals_def)
  have w: "wrap64 (c - d) = c - d" using e assms(2) by (intro money_range) simp_all
  show ?thesis
    using e assms(2,4-7) unfolding t with_totals_def prod.case w Let_def
    by (simp add: invoice_values_def settled_def)
qed

lemma with_totals_same:
  "iv_id (with_totals tots d now v) = iv_id v" "iv_org (with_totals tots d now v) = iv_org v"
  "iv_key (with_totals tots d now v) = iv_key v" "iv_contact (with_totals tots d now v) = iv_contact v"
  "iv_currency (with_totals tots d now v) = iv_currency v" "iv_metadata (with_totals tots d now v) = iv_metadata v"
  "iv_deleted (with_totals tots d now v) = iv_deleted v"
  by (simp_all add: with_totals_def Let_def split: prod.split)

text \<open>An inserted invoice with its lines.\<close>

definition invoiced :: "tables \<Rightarrow> invoice_row \<Rightarrow> line_row list \<Rightarrow> tables" where
  "invoiced t v ls = t\<lparr>invoices := invoices t @ [v], lines := lines t @ ls\<rparr>"

lemma funded_more: "funded t p \<Longrightarrow> invoices u = invoices t @ vs \<Longrightarrow> funded u p"
  by (auto simp: funded_def split: option.splits)

lemma shop_ok_invoiced:
  assumes ok: "shop_ok t" and new: "\<forall>w\<in>set (invoices t). iv_id w \<noteq> iv_id v"
    and ls: "\<forall>l\<in>set ls. exact_line l \<and> ln_org l = iv_org v \<and> ln_invoice l = iv_id v"
    and v: "invoice_values v" "iv_total v \<le> max_i64" "settled v" "iv_paid v = 0"
      "iv_subtotal v = sum_subtotals ls" "iv_tax v = sum_taxes ls"
  shows "shop_ok (invoiced t v ls)"
proof -
  have "money_ok (invoiced t v ls)"
    unfolding invoiced_def using ok by (intro money_ok_new_invoice new ls v) (simp add: shop_ok_def)
  moreover have "packages_ok (invoiced t v ls)"
    using ok funded_more [of t _ "invoiced t v ls" "[v]"] by (simp add: shop_ok_def packages_ok_def invoiced_def)
  moreover have "safe (invoiced t v ls)"
    using ok safe_cong [of "invoiced t v ls" t] by (simp add: shop_ok_def guarded_def invoiced_def)
  ultimately show ?thesis by (simp add: shop_ok_def)
qed

lemma insert_invoice_Inr:
  assumes "execute (insert_invoice v) s = (Inr written, u)"
  shows "if written then tabs u = (tabs s)\<lparr>invoices := invoices (tabs s) @ [v]\<rparr> \<and> (\<forall>w\<in>set (invoices (tabs s)). iv_id w \<noteq> iv_id v
      \<and> \<not> (iv_org w = iv_org v \<and> iv_key w = iv_key v))
    else tabs u = tabs s"
  using execute_Inr [OF assms] by (auto simp: insert_invoice_def split: if_splits)

lemma insert_lines_Inr:
  assumes "execute (insert_lines ls) s = (Inr a, u)"
  shows "tabs u = (tabs s)\<lparr>lines := lines (tabs s) @ ls\<rparr>"
  using execute_Inr [OF assms] by (auto simp: insert_lines_def split: if_splits)

lemma write_invoice_ok:
  assumes "write_invoice x org user print v ls now clock s = (Inr r, u)" and ok: "shop_ok (tabs s)"
    and ls: "\<forall>l\<in>set ls. exact_line l \<and> ln_org l = iv_org v \<and> ln_invoice l = iv_id v"
    and v: "invoice_values v" "iv_total v \<le> max_i64" "settled v" "iv_paid v = 0"
      "iv_subtotal v = sum_subtotals ls" "iv_tax v = sum_taxes ls"
  shows "shop_ok (tabs u)"
proof -
  from assms(1) obtain written s1 where i: "execute (insert_invoice v) s = (Inr written, s1)" and
    rest: "(if \<not> written then and_then (load_invoice_by_key org (iv_key v)) (same_invoice print)
     else
       and_then (execute (insert_lines ls)) (\<lambda>_.
       and_then (record_tx x org clock (invoice_activity x user v [] now)) (\<lambda>_.
       and_then (audit_change org user ''commerce_invoice'' (iv_id v) ''created'' None (Some (invoice_json x v ls))) (\<lambda>_.
       ret v)))) s1 = (Inr r, u)"
    unfolding write_invoice_def and_then_Inr by blast
  note I = insert_invoice_Inr [OF i]
  show ?thesis
  proof (cases written)
    case False
    then have l: "and_then (load_invoice_by_key org (iv_key v)) (same_invoice print) s1 = (Inr r, u)" using rest by simp
    have "tabs u = tabs s1" by (rule reads_Inr [OF reads_and_then [OF reads_or_same(6,2)] l])
    with I False ok show ?thesis by simp
  next
    case True
    then obtain s2 where l: "execute (insert_lines ls) s1 = (Inr (), s2)" and
      side: "and_then (record_tx x org clock (invoice_activity x user v [] now)) (\<lambda>_.
       and_then (audit_change org user ''commerce_invoice'' (iv_id v) ''created'' None (Some (invoice_json x v ls))) (\<lambda>_.
       ret v)) s2 = (Inr r, u)"
      using rest by (auto simp: and_then_Inr [of "execute (insert_lines ls)"])
    have "spares views (and_then (record_tx x org clock (invoice_activity x user v [] now)) (\<lambda>_.
       and_then (audit_change org user ''commerce_invoice'' (iv_id v) ''created'' None (Some (invoice_json x v ls))) (\<lambda>_.
       ret v)))" by (intro spares_intros reads_intros)
    from sparesD [OF this side] have views: "views (tabs u) = views (tabs s2)" .
    have "tabs s2 = invoiced (tabs s) v ls" using insert_lines_Inr [OF l] I True by (simp add: invoiced_def)
    moreover have "shop_ok (invoiced (tabs s) v ls)"
      using I True by (intro shop_ok_invoiced ok ls v) simp
    ultimately show ?thesis using views_cong [OF views] by simp
  qed
qed

lemma create_invoice_ok: "maintains shop_ok (create_invoice x org user raw clock)"
proof (rule maintainsI)
  fix s r u
  assume run: "create_invoice x org user raw clock s = (Inr r, u)" and ok: "shop_ok (tabs s)"
  from run obtain q print i j s1 v where v: "v = new_invoice x i j org user (vq_contact q) (trim_space (vq_key q))
        (upper_text (trim_space (vq_currency q))) (vq_discount q) (vq_due q)
        (AList.update ''idempotency_fingerprint'' (Str print) (vq_metadata q)) (clock 1)" and
    q: "validate_invoice raw (clock 0) = Inr q" and
    body: "transaction (invoice_body x org user q print v (clock 1) (clock 2)) s1 = (Inr r, u)" and t1: "tabs s1 = tabs s"
    unfolding create_invoice_def Let_def
    by (auto simp: ok_simps split: option.splits dest!: mint_Inr)
  have d: "0 \<le> vq_discount q" using q by (auto simp: validate_invoice_def Let_def split: if_splits option.splits)
  have vf: "iv_paid v = 0" "iv_discount v = vq_discount q" "iv_status v = s_open" "iv_paid_at v = None" "iv_org v = org"
    unfolding v by (simp_all add: new_invoice_def)
  have "maintains shop_ok (invoice_body x org user q print v (clock 1) (clock 2))"
  proof (rule maintainsI)
    fix s r u
    assume b: "invoice_body x org user q print v (clock 1) (clock 2) s = (Inr r, u)" and ok: "shop_ok (tabs s)"
    from b obtain found s2 where l: "lookup (load_invoice_by_key org (iv_key v)) s = (Inr found, s2)" and
      rest: "(case found of
       Some old \<Rightarrow> same_invoice print old
     | None \<Rightarrow>
         and_then (ensure_contact org (vq_contact q)) (\<lambda>_.
         and_then (build_invoice_lines x org v (vq_lines q)) (\<lambda>(ls, tots).
         and_then (reject (fst tots < vq_discount q) (ClientError bad_request m_discount_subtotal)) (\<lambda>_.
         write_invoice x org user print (with_totals tots (vq_discount q) (clock 1) v) ls (clock 1) (clock 2))))) s2 = (Inr r, u)"
      unfolding invoice_body_def and_then_Inr [of "lookup _"] by blast
    have t2: "tabs s2 = tabs s" by (rule reads_Inr [OF reads_lookup [OF reads_or_same(6)] l])
    show "shop_ok (tabs u)"
    proof (cases found)
      case (Some old)
      with rest have old: "same_invoice print old s2 = (Inr r, u)" by simp
      have "tabs u = tabs s2" by (rule reads_Inr [OF reads_or_same(2) old])
      with t2 ok show ?thesis by simp
    next
      case None
      with rest obtain a s3 ls tots s4 where c: "ensure_contact org (vq_contact q) s2 = (Inr a, s3)" and
        bl: "build_invoice_lines x org v (vq_lines q) s3 = (Inr (ls, tots), s4)" and dd: "\<not> fst tots < vq_discount q" and
        w: "write_invoice x org user print (with_totals tots (vq_discount q) (clock 1) v) ls (clock 1) (clock 2) s4 = (Inr r, u)"
        by (auto simp: ok_simps split: prod.splits)
      have t3: "tabs s3 = tabs s2" by (rule reads_Inr [OF reads_checks(4) c])
      note B = build_invoice_lines_Inr [OF bl]
      have W: "invoice_values (with_totals tots (vq_discount q) (clock 1) v) \<and> iv_total (with_totals tots (vq_discount q) (clock 1) v) \<le> max_i64
        \<and> settled (with_totals tots (vq_discount q) (clock 1) v) \<and> iv_paid (with_totals tots (vq_discount q) (clock 1) v) = 0
        \<and> iv_subtotal (with_totals tots (vq_discount q) (clock 1) v) = fst tots \<and> iv_tax (with_totals tots (vq_discount q) (clock 1) v) = fst (snd tots)"
        by (rule with_totals_ok) (use B d dd vf in auto)
      show ?thesis
        by (rule write_invoice_ok [OF w]) (use W B t2 t3 ok vf in \<open>simp_all add: with_totals_same\<close>)
    qed
  qed
  from maintainsD [OF maintains_transaction [OF this] body] t1 ok show "shop_ok (tabs u)" by simp
qed

end
