(* ===== verification/PaymentSafety.thy ===== *)
theory PaymentSafety
  imports ShopHandlers
begin

text \<open>
  Recording a payment keeps the invariant of \<open>ShopSafety\<close>: the amounts stay exact, and the payment that
  settles an invoice activates every package that waited for it.
\<close>

section \<open>Writing the payment into its invoice\<close>

lemma insert_payment_Inr:
  assumes "or_duplicate (execute (insert_payment x p)) e s = (Inr a, u)"
  shows "tabs u = (tabs s)\<lparr>payments := payments (tabs s) @ [p]\<rparr> \<and> minted u = minted s
    \<and> (\<forall>q\<in>set (payments (tabs s)). pt_id q \<noteq> pt_id p \<and> \<not> (pt_org q = pt_org p \<and> pt_key q = pt_key p))"
  using execute_Inr [OF assms [unfolded or_duplicate_Inr]] by (auto simp: insert_payment_def split: if_splits)

text \<open>The rewritten row of the invoice, and which rows the statement hits.\<close>

definition paying :: "uuid \<Rightarrow> invoice_row \<Rightarrow> invoice_row \<Rightarrow> invoice_row" where
  "paying user w q = q\<lparr>iv_paid := iv_paid w, iv_due := iv_due w, iv_status := iv_status w, iv_paid_at := iv_paid_at w,
     iv_updated_by := Some user, iv_version := iv_version w\<rparr>"

definition hits_invoice :: "uuid \<Rightarrow> int \<Rightarrow> invoice_row \<Rightarrow> invoice_row \<Rightarrow> bool" where
  "hits_invoice org version w q \<longleftrightarrow> iv_id q = iv_id w \<and> iv_org q = org \<and> iv_version q = version \<and> \<not> iv_deleted q"

lemma paying_same [simp]:
  "iv_id (paying user w q) = iv_id q" "iv_org (paying user w q) = iv_org q" "iv_status (paying user w q) = iv_status w"
  by (simp_all add: paying_def)

lemma write_paid_Inr:
  assumes "execute (write_paid org version user w) s = (Inr n, u)"
  shows "tabs u = (tabs s)\<lparr>invoices := update_where (hits_invoice org version w) (paying user w) (invoices (tabs s))\<rparr>
    \<and> minted u = minted s"
proof -
  have "(\<lambda>q. iv_id q = iv_id w \<and> iv_org q = org \<and> iv_version q = version \<and> \<not> iv_deleted q) = hits_invoice org version w"
    "(\<lambda>q. q\<lparr>iv_paid := iv_paid w, iv_due := iv_due w, iv_status := iv_status w, iv_paid_at := iv_paid_at w,
       iv_updated_by := Some user, iv_version := iv_version w\<rparr>) = paying user w"
    by (simp_all add: fun_eq_iff hits_invoice_def paying_def)
  with execute_Inr [OF assms] show ?thesis
    by (auto simp: write_paid_def Let_def split: if_splits)
qed

text \<open>An invoice a payment may be recorded for.\<close>

definition payable :: "uuid \<Rightarrow> payment_request \<Rightarrow> invoice_row \<Rightarrow> bool" where
  "payable org r v \<longleftrightarrow> iv_org v = org \<and> \<not> iv_deleted v \<and> iv_version v = yq_version r \<and> iv_status v = s_open
     \<and> 0 < yq_amount r \<and> yq_amount r \<le> iv_due v"

lemma pay_invoice_fields:
  assumes "invoice_values v" "iv_total v \<le> max_i64" "settled v" and p: "iv_status v = s_open" "0 < n" "n \<le> iv_due v"
  shows "iv_paid (pay_invoice user n now v) = iv_paid v + n \<and> iv_due (pay_invoice user n now v) = iv_due v - n
    \<and> iv_status (pay_invoice user n now v) = (if iv_due v = n then s_paid else s_open)
    \<and> iv_paid_at (pay_invoice user n now v) = (if iv_due v = n then Some now else None)
    \<and> iv_id (pay_invoice user n now v) = iv_id v"
proof -
  have w: "wrap64 (iv_paid v + n) = iv_paid v + n" "wrap64 (iv_due v - n) = iv_due v - n"
    using assms(1,2) p by (auto simp: invoice_values_def intro!: money_range)
  have "iv_paid_at v = None" using assms(3) p by (auto simp: settled_def)
  with p show ?thesis unfolding pay_invoice_def Let_def w by simp
qed

lemma hits_one:
  assumes "distinct (map iv_id (invoices t))" and "v \<in> set (invoices t)" and "payable org r v" and "iv_id w = iv_id v"
    and "q \<in> set (invoices t)"
  shows "hits_invoice org (yq_version r) w q \<longleftrightarrow> q = v"
proof -
  have "inj_on iv_id (set (invoices t))" using assms(1) by (simp add: distinct_map)
  then show ?thesis
    using inj_onD [of iv_id "set (invoices t)" q v] assms by (auto simp: hits_invoice_def payable_def)
qed

section \<open>Packages when an invoice changes\<close>

text \<open>The invoices after one of them, open so far, has been rewritten.\<close>

definition repriced :: "invoice_row \<Rightarrow> invoice_row \<Rightarrow> tables \<Rightarrow> tables \<Rightarrow> bool" where
  "repriced v w t u \<longleftrightarrow> set (invoices u) = insert w (set (invoices t) - {v}) \<and> iv_id w = iv_id v \<and> iv_org w = iv_org v
     \<and> packages u = packages t \<and> balances u = balances t"

lemma update_one_set:
  assumes "\<And>q. q \<in> set rs \<Longrightarrow> c q \<longleftrightarrow> q = v" and "v \<in> set rs"
  shows "set (update_where c f rs) = insert (f v) (set rs - {v})"
proof -
  have "update_where c f rs = map (\<lambda>q. if q = v then f q else q) rs"
    unfolding update_where_def using assms(1) by (intro map_cong) auto
  with assms(2) show ?thesis by auto
qed

lemma funded_repriced:
  assumes r: "repriced v w t u" and "funded t p" and "iv_status w = iv_status v \<or> cp_invoice p \<noteq> Some (iv_id v) \<or> cp_org p \<noteq> iv_org v"
  shows "funded u p"
proof (cases "cp_invoice p")
  case None
  with assms(2) show ?thesis by (auto simp: funded_def)
next
  case (Some i)
  with assms(2) obtain q where q: "q \<in> set (invoices t)" "iv_id q = i" "iv_org q = cp_org p"
    "cp_status p = ''pending'' \<longleftrightarrow> iv_status q = s_open" by (auto simp: funded_def)
  have "\<exists>q'\<in>set (invoices u). iv_id q' = i \<and> iv_org q' = cp_org p \<and> (cp_status p = ''pending'' \<longleftrightarrow> iv_status q' = s_open)"
  proof (cases "q = v")
    case True
    with q Some assms(3) have "iv_status w = iv_status v" by auto
    with True q r show ?thesis by (auto simp: repriced_def)
  next
    case False
    with q r show ?thesis by (auto simp: repriced_def)
  qed
  with assms(2) Some show ?thesis by (simp add: funded_def)
qed

lemma still_open:
  assumes "packages_ok t" "repriced v w t u" "iv_status w = iv_status v"
  shows "packages_ok u"
  using assms funded_repriced [OF assms(2)] by (simp add: packages_ok_def repriced_def)

lemma pending_of:
  "p \<in> set (pending_packages org i t) \<longleftrightarrow>
     p \<in> set (packages t) \<and> cp_org p = org \<and> cp_invoice p = Some i \<and> cp_status p = ''pending'' \<and> \<not> cp_deleted p"
  by (auto simp: pending_packages_def)

lemma paid_activating:
  assumes ok: "packages_ok t" and dist: "distinct (map iv_id (invoices t))" and r: "repriced v w t u"
    and v: "v \<in> set (invoices t)" "iv_status v = s_open" "iv_org v = org" and w: "iv_status w = s_paid"
  shows "activating org (iv_id v) (pending_packages org (iv_id v) u) u"
proof -
  have same: "packages u = packages t" "balances u = balances t" using r by (simp_all add: repriced_def)
  have inj: "inj_on iv_id (set (invoices t))" using dist by (simp add: distinct_map)
  have "p \<in> set (pending_packages org (iv_id v) u) \<or> funded u p" if p: "p \<in> set (packages u)" for p
  proof (cases "cp_invoice p = Some (iv_id v) \<and> cp_org p = iv_org v")
    case True
    have f: "funded t p" using ok p same by (simp add: packages_ok_def)
    with True obtain q where q: "q \<in> set (invoices t)" "iv_id q = iv_id v" "cp_status p = ''pending'' \<longleftrightarrow> iv_status q = s_open"
      by (auto simp: funded_def)
    have "q = v" using inj_onD [OF inj q(2,1) v(1)] .
    with q v have "cp_status p = ''pending''" by simp
    with True f v p show ?thesis by (simp add: pending_of funded_def)
  next
    case False
    then show ?thesis using funded_repriced [OF r] ok p same by (auto simp: packages_ok_def)
  qed
  moreover have "distinct (map cp_id (pending_packages org (iv_id v) u))"
    using ok same unfolding pending_packages_def packages_ok_def by (simp add: distinct_map_filter)
  moreover have "paid_invoice u org (iv_id v)" using r v w by (auto simp: repriced_def paid_invoice_def)
  ultimately show ?thesis
    using ok same unfolding activating_def packages_ok_def by (auto simp: pending_of)
qed

lemma activating_done: "activating org i [] t \<Longrightarrow> packages_ok t"
  by (simp add: activating_def packages_ok_def)

section \<open>Settling\<close>

lemma reads_queries [reads_intros]: "reads (query q)" by (rule reads_query)

lemma activate_paid_packages_Inr:
  assumes "activate_paid_packages x org w user i now s = (Inr (), u)"
    and "activating org (iv_id w) (pending_packages org (iv_id w) (tabs s)) (tabs s)"
  shows "activating org (iv_id w) [] (tabs u) \<and> ledger_of_money (tabs u) = ledger_of_money (tabs s)
    \<and> calendar_of (tabs u) = calendar_of (tabs s) \<and> (credits_ok (tabs s) \<longrightarrow> credits_ok (tabs u))"
proof -
  from assms(1) obtain ps s1 where q: "query (pending_packages org (iv_id w)) s = (Inr ps, s1)" and
    f: "for_each ps (activate_package x org user i now) s1 = (Inr (), u)"
    unfolding activate_paid_packages_def and_then_Inr by blast
  note Q = query_Inr [OF q]
  have "activating org (iv_id w) ps (tabs s1)" using Q assms(2) by simp
  from activate_all_effect [OF f this] Q show ?thesis by simp
qed

text \<open>The tables after the payment row and the invoice row, before anything else.\<close>

definition paid_into :: "payment_row \<Rightarrow> uuid \<Rightarrow> int \<Rightarrow> uuid \<Rightarrow> invoice_row \<Rightarrow> tables \<Rightarrow> tables" where
  "paid_into p org version user w t =
     t\<lparr>payments := payments t @ [p], invoices := update_where (hits_invoice org version w) (paying user w) (invoices t)\<rparr>"

lemma paid_into_ok:
  assumes ok: "shop_ok t" and v: "v \<in> set (invoices t)" and pay: "payable org r v"
    and w: "w = pay_invoice user (yq_amount r) now v" and p: "p = new_payment i org r a v occurred"
  shows "safe (paid_into p org (yq_version r) user w t)" "money_ok (paid_into p org (yq_version r) user w t)"
    "repriced v (paying user w v) t (paid_into p org (yq_version r) user w t)"
    "iv_status w = (if iv_due v = yq_amount r then s_paid else s_open)" "iv_id w = iv_id v"
proof -
  let ?u = "paid_into p org (yq_version r) user w t"
  have m: "money_ok t" and s: "safe t" using ok by (simp_all add: shop_ok_def)
  have dist: "distinct (map iv_id (invoices t))" using m by (simp add: money_ok_def)
  have iv: "invoice_values v" "iv_total v \<le> max_i64" "settled v" using m v by (simp_all add: money_ok_def invoice_ok_def)
  have P: "iv_status v = s_open" "0 < yq_amount r" "yq_amount r \<le> iv_due v" "iv_org v = org" using pay by (simp_all add: payable_def)
  note W = pay_invoice_fields [OF iv P(1-3), of user now, folded w]
  show "iv_status w = (if iv_due v = yq_amount r then s_paid else s_open)" using W by blast
  show wid: "iv_id w = iv_id v" using W by blast
  note hit = hits_one [OF dist v pay wid]
  have "calendar_of ?u = calendar_of t" "credits_ok ?u = credits_ok t"
    using credits_ok_cong [of ?u t] by (simp_all add: paid_into_def calendar_of_def)
  then show "safe ?u" using safe_beside [OF s] by simp
  have fields: "iv_subtotal (paying user w v) = iv_subtotal v" "iv_tax (paying user w v) = iv_tax v"
    "iv_total (paying user w v) = iv_total v" "iv_discount (paying user w v) = iv_discount v"
    "iv_paid (paying user w v) = iv_paid w" "iv_due (paying user w v) = iv_due w" "iv_paid_at (paying user w v) = iv_paid_at w"
    by (simp_all add: paying_def)
  have pf: "pt_org p = org" "pt_invoice p = Some (iv_id v)" "pt_type p = ''charge''" "pt_status p = ''succeeded''" "pt_amount p = yq_amount r"
    by (simp_all add: p new_payment_def Let_def)
  have "settled (paying user w v)" using W by (auto simp: settled_def fields)
  then show "money_ok ?u"
    unfolding paid_into_def
    by (intro money_ok_payment [OF m v]) (use W P hit in \<open>simp_all add: fields pf\<close>)
  show "repriced v (paying user w v) t ?u"
    using update_one_set [OF hit v] by (simp add: repriced_def paid_into_def)
qed

text \<open>What follows the payment in the timeline and the log, and the answer.\<close>

definition settle_tail ::
  "env \<Rightarrow> uuid \<Rightarrow> uuid \<Rightarrow> invoice_row \<Rightarrow> invoice_row \<Rightarrow> payment_row \<Rightarrow> (nat \<Rightarrow> time) \<Rightarrow> (tables, payment_result) tx" where
  "settle_tail x org user v w p clock =
     and_then (record_tx x org (clock 4) (payment_activity x user w p)) (\<lambda>_.
     and_then (if iv_status w = s_paid
       then and_then (record_tx x org (clock 5) (paid_activity x user w p)) (\<lambda>_. ret ()) else ret ()) (\<lambda>_.
     and_then (audit_change org user ''payment_transaction'' (pt_id p) ''created'' None (Some (payment_json x p))) (\<lambda>_.
     and_then (audit_change org user ''commerce_invoice'' (iv_id w) ''updated'' (Some (invoice_json x v [])) (Some (invoice_json x w []))) (\<lambda>_.
     ret \<lparr>pr_invoice = w, pr_payment = p, pr_idempotent = False\<rparr>))))"

lemma settle_tail_spares: "spares views (settle_tail x org user v w p clock)"
  unfolding settle_tail_def by (intro spares_intros reads_intros)

lemma four_then_ret:
  "and_then a (\<lambda>_. and_then b (\<lambda>_. and_then c (\<lambda>_. and_then d (\<lambda>_. ret r)))) s = (Inr q, u) \<Longrightarrow> q = r"
  by (auto simp: and_then_Inr ret_Inr)

lemma settle_tail_Inr: "settle_tail x org user v w p clock s = (Inr res, u) \<Longrightarrow> pr_payment res = p \<and> pr_invoice res = w"
  unfolding settle_tail_def by (drule four_then_ret) simp

lemma settle_invoice_Inr:
  assumes "settle_invoice x org user r v a clock s = (Inr res, u)"
  obtains i s1 p w s2 s3 s4 n e1 e2 where "mint (fresh_uuid x) s = (Inr i, s1)"
    "p = new_payment i org r a v (case yq_occurred r of None \<Rightarrow> clock 1 | Some t \<Rightarrow> t)"
    "w = pay_invoice user (yq_amount r) (clock 2) v"
    "or_duplicate (execute (insert_payment x p)) (client_conflict m_payment_duplicate) s1 = (Inr e1, s2)"
    "execute (write_paid org (yq_version r) user w) s2 = (Inr n, s3)"
    "(if iv_status w = s_paid then activate_paid_packages x org w user i (clock 3) else ret ()) s3 = (Inr e2, s4)"
    "settle_tail x org user v w p clock s4 = (Inr res, u)"
proof -
  obtain i s1 p w where i: "mint (fresh_uuid x) s = (Inr i, s1)" and
    p: "p = new_payment i org r a v (case yq_occurred r of None \<Rightarrow> clock 1 | Some t \<Rightarrow> t)" and
    w: "w = pay_invoice user (yq_amount r) (clock 2) v" and
    rest: "and_then (or_duplicate (execute (insert_payment x p)) (client_conflict m_payment_duplicate)) (\<lambda>_.
     and_then (execute (write_paid org (yq_version r) user w)) (\<lambda>n.
     and_then (reject (n \<noteq> 1) (client_conflict m_invoice_modified)) (\<lambda>_.
     and_then (if iv_status w = s_paid then activate_paid_packages x org w user i (clock 3) else ret ()) (\<lambda>_.
     and_then (record_tx x org (clock 4) (payment_activity x user w p)) (\<lambda>_.
     and_then (if iv_status w = s_paid
       then and_then (record_tx x org (clock 5) (paid_activity x user w p)) (\<lambda>_. ret ()) else ret ()) (\<lambda>_.
     and_then (audit_change org user ''payment_transaction'' i ''created'' None (Some (payment_json x p))) (\<lambda>_.
     and_then (audit_change org user ''commerce_invoice'' (iv_id w) ''updated'' (Some (invoice_json x v [])) (Some (invoice_json x w []))) (\<lambda>_.
     ret \<lparr>pr_invoice = w, pr_payment = p, pr_idempotent = False\<rparr>)))))))) s1 = (Inr res, u)"
    using assms unfolding settle_invoice_def Let_def and_then_Inr [of "mint _"] by blast
  have "pt_id p = i" unfolding p by (simp add: new_payment_def Let_def)
  with rest have "and_then (or_duplicate (execute (insert_payment x p)) (client_conflict m_payment_duplicate)) (\<lambda>_.
     and_then (execute (write_paid org (yq_version r) user w)) (\<lambda>n.
     and_then (reject (n \<noteq> 1) (client_conflict m_invoice_modified)) (\<lambda>_.
     and_then (if iv_status w = s_paid then activate_paid_packages x org w user i (clock 3) else ret ()) (\<lambda>_.
     settle_tail x org user v w p clock)))) s1 = (Inr res, u)"
    by (simp only: settle_tail_def)
  with i p w show ?thesis
    unfolding and_then_Inr [of "or_duplicate _ _"] and_then_Inr [of "execute _"]
      and_then_Inr [of "reject _ _"] and_then_Inr [of "If _ _ _"] reject_Inr using that by blast
qed

lemma settle_invoice_ok:
  assumes run: "settle_invoice x org user r v a clock s = (Inr res, u)" and ok: "shop_ok (tabs s)"
    and v: "v \<in> set (invoices (tabs s))" and pay: "payable org r v"
  shows "shop_ok (tabs u)"
  using run
proof (rule settle_invoice_Inr)
  fix i s1 p w s2 s3 s4 n e1 e2
  assume i: "mint (fresh_uuid x) s = (Inr i, s1)"
    and p: "p = new_payment i org r a v (case yq_occurred r of None \<Rightarrow> clock 1 | Some t \<Rightarrow> t)"
    and w: "w = pay_invoice user (yq_amount r) (clock 2) v"
    and 1: "or_duplicate (execute (insert_payment x p)) (client_conflict m_payment_duplicate) s1 = (Inr e1, s2)"
    and 2: "execute (write_paid org (yq_version r) user w) s2 = (Inr n, s3)"
    and 3: "(if iv_status w = s_paid then activate_paid_packages x org w user i (clock 3) else ret ()) s3 = (Inr e2, s4)"
    and 4: "settle_tail x org user v w p clock s4 = (Inr res, u)"
  note views = sparesD [OF settle_tail_spares 4]
  have t3: "tabs s3 = paid_into p org (yq_version r) user w (tabs s)"
    using mint_Inr [OF i] insert_payment_Inr [OF 1] write_paid_Inr [OF 2] by (simp add: paid_into_def)
  note A = paid_into_ok [OF ok v pay w p, folded t3]
  have "shop_ok (tabs s4)"
  proof (cases "iv_status w = s_paid")
    case True
    with 3 have 3: "activate_paid_packages x org w user i (clock 3) s3 = (Inr (), s4)" by simp
    have "activating org (iv_id v) (pending_packages org (iv_id v) (tabs s3)) (tabs s3)"
      by (rule paid_activating [OF _ _ A(3) v]) (use ok pay True in \<open>auto simp: shop_ok_def payable_def money_ok_def\<close>)
    then have "activating org (iv_id w) (pending_packages org (iv_id w) (tabs s3)) (tabs s3)" by (simp add: A(5))
    note B = activate_paid_packages_Inr [OF 3 this]
    then have "packages_ok (tabs s4)" using activating_done by blast
    moreover have "money_ok (tabs s4)" using B A(2) money_ok_cong by blast
    moreover have "safe (tabs s4)" by (rule safe_beside [OF A(1)]) (use B in auto)
    ultimately show ?thesis by (simp add: shop_ok_def)
  next
    case False
    with 3 have s4: "s4 = s3" by (simp add: ret_Inr)
    have "iv_status w = s_open" using A(4) False by (simp split: if_splits)
    with pay have "iv_status (paying user w v) = iv_status v" by (simp add: payable_def)
    with still_open [OF _ A(3)] ok have "packages_ok (tabs s3)" by (simp add: shop_ok_def)
    with A s4 show ?thesis by (simp add: shop_ok_def)
  qed
  with views_cong [OF views] show ?thesis by simp
qed

section \<open>The request\<close>

lemma invoice_by_id_Some: "invoice_by_id org i t = Some v \<Longrightarrow> v \<in> set (invoices t) \<and> iv_id v = i \<and> iv_org v = org \<and> \<not> iv_deleted v"
  unfolding invoice_by_id_def by (drule first_in_filterD) simp

lemma reads_payment_lookups [reads_intros]:
  "reads (lookup (first (payment_with_key org key)))" "reads (or_fail (first (invoice_by_id org i)) e)"
  by (intro reads_intros)+

lemma check_payable_Inr:
  "check_payable r v s = (Inr a, u) \<longleftrightarrow> iv_version v = yq_version r \<and> iv_status v = s_open \<and> 0 < iv_due v
     \<and> upper_text (trim_space (yq_currency r)) = iv_currency v \<and> yq_amount r \<le> iv_due v \<and> u = s"
  unfolding check_payable_def by (auto simp: ok_simps)

text \<open>A payment found under its key, or one that is settled now.\<close>

lemma payment_body_Inr:
  assumes run: "payment_body x org user i r clock s = (Inr res, u)"
  obtains (found) p v where "tabs u = tabs s" "res = \<lparr>pr_invoice = v, pr_payment = p, pr_idempotent = True\<rparr>"
      "payment_with_key org (trim_space (yq_key r)) (tabs s) = Some p" "same_payment i r p" "invoice_by_id org i (tabs s) = Some v"
    | (settled) v a s1 where "invoice_by_id org i (tabs s) = Some v" "iv_version v = yq_version r" "iv_status v = s_open"
      "upper_text (trim_space (yq_currency r)) = iv_currency v" "yq_amount r \<le> iv_due v" "views (tabs s1) = views (tabs s)"
      "settle_invoice x org user r v a clock s1 = (Inr res, u)"
proof -
  let ?look = "lookup (first (payment_with_key org (trim_space (yq_key r))))"
  let ?new = "\<lambda>v. and_then (check_payable r v) (\<lambda>_.
             and_then (resolve_manual_account x org user (yq_account r)) (\<lambda>a.
             and_then (query (reference_hits x org (pa_id a) (trim_space (yq_reference r)))) (\<lambda>hits.
             and_then (reject (0 < hits) (client_conflict m_reference_taken)) (\<lambda>_.
             settle_invoice x org user r v a clock))))"
  let ?again = "\<lambda>v. and_then ?look (\<lambda>found2.
         case found2 of
           Some p \<Rightarrow> and_then (replay_payment i r p) (\<lambda>_. ret \<lparr>pr_invoice = v, pr_payment = p, pr_idempotent = True\<rparr>)
         | None \<Rightarrow> ?new v)"
  let ?invoice = "or_fail (first (invoice_by_id org i)) (ClientError not_found m_invoice_missing)"
  have seen: "payment_with_key org (trim_space (yq_key r)) (tabs s1) = Some p \<and> tabs s2 = tabs s1"
    if "?look s1 = (Inr (Some p), s2)" for p s1 s2
    using first_Inr that unfolding lookup_Some by metis
  from run obtain c s1 where 1: "?look s = (Inr c, s1)" and
    rest: "(case c of
       Some p \<Rightarrow> and_then (replay_payment i r p) (\<lambda>_. and_then ?invoice (\<lambda>v.
         ret \<lparr>pr_invoice = v, pr_payment = p, pr_idempotent = True\<rparr>))
     | None \<Rightarrow> and_then ?invoice ?again) s1 = (Inr res, u)"
    unfolding payment_body_def and_then_Inr [of "lookup _"] by blast
  have t1: "tabs s1 = tabs s" by (rule reads_Inr [OF reads_payment_lookups(1) 1])
  show ?thesis
  proof (cases c)
    case (Some p)
    with rest obtain v where p: "same_payment i r p" "res = \<lparr>pr_invoice = v, pr_payment = p, pr_idempotent = True\<rparr>" and
      f: "first (invoice_by_id org i) s1 = (Inr v, u)"
      by (auto simp: replay_payment_def ok_simps)
    show ?thesis by (rule found [OF _ p(2) _ p(1)]) (use seen [of s p s1] 1 Some first_Inr [OF f] t1 in simp_all)
  next
    case None
    from rest [unfolded None option.case] obtain v s2 d s3 where 2: "first (invoice_by_id org i) s1 = (Inr v, s2)" and
      3: "?look s2 = (Inr d, s3)" and
      rest2: "(case d of
           Some p \<Rightarrow> and_then (replay_payment i r p) (\<lambda>_. ret \<lparr>pr_invoice = v, pr_payment = p, pr_idempotent = True\<rparr>)
         | None \<Rightarrow> ?new v) s3 = (Inr res, u)"
      unfolding and_then_Inr [of "or_fail _ _"] or_fail_Inr and_then_Inr [of "lookup _"] by blast
    note F = first_Inr [OF 2]
    have t3: "tabs s3 = tabs s" using reads_Inr [OF reads_payment_lookups(1) 3] F t1 by simp
    show ?thesis
    proof (cases d)
      case (Some p)
      with rest2 have p: "same_payment i r p" "res = \<lparr>pr_invoice = v, pr_payment = p, pr_idempotent = True\<rparr>" "u = s3"
        by (auto simp: replay_payment_def ok_simps)
      show ?thesis by (rule found [OF _ p(2) _ p(1)]) (use seen [of s2 p s3] 3 Some F t1 t3 p(3) in simp_all)
    next
      case None
      from rest2 [unfolded None option.case] obtain s4 a s5 hits s6 e where e: "check_payable r v s3 = (Inr e, s4)" and
        a: "resolve_manual_account x org user (yq_account r) s4 = (Inr a, s5)" and
        q: "query (reference_hits x org (pa_id a) (trim_space (yq_reference r))) s5 = (Inr hits, s6)" and
        settle: "settle_invoice x org user r v a clock s6 = (Inr res, u)"
        unfolding and_then_Inr [of "check_payable _ _"] and_then_Inr [of "resolve_manual_account _ _ _ _"]
          and_then_Inr [of "query _"] and_then_Inr [of "reject _ _"] reject_Inr by blast
      note E = e [unfolded check_payable_Inr]
      have "views (tabs s6) = views (tabs s)"
        using sparesD [OF manual_account_spares a] query_Inr [OF q] E t3 by simp
      then show ?thesis by (rule settled [OF _ _ _ _ _ _ settle, rotated -1]) (use F t1 E in simp_all)
    qed
  qed
qed

lemma payment_body_ok:
  assumes run: "payment_body x org user i r clock s = (Inr res, u)" and ok: "shop_ok (tabs s)" and pos: "0 < yq_amount r"
  shows "shop_ok (tabs u)"
  using run
proof (cases rule: payment_body_Inr)
  case (found p v)
  with ok show ?thesis by simp
next
  case (settled v a s1)
  have "shop_ok (tabs s1)" "v \<in> set (invoices (tabs s1))" "payable org r v"
    using invoice_by_id_Some [OF settled(1)] settled views_cong [OF settled(6)] views_parts(1) [OF settled(6)] ok pos
    by (simp_all add: payable_def)
  with settle_invoice_ok [OF settled(7)] show ?thesis by blast
qed

lemma validate_payment_amount: "validate_payment raw now = Inr r \<Longrightarrow> 0 < yq_amount r"
  by (auto simp: validate_payment_def Let_def split: if_splits)

lemma record_manual_payment_ok: "keeps shop_ok (record_manual_payment x org user i raw clock)"
  unfolding record_manual_payment_def
proof (intro keeps_and_then)
  fix s r t
  assume "lift_res (as_client (validate_payment raw (clock 0))) s = (Inr r, t)"
  then have "0 < yq_amount r" by (auto simp: ok_simps as_client_def intro: validate_payment_amount split: sum.splits)
  then show "keeps shop_ok (transaction (payment_body x org user i r clock))"
    by (intro keeps_transaction) (blast intro: payment_body_ok)
qed (intro keeps_reads reads_intros)

lemma create_invoice_keeps: "keeps shop_ok (create_invoice x org user raw clock)"
proof (rule keeps_maintains [OF _ create_invoice_ok])
  show "atomic (create_invoice x org user raw clock)"
    unfolding create_invoice_def Let_def by (intro atomic_intros reads_intros)
qed

end
