(* ===== verification/SaleSafety.thy ===== *)
theory SaleSafety
  imports PaymentSafety
begin

text \<open>
  Granting and selling packages keep the invariant of \<open>ShopSafety\<close>: a package is written pending exactly when
  its invoice is open, and its credits are granted in the same transaction when it is not.
\<close>

section \<open>A new package\<close>

lemma shop_ok_package:
  assumes ok: "shop_ok t" and new: "\<forall>q\<in>set (packages t). cp_id q \<noteq> cp_id p" and p: "funded t p"
  shows "shop_ok (t\<lparr>packages := packages t @ [p]\<rparr>)"
proof -
  let ?u = "t\<lparr>packages := packages t @ [p]\<rparr>"
  have pk: "packages_ok t" and m: "money_ok t" and s: "safe t" using ok by (simp_all add: shop_ok_def)
  have f: "funded ?u = funded t" by (rule funded_cong) simp
  have "credited (packages t @ [p]) b" if "b \<in> set (balances t)" for b
    using pk that unfolding packages_ok_def credited_def by force
  then have "packages_ok ?u" using pk new p unfolding packages_ok_def f by auto
  moreover have "money_ok ?u" using m money_ok_cong [of ?u t] by (simp add: ledger_of_money_def)
  moreover have "safe ?u" using s safe_cong [of ?u t] by (simp add: guarded_def)
  ultimately show ?thesis by (simp add: shop_ok_def)
qed

lemma insert_package_Inr:
  assumes "execute (insert_package p) s = (Inr written, u)"
  shows "(if written then tabs u = (tabs s)\<lparr>packages := packages (tabs s) @ [p]\<rparr> \<and> (\<forall>q\<in>set (packages (tabs s)). cp_id q \<noteq> cp_id p)
    else tabs u = tabs s) \<and> minted u = minted s"
  using execute_Inr [OF assms] by (auto simp: insert_package_def split: if_splits)

lemma grant_keeps:
  assumes run: "grant_credits x org p user now pre s = (Inr (), u)" and ok: "shop_ok (tabs s)"
    and p: "p \<in> set (packages (tabs s))" "cp_org p = org" "cp_status p \<noteq> ''pending''"
  shows "shop_ok (tabs u)"
proof -
  have pk: "packages_ok (tabs s)" and m: "money_ok (tabs s)" and s: "safe (tabs s)" using ok by (simp_all add: shop_ok_def)
  note G = grant_effect [OF run] and D = schedule_eqD [OF grant_effect(1) [OF run]]
  have same: "packages (tabs u) = packages (tabs s)" "invoices (tabs u) = invoices (tabs s)" "lines (tabs u) = lines (tabs s)"
    "payments (tabs u) = payments (tabs s)" using D by simp_all
  have "\<forall>b\<in>set (balances (tabs u)). credited (packages (tabs s)) b"
    by (rule grant_credited [OF run _ p(1)]) (use pk p in \<open>simp_all add: packages_ok_def\<close>)
  then have "packages_ok (tabs u)" using pk same funded_cong [OF same(2)] by (simp add: packages_ok_def)
  moreover have "money_ok (tabs u)" using m money_ok_cong [of "tabs u" "tabs s"] same by (simp add: ledger_of_money_def)
  moreover have "safe (tabs u)" by (rule safe_beside [OF s schedule_calendar [OF G(1)] G(2)])
  ultimately show ?thesis by (simp add: shop_ok_def)
qed

text \<open>The insert of a package, and its credits when it is active.\<close>

lemma place_package:
  assumes i: "execute (insert_package p) s = (Inr True, s1)"
    and g: "(if cp_status p = ''active'' then grant_credits x org p user now pre else ret ()) s1 = (Inr a, u)"
    and ok: "shop_ok (tabs s)" and p: "funded (tabs s) p" "cp_org p = org"
  shows "shop_ok (tabs u)"
proof -
  note I = insert_package_Inr [OF i, unfolded if_True]
  have ok1: "shop_ok (tabs s1)" using shop_ok_package [OF ok _ p(1)] I by simp
  show ?thesis
  proof (cases "cp_status p = ''active''")
    case True
    with g have "grant_credits x org p user now pre s1 = (Inr (), u)" by simp
    moreover have "p \<in> set (packages (tabs s1))" using I by simp
    ultimately show ?thesis using grant_keeps [OF _ ok1] True p(2) by simp
  next
    case False
    with g ok1 show ?thesis by (simp add: ret_Inr)
  qed
qed

section \<open>Granting\<close>

lemma invoice_of_contact_Some:
  "invoice_of_contact org contact i t = Some v \<Longrightarrow> v \<in> set (invoices t) \<and> iv_id v = i \<and> iv_org v = org"
  unfolding invoice_of_contact_def by (drule first_in_filterD) simp

lemma reads_check_funding: "reads (check_funding org r d)"
  unfolding check_funding_def by (intro reads_intros)

lemma check_funding_Inr:
  assumes "check_funding org r d s = (Inr status, u)"
  shows "funded (tabs s) (new_package i org user r d status starts)"
proof (cases "gq_invoice r")
  case None
  with assms show ?thesis by (simp add: check_funding_def ret_Inr funded_def new_package_def)
next
  case (Some k)
  with assms obtain v s1 where f: "first (invoice_of_contact org (gq_contact r) k) s = (Inr v, s1)" and
    v: "iv_status v = s_open \<or> iv_status v = s_paid" and st: "status = (if iv_status v \<noteq> s_paid then ''pending'' else ''active'')"
    by (auto simp: check_funding_def ok_simps)
  have "v \<in> set (invoices (tabs s)) \<and> iv_id v = k \<and> iv_org v = org"
    using first_Inr [OF f] by (intro invoice_of_contact_Some [of _ "gq_contact r"]) simp
  moreover have "status = ''pending'' \<longleftrightarrow> iv_status v = s_open" using v st by auto
  ultimately show ?thesis using st Some by (auto simp: funded_def new_package_def)
qed

lemma write_package_ok:
  assumes run: "write_package x org user r p now s = (Inr q, u)" and ok: "shop_ok (tabs s)"
    and p: "funded (tabs s) p" "cp_org p = org"
  shows "shop_ok (tabs u)"
proof -
  from run obtain written s1 where i: "execute (insert_package p) s = (Inr written, s1)" and
    rest: "(if \<not> written then and_then (first (package_with_key org (trim_space (gq_key r)))) (same_purchase r)
     else
       and_then (if cp_status p = ''active''
         then grant_credits x org p user now (''contact-package-grant:'' @ show_uuid x (cp_id p)) else ret ()) (\<lambda>_.
       and_then (audit_change org user ''contact_package'' (cp_id p) ''created'' None (Some (package_json x p))) (\<lambda>_.
       ret p))) s1 = (Inr q, u)"
    unfolding write_package_def and_then_Inr [of "execute _"] by blast
  show ?thesis
  proof (cases written)
    case False
    with rest have l: "and_then (first (package_with_key org (trim_space (gq_key r)))) (same_purchase r) s1 = (Inr q, u)" by simp
    have "tabs u = tabs s1" by (rule reads_Inr [OF reads_and_then [OF reads_first reads_or_same(3)] l])
    with insert_package_Inr [OF i] False ok show ?thesis by simp
  next
    case True
    have w: "written = True" using True by simp
    from rest [unfolded w not_True_eq_False if_False] obtain s2 a where
      g: "(if cp_status p = ''active''
         then grant_credits x org p user now (''contact-package-grant:'' @ show_uuid x (cp_id p)) else ret ()) s1 = (Inr a, s2)" and
      t: "and_then (audit_change org user ''contact_package'' (cp_id p) ''created'' None (Some (package_json x p))) (\<lambda>_. ret p) s2 = (Inr q, u)"
      unfolding and_then_Inr [of "If _ _ _"] by blast
    have "shop_ok (tabs s2)" by (rule place_package [OF _ g ok p]) (use i True in simp)
    moreover have tail: "spares views (and_then (audit_change org user ''contact_package'' (cp_id p) ''created'' None (Some (package_json x p))) (\<lambda>_. ret p))"
      by (intro spares_intros reads_intros)
    ultimately show ?thesis using views_cong [OF sparesD [OF tail t]] by simp
  qed
qed

lemma reads_package_lookup [reads_intros]: "reads (lookup (first (package_with_key org key)))"
  by (intro reads_intros)

lemma new_package_org [simp]: "cp_org (new_package i org user r d status starts) = org"
  by (simp add: new_package_def)

lemma fund_then_write_ok:
  assumes run: "and_then (check_funding org r d) (\<lambda>status. and_then (mint (fresh_uuid x)) (\<lambda>i.
      write_package x org user r (new_package i org user r d status at0) now)) s = (Inr q, u)" and ok: "shop_ok (tabs s)"
  shows "shop_ok (tabs u)"
proof -
  from run obtain status s1 i s2 where c: "check_funding org r d s = (Inr status, s1)" and i: "mint (fresh_uuid x) s1 = (Inr i, s2)" and
    w: "write_package x org user r (new_package i org user r d status at0) now s2 = (Inr q, u)"
    unfolding and_then_Inr [of "check_funding _ _ _"] and_then_Inr [of "mint _"] by blast
  have t2: "tabs s2 = tabs s" using reads_Inr [OF reads_check_funding c] mint_Inr [OF i] by simp
  show ?thesis
    by (rule write_package_ok [OF w]) (use check_funding_Inr [OF c] ok t2 in simp_all)
qed

lemma maintains_read_then:
  assumes "reads m" and "\<And>a. maintains I (f a)"
  shows "maintains I (and_then m f)"
  by (intro maintains_and_then maintains_reads assms)

lemma grant_body_ok: "maintains shop_ok (grant_body x org user r now)"
proof -
  have "maintains shop_ok (and_then (check_funding org r d) (\<lambda>status. and_then (mint (fresh_uuid x)) (\<lambda>i.
      write_package x org user r (new_package i org user r d status at0) now)))" for d at0
    by (rule maintainsI) (rule fund_then_write_ok)
  then show ?thesis
    unfolding grant_body_def
    by (intro maintains_read_then [OF reads_package_lookup] maintains_read_then [OF reads_checks(4)]
      maintains_read_then [OF reads_or_fail] reads_first maintains_option maintains_reads [OF reads_or_same(3)])
qed

lemma reads_load_package [reads_intros]: "reads (load_package org i n)"
  unfolding load_package_def by (intro reads_intros)

lemma create_contact_package_ok: "keeps shop_ok (create_contact_package x org user raw now)"
  unfolding create_contact_package_def
  by (intro keeps_and_then keeps_maintains_transaction grant_body_ok keeps_reads reads_intros)

section \<open>Selling\<close>

lemma invoice_with_key_Some: "invoice_with_key org key t = Some v \<Longrightarrow> v \<in> set (invoices t) \<and> iv_org v = org"
  unfolding invoice_with_key_def by (drule first_in_filterD) simp

lemma own_invoice_Some: "own_invoice org key i t = Some v \<Longrightarrow> v \<in> set (invoices t) \<and> iv_org v = org"
  unfolding own_invoice_def by (drule first_in_filterD) simp

lemma write_sale_invoice_ok:
  assumes run: "write_sale_invoice x org user r print v ls now clock s = (Inr w, u)" and ok: "shop_ok (tabs s)"
    and ls: "\<forall>l\<in>set ls. exact_line l \<and> ln_org l = iv_org v \<and> ln_invoice l = iv_id v"
    and v: "invoice_values v" "iv_total v \<le> max_i64" "settled v" "iv_paid v = 0"
      "iv_subtotal v = sum_subtotals ls" "iv_tax v = sum_taxes ls" "iv_org v = org"
  shows "shop_ok (tabs u) \<and> w \<in> set (invoices (tabs u)) \<and> iv_org w = org"
proof -
  let ?tail = "and_then (audit_change org user ''commerce_invoice'' (iv_id v) ''created'' None (Some (invoice_json x v ls))) (\<lambda>_.
       and_then (record_tx x org clock (invoice_activity x user v [(''workflow'', Str ''package_sale'')] now)) (\<lambda>_. ret v))"
  let ?found = "and_then (first (own_invoice org (sq_key r) (iv_id v))) (\<lambda>w.
       and_then (reject (sale_mark (iv_metadata w) \<noteq> print) (client_conflict m_invoice_reuse)) (\<lambda>_. ret w))"
  from run obtain written s1 where i: "execute (insert_invoice v) s = (Inr written, s1)" and
    rest: "(if \<not> written then ?found else and_then (execute (insert_lines ls)) (\<lambda>_. ?tail)) s1 = (Inr w, u)"
    unfolding write_sale_invoice_def and_then_Inr [of "execute (insert_invoice v)"] by blast
  note I = insert_invoice_Inr [OF i]
  show ?thesis
  proof (cases written)
    case False
    with rest have "?found s1 = (Inr w, u)" by simp
    then obtain s2 where f: "first (own_invoice org (sq_key r) (iv_id v)) s1 = (Inr w, s2)" and "u = s2" by (auto simp: ok_simps)
    with first_Inr [OF f] own_invoice_Some [of org "sq_key r" "iv_id v" "tabs s1" w] I False ok show ?thesis by simp
  next
    case True
    then have "and_then (execute (insert_lines ls)) (\<lambda>_. ?tail) s1 = (Inr w, u)" using rest by simp
    then obtain s2 where l: "execute (insert_lines ls) s1 = (Inr (), s2)" and side: "?tail s2 = (Inr w, u)"
      by (auto simp: and_then_Inr [of "execute (insert_lines ls)"])
    have w: "w = v" using side by (auto simp: ok_simps)
    have "spares views ?tail" by (intro spares_intros reads_intros)
    from sparesD [OF this side] have views: "views (tabs u) = views (tabs s2)" .
    have t2: "tabs s2 = invoiced (tabs s) v ls" using insert_lines_Inr [OF l] I True by (simp add: invoiced_def)
    moreover have "shop_ok (invoiced (tabs s) v ls)"
      using I True by (intro shop_ok_invoiced ok ls v) simp
    ultimately have "shop_ok (tabs u)" using views_cong [OF views] by simp
    moreover have "v \<in> set (invoices (tabs u))" using views_parts(1) [OF views] t2 by (simp add: invoiced_def)
    ultimately show ?thesis using w v by simp
  qed
qed

lemma sale_invoice_Inr:
  assumes "sale_invoice x org user r d print inner clock s = (Inr w, u)"
  obtains q :: invoice_request and i s1 j s2 v where
    "v = new_invoice x i j org user (sq_contact r) (sq_key r) (pd_currency d) 0 (sq_due r)
        (AList.update ''idempotency_fingerprint'' (Str inner) (marked print (given_metadata r))) (clock 1)"
    "mint (fresh_uuid x) s = (Inr i, s1)" "mint (fresh_uuid x) s1 = (Inr j, s2)"
    "and_then (build_invoice_lines x org v (vq_lines q)) (\<lambda>(ls, tots).
     write_sale_invoice x org user r print (with_totals tots 0 (clock 1) v) ls (clock 1) (clock 2)) s2 = (Inr w, u)"
proof -
  from assms obtain q s0 where "lift_res (as_client (validate_invoice (sale_invoice_request r d) (clock 0))) s = (Inr q, s0)"
    and rest: "and_then (mint (fresh_uuid x)) (\<lambda>i.
     and_then (mint (fresh_uuid x)) (\<lambda>j.
     let md = AList.update ''idempotency_fingerprint'' (Str inner) (marked print (given_metadata r));
         v = new_invoice x i j org user (sq_contact r) (sq_key r) (pd_currency d) 0 (sq_due r) md (clock 1) in
     and_then (build_invoice_lines x org v (vq_lines q)) (\<lambda>(ls, tots).
     write_sale_invoice x org user r print (with_totals tots 0 (clock 1) v) ls (clock 1) (clock 2)))) s0 = (Inr w, u)"
    unfolding sale_invoice_def and_then_Inr [of "lift_res _"] by blast
  then have "s0 = s" by (simp add: lift_res_Inr)
  with rest obtain i s1 j s2 where m: "mint (fresh_uuid x) s = (Inr i, s1)" "mint (fresh_uuid x) s1 = (Inr j, s2)" and
    body: "(let md = AList.update ''idempotency_fingerprint'' (Str inner) (marked print (given_metadata r));
         v = new_invoice x i j org user (sq_contact r) (sq_key r) (pd_currency d) 0 (sq_due r) md (clock 1) in
     and_then (build_invoice_lines x org v (vq_lines q)) (\<lambda>(ls, tots).
     write_sale_invoice x org user r print (with_totals tots 0 (clock 1) v) ls (clock 1) (clock 2))) s2 = (Inr w, u)"
    unfolding and_then_Inr [of "mint _"] by blast
  show ?thesis using body unfolding Let_def by (rule that [OF refl m])
qed

lemma sale_invoice_ok:
  assumes run: "sale_invoice x org user r d print inner clock s = (Inr w, u)" and ok: "shop_ok (tabs s)"
  shows "shop_ok (tabs u) \<and> w \<in> set (invoices (tabs u)) \<and> iv_org w = org"
proof -
  obtain q :: invoice_request and i s1 j s2 v where
    v: "v = new_invoice x i j org user (sq_contact r) (sq_key r) (pd_currency d) 0 (sq_due r)
        (AList.update ''idempotency_fingerprint'' (Str inner) (marked print (given_metadata r))) (clock 1)" and
    i: "mint (fresh_uuid x) s = (Inr i, s1)" and j: "mint (fresh_uuid x) s1 = (Inr j, s2)" and
    rest: "and_then (build_invoice_lines x org v (vq_lines q)) (\<lambda>(ls, tots).
     write_sale_invoice x org user r print (with_totals tots 0 (clock 1) v) ls (clock 1) (clock 2)) s2 = (Inr w, u)"
    using run by (rule sale_invoice_Inr)
  from rest obtain ls tots s3 where bl: "build_invoice_lines x org v (vq_lines q) s2 = (Inr (ls, tots), s3)" and
    w: "write_sale_invoice x org user r print (with_totals tots 0 (clock 1) v) ls (clock 1) (clock 2) s3 = (Inr w, u)"
    unfolding and_then_Inr [of "build_invoice_lines _ _ _ _"] by (auto split: prod.splits)
  note B = build_invoice_lines_Inr [OF bl]
  have d: "0 \<le> fst tots" using B by (auto simp: exact_totals_def)
  have vf: "iv_paid v = 0" "iv_discount v = 0" "iv_status v = s_open" "iv_paid_at v = None" "iv_org v = org"
    unfolding v by (simp_all add: new_invoice_def)
  have W: "invoice_values (with_totals tots 0 (clock 1) v) \<and> iv_total (with_totals tots 0 (clock 1) v) \<le> max_i64
    \<and> settled (with_totals tots 0 (clock 1) v) \<and> iv_paid (with_totals tots 0 (clock 1) v) = 0
    \<and> iv_subtotal (with_totals tots 0 (clock 1) v) = fst tots \<and> iv_tax (with_totals tots 0 (clock 1) v) = fst (snd tots)"
    by (rule with_totals_ok) (use B d vf in auto)
  have t3: "tabs s3 = tabs s" using B mint_Inr [OF i] mint_Inr [OF j] by simp
  show ?thesis
    by (rule write_sale_invoice_ok [OF w]) (use W B t3 ok vf in \<open>simp_all add: with_totals_same\<close>)
qed

lemma find_sale_invoice_ok:
  assumes run: "find_sale_invoice x org user r d print inner clock s = (Inr (made, v), u)" and ok: "shop_ok (tabs s)"
  shows "shop_ok (tabs u) \<and> v \<in> set (invoices (tabs u)) \<and> iv_org v = org"
proof -
  from run obtain found s1 where l: "lookup (first (invoice_with_key org (sq_key r))) s = (Inr found, s1)" and
    rest: "(case found of
       Some v \<Rightarrow>
         and_then (reject (sale_mark (iv_metadata v) \<noteq> print \<or> iv_contact v \<noteq> sq_contact r \<or> iv_currency v \<noteq> pd_currency d)
           (client_conflict m_invoice_reuse)) (\<lambda>_. ret (False, v))
     | None \<Rightarrow> and_then (sale_invoice x org user r d print inner clock) (\<lambda>v. ret (True, v))) s1 = (Inr (made, v), u)"
    unfolding find_sale_invoice_def and_then_Inr [of "lookup _"] by blast
  show ?thesis
  proof (cases found)
    case (Some w)
    with rest have v: "v = w" "u = s1" by (auto simp: ok_simps)
    have "first (invoice_with_key org (sq_key r)) s = (Inr v, s1)" using l Some v lookup_Some by metis
    from first_Inr [OF this] v invoice_with_key_Some [of org "sq_key r" "tabs s" v] ok show ?thesis by simp
  next
    case None
    with rest have "sale_invoice x org user r d print inner clock s1 = (Inr v, u)" by (auto simp: ok_simps)
    moreover have "tabs s1 = tabs s" using reads_Inr [OF reads_lookup [OF reads_first] l] .
    ultimately show ?thesis using sale_invoice_ok ok by metis
  qed
qed

lemma assign_package_ok:
  assumes run: "assign_package x org user r d print v md now clock s = (Inr res, u)" and ok: "shop_ok (tabs s)"
    and v: "v \<in> set (invoices (tabs s))" "iv_org v = org"
  shows "shop_ok (tabs u)"
proof -
  from run obtain i s0 p where i: "mint (fresh_uuid x) s = (Inr i, s0)" and p: "p = sold_package i org user r d v md now" and
    rest: "and_then (execute (insert_package p)) (\<lambda>written.
     if \<not> written then and_then (first (package_with_key org (sq_key r))) (same_sale r print v)
     else
       and_then (if cp_status p = ''active''
         then grant_credits x org p user now (''contact-package-sale:'' @ show_uuid x i) else ret ()) (\<lambda>_.
       and_then (audit_change org user ''contact_package'' i ''created'' None (Some (package_json x p))) (\<lambda>_.
       and_then (record_tx x org clock (sold_activity x user d v p now)) (\<lambda>_.
       ret (v, p))))) s0 = (Inr res, u)"
    unfolding assign_package_def Let_def and_then_Inr [of "mint _"] by blast
  then obtain written s1 where ins: "execute (insert_package p) s0 = (Inr written, s1)" and
    rest: "(if \<not> written then and_then (first (package_with_key org (sq_key r))) (same_sale r print v)
     else
       and_then (if cp_status p = ''active''
         then grant_credits x org p user now (''contact-package-sale:'' @ show_uuid x i) else ret ()) (\<lambda>_.
       and_then (audit_change org user ''contact_package'' i ''created'' None (Some (package_json x p))) (\<lambda>_.
       and_then (record_tx x org clock (sold_activity x user d v p now)) (\<lambda>_.
       ret (v, p))))) s1 = (Inr res, u)"
    unfolding and_then_Inr [of "execute _"] by blast
  have t0: "tabs s0 = tabs s" using mint_Inr [OF i] by simp
  show ?thesis
  proof (cases written)
    case False
    with rest have l: "and_then (first (package_with_key org (sq_key r))) (same_sale r print v) s1 = (Inr res, u)" by simp
    have "tabs u = tabs s1" by (rule reads_Inr [OF reads_and_then [OF reads_first reads_or_same(4)] l])
    with insert_package_Inr [OF ins] False ok t0 show ?thesis by simp
  next
    case True
    then have w: "written = True" by simp
    from rest [unfolded w not_True_eq_False if_False] obtain s2 a where
      g: "(if cp_status p = ''active''
         then grant_credits x org p user now (''contact-package-sale:'' @ show_uuid x i) else ret ()) s1 = (Inr a, s2)" and
      t: "and_then (audit_change org user ''contact_package'' i ''created'' None (Some (package_json x p))) (\<lambda>_.
       and_then (record_tx x org clock (sold_activity x user d v p now)) (\<lambda>_. ret (v, p))) s2 = (Inr res, u)"
      unfolding and_then_Inr [of "If _ _ _"] by blast
    have "settled v" using ok v by (auto simp: shop_ok_def money_ok_def invoice_ok_def)
    then have "iv_status v = s_open \<or> iv_status v = s_paid" by (auto simp: settled_def split: if_splits)
    then have f: "funded (tabs s0) p" "cp_org p = org" using v t0 by (auto simp: p sold_package_def funded_def)
    have "shop_ok (tabs s2)" by (rule place_package [OF _ g _ f]) (use ins True ok t0 in simp_all)
    moreover have tail: "spares views (and_then (audit_change org user ''contact_package'' i ''created'' None (Some (package_json x p))) (\<lambda>_.
       and_then (record_tx x org clock (sold_activity x user d v p now)) (\<lambda>_. ret (v, p))))"
      by (intro spares_intros reads_intros)
    ultimately show ?thesis using views_cong [OF sparesD [OF tail t]] by simp
  qed
qed

lemma reads_replay_sale [reads_intros]: "reads (replay_sale org r print p)"
  unfolding replay_sale_def by (intro reads_intros)

lemma find_then_assign_ok:
  "maintains shop_ok (and_then (find_sale_invoice x org user r d print inner clock) (\<lambda>(invoiced, v).
     assign_package x org user r d print v (package_metadata r print inner invoiced) n c))"
proof (rule maintainsI)
  fix s a u
  assume "and_then (find_sale_invoice x org user r d print inner clock) (\<lambda>(invoiced, v).
     assign_package x org user r d print v (package_metadata r print inner invoiced) n c) s = (Inr a, u)" and ok: "shop_ok (tabs s)"
  then obtain made v s1 where f: "find_sale_invoice x org user r d print inner clock s = (Inr (made, v), s1)" and
    g: "assign_package x org user r d print v (package_metadata r print inner made) n c s1 = (Inr a, u)"
    by (auto simp: and_then_Inr [of "find_sale_invoice _ _ _ _ _ _ _ _"])
  from find_sale_invoice_ok [OF f ok] assign_package_ok [OF g] show "shop_ok (tabs u)" by blast
qed

lemma sale_body_ok: "maintains shop_ok (sale_body x org user r print clock)"
  unfolding sale_body_def
  by (intro maintains_read_then maintains_option find_then_assign_ok reads_intros maintains_reads)

lemma keeps_sell:
  assumes "\<And>r print. maintains I (sale_body x org user r print clock)"
  shows "keeps I (sell_contact_package x org user raw clock)"
proof -
  have "keeps I (case sale_fingerprint x r of
       None \<Rightarrow> fail (ClientError bad_request m_sale_request)
     | Some print \<Rightarrow>
         and_then (transaction (sale_body x org user r print clock)) (\<lambda>(v, p).
         and_then (or_fail (and_then (first (invoice_by_id org (iv_id v))) (\<lambda>w. and_then preload (\<lambda>_. ret w)))
           (ClientError server_error m_load_invoice)) (\<lambda>v'.
         and_then (or_fail (load_package org (cp_id p) 3) (ClientError server_error m_load_package)) (\<lambda>p'.
         ret (v', p')))))" for r
  proof (cases "sale_fingerprint x r")
    case None
    then show ?thesis by (simp add: keeps_reads reads_fail)
  next
    case (Some print)
    show ?thesis
      unfolding Some option.case
      by (intro keeps_and_then keeps_maintains_transaction assms) (intro keeps_reads reads_intros)
  qed
  then show ?thesis
    unfolding sell_contact_package_def
    by (rule keeps_and_then [OF keeps_reads [OF reads_lift_res]])
qed

lemma sell_contact_package_ok: "keeps shop_ok (sell_contact_package x org user raw clock)"
  by (rule keeps_sell) (rule sale_body_ok)

end
