(* ===== verification/ShopSystem.thy ===== *)
theory ShopSystem
  imports SaleSafety SeatRefinement
begin

text \<open>
  The whole shop as a state machine: the requests of the calendar and those of the catalogue, invoices, payments and
  packages, of any tenant, in any order and with any driver errors. The invariant of \<open>ShopSafety\<close> holds in every
  reachable state, and commerce never moves the calendar.
\<close>

section \<open>The calendar leaves sales alone\<close>

lemma shop_view_updates [simp]:
  "shop_view (t\<lparr>events := a\<rparr>) = shop_view t" "shop_view (t\<lparr>bookings := b\<rparr>) = shop_view t"
  "shop_view (t\<lparr>time_offs := c\<rparr>) = shop_view t" "shop_view (t\<lparr>rules := d\<rparr>) = shop_view t"
  "shop_view (t\<lparr>ledger := e\<rparr>) = shop_view t"
  by (simp_all add: shop_view_def)

lemma shop_view_writes [spares_intros]:
  "spares shop_view (execute (insert_booking b))" "spares shop_view (execute (bump_event org i))"
  "spares shop_view (execute (write_status org i v f))" "spares shop_view (execute (insert_event e))"
  "spares shop_view (execute (replace_event org i v d))" "spares shop_view (execute (insert_time_off r))"
  "spares shop_view (execute (replace_time_off org resource i v d2))" "spares shop_view (execute (delete_time_off_row i))"
  "spares shop_view (execute (insert_rule q))" "spares shop_view (execute (replace_rule org resource i v d3))"
  "spares shop_view (execute (delete_rule_row i))" "spares shop_view (execute (insert_ledger l))"
  by (rule spares_execute; auto simp: insert_booking_def bump_event_def write_status_def insert_event_def replace_event_def
      insert_time_off_def replace_time_off_def delete_time_off_row_def insert_rule_def replace_rule_def delete_rule_row_def
      insert_ledger_def Let_def split: if_splits)+

lemma shop_view_side [spares_intros]:
  "spares shop_view (audit_change org user rtype rid action old new)" "spares shop_view (record_tx x org now inp)"
  using side_views [OF audit_change_side] side_views [OF record_tx_side]
  by (auto simp: spares_def) (metis prod.collapse)+

lemma shop_view_balance:
  assumes "\<And>b. balance_key (f b) = balance_key b"
  shows "spares shop_view (execute (update_balance org i f))"
  by (rule spares_execute)
    (auto simp: update_balance_def Let_def shop_view_def map_update_where_same assms split: if_splits)

lemma shop_view_credits [spares_intros]:
  "spares shop_view (reserve_credit x org b service user now clock)"
  "spares shop_view (release_credit x org b service user now clock)"
  "spares shop_view (consume_credit x org b service user now clock)"
  unfolding reserve_credit_def release_credit_def consume_credit_def Let_def
  by (intro spares_intros reads_intros reads_load_credit shop_view_balance; simp add: balance_key_def)+

lemma reads_reserve_parts [reads_intros]:
  "reads (lookup_booking org inp)" "reads (check_reserve org inp)" "reads (check_offer org inp now)" "reads (lock_event org i)"
  "reads (check_capacity org b e st)" "reads (load_for_transition org i r)" "reads (validate_booking_package org b sv now)"
  unfolding lookup_booking_def check_reserve_def check_offer_def lock_event_def check_capacity_def load_for_transition_def
    validate_booking_package_def
  by (intro reads_intros has_entitlement_reads reads_load_credit)+

lemma shop_view_bookings:
  "spares shop_view (reserve_tx x org inp now)" "spares shop_view (create_body x org user r now clock)"
  "spares shop_view (transition_body x org user i tr now clock)"
  unfolding create_body_def transition_body_def reserve_tx_def reserve_new_def reserve_slot_def write_booking_def
    charge_booking_def settle_credit_def bump_event_version_def Let_def
  by (intro spares_intros reads_intros)+

lemma shop_view_handlers:
  "spares shop_view (create_booking x org user event br now clock)"
  "spares shop_view (transition_booking x org user i raw tr now clock)"
  "spares shop_view (create_event x org user er)" "spares shop_view (update_event x org user i er)"
  "spares shop_view (create_time_off x org user resource fr)" "spares shop_view (update_time_off x org user resource i fr)"
  "spares shop_view (delete_time_off x org user resource i v)"
  "spares shop_view (create_rule x org user resource rr)" "spares shop_view (update_rule x org user resource i rr)"
  "spares shop_view (delete_rule x org user resource i v)"
  unfolding create_booking_def transition_booking_def create_event_def update_event_def create_time_off_def
    update_time_off_def delete_time_off_def create_rule_def update_rule_def delete_rule_def Let_def check_slot_def
    ensure_event_available_def check_bookings_def ensure_time_off_free_def ensure_resource_tenant_def resource_location_def
    ensure_rule_free_def
  by (intro spares_intros shop_view_bookings reads_intros reads_event_references reads_ensure_within_recurring)+

section \<open>Requests\<close>

text \<open>
  A request to the calendar, or one to the shop. Granting credits is not a request of its own here: it is what the
  payment of an invoice or the sale of a package does.
\<close>

datatype shop_request =
    Visit request
  | CreateService uuid service_request
  | UpdateService uuid uuid service_request
  | CreateResource uuid resource_request
  | UpdateResource uuid uuid resource_request
  | DeleteDefinition uuid uuid bool delete_request
  | CreatePackage uuid package_request time
  | UpdatePackage uuid uuid bool package_request time
  | CreateInvoice uuid invoice_request "nat \<Rightarrow> time"
  | CreateIntent uuid uuid intent_request time
  | RecordPayment uuid uuid payment_request "nat \<Rightarrow> time"
  | GrantPackage uuid grant_request time
  | SellPackage uuid sale_request "nat \<Rightarrow> time"

fun shop_serve :: "env \<Rightarrow> uuid \<Rightarrow> shop_request \<Rightarrow> (tables, unit) tx" where
  "shop_serve x org (Visit r) = serve x org r"
| "shop_serve x org (CreateService user r) = silent (create_service x org user r)"
| "shop_serve x org (UpdateService user i r) = silent (update_service x org user i r)"
| "shop_serve x org (CreateResource user r) = silent (create_resource x org user r)"
| "shop_serve x org (UpdateResource user i r) = silent (update_resource x org user i r)"
| "shop_serve x org (DeleteDefinition user i service r) = silent (delete_definition x org user i service r)"
| "shop_serve x org (CreatePackage user r now) = silent (create_package x org user r now)"
| "shop_serve x org (UpdatePackage user i retire r now) = silent (update_package x org user i retire r now)"
| "shop_serve x org (CreateInvoice user r clock) = silent (create_invoice x org user r clock)"
| "shop_serve x org (CreateIntent user i r now) = silent (create_payment_intent x org user i r now)"
| "shop_serve x org (RecordPayment user i r clock) = silent (record_manual_payment x org user i r clock)"
| "shop_serve x org (GrantPackage user r now) = silent (create_contact_package x org user r now)"
| "shop_serve x org (SellPackage user r clock) = silent (sell_contact_package x org user r clock)"

fun activation :: "request \<Rightarrow> bool" where
  "activation (ActivatePackage p user now pre) = True"
| "activation _ = False"

fun proper :: "shop_request \<Rightarrow> bool" where
  "proper (Visit r) = (admissible r \<and> \<not> activation r)"
| "proper _ = True"

lemma visit_view: "\<not> activation r \<Longrightarrow> spares shop_view (serve x org r)"
  by (cases r; simp only: serve.simps activation.simps not_True_eq_False;
      intro spares_and_then spares_transaction shop_view_handlers shop_view_bookings spares_reads reads_ret; assumption)

lemma shop_ok_visit:
  assumes "shop_ok t" and "shop_view u = shop_view t" and "safe u"
  shows "shop_ok u"
  using assms money_ok_view packages_ok_cong unfolding shop_ok_def by blast

lemma visit_ok:
  assumes "admissible r" and "\<not> activation r"
  shows "keeps shop_ok (serve x org r)"
  unfolding keeps_def
proof (intro allI impI)
  fix s :: "tables db"
  assume ok: "shop_ok (tabs s)"
  obtain a u where run: "serve x org r s = (a, u)" by (cases "serve x org r s")
  have "safe (tabs u)" using keepsD [OF serve_safe [OF assms(1)] run] ok by (simp add: shop_ok_def)
  then show "shop_ok (tabs (snd (serve x org r s)))"
    using shop_ok_visit [OF ok sparesD [OF visit_view [OF assms(2)] run]] run by simp
qed

lemmas commerce_ok =
  create_invoice_keeps record_manual_payment_ok create_contact_package_ok sell_contact_package_ok
  keeps_spares [OF intent_spares views_cong]
  keeps_spares [OF catalogue_spares(1) views_cong] keeps_spares [OF catalogue_spares(2) views_cong]
  keeps_spares [OF catalogue_spares(3) views_cong] keeps_spares [OF catalogue_spares(4) views_cong]
  keeps_spares [OF catalogue_spares(5) views_cong] keeps_spares [OF catalogue_spares(6) views_cong]
  keeps_spares [OF catalogue_spares(7) views_cong]

lemma shop_serve_ok: "proper r \<Longrightarrow> keeps shop_ok (shop_serve x org r)"
  by (cases r; simp only: shop_serve.simps proper.simps; (elim conjE)?; (intro keeps_silent commerce_ok)?;
      (rule visit_ok; assumption)?; assumption?)

section \<open>Runs\<close>

definition shop_start :: "tables \<Rightarrow> bool" where
  "shop_start t \<longleftrightarrow> fresh_start t \<and> invoices t = [] \<and> lines t = [] \<and> payments t = [] \<and> packages t = []"

inductive shop_step :: "env \<Rightarrow> tables db \<Rightarrow> tables db \<Rightarrow> bool" for x where
  served: "proper r \<Longrightarrow> shop_serve x org r s = (answer, u) \<Longrightarrow> shop_step x s u"
| merged: "views (tabs u) = views (move_standalone org source target (tabs s)) \<Longrightarrow> shop_step x s u"
| elsewhere: "views (tabs u) = views (tabs s) \<Longrightarrow> shop_step x s u"

inductive shop_reachable :: "env \<Rightarrow> tables db \<Rightarrow> bool" for x where
  start: "shop_start (tabs s) \<Longrightarrow> shop_reachable x s"
| step: "shop_reachable x s \<Longrightarrow> shop_step x s u \<Longrightarrow> shop_reachable x u"

lemma moved_shop_view: "shop_view (move_standalone org source target t) = shop_view t"
  by (simp add: shop_view_def move_standalone_def)

lemma shop_step_ok: "shop_step x s u \<Longrightarrow> shop_ok (tabs s) \<Longrightarrow> shop_ok (tabs u)"
proof (induction rule: shop_step.induct)
  case (served r org s answer u)
  then show ?case using keepsD [OF shop_serve_ok] by blast
next
  case (merged u org source target s)
  then have "shop_ok (move_standalone org source target (tabs s))"
    using shop_ok_visit [OF _ moved_shop_view moved_safe] by (simp add: shop_ok_def)
  with merged(1) show ?case using views_cong by blast
next
  case (elsewhere u s)
  then show ?case using views_cong by blast
qed

lemma shop_reachable_ok: "shop_reachable x s \<Longrightarrow> shop_ok (tabs s)"
proof (induction rule: shop_reachable.induct)
  case (start s)
  then have "safe (tabs s)" using fresh_safe by (simp add: shop_start_def)
  with start show ?case by (simp add: shop_start_def fresh_start_def shop_ok_def money_ok_def packages_ok_def)
next
  case (step s u)
  then show ?case by (blast intro: shop_step_ok)
qed

end
