(* ===== verification/ShopProperties.thy ===== *)
theory ShopProperties
  imports ShopSystem
begin

text \<open>
  What the shop promises: the arithmetic of its invoices, credits only for what is paid, a payment recorded once, and
  a calendar that commerce never moves.
\<close>

section \<open>Commerce leaves the calendar alone\<close>

lemma calendar_view: "views t = views u \<Longrightarrow> calendar_of t = calendar_of u"
  by (simp add: views_def guarded_def calendar_of_def)

lemma spares_or_duplicate [spares_intros]: "spares g m \<Longrightarrow> spares g (or_duplicate m e)"
  unfolding spares_def or_duplicate_def by (auto split: prod.split sum.split) (metis snd_conv)+

lemma calendar_writes [spares_intros]:
  "spares calendar_of (execute (insert_invoice v))" "spares calendar_of (execute (insert_lines ls))"
  "spares calendar_of (execute (insert_payment x p))" "spares calendar_of (execute (write_paid org n user v))"
  "spares calendar_of (execute (activate_package_row org user q))" "spares calendar_of (execute (insert_package q))"
  by (rule spares_execute; auto simp: insert_invoice_def insert_lines_def insert_payment_def write_paid_def
      activate_package_row_def insert_package_def calendar_of_def Let_def split: if_splits)+

lemma calendar_pieces [spares_intros]:
  "spares calendar_of (audit_change org user rtype rid action old new)" "spares calendar_of (record_tx x org now inp)"
  "spares calendar_of (grant_credits x org p user now pre)" "spares calendar_of (resolve_manual_account x org user requested)"
  "spares calendar_of (create_payment_intent x org user i nr now)"
  by (rule spares_weaken [OF spares_side(1)], erule calendar_view, rule spares_weaken [OF spares_side(2)], erule calendar_view,
      rule spares_weaken [OF grant_spares], erule schedule_calendar, rule spares_weaken [OF manual_account_spares],
      erule calendar_view, rule spares_weaken [OF intent_spares], erule calendar_view)

lemma calendar_activate [spares_intros]: "spares calendar_of (activate_paid_packages x org v user i now)"
  unfolding activate_paid_packages_def activate_package_def Let_def by (intro spares_intros reads_intros)

lemma reads_invoice_lines [reads_intros]: "reads (build_invoice_lines x org v inputs)"
  unfolding build_invoice_lines_def by (rule reads_build_lines)

lemma calendar_invoice [spares_intros]:
  "spares calendar_of (write_invoice x org user print v ls now clock)"
  "spares calendar_of (write_sale_invoice x org user sr print v ls now clock)"
  unfolding write_invoice_def write_sale_invoice_def by (intro spares_intros reads_intros)+

lemma calendar_settle [spares_intros]: "spares calendar_of (settle_invoice x org user r v a clock)"
  unfolding settle_invoice_def Let_def by (intro spares_intros reads_intros)

lemma calendar_package [spares_intros]:
  "spares calendar_of (write_package x org user gr p now)"
  "spares calendar_of (assign_package x org user sr d print v md now clock)"
  unfolding write_package_def assign_package_def Let_def by (intro spares_intros reads_intros)+

lemma calendar_sale [spares_intros]:
  "spares calendar_of (find_sale_invoice x org user sr d print inner clk)"
  unfolding find_sale_invoice_def sale_invoice_def Let_def by (intro spares_intros reads_intros)

lemma calendar_bodies [spares_intros]:
  "spares calendar_of (invoice_body x org user vr print v now clock)"
  "spares calendar_of (payment_body x org user i yr clk)" "spares calendar_of (grant_body x org user gr now)"
  "spares calendar_of (sale_body x org user sr print clk)"
  unfolding invoice_body_def payment_body_def grant_body_def sale_body_def
  by (intro spares_intros reads_intros reads_check_funding)+

lemma calendar_handlers:
  "spares calendar_of (create_invoice x org user vr clk)" "spares calendar_of (record_manual_payment x org user i yr clk)"
  "spares calendar_of (create_contact_package x org user gr now)" "spares calendar_of (sell_contact_package x org user sr clk)"
  unfolding create_invoice_def record_manual_payment_def create_contact_package_def sell_contact_package_def Let_def
  by (intro spares_intros reads_intros)+

lemma shop_calendar:
  "\<forall>v. r \<noteq> Visit v \<Longrightarrow> spares calendar_of (shop_serve x org r)"
  by (cases r; simp only: shop_serve.simps shop_request.inject simp_thms;
      intro spares_and_then calendar_handlers calendar_pieces spares_reads reads_ret
        catalogue_spares [THEN spares_weaken] calendar_view; assumption?)

lemma calendar_plan: "calendar_of u = calendar_of t \<Longrightarrow> plan_of u = plan_of t"
  by (rule plan_of_cong) (simp_all add: calendar_of_def)

text \<open>
  C33: the calendar and the shop compose. In any state the whole system can reach, a request of the calendar does to the
  places of events what it asks for, as if there were no shop, and a request of commerce, whether it succeeds or not,
  leaves every event, booking and time off as it was: no sale, payment or retirement takes, frees or resizes a place.
\<close>
theorem shop_refines_seat_machine:
  assumes "shop_reachable x s" and "proper r" and "shop_serve x org r s = (answer, u)"
  shows "case r of
      Visit v \<Rightarrow> carried (asked x org v s) (tabs s) answer (tabs u)
    | _ \<Rightarrow> events (tabs u) = events (tabs s) \<and> bookings (tabs u) = bookings (tabs s) \<and> time_offs (tabs u) = time_offs (tabs s)"
proof (cases "\<exists>v. r = Visit v")
  case True
  then obtain v where v: "r = Visit v" by blast
  have "admissible v" "serve x org v s = (answer, u)" using assms(2,3) v by simp_all
  then have "carried (asked x org v s) (tabs s) answer (tabs u)"
    using shop_reachable_ok [OF assms(1)] by (intro serve_carried) (simp_all add: shop_ok_def)
  then show ?thesis by (simp add: v)
next
  case False
  then have "spares calendar_of (shop_serve x org r)" by (intro shop_calendar) blast
  from sparesD [OF this assms(3)] False show ?thesis by (cases r) (simp_all add: calendar_of_def)
qed

section \<open>Invoices and credits in every reachable state\<close>

text \<open>
  C2: every invoice balances in every reachable state. Its subtotal and tax are the sums of its lines, its total is
  subtotal less discount plus tax, what is paid is the sum of the successful charges recorded for it, what is due is the
  rest; all are exact, never negative and within 64 bits, and it is marked paid exactly when nothing is due.
\<close>
theorem invoices_balance:
  assumes "shop_reachable x s" and "v \<in> set (invoices (tabs s))"
  shows "iv_subtotal v = line_subtotals (iv_key_of v) (tabs s) \<and> iv_tax v = line_taxes (iv_key_of v) (tabs s)
    \<and> iv_total v = iv_subtotal v - iv_discount v + iv_tax v
    \<and> iv_paid v = collected (iv_key_of v) (tabs s) \<and> iv_due v = iv_total v - iv_paid v
    \<and> 0 \<le> iv_discount v \<and> iv_discount v \<le> iv_subtotal v \<and> 0 \<le> iv_paid v \<and> 0 \<le> iv_due v \<and> iv_total v \<le> max_i64
    \<and> (iv_status v = s_paid \<longleftrightarrow> iv_due v = 0) \<and> (iv_status v = s_open \<longleftrightarrow> 0 < iv_due v)"
proof -
  have "invoice_ok (tabs s) v" using shop_reachable_ok [OF assms(1)] assms(2) by (simp add: shop_ok_def money_ok_def)
  then have v: "invoice_values v" "iv_total v \<le> max_i64" "settled v" "iv_subtotal v = line_subtotals (iv_key_of v) (tabs s)"
    "iv_tax v = line_taxes (iv_key_of v) (tabs s)" "iv_paid v = collected (iv_key_of v) (tabs s)"
    by (simp_all add: invoice_ok_def)
  have "(iv_status v = s_paid \<longleftrightarrow> iv_due v = 0) \<and> (iv_status v = s_open \<longleftrightarrow> 0 < iv_due v)"
    using v(1,3) by (auto simp: settled_def invoice_values_def split: if_splits)
  with v(1,2,4-6) show ?thesis unfolding invoice_values_def by (elim conjE) (intro conjI; assumption)
qed

text \<open>
  C4: credits follow payment in every reachable state. A package bought with an invoice waits exactly while that
  invoice is open, a package granted without one never waits, and a credit balance only ever exists for a package
  whose invoice, if it has one, is paid.
\<close>
theorem credits_follow_payment:
  assumes "shop_reachable x s"
  shows "(\<forall>p\<in>set (packages (tabs s)). case cp_invoice p of
       None \<Rightarrow> cp_status p \<noteq> ''pending''
     | Some i \<Rightarrow> \<exists>v\<in>set (invoices (tabs s)). iv_id v = i \<and> iv_org v = cp_org p \<and> (cp_status p = ''pending'' \<longleftrightarrow> 0 < iv_due v))
    \<and> (\<forall>b\<in>set (balances (tabs s)). \<exists>p\<in>set (packages (tabs s)). cp_id p = cb_package b \<and> cp_org p = cb_org b
        \<and> (\<forall>i. cp_invoice p = Some i \<longrightarrow>
             (\<exists>v\<in>set (invoices (tabs s)). iv_id v = i \<and> iv_org v = cb_org b \<and> iv_status v = s_paid \<and> iv_due v = 0)))"
proof -
  have ok: "shop_ok (tabs s)" by (rule shop_reachable_ok [OF assms])
  have set: "settled v" "0 \<le> iv_due v" if "v \<in> set (invoices (tabs s))" for v
  proof -
    have "invoice_ok (tabs s) v" using ok that by (simp add: shop_ok_def money_ok_def)
    then show "settled v" "0 \<le> iv_due v" unfolding invoice_ok_def invoice_values_def by blast+
  qed
  have op: "iv_status v = s_open \<longleftrightarrow> 0 < iv_due v" "iv_status v \<noteq> s_open \<Longrightarrow> iv_status v = s_paid \<and> iv_due v = 0"
    if "v \<in> set (invoices (tabs s))" for v using set [OF that] by (auto simp: settled_def split: if_splits)
  have f: "funded (tabs s) p" if "p \<in> set (packages (tabs s))" for p using ok that by (simp add: shop_ok_def packages_ok_def)
  have "case cp_invoice p of
       None \<Rightarrow> cp_status p \<noteq> ''pending''
     | Some i \<Rightarrow> \<exists>v\<in>set (invoices (tabs s)). iv_id v = i \<and> iv_org v = cp_org p \<and> (cp_status p = ''pending'' \<longleftrightarrow> 0 < iv_due v)"
    if "p \<in> set (packages (tabs s))" for p
    using f [OF that] op(1) unfolding funded_def by (auto split: option.splits)
  moreover have "\<exists>p\<in>set (packages (tabs s)). cp_id p = cb_package b \<and> cp_org p = cb_org b
      \<and> (\<forall>i. cp_invoice p = Some i \<longrightarrow>
             (\<exists>v\<in>set (invoices (tabs s)). iv_id v = i \<and> iv_org v = cb_org b \<and> iv_status v = s_paid \<and> iv_due v = 0))"
    if b: "b \<in> set (balances (tabs s))" for b
  proof -
    from ok b obtain p where p: "p \<in> set (packages (tabs s))" "cp_id p = cb_package b" "cp_org p = cb_org b" "cp_status p \<noteq> ''pending''"
      by (auto simp: shop_ok_def packages_ok_def credited_def)
    have "\<exists>v\<in>set (invoices (tabs s)). iv_id v = i \<and> iv_org v = cb_org b \<and> iv_status v = s_paid \<and> iv_due v = 0"
      if i: "cp_invoice p = Some i" for i
    proof -
      from f [OF p(1)] i p obtain v where "v \<in> set (invoices (tabs s))" "iv_id v = i" "iv_org v = cb_org b" "iv_status v \<noteq> s_open"
        by (auto simp: funded_def)
      with op(2) show ?thesis by blast
    qed
    with p show ?thesis by blast
  qed
  ultimately show ?thesis by blast
qed

end
