(* ===== verification/PaymentReplay.thy ===== *)
theory PaymentReplay
  imports ShopProperties
begin

text \<open>
  Payments are only ever added, under keys no other payment of the tenant has, and invoices stay where they are; so a
  payment request that was carried out finds its payment whenever it is sent again.
\<close>

section \<open>Payments grow\<close>

definition pay_key :: "payment_row \<Rightarrow> uuid \<times> string" where
  "pay_key p = (pt_org p, pt_key p)"

definition iv_place :: "invoice_row \<Rightarrow> uuid \<times> uuid \<times> bool" where
  "iv_place v = (iv_id v, iv_org v, iv_deleted v)"

definition extends :: "tables \<Rightarrow> tables \<Rightarrow> bool" where
  "extends t0 t \<longleftrightarrow> set (payments t0) \<subseteq> set (payments t) \<and> distinct (map pay_key (payments t))
     \<and> set (map iv_place (invoices t0)) \<subseteq> set (map iv_place (invoices t))"

definition pay_view :: "tables \<Rightarrow> payment_row list \<times> (uuid \<times> uuid \<times> bool) list" where
  "pay_view t = (payments t, map iv_place (invoices t))"

lemma extends_cong: "pay_view t = pay_view u \<Longrightarrow> extends t0 t = extends t0 u"
  by (simp add: pay_view_def extends_def)

lemma extends_spares: "spares pay_view m \<Longrightarrow> maintains (extends t0) m"
  by (rule maintains_spares) (use extends_cong in blast)+

lemma pay_view_of_views: "views t = views u \<Longrightarrow> pay_view t = pay_view u"
  by (simp add: views_def shop_view_def pay_view_def)

lemma pay_view_of_shop: "shop_view t = shop_view u \<Longrightarrow> pay_view t = pay_view u"
  by (simp add: shop_view_def pay_view_def)

lemma pay_view_of_schedule: "schedule t = schedule u \<Longrightarrow> pay_view t = pay_view u"
  using schedule_eqD [of t u] by (simp add: pay_view_def)

lemma pay_view_writes [spares_intros]:
  "spares pay_view (execute (insert_lines ls))" "spares pay_view (execute (write_paid org n user v))"
  "spares pay_view (execute (activate_package_row org user q))" "spares pay_view (execute (insert_package q))"
  by (rule spares_execute; auto simp: insert_lines_def write_paid_def activate_package_row_def insert_package_def pay_view_def
      Let_def map_update_where_same iv_place_def split: if_splits)+

lemma pay_view_pieces [spares_intros]:
  "spares pay_view (audit_change org user rtype rid action old new)" "spares pay_view (record_tx x org now inp)"
  "spares pay_view (grant_credits x org p user now pre)" "spares pay_view (resolve_manual_account x org user requested)"
  "spares pay_view (create_payment_intent x org user i nr now)"
  by (rule spares_weaken [OF spares_side(1)], erule pay_view_of_views, rule spares_weaken [OF spares_side(2)],
      erule pay_view_of_views, rule spares_weaken [OF grant_spares], erule pay_view_of_schedule,
      rule spares_weaken [OF manual_account_spares], erule pay_view_of_views, rule spares_weaken [OF intent_spares],
      erule pay_view_of_views)

lemma pay_view_activate [spares_intros]: "spares pay_view (activate_paid_packages x org v user i now)"
  unfolding activate_paid_packages_def activate_package_def Let_def by (intro spares_intros reads_intros)

lemma maintains_or_duplicate [maintains_intros]: "maintains I m \<Longrightarrow> maintains I (or_duplicate m e)"
  by (simp add: maintains_def or_duplicate_Inr)

lemma extends_insert_invoice: "maintains (extends t0) (execute (insert_invoice v))"
  by (rule maintains_execute) (auto simp: insert_invoice_def extends_def split: if_splits)

lemma extends_insert_payment: "maintains (extends t0) (execute (insert_payment x p))"
  by (rule maintains_execute, auto simp: insert_payment_def extends_def pay_key_def split: if_splits, blast)

lemma extends_pieces:
  "maintains (extends t0) (write_invoice x org user print v ls now clock)"
  "maintains (extends t0) (write_sale_invoice x org user sr print v ls now clock)"
  "maintains (extends t0) (settle_invoice x org user yr v a clk)"
  "maintains (extends t0) (write_package x org user gr p now)"
  "maintains (extends t0) (assign_package x org user sr d print v md now clock)"
  unfolding write_invoice_def write_sale_invoice_def settle_invoice_def write_package_def assign_package_def Let_def
  by (intro maintains_intros extends_insert_invoice extends_insert_payment; (rule extends_spares, (intro spares_intros reads_intros)))+

lemma extends_sale: "maintains (extends t0) (find_sale_invoice x org user sr d print inner clk)"
  unfolding find_sale_invoice_def sale_invoice_def Let_def
  by (intro maintains_intros extends_pieces maintains_reads [OF reads_package_lookup]
      maintains_reads [OF reads_lookup [OF reads_first]] maintains_reads [OF reads_mint] maintains_reads [OF reads_lift_res]
      maintains_reads [OF reads_invoice_lines] maintains_reads [OF reads_ret] maintains_reads [OF reads_reject])

lemmas read_steps = maintains_reads [OF reads_lookup] maintains_reads [OF reads_or_fail] maintains_reads [OF reads_checks(4)]
  maintains_reads [OF reads_invoice_lines] maintains_reads [OF reads_ret] maintains_reads [OF reads_reject]
  maintains_reads [OF reads_query] maintains_reads [OF reads_mint] maintains_reads [OF reads_or_same(1)]
  maintains_reads [OF reads_or_same(2)] maintains_reads [OF reads_or_same(3)] maintains_reads [OF reads_or_same(5)]
  maintains_reads [OF reads_or_same(7)] maintains_reads [OF reads_check_funding] maintains_reads [OF reads_replay_sale]
  maintains_reads [OF reads_fail]

lemma extends_bodies:
  "maintains (extends t0) (invoice_body x org user vr print v now clock)"
  "maintains (extends t0) (payment_body x org user i yr clk)" "maintains (extends t0) (grant_body x org user gr now)"
  "maintains (extends t0) (sale_body x org user sr print clk)"
  unfolding invoice_body_def payment_body_def grant_body_def sale_body_def
  by (intro maintains_intros extends_pieces extends_sale extends_spares [OF pay_view_pieces(4)] read_steps reads_first
      reads_or_same(6))+

lemma extends_create_invoice: "maintains (extends t0) (create_invoice x org user vr clk)"
  unfolding create_invoice_def Let_def
  by (intro maintains_intros extends_bodies read_steps maintains_reads [OF reads_lift_res])

lemma extends_commerce:
  "keeps (extends t0) (create_invoice x org user vr clk)" "keeps (extends t0) (record_manual_payment x org user i yr clk)"
  "keeps (extends t0) (create_contact_package x org user gr now)" "keeps (extends t0) (sell_contact_package x org user sr clk)"
proof -
  show "keeps (extends t0) (sell_contact_package x org user sr clk)"
    by (rule keeps_sell) (rule extends_bodies)
  show "keeps (extends t0) (create_invoice x org user vr clk)"
    by (rule keeps_maintains [OF _ extends_create_invoice])
      (unfold create_invoice_def Let_def, intro atomic_intros reads_intros)
  show "keeps (extends t0) (record_manual_payment x org user i yr clk)"
    unfolding record_manual_payment_def
    by (intro keeps_and_then keeps_maintains_transaction extends_bodies keeps_reads reads_lift_res)
  show "keeps (extends t0) (create_contact_package x org user gr now)"
    unfolding create_contact_package_def
    by (intro keeps_and_then keeps_maintains_transaction extends_bodies keeps_reads reads_intros)
qed

lemma extends_silent: "spares views m \<Longrightarrow> keeps (extends t0) (silent m)"
  by (rule keeps_silent, rule keeps_spares, erule spares_weaken, erule pay_view_of_views) (rule extends_cong)

lemma shop_extends:
  assumes "\<forall>v. r \<noteq> Visit v"
  shows "keeps (extends t0) (shop_serve x org r)"
proof (cases r)
  case (Visit v)
  with assms show ?thesis by blast
next
  case (CreateIntent user i q n)
  show ?thesis unfolding CreateIntent shop_serve.simps by (rule extends_silent [OF intent_spares])
qed (simp only: shop_serve.simps; rule keeps_silent [OF extends_commerce(1)] keeps_silent [OF extends_commerce(2)]
    keeps_silent [OF extends_commerce(3)] keeps_silent [OF extends_commerce(4)] extends_silent [OF catalogue_spares(1)]
    extends_silent [OF catalogue_spares(2)] extends_silent [OF catalogue_spares(3)] extends_silent [OF catalogue_spares(4)]
    extends_silent [OF catalogue_spares(5)] extends_silent [OF catalogue_spares(6)] extends_silent [OF catalogue_spares(7)])+

lemma step_extends: "shop_step x s u \<Longrightarrow> extends t0 (tabs s) \<Longrightarrow> extends t0 (tabs u)"
proof (induction rule: shop_step.induct)
  case (served r org s answer u)
  show ?case
  proof (cases "\<exists>v. r = Visit v")
    case True
    then obtain v where v: "r = Visit v" by blast
    have "\<not> activation v" "serve x org v s = (answer, u)" using served v by simp_all
    from pay_view_of_shop [OF sparesD [OF visit_view [OF this(1)] this(2)]] served(3) extends_cong show ?thesis by blast
  next
    case False
    then have "keeps (extends t0) (shop_serve x org r)" by (intro shop_extends) blast
    from keepsD [OF this served(2,3)] show ?thesis .
  qed
next
  case (merged u org source target s)
  have "extends t0 (tabs u) = extends t0 (move_standalone org source target (tabs s))"
    by (rule extends_cong [OF pay_view_of_views [OF merged(1)]])
  also have "\<dots> = extends t0 (tabs s)" by (rule extends_cong [OF pay_view_of_shop [OF moved_shop_view]])
  finally show ?case using merged(2) by simp
next
  case (elsewhere u s)
  then show ?case using extends_cong [OF pay_view_of_views] by blast
qed

lemma reachable_keys: "shop_reachable x s \<Longrightarrow> distinct (map pay_key (payments (tabs s)))"
proof (induction rule: shop_reachable.induct)
  case (start s)
  then show ?case by (simp add: shop_start_def)
next
  case (step s u)
  from step(3) have "extends (tabs s) (tabs s)" by (simp add: extends_def)
  from step_extends [OF step(2) this] show ?case by (simp add: extends_def)
qed

lemma steps_extend: "(shop_step x)\<^sup>*\<^sup>* s u \<Longrightarrow> extends t0 (tabs s) \<Longrightarrow> extends t0 (tabs u)"
  by (induction rule: rtranclp_induct) (auto intro: step_extends)

lemma steps_reachable: "(shop_step x)\<^sup>*\<^sup>* s u \<Longrightarrow> shop_reachable x s \<Longrightarrow> shop_reachable x u"
  by (induction rule: rtranclp_induct) (auto intro: shop_reachable.step)

section \<open>What a recorded payment leaves\<close>

definition recorded :: "uuid \<Rightarrow> uuid \<Rightarrow> payment_request \<Rightarrow> payment_row \<Rightarrow> tables \<Rightarrow> bool" where
  "recorded org i r p t \<longleftrightarrow> p \<in> set (payments t) \<and> pay_key p = (org, trim_space (yq_key r)) \<and> same_payment i r p
     \<and> (i, org, False) \<in> set (map iv_place (invoices t))"

lemma payment_with_key_Some:
  "payment_with_key org key t = Some p \<Longrightarrow> p \<in> set (payments t) \<and> pt_org p = org \<and> pt_key p = key"
  unfolding payment_with_key_def by (drule first_in_filterD) simp

lemma settle_recorded:
  assumes run: "settle_invoice x org user r v a clock s = (Inr res, u)" and v: "iv_id v = i"
    and c: "upper_text (trim_space (yq_currency r)) = iv_currency v"
  shows "same_payment i r (pr_payment res) \<and> pay_key (pr_payment res) = (org, trim_space (yq_key r))
    \<and> pr_payment res \<in> set (payments (tabs u))"
  using run
proof (rule settle_invoice_Inr)
  fix j s1 p w s2 s3 s4 n e1 e2
  assume p: "p = new_payment j org r a v (case yq_occurred r of None \<Rightarrow> clock 1 | Some t \<Rightarrow> t)"
    and 1: "or_duplicate (execute (insert_payment x p)) (client_conflict m_payment_duplicate) s1 = (Inr e1, s2)"
    and 2: "execute (write_paid org (yq_version r) user w) s2 = (Inr n, s3)"
    and 3: "(if iv_status w = s_paid then activate_paid_packages x org w user j (clock 3) else ret ()) s3 = (Inr e2, s4)"
    and 4: "settle_tail x org user v w p clock s4 = (Inr res, u)"
  have act: "spares pay_view (if iv_status w = s_paid then activate_paid_packages x org w user j (clock 3) else ret ())"
    by (intro spares_intros reads_intros)
  have "pay_view (tabs u) = pay_view (tabs s2)"
    using sparesD [OF pay_view_writes(2) 2] sparesD [OF act 3] pay_view_of_views [OF sparesD [OF settle_tail_spares 4]] by simp
  then have "p \<in> set (payments (tabs u))" using insert_payment_Inr [OF 1] by (simp add: pay_view_def)
  moreover have "same_payment i r p" "pay_key p = (org, trim_space (yq_key r))"
    using v c by (simp_all add: p same_payment_def pay_key_def new_payment_def Let_def equal_fold_def)
  ultimately show ?thesis using settle_tail_Inr [OF 4] by blast
qed

definition places :: "tables \<Rightarrow> (uuid \<times> uuid \<times> bool) list" where
  "places t = map iv_place (invoices t)"

lemma places_pieces:
  "pay_view t = pay_view u \<Longrightarrow> places t = places u"
  by (simp add: pay_view_def places_def)

lemma places_settle: "spares places (settle_invoice x org user r v a clock)"
proof -
  have p: "spares places (execute (insert_payment x p))" for p
    by (rule spares_execute) (auto simp: insert_payment_def places_def split: if_splits)
  note w = pay_view_writes(2) [THEN spares_weaken, OF places_pieces] pay_view_pieces(1,2) [THEN spares_weaken, OF places_pieces]
    pay_view_activate [THEN spares_weaken, OF places_pieces]
  show ?thesis
    unfolding settle_invoice_def Let_def
    by (intro spares_and_then spares_if spares_or_duplicate p w spares_reads [OF reads_mint] spares_reads [OF reads_reject]
        spares_reads [OF reads_ret]; assumption)
qed

lemma payment_recorded:
  assumes "payment_body x org user i r clock s = (Inr res, u)"
  shows "recorded org i r (pr_payment res) (tabs u)"
  using assms
proof (cases rule: payment_body_Inr)
  case (found p v)
  with payment_with_key_Some [OF found(3)] invoice_by_id_Some [OF found(5)] show ?thesis
    by (auto simp: recorded_def pay_key_def iv_place_def image_iff)
next
  case (settled v a s1)
  note v = invoice_by_id_Some [OF settled(1)]
  have "map iv_place (invoices (tabs u)) = map iv_place (invoices (tabs s1))"
    using sparesD [OF places_settle settled(7)] by (simp add: places_def)
  then have "(i, org, False) \<in> set (map iv_place (invoices (tabs u)))"
    using v views_parts(1) [OF settled(6)] by (force simp: iv_place_def)
  with settle_recorded [OF settled(7) _ settled(4)] v show ?thesis by (simp add: recorded_def)
qed

section \<open>Sending it again\<close>

lemma lookup_calm: "faults s = [] \<Longrightarrow> q (tabs s) = Some r \<Longrightarrow> lookup (first q) s = (Inr (Some r), s)"
  by (simp add: lookup_def first_calm)

lemma transaction_calm: "faults s = [] \<Longrightarrow> m s = (Inr a, s) \<Longrightarrow> transaction m s = (Inr a, s)"
  by (simp add: transaction_def and_then_def poll_calm ret_def)

lemma found_again:
  assumes "distinct (map pay_key (payments t))" and "recorded org i r p t"
  shows "payment_with_key org (trim_space (yq_key r)) t = Some p"
proof -
  let ?c = "\<lambda>q. pt_org q = org \<and> pt_key q = trim_space (yq_key r)"
  have p: "p \<in> set (payments t)" "?c p" using assms(2) by (simp_all add: recorded_def pay_key_def)
  then have "filter ?c (payments t) \<noteq> []" by (auto simp: filter_empty_conv)
  then obtain q where q: "payment_with_key org (trim_space (yq_key r)) t = Some q"
    unfolding payment_with_key_def by (cases "first_in (by_key pt_id) (filter ?c (payments t))") auto
  note Q = payment_with_key_Some [OF q]
  have "inj_on pay_key (set (payments t))" using assms(1) by (simp add: distinct_map)
  from inj_onD [OF this, of q p] Q p have "q = p" by (simp add: pay_key_def)
  with q show ?thesis by simp
qed

lemma invoice_again:
  assumes "(i, org, False) \<in> set (map iv_place (invoices t))"
  obtains w where "invoice_by_id org i t = Some w"
proof -
  from assms have "filter (\<lambda>v. iv_id v = i \<and> iv_org v = org \<and> \<not> iv_deleted v) (invoices t) \<noteq> []"
    by (auto simp: iv_place_def filter_empty_conv)
  then obtain w where "invoice_by_id org i t = Some w"
    unfolding invoice_by_id_def
    by (cases "first_in (by_key iv_id) (filter (\<lambda>v. iv_id v = i \<and> iv_org v = org \<and> \<not> iv_deleted v) (invoices t))") auto
  then show ?thesis by (rule that)
qed

lemma validate_payment_later:
  "validate_payment raw now = Inr r \<Longrightarrow> now \<le> now' \<Longrightarrow> validate_payment raw now' = Inr r"
  by (auto simp: validate_payment_def Let_def split: if_splits option.splits)

lemma payment_body_again:
  assumes "faults s = []" and "distinct (map pay_key (payments (tabs s)))" and rec: "recorded org i r p (tabs s)"
  shows "\<exists>w. invoice_by_id org i (tabs s) = Some w
    \<and> payment_body x org user i r clock s = (Inr \<lparr>pr_invoice = w, pr_payment = p, pr_idempotent = True\<rparr>, s)"
proof -
  have "(i, org, False) \<in> set (map iv_place (invoices (tabs s)))" and same: "same_payment i r p" using rec by (simp_all add: recorded_def)
  from this(1) obtain w where w: "invoice_by_id org i (tabs s) = Some w" by (rule invoice_again)
  have "payment_body x org user i r clock s = (Inr \<lparr>pr_invoice = w, pr_payment = p, pr_idempotent = True\<rparr>, s)"
    unfolding payment_body_def and_then_def [of "lookup _"] lookup_calm [where q = "payment_with_key org (trim_space (yq_key r))", OF assms(1) found_again [OF assms(2) rec]]
    using same w assms(1) by (simp add: act_simps replay_payment_def)
  with w show ?thesis by blast
qed

text \<open>
  C8: a payment is recorded once, however often it is sent. After a request to record a manual payment has succeeded,
  and whatever requests have been served since, sending the same request again at a later time answers with the very
  payment that was recorded, marked as a repetition, and changes nothing: no second charge, no second activation.
\<close>
theorem payment_recorded_once:
  assumes "shop_reachable x s" and "record_manual_payment x org user i raw clock s = (Inr res, u)"
    and "(shop_step x)\<^sup>*\<^sup>* u v" and "clock 0 \<le> clock2 0" and "faults v = []"
  shows "\<exists>w. record_manual_payment x org user2 i raw clock2 v
      = (Inr \<lparr>pr_invoice = w, pr_payment = pr_payment res, pr_idempotent = True\<rparr>, v)
    \<and> iv_id w = i \<and> w \<in> set (invoices (tabs v)) \<and> pr_payment res \<in> set (payments (tabs v))"
proof -
  from assms(2) obtain r s1 where val: "validate_payment raw (clock 0) = Inr r" and
    t: "transaction (payment_body x org user i r clock) s1 = (Inr res, u)"
    unfolding record_manual_payment_def by (auto simp: ok_simps as_client_def split: sum.splits)
  from t obtain s2 u1 where b: "payment_body x org user i r clock s2 = (Inr res, u1)" and tu: "tabs u = tabs u1"
    by (rule transaction_Inr) blast
  have rec: "recorded org i r (pr_payment res) (tabs u)" using payment_recorded [OF b] tu by simp
  have "shop_step x s u"
    by (rule shop_step.served [where r = "RecordPayment user i raw clock" and org = org and answer = "Inr ()"])
      (use assms(2) in \<open>simp_all add: and_then_def ret_def\<close>)
  then have ru: "shop_reachable x u" using assms(1) by (rule shop_reachable.step [rotated])
  have "extends (tabs u) (tabs u)" using reachable_keys [OF ru] by (simp add: extends_def)
  from steps_extend [OF assms(3) this] have ext: "extends (tabs u) (tabs v)" .
  then have rec2: "recorded org i r (pr_payment res) (tabs v)" using rec by (auto simp: recorded_def extends_def)
  have keys: "distinct (map pay_key (payments (tabs v)))" using ext by (simp add: extends_def)
  from payment_body_again [OF assms(5) keys rec2] obtain w where w: "invoice_by_id org i (tabs v) = Some w" and
    run: "payment_body x org user2 i r clock2 v = (Inr \<lparr>pr_invoice = w, pr_payment = pr_payment res, pr_idempotent = True\<rparr>, v)"
    by blast
  have "validate_payment raw (clock2 0) = Inr r" by (rule validate_payment_later [OF val assms(4)])
  then have "record_manual_payment x org user2 i raw clock2 v
      = (Inr \<lparr>pr_invoice = w, pr_payment = pr_payment res, pr_idempotent = True\<rparr>, v)"
    unfolding record_manual_payment_def using transaction_calm [where m = "payment_body x org user2 i r clock2", OF assms(5) run]
    by (simp add: and_then_def as_client_def lift_res_def)
  with invoice_by_id_Some [OF w] rec2 show ?thesis by (auto simp: recorded_def)
qed

end
