(* ===== verification/ShopAnswers.thy ===== *)
theory ShopAnswers
  imports ShopProperties
begin

text \<open>
  What single requests of the shop answer: refusals that change nothing, a payment that is recorded once however
  often it is sent, checked money against exact integers, and what a deleted definition leaves behind.
\<close>

section \<open>Money\<close>

lemma div_less_exact:
  fixes m a b :: int
  assumes "0 < b"
  shows "m div b < a \<longleftrightarrow> m < a * b"
proof -
  have m: "m = m div b * b + m mod b" "0 \<le> m mod b" "m mod b < b" using assms by simp_all
  show ?thesis
  proof
    assume "m div b < a"
    then have "(m div b + 1) * b \<le> a * b" using assms by (intro mult_right_mono) auto
    then have "m div b * b + b \<le> a * b" by (simp add: distrib_right)
    with m show "m < a * b" by linarith
  next
    assume l: "m < a * b"
    show "m div b < a"
    proof (rule ccontr)
      assume "\<not> m div b < a"
      then have "a * b \<le> m div b * b" using assms by (intro mult_right_mono) auto
      with l m show False by linarith
    qed
  qed
qed

text \<open>
  C34: the checked arithmetic of money agrees with exact integers. On any two 64-bit amounts, the multiplication and the
  addition of the invoice code give the exact product and sum when both operands are non-negative and the result fits
  64 bits, and report an error in every other case.
\<close>
theorem checked_money_is_exact:
  assumes "in_i64 a" and "in_i64 b"
  shows "safe_money_multiply a b = (if 0 \<le> a \<and> 0 \<le> b \<and> a * b \<le> max_i64 then Some (a * b) else None)
    \<and> safe_money_add a b = (if 0 \<le> a \<and> 0 \<le> b \<and> a + b \<le> max_i64 then Some (a + b) else None)"
proof -
  have max: "0 \<le> max_i64" by (simp add: max_i64_def)
  have "quot max_i64 b < a \<longleftrightarrow> max_i64 < a * b" if "0 < b"
  proof -
    have "quot max_i64 b = max_i64 div b" by (rule quot_nonneg [OF max that])
    also have "max_i64 div b < a \<longleftrightarrow> max_i64 < a * b" by (rule div_less_exact [OF that])
    finally show ?thesis .
  qed
  then have "safe_money_multiply a b = (if 0 \<le> a \<and> 0 \<le> b \<and> a * b \<le> max_i64 then Some (a * b) else None)"
    using max by (cases "b = 0") (auto simp: safe_money_multiply_def money_range not_le not_less zero_le_mult_iff)
  moreover have "safe_money_add a b = (if 0 \<le> a \<and> 0 \<le> b \<and> a + b \<le> max_i64 then Some (a + b) else None)"
    by (auto simp: safe_money_add_def money_range)
  ultimately show ?thesis ..
qed

section \<open>Refusals\<close>

lemma commerce_atomic:
  "atomic (create_service x org user svr)" "atomic (update_service x org user i svr)"
  "atomic (create_resource x org user rsr)" "atomic (update_resource x org user i rsr)"
  "atomic (delete_definition x org user i service dr)"
  "atomic (create_package x org user kr now)" "atomic (update_package x org user i retire kr now)"
  "atomic (create_invoice x org user vr clk)" "atomic (create_payment_intent x org user i nr now)"
  "atomic (record_manual_payment x org user i yr clk)"
  unfolding create_service_def update_service_def create_resource_def update_resource_def delete_definition_def
    create_package_def update_package_def create_invoice_def create_payment_intent_def record_manual_payment_def Let_def
  by (intro atomic_intros reads_intros)+

lemma create_contact_package_Inl:
  assumes "create_contact_package x org user raw now s = (Inl e, u)"
  shows "tabs u = tabs s \<or> e = ClientError server_error m_load_package"
proof -
  from assms consider "lift_res (as_client (validate_grant raw)) s = (Inl e, u)"
    | r :: grant_request and s1 where "lift_res (as_client (validate_grant raw)) s = (Inr r, s1)" "transaction (grant_body x org user r now) s1 = (Inl e, u)"
    | p :: package_row and s1 where "or_fail (load_package org (cp_id p) 2) (ClientError server_error m_load_package) s1 = (Inl e, u)"
    unfolding create_contact_package_def and_then_Inl by blast
  then show ?thesis
  proof cases
    case 1
    then show ?thesis using atomicD [OF atomic_reads [OF reads_lift_res] 1] by simp
  next
    case (2 r s1)
    from transaction_Inl [OF 2(2)] reads_Inr [OF reads_lift_res 2(1)] show ?thesis by simp
  next
    case (3 p s1)
    then show ?thesis by (auto simp: or_fail_def split: prod.splits sum.splits)
  qed
qed

lemma sell_contact_package_Inl:
  assumes "sell_contact_package x org user raw clock s = (Inl e, u)"
  shows "tabs u = tabs s \<or> e = ClientError server_error m_load_package \<or> e = ClientError server_error m_load_invoice"
proof (cases "as_client (validate_sale raw)")
  case (Inl e')
  with assms show ?thesis by (auto simp: sell_contact_package_def and_then_Inl lift_res_def)
next
  case (Inr r)
  show ?thesis
  proof (cases "sale_fingerprint x r")
    case None
    with assms Inr show ?thesis by (auto simp: sell_contact_package_def and_then_Inl lift_res_def fail_def)
  next
    case (Some print)
    with assms Inr consider "transaction (sale_body x org user r print clock) s = (Inl e, u)"
      | v :: invoice_row and s1 where "or_fail (and_then (first (invoice_by_id org (iv_id v))) (\<lambda>w. and_then preload (\<lambda>_. ret w)))
           (ClientError server_error m_load_invoice) s1 = (Inl e, u)"
      | p :: package_row and s1 where "or_fail (load_package org (cp_id p) 3) (ClientError server_error m_load_package) s1 = (Inl e, u)"
      by (auto simp: sell_contact_package_def lift_res_def and_then_Inl [of "lift_res _"] and_then_Inl [of "transaction _"]
          and_then_Inl [of "or_fail _ _"] ret_def split: prod.splits)
    then show ?thesis
    proof cases
      case 1
      then show ?thesis using transaction_Inl by blast
    qed (auto simp: or_fail_def split: prod.splits sum.splits)
  qed
qed

lemma shop_atomic:
  assumes "\<And>v. r \<noteq> Visit v" "\<And>user q n. r \<noteq> GrantPackage user q n" "\<And>user q c. r \<noteq> SellPackage user q c"
  shows "atomic (shop_serve x org r)"
  using assms by (cases r; simp only: shop_serve.simps; intro atomic_then_ret commerce_atomic; blast)

text \<open>
  C35: a refused request of the shop changes nothing. When a request of the catalogue, of invoices, payments or packages
  ends with an error, for whatever reason, the tables are as they were; the only exception is a package grant or sale
  that was carried out and whose answer could then not be loaded, which says so.
\<close>
theorem refused_shop_request_changes_nothing:
  assumes "shop_serve x org r s = (Inl e, u)" and "\<forall>v. r \<noteq> Visit v"
  shows "tabs u = tabs s \<or> (\<exists>user q n. r = GrantPackage user q n) \<and> e = ClientError server_error m_load_package
    \<or> (\<exists>user q c. r = SellPackage user q c)
        \<and> (e = ClientError server_error m_load_package \<or> e = ClientError server_error m_load_invoice)"
proof (cases "(\<exists>user q n. r = GrantPackage user q n) \<or> (\<exists>user q c. r = SellPackage user q c)")
  case True
  then show ?thesis
  proof (elim disjE exE)
    fix user q n
    assume r: "r = GrantPackage user q n"
    with assms(1) have "silent (create_contact_package x org user q n) s = (Inl e, u)" by (simp only: shop_serve.simps)
    then have "create_contact_package x org user q n s = (Inl e, u)" by (rule silent_Inl [THEN iffD1])
    from create_contact_package_Inl [OF this] r show ?thesis by blast
  next
    fix user q c
    assume r: "r = SellPackage user q c"
    with assms(1) have "silent (sell_contact_package x org user q c) s = (Inl e, u)" by (simp only: shop_serve.simps)
    then have "sell_contact_package x org user q c s = (Inl e, u)" by (rule silent_Inl [THEN iffD1])
    from sell_contact_package_Inl [OF this] r show ?thesis by blast
  qed
next
  case False
  have "atomic (shop_serve x org r)" by (rule shop_atomic) (use False assms(2) in blast)+
  from atomicD [OF this assms(1)] show ?thesis by blast
qed

end
