(* ===== verification/Deletions.thy ===== *)
theory Deletions
  imports ShopProperties
begin

text \<open>
  A definition that is deleted: it was deactivated, at the version the request named, and nothing the system knows, nor
  the audit log tells, ever used it.
\<close>

lemma for_each_reads_Inr:
  assumes "\<And>a. reads (f a)" and "for_each as f s = (Inr (), u)" and "a \<in> set as"
  shows "\<exists>s1 s2. tabs s1 = tabs s \<and> f a s1 = (Inr (), s2)"
  using assms(2,3)
proof (induction as arbitrary: s)
  case (Cons b as)
  from Cons.prems(1) obtain s1 where 1: "f b s = (Inr (), s1)" and 2: "for_each as f s1 = (Inr (), u)"
    by (auto simp: and_then_Inr)
  have "tabs s1 = tabs s" by (rule reads_Inr [OF assms(1) 1])
  with Cons.IH [OF 2] Cons.prems(2) 1 show ?case by (metis set_ConsD)
qed simp

lemma reads_check_steps:
  "reads (check_log x org i service row)" "reads (check_change x org i service row c)" "reads (check_schedule_value x i v)"
  unfolding check_log_def check_change_def check_schedule_value_def check_entries_def check_entry_def check_purchases_def
  by (auto intro!: reads_intros split: any.split)

lemma dependencies_zero:
  assumes "for_each (dependencies org i service) (\<lambda>count.
       and_then (query count) (\<lambda>n. reject (n \<noteq> 0) (client_conflict m_dependencies))) s = (Inr (), u)"
  shows "\<forall>count\<in>set (dependencies org i service). count (tabs s) = 0"
proof
  fix count
  assume "count \<in> set (dependencies org i service)"
  from for_each_reads_Inr [OF _ assms this] obtain s1 s2 where
    t: "tabs s1 = tabs s" and r: "and_then (query count) (\<lambda>n. reject (n \<noteq> 0) (client_conflict m_dependencies)) s1 = (Inr (), s2)"
    by (blast intro: reads_intros)
  from r obtain n s3 where q: "query count s1 = (Inr n, s3)" and "n = 0" by (auto simp: and_then_Inr)
  with query_Inr [OF q] t show "count (tabs s) = 0" by simp
qed

text \<open>An audit entry that says the schedule used the definition.\<close>

definition tells_of :: "env \<Rightarrow> uuid \<Rightarrow> string \<Rightarrow> audit_row \<Rightarrow> bool" where
  "tells_of x i field row \<longleftrightarrow> au_type row = ''booking_event'' \<and> (\<exists>c\<in>set (au_changes row). change_field c = Some field
     \<and> (uuid_value x (change_value c ''old_value'') = Some i \<or> uuid_value x (change_value c ''new_value'') = Some i))"

lemma check_schedule_value_Inr: "check_schedule_value x i v s = (Inr (), u) \<Longrightarrow> uuid_value x v \<noteq> Some i"
  by (auto simp: check_schedule_value_def uuid_value_def fail_def split: if_splits option.splits any.splits)

lemma check_log_Inr:
  assumes "check_log x org i service row s = (Inr (), u)"
  shows "\<not> tells_of x i (if service then ''service_id'' else ''resource_id'') row"
proof
  assume "tells_of x i (if service then ''service_id'' else ''resource_id'') row"
  then obtain c where ty: "au_type row = ''booking_event''" and c: "c \<in> set (au_changes row)"
    "change_field c = Some (if service then ''service_id'' else ''resource_id'')" and
    v: "uuid_value x (change_value c ''old_value'') = Some i \<or> uuid_value x (change_value c ''new_value'') = Some i"
    by (auto simp: tells_of_def)
  from assms obtain s1 where "for_each (au_changes row) (check_change x org i service row) s1 = (Inr (), u)"
    unfolding check_log_def and_then_Inr by blast
  from for_each_reads_Inr [OF reads_check_steps(2) this c(1)] obtain s2 s3 where
    "check_change x org i service row c s2 = (Inr (), s3)" by blast
  then obtain s4 s5 where "for_each [change_value c ''old_value'', change_value c ''new_value''] (check_schedule_value x i) s4 = (Inr (), s5)"
    unfolding check_change_def and_then_Inr using ty c(2) by auto
  note V = for_each_reads_Inr [OF reads_check_steps(3) this]
  from V [of "change_value c ''old_value''"] V [of "change_value c ''new_value''"] v check_schedule_value_Inr show False
    by (metis list.set_intros)
qed

lemma ensure_unused_Inr:
  assumes "ensure_unused x org i service s = (Inr (), u)"
  shows "(\<forall>count\<in>set (dependencies org i service). count (tabs s) = 0)
    \<and> (\<forall>row\<in>set (history org service (tabs s)). \<not> tells_of x i (if service then ''service_id'' else ''resource_id'') row)"
proof -
  from assms obtain s1 logs s2 where d: "for_each (dependencies org i service) (\<lambda>count.
       and_then (query count) (\<lambda>n. reject (n \<noteq> 0) (client_conflict m_dependencies))) s = (Inr (), s1)" and
    q: "query (history org service) s1 = (Inr logs, s2)" and
    l: "for_each logs (check_log x org i service) s2 = (Inr (), u)"
    unfolding ensure_unused_def and_then_Inr by auto
  have "reads (for_each (dependencies org i service) (\<lambda>count.
       and_then (query count) (\<lambda>n. reject (n \<noteq> 0) (client_conflict m_dependencies))))" by (intro reads_intros)
  from reads_Inr [OF this d] query_Inr [OF q] have "logs = history org service (tabs s)" by simp
  then have "\<forall>row\<in>set (history org service (tabs s)). \<not> tells_of x i (if service then ''service_id'' else ''resource_id'') row"
    using for_each_reads_Inr [OF reads_check_steps(1) l] check_log_Inr by blast
  with dependencies_zero [OF d] show ?thesis by blast
qed

text \<open>
  C36: a service is deleted only when nothing uses it and nothing ever did. When \<open>DeleteBookingService\<close> succeeds, the
  service was a deactivated row of the tenant at the version the request named; no event, eligible resource or package
  entitlement refers to it, not even a deleted one; no audit entry of an event tells that it was ever scheduled;
  the answer is the next version, and the tombstone is the only row of events, bookings, time off, credits, invoices,
  payments and packages that is touched.
\<close>
theorem deleted_service_was_never_used:
  assumes "delete_definition x org user i True r s = (Inr v, u)"
  shows "(\<exists>sv\<in>set (services (tabs s)). sv_id sv = i \<and> sv_org sv = org \<and> \<not> sv_active sv \<and> \<not> sv_deleted sv
        \<and> sv_version sv = dq_version r \<and> 1 \<le> sv_version sv) \<and> v = wrap64 (dq_version r + 1) \<and> dq_confirm r
    \<and> (\<forall>e\<in>set (events (tabs s)). ev_org e = org \<longrightarrow> ev_service e \<noteq> i)
    \<and> (\<forall>l\<in>set (service_resources (tabs s)). sr_org l = org \<longrightarrow> sr_service l \<noteq> i)
    \<and> (\<forall>e\<in>set (entitlements (tabs s)). en_org e = org \<longrightarrow> en_service e \<noteq> i)
    \<and> (\<forall>row\<in>set (audits (tabs s)). au_org row = org \<longrightarrow> \<not> tells_of x i ''service_id'' row)
    \<and> views (tabs u) = views (tabs s)"
proof -
  have views: "views (tabs u) = views (tabs s)" by (rule sparesD [OF catalogue_spares(5) assms])
  from assms have ok: "1 \<le> dq_version r" "dq_confirm r" by (auto simp: delete_definition_def Let_def ok_simps)
  from assms obtain s0 where t: "transaction
        (and_then (or_not_found (load_definition x org i True) (ClientError not_found (m_missing ''booking service''))) (\<lambda>(active, version, json).
         and_then (reject (version \<noteq> dq_version r) (client_conflict (m_modified ''booking service''))) (\<lambda>_.
         and_then (reject active (client_conflict (m_deactivate ''booking service''))) (\<lambda>_.
         and_then (ensure_unused x org i True) (\<lambda>_.
         and_then (execute (delete_service_row org user i (dq_version r))) (\<lambda>n.
         and_then (reject (n \<noteq> 1) (client_conflict (m_modified ''booking service''))) (\<lambda>_.
         and_then (audit_change org user ''booking_service'' i ''deleted'' (Some json) None) (\<lambda>_.
         ret (wrap64 (dq_version r + 1)))))))))) s0 = (Inr v, u)" and t0: "s0 = s"
    unfolding delete_definition_def Let_def if_True and_then_Inr [of "reject _ _"] reject_Inr by blast
  from t obtain s1 u1 where b: "and_then (or_not_found (load_definition x org i True) (ClientError not_found (m_missing ''booking service''))) (\<lambda>(active, version, json).
         and_then (reject (version \<noteq> dq_version r) (client_conflict (m_modified ''booking service''))) (\<lambda>_.
         and_then (reject active (client_conflict (m_deactivate ''booking service''))) (\<lambda>_.
         and_then (ensure_unused x org i True) (\<lambda>_.
         and_then (execute (delete_service_row org user i (dq_version r))) (\<lambda>n.
         and_then (reject (n \<noteq> 1) (client_conflict (m_modified ''booking service''))) (\<lambda>_.
         and_then (audit_change org user ''booking_service'' i ''deleted'' (Some json) None) (\<lambda>_.
         ret (wrap64 (dq_version r + 1))))))))) s1 = (Inr v, u1)" and t1: "tabs s1 = tabs s"
    unfolding t0 by (rule transaction_Inr) blast
  then obtain active version json s2 s3 where l: "load_definition x org i True s1 = (Inr (active, version, json), s2)" and
    g: "version = dq_version r" "\<not> active" and e: "ensure_unused x org i True s2 = (Inr (), s3)" and v: "v = wrap64 (dq_version r + 1)"
    by (auto simp: ok_simps)
  from l obtain sv where f: "first (service_by_id org i) s1 = (Inr sv, s2)" and sv: "active = sv_active sv" "version = sv_version sv"
    unfolding load_definition_def if_True and_then_Inr ret_Inr by blast
  note F = first_Inr [OF f]
  have S: "sv \<in> set (services (tabs s))" "sv_id sv = i" "sv_org sv = org" "\<not> sv_deleted sv"
    using F t1 unfolding service_by_id_def by (auto dest: first_in_filterD)
  have E: "(\<forall>count\<in>set (dependencies org i True). count (tabs s) = 0)"
    "\<forall>row\<in>set (history org True (tabs s)). \<not> tells_of x i ''service_id'' row"
    using ensure_unused_Inr [OF e] F t1 by simp_all
  have "\<not> tells_of x i ''service_id'' row" if "row \<in> set (audits (tabs s))" "au_org row = org" for row
    using E(2) that by (auto simp: history_def tells_of_def)
  then show ?thesis
    using S sv g ok v views E(1) by (auto simp: dependencies_def filter_empty_conv)
qed

end
