(* ===== verification/ShopRuns.thy ===== *)
theory ShopRuns
  imports PaymentReplay ShopAnswers Deletions Scenario
begin

text \<open>
  The shop on the sample tenant: a package is sold on credit, paid in two instalments and activated by the second. The
  properties of the shop are applied to this run, and what modelling showed about sales is stated on others.
\<close>

section \<open>A sale\<close>

definition shop0 :: "tables db" where "shop0 = session (tables0\<lparr>packages := []\<rparr>)"

definition clock0 :: "nat \<Rightarrow> time" where "clock0 n = now0"

definition sale0 :: sale_request where
  "sale0 = \<lparr>sq_contact = 11, sq_definition = 51, sq_due = None, sq_key = '' sale-1 '', sq_metadata = None\<rparr>"

definition instalment :: "int \<Rightarrow> int \<Rightarrow> string \<Rightarrow> payment_request" where
  "instalment version amount ref =
    \<lparr>yq_version = version, yq_amount = amount, yq_currency = ''eur'', yq_account = None, yq_reference = ref, yq_notes = [],
     yq_key = ref, yq_occurred = None, yq_confirm = True, yq_metadata = []\<rparr>"

definition till1 :: "tables db" where "till1 = after (sell_contact_package x0 org0 user0 sale0 clock0) shop0"
definition bill :: uuid where "bill = iv_id (hd (invoices (tabs till1)))"

text \<open>A payment, step by step.\<close>

definition till_account :: "tables db \<Rightarrow> account_row" where
  "till_account s = answer (resolve_manual_account x0 org0 user0 None) s"
definition till_open :: "tables db \<Rightarrow> tables db" where
  "till_open s = after (resolve_manual_account x0 org0 user0 None) s"
definition settling :: "payment_request \<Rightarrow> tables db \<Rightarrow> (tables, payment_result) tx" where
  "settling r s = settle_invoice x0 org0 user0 r (hd (invoices (tabs s))) (till_account s) clock0"

definition normal :: "payment_request \<Rightarrow> payment_request" where "normal r = r\<lparr>yq_currency := ''EUR''\<rparr>"

definition pay1 :: payment_request where "pay1 = instalment 1 8000 ''R1''"
definition pay2 :: payment_request where "pay2 = instalment 2 12000 ''R2''"
definition pay3 :: payment_request where "pay3 = instalment 2 12001 ''R3''"

definition till2 :: "tables db" where "till2 = after (settling (normal pay1) till1) (till_open till1)"
definition till3 :: "tables db" where "till3 = after (settling (normal pay2) till2) (till_open till2)"

text \<open>Everything before the payment is settled; when it settles, the request succeeds.\<close>

definition prepared :: "payment_request \<Rightarrow> tables db \<Rightarrow> bool" where
  "prepared raw s \<longleftrightarrow> validate_payment raw now0 = Inr (normal raw) \<and> faults s = []
     \<and> payment_with_key org0 (trim_space (yq_key raw)) (tabs s) = None
     \<and> invoice_by_id org0 (iv_id (hd (invoices (tabs s)))) (tabs s) = Some (hd (invoices (tabs s)))"

definition pays :: "payment_request \<Rightarrow> tables db \<Rightarrow> bool" where
  "pays raw s \<longleftrightarrow> prepared raw s \<and> check_payable (normal raw) (hd (invoices (tabs s))) s = (Inr (), s)
     \<and> yq_account raw = None \<and> succeeds (resolve_manual_account x0 org0 user0 None) s \<and> faults (till_open s) = []
     \<and> reference_hits x0 org0 (pa_id (till_account s)) (trim_space (yq_reference raw)) (tabs (till_open s)) = 0"

lemma transaction_runs: "faults s = [] \<Longrightarrow> m s = (Inr a, u) \<Longrightarrow> faults u = [] \<Longrightarrow> transaction m s = (Inr a, u)"
  by (simp add: transaction_def and_then_def poll_calm ret_def)

lemma normal_fields [simp]:
  "yq_key (normal raw) = yq_key raw" "yq_account (normal raw) = yq_account raw" "yq_reference (normal raw) = yq_reference raw"
  by (simp_all add: normal_def)

lemma prepared_steps:
  assumes "prepared raw s"
  shows "faults s = []" "lookup (first (payment_with_key org0 (trim_space (yq_key raw)))) s = (Inr None, s)"
    "or_fail (first (invoice_by_id org0 (iv_id (hd (invoices (tabs s)))))) e s = (Inr (hd (invoices (tabs s))), s)"
    "lift_res (as_client (validate_payment raw (clock0 0))) s = (Inr (normal raw), s)"
  using assms by (simp_all add: prepared_def lookup_def first_calm or_fail_run lift_res_def as_client_def clock0_def)

lemma refused_run:
  assumes "prepared raw s" and "check_payable (normal raw) (hd (invoices (tabs s))) s = (Inl e, s)"
  shows "fst (record_manual_payment x0 org0 user0 (iv_id (hd (invoices (tabs s)))) raw clock0 s) = Inl e"
proof -
  note P = prepared_steps [OF assms(1)]
  have "payment_body x0 org0 user0 (iv_id (hd (invoices (tabs s)))) (normal raw) clock0 s = (Inl e, s)"
    unfolding payment_body_def by (simp add: and_then_def P(2,3) assms(2))
  then show ?thesis
    unfolding record_manual_payment_def and_then_def [of "lift_res _"] P(4)
    by (simp add: transaction_def and_then_def poll_calm [OF P(1)])
qed

lemma pays_run:
  assumes "pays raw s" and "settling (normal raw) s (till_open s) = (Inr res, u)" and "faults u = []"
  shows "record_manual_payment x0 org0 user0 (iv_id (hd (invoices (tabs s)))) raw clock0 s = (Inr res, u)"
proof -
  let ?v = "hd (invoices (tabs s))" and ?r = "normal raw"
  have "prepared raw s" using assms(1) by (simp add: pays_def)
  note P = prepared_steps [OF this]
  have "succeeds (resolve_manual_account x0 org0 user0 (yq_account ?r)) s" and none': "yq_account ?r = None"
    using assms(1) by (simp_all add: pays_def)
  from succeeds_run [OF this(1)]
  have res: "resolve_manual_account x0 org0 user0 (yq_account ?r) s = (Inr (till_account s), till_open s)"
    unfolding none' till_account_def till_open_def .
  have hits: "query (reference_hits x0 org0 (pa_id (till_account s)) (trim_space (yq_reference ?r))) (till_open s) = (Inr 0, till_open s)"
    using assms(1) by (simp add: pays_def query_calm)
  have set: "settle_invoice x0 org0 user0 ?r ?v (till_account s) clock0 (till_open s) = (Inr res, u)"
    using assms(2) by (simp only: settling_def)
  have chk: "check_payable ?r ?v s = (Inr (), s)" using assms(1) by (simp add: pays_def)
  have "payment_body x0 org0 user0 (iv_id ?v) ?r clock0 s = (Inr res, u)"
    unfolding payment_body_def by (simp add: and_then_def P(2,3) chk res [simplified] hits [simplified] set reject_run)
  then have "transaction (payment_body x0 org0 user0 (iv_id ?v) ?r clock0) s = (Inr res, u)"
    by (intro transaction_runs P(1) assms(3))
  then show ?thesis unfolding record_manual_payment_def and_then_def [of "lift_res _"] P(4) by simp
qed

definition till_shows :: "tables \<Rightarrow> (int \<times> int \<times> string) list \<times> string list \<times> int list" where
  "till_shows t = (map (\<lambda>v. (iv_paid v, iv_due v, iv_status v)) (invoices t), map cp_status (packages t), map cb_available (balances t))"

text \<open>The run is evaluated in one go, each state once: a stage is a function of the outcome of the one before it.\<close>

fun stage3 :: "(err + payment_result) \<times> tables db \<Rightarrow> bool" where
  "stage3 (Inr _, s) = (faults s = [] \<and> till_shows (tabs s) = ([(20000, 0, s_paid)], [''active''], [5]))"
| "stage3 (Inl _, _) = False"

fun stage2 :: "(err + payment_result) \<times> tables db \<Rightarrow> bool" where
  "stage2 (Inr _, s) = (faults s = [] \<and> till_shows (tabs s) = ([(8000, 12000, s_open)], [''pending''], []) \<and> pays pay2 s \<and> prepared pay3 s
     \<and> check_payable (normal pay3) (hd (invoices (tabs s))) s = (Inl (ClientError bad_request m_amount_due), s)
     \<and> stage3 (settling (normal pay2) s (till_open s)))"
| "stage2 (Inl _, _) = False"

fun stage1 :: "(err + invoice_row \<times> package_row) \<times> tables db \<Rightarrow> bool" where
  "stage1 (Inr _, s) = (till_shows (tabs s) = ([(0, 20000, s_open)], [''pending''], []) \<and> pays pay1 s
     \<and> stage2 (settling (normal pay1) s (till_open s)))"
| "stage1 (Inl _, _) = False"

section \<open>Other requests\<close>

text \<open>A digest that tells these requests apart.\<close>

fun text_of :: "any \<Rightarrow> string" where
  "text_of (Str s) = s"
| "text_of (Int64 n) = show_nat (nat n)"
| "text_of _ = ''?''"

definition x1 :: env where
  "x1 = x0\<lparr>json_digest := (\<lambda>m. Some (concat (map (\<lambda>(k, v). k @ '':'' @ text_of v @ '';'') m)))\<rparr>"

text \<open>
  An invoice of nothing, under the key of a sale to come and with the mark the sale will look for, which is a digest
  of that request.
\<close>

definition forged :: invoice_request where
  "forged = \<lparr>vq_contact = 11, vq_currency = ''EUR'', vq_discount = 0, vq_due = None,
     vq_lines = [\<lparr>li_booking = None, li_package = None, li_definition = None, li_description = ''Gift'', li_quantity = 1,
       li_unit = Some 0, li_tax = 0, li_metadata = []\<rparr>],
     vq_key = ''sale-1'',
     vq_metadata = [(''package_sale_fingerprint'', Str ''contact_id:11;package_definition_id:51;idempotency_key:;'')]\<rparr>"

definition forging :: "(err + invoice_row) \<times> tables db" where
  "forging = create_invoice x1 org0 user0 forged clock0 shop0"

fun forged2 :: "(err + invoice_row \<times> package_row) \<times> tables db \<Rightarrow> bool" where
  "forged2 (Inr _, s) = (payments (tabs s) = [] \<and> map (\<lambda>p. (cp_status p, cp_amount p)) (packages (tabs s)) = [(''active'', 20000)]
     \<and> map cb_available (balances (tabs s)) = [5] \<and> map (\<lambda>v. (iv_total v, iv_status v)) (invoices (tabs s)) = [(0, s_paid)]
     \<and> map ln_definition (lines (tabs s)) = [None])"
| "forged2 (Inl _, _) = False"

fun forged1 :: "(err + invoice_row) \<times> tables db \<Rightarrow> bool" where
  "forged1 (Inr _, s) = forged2 (sell_contact_package x1 org0 user0 sale0 clock0 s)"
| "forged1 (Inl _, _) = False"

definition unpublished :: package_request where
  "unpublished = \<lparr>kr_name = ''Draft'', kr_description = [], kr_price = 100, kr_currency = ''eur'', kr_validity = 30,
     kr_active = Some False, kr_metadata = [], kr_entitlements = Some [\<lparr>ei_service = 21, ei_credits = 1, ei_unlimited = False\<rparr>],
     kr_version = 0\<rparr>"

definition closed_shop :: "tables db" where
  "closed_shop = session (tables0\<lparr>services := [service0, service0\<lparr>sv_id := 22, sv_active := False\<rparr>]\<rparr>)"

abbreviation "deleting \<equiv> delete_definition x0 org0 user0 22 True \<lparr>dq_version = 1, dq_confirm = True\<rparr>"
abbreviation "publishing \<equiv> create_package x0 org0 user0 unpublished now0"

section \<open>Evaluation\<close>

lemma evaluated_sale: "stage1 (sell_contact_package x0 org0 user0 sale0 clock0 shop0)"
  by code_simp

lemma evaluated_forgery: "forged1 forging"
  by code_simp

lemma evaluated_catalogue: "succeeds deleting closed_shop \<and> succeeds publishing closed_shop"
  by code_simp

section \<open>The sale\<close>

lemma sale_made: "sell_contact_package x0 org0 user0 sale0 clock0 shop0 = (Inr (answer (sell_contact_package x0 org0 user0 sale0 clock0) shop0), till1)"
  using succeeds_run evaluated_sale unfolding till1_def
  by (cases "sell_contact_package x0 org0 user0 sale0 clock0 shop0" rule: stage1.cases) (auto simp: answer_def after_def)

lemma till1_stage: "till_shows (tabs till1) = ([(0, 20000, s_open)], [''pending''], [])" "pays pay1 till1"
    "stage2 (settling (normal pay1) till1 (till_open till1))"
  using evaluated_sale unfolding sale_made by simp_all

lemma stage2_Inr: "stage2 (r, s) \<Longrightarrow> \<exists>a. r = Inr a"
  by (cases r) simp_all

lemma stage3_Inr: "stage3 (r, s) \<Longrightarrow> \<exists>a. r = Inr a"
  by (cases r) simp_all

lemma first_settled: "settling (normal pay1) till1 (till_open till1) = (Inr (answer (settling (normal pay1) till1) (till_open till1)), till2)"
proof -
  obtain a where "fst (settling (normal pay1) till1 (till_open till1)) = Inr a"
    using stage2_Inr [of "fst (settling (normal pay1) till1 (till_open till1))"] till1_stage(3) by (metis prod.collapse)
  then show ?thesis unfolding answer_def till2_def after_def by (simp add: prod_eq_iff split: prod.split)
qed

lemma till2_stage: "faults till2 = []" "till_shows (tabs till2) = ([(8000, 12000, s_open)], [''pending''], [])" "pays pay2 till2"
    "prepared pay3 till2" "check_payable (normal pay3) (hd (invoices (tabs till2))) till2 = (Inl (ClientError bad_request m_amount_due), till2)"
    "stage3 (settling (normal pay2) till2 (till_open till2))"
  using till1_stage(3) unfolding first_settled by simp_all

lemma second_settled: "settling (normal pay2) till2 (till_open till2) = (Inr (answer (settling (normal pay2) till2) (till_open till2)), till3)"
proof -
  obtain a where "fst (settling (normal pay2) till2 (till_open till2)) = Inr a"
    using stage3_Inr [of "fst (settling (normal pay2) till2 (till_open till2))"] till2_stage(6) by (metis prod.collapse)
  then show ?thesis unfolding answer_def till3_def after_def by (simp add: prod_eq_iff split: prod.split)
qed

lemma till3_stage: "faults till3 = []" "till_shows (tabs till3) = ([(20000, 0, s_paid)], [''active''], [5])"
  using till2_stage(6) unfolding second_settled by simp_all

end
