(* ===== verification/ShopWitnesses.thy ===== *)
theory ShopWitnesses
  imports ShopRuns
begin

text \<open>The properties of the shop applied to the sale of \<open>ShopRuns\<close>, and what its other runs show about sales.\<close>

section \<open>The run is one of the system\<close>

lemma shop_after: "proper r \<Longrightarrow> shop_reachable x s \<Longrightarrow> shop_serve x org r s = (a, u) \<Longrightarrow> shop_reachable x u"
  by (rule shop_reachable.step, assumption, rule shop_step.served)

lemma shop0_reachable: "shop_reachable x0 shop0"
  by (rule shop_reachable.start) (simp add: shop_start_def fresh_start_def shop0_def session_def tables0_def no_rows_def)

lemma silent_run: "m s = (Inr a, u) \<Longrightarrow> silent m s = (Inr (), u)"
  by (simp add: and_then_def ret_def)

lemma till1_served: "shop_serve x0 org0 (SellPackage user0 sale0 clock0) shop0 = (Inr (), till1)"
  unfolding shop_serve.simps by (rule silent_run [where m = "sell_contact_package x0 org0 user0 sale0 clock0", OF sale_made])

lemma till1_reachable: "shop_reachable x0 till1"
  by (rule shop_after [OF _ shop0_reachable till1_served]) simp

lemma paid1: "record_manual_payment x0 org0 user0 (iv_id (hd (invoices (tabs till1)))) pay1 clock0 till1
    = (Inr (answer (settling (normal pay1) till1) (till_open till1)), till2)"
  by (rule pays_run [OF till1_stage(2) first_settled till2_stage(1)])

lemma paid2: "record_manual_payment x0 org0 user0 (iv_id (hd (invoices (tabs till2)))) pay2 clock0 till2
    = (Inr (answer (settling (normal pay2) till2) (till_open till2)), till3)"
  by (rule pays_run [OF till2_stage(3) second_settled till3_stage(1)])

lemma paid1_served: "shop_serve x0 org0 (RecordPayment user0 (iv_id (hd (invoices (tabs till1)))) pay1 clock0) till1 = (Inr (), till2)"
  unfolding shop_serve.simps by (rule silent_run [where m = "record_manual_payment x0 org0 user0 (iv_id (hd (invoices (tabs till1)))) pay1 clock0", OF paid1])

lemma paid2_served: "shop_serve x0 org0 (RecordPayment user0 (iv_id (hd (invoices (tabs till2)))) pay2 clock0) till2 = (Inr (), till3)"
  unfolding shop_serve.simps by (rule silent_run [where m = "record_manual_payment x0 org0 user0 (iv_id (hd (invoices (tabs till2)))) pay2 clock0", OF paid2])

lemma till2_reachable: "shop_reachable x0 till2"
  by (rule shop_after [OF _ till1_reachable paid1_served]) simp

section \<open>The properties on it\<close>

theorem shop_refines_seat_machine_witness:
  "events (tabs till2) = events (tabs till1) \<and> bookings (tabs till2) = bookings (tabs till1)
    \<and> time_offs (tabs till2) = time_offs (tabs till1)"
  using shop_refines_seat_machine [OF till1_reachable _ paid1_served] by simp

theorem invoices_balance_witness:
  "\<exists>v\<in>set (invoices (tabs till2)). iv_paid v = 8000 \<and> iv_due v = 12000 \<and> collected (iv_key_of v) (tabs till2) = 8000
     \<and> line_subtotals (iv_key_of v) (tabs till2) + line_taxes (iv_key_of v) (tabs till2) = 20000 + iv_discount v"
proof -
  obtain v vs where v: "invoices (tabs till2) = v # vs" "iv_paid v = 8000" "iv_due v = 12000"
    using till2_stage(2) by (cases "invoices (tabs till2)") (auto simp: till_shows_def)
  have "v \<in> set (invoices (tabs till2))" using v by simp
  from invoices_balance [OF till2_reachable this] this v show ?thesis by (intro bexI [of _ v]) auto
qed

theorem credits_follow_payment_witness:
  "\<exists>p\<in>set (packages (tabs till2)). cp_status p = ''pending''
     \<and> (\<exists>v\<in>set (invoices (tabs till2)). cp_invoice p = Some (iv_id v) \<and> 0 < iv_due v)"
proof -
  obtain p ps where p: "packages (tabs till2) = p # ps" "cp_status p = ''pending''"
    using till2_stage(2) by (cases "packages (tabs till2)") (auto simp: till_shows_def)
  have "p \<in> set (packages (tabs till2))" using p by simp
  with credits_follow_payment [OF till2_reachable] p show ?thesis
    by (intro bexI [of _ p]) (auto split: option.splits)
qed

theorem payment_recorded_once_witness:
  "\<exists>w. record_manual_payment x0 org0 user0 (iv_id (hd (invoices (tabs till1)))) pay1 clock0 till3
      = (Inr \<lparr>pr_invoice = w, pr_payment = pr_payment (answer (settling (normal pay1) till1) (till_open till1)), pr_idempotent = True\<rparr>, till3)
    \<and> till_shows (tabs till3) = ([(20000, 0, s_paid)], [''active''], [5])"
proof -
  have "shop_step x0 till2 till3" by (rule shop_step.served [OF _ paid2_served]) simp
  then have steps: "(shop_step x0)\<^sup>*\<^sup>* till2 till3" by blast
  from payment_recorded_once [where ?clock2.0 = clock0, OF till1_reachable paid1 steps order.refl till3_stage(1)] till3_stage(2) show ?thesis by blast
qed

theorem checked_money_is_exact_witness:
  "safe_money_multiply 5000 3 = Some 15000 \<and> safe_money_multiply max_i64 2 = None \<and> safe_money_add max_i64 1 = None"
  using checked_money_is_exact [of 5000 3] checked_money_is_exact [of max_i64 2] checked_money_is_exact [of max_i64 1]
  by (simp add: in_i64_def min_i64_def max_i64_def)

text \<open>More than is due is refused.\<close>

definition too_much :: "tables db" where
  "too_much = after (shop_serve x0 org0 (RecordPayment user0 (iv_id (hd (invoices (tabs till2)))) pay3 clock0)) till2"

theorem refused_shop_request_changes_nothing_witness:
  "fst (shop_serve x0 org0 (RecordPayment user0 (iv_id (hd (invoices (tabs till2)))) pay3 clock0) till2)
     = Inl (ClientError bad_request m_amount_due) \<and> tabs too_much = tabs till2"
proof -
  let ?m = "record_manual_payment x0 org0 user0 (iv_id (hd (invoices (tabs till2)))) pay3 clock0"
  have "fst (?m till2) = Inl (ClientError bad_request m_amount_due)" by (rule refused_run [OF till2_stage(4,5)])
  then have e: "shop_serve x0 org0 (RecordPayment user0 (iv_id (hd (invoices (tabs till2)))) pay3 clock0) till2
      = (Inl (ClientError bad_request m_amount_due), too_much)"
    unfolding too_much_def after_def shop_serve.simps by (cases "?m till2") (simp add: and_then_def)
  from refused_shop_request_changes_nothing [OF e] e show ?thesis by simp
qed

theorem deleted_service_was_never_used_witness:
  "answer deleting closed_shop = 2 \<and> views (tabs (after deleting closed_shop)) = views (tabs closed_shop)"
proof -
  have "succeeds deleting closed_shop" using evaluated_catalogue by blast
  from deleted_service_was_never_used [OF succeeds_run [OF this]] show ?thesis by (simp add: wrap64_def)
qed

section \<open>Sales that should not be\<close>

text \<open>
  A forged invoice releases a package that nobody paid for. A client may put any metadata on an invoice it creates,
  also the mark by which a sale recognises its own invoice; an invoice of nothing is paid at once, so the sale that
  finds it under its key makes the package active and grants its credits, with no payment and no line for the package.
\<close>
lemma forged_invoice_releases_package:
  "(case sell_contact_package x1 org0 user0 sale0 clock0 (snd forging) of
      (Inl _, _) \<Rightarrow> False
    | (Inr _, s) \<Rightarrow> payments (tabs s) = [] \<and> map (\<lambda>p. (cp_status p, cp_amount p)) (packages (tabs s)) = [(''active'', 20000)]
        \<and> map cb_available (balances (tabs s)) = [5] \<and> map (\<lambda>v. (iv_total v, iv_status v)) (invoices (tabs s)) = [(0, s_paid)]
        \<and> map ln_definition (lines (tabs s)) = [None])"
proof -
  obtain a f where f: "forging = (a, f)" by (cases forging)
  have "forged2 (sell_contact_package x1 org0 user0 sale0 clock0 f)" using evaluated_forgery unfolding f by (cases a) simp_all
  then show ?thesis unfolding f snd_conv
    by (cases "sell_contact_package x1 org0 user0 sale0 clock0 f" rule: forged2.cases) auto
qed

text \<open>
  A sale that loses the race for its invoice never finds the winner's: the row under its key has another identifier
  than the one GORM looks for, so the branch that takes it over fails.
\<close>

lemma raced_sale_fails:
  assumes "execute (insert_invoice v) s = (Inr False, s1)" and "\<forall>q\<in>set (invoices (tabs s)). iv_id q \<noteq> iv_id v"
  shows "write_sale_invoice x org user r print v ls now clock s \<noteq> (Inr w, u)"
proof
  assume "write_sale_invoice x org user r print v ls now clock s = (Inr w, u)"
  then obtain s2 where "first (own_invoice org (sq_key r) (iv_id v)) s1 = (Inr w, s2)"
    using assms(1) unfolding write_sale_invoice_def and_then_Inr [of "execute (insert_invoice v)"] by (auto simp: ok_simps)
  from first_Inr [OF this] have "w \<in> set (invoices (tabs s1)) \<and> iv_id w = iv_id v"
    unfolding own_invoice_def by (auto dest: first_in_filterD)
  moreover have "tabs s1 = tabs s" using execute_Inr [OF assms(1)] by (auto simp: insert_invoice_def split: if_splits)
  ultimately show False using assms(2) by auto
qed

section \<open>Packages that should not be on sale\<close>

lemma side_definitions: "business t = business u \<Longrightarrow> definitions t = definitions u"
  by (drule arg_cong [where f = definitions]) (simp add: business_def)

lemma spares_definitions:
  "spares definitions (audit_change org user rtype rid action old new)" "spares definitions (execute (insert_entitlements es))"
proof -
  show "spares definitions (audit_change org user rtype rid action old new)"
    using audit_change_side [of org user rtype rid action old new] side_definitions unfolding side_def spares_def by blast
  show "spares definitions (execute (insert_entitlements es))"
    by (rule spares_execute) (auto simp: insert_entitlements_def split: if_splits)
qed

text \<open>
  C37: a package created with \<open>is_active\<close> false is on sale. Whatever the request says, the row that \<open>CreatePackage\<close>
  leaves in the table is active, and the answer says so; the default of the column replaces the false value, which the
  handlers of services and resources correct and this one does not.
\<close>
theorem inactive_package_created_active:
  assumes "create_package x org user raw created s = (Inr (d, es), u)"
  shows "d \<in> set (definitions (tabs u)) \<and> pd_active d"
proof -
  from assms obtain i r active s1 u1 s2 s3 s4 s5 s6 where
    d: "d = new_definition i org user r active\<lparr>pd_active := stored_active active\<rparr>" and
    w: "execute (insert_definition (new_definition i org user r active)) s1 = (Inr (), s2)" and
    e: "entitlements_from_input x org i created (given_entitlements r) s2 = (Inr es, s3)" and
    l: "execute (insert_entitlements es) s3 = (Inr (), s4)" and
    a: "audit_change org user ''package_definition'' i ''created'' None (Some (definition_json x d es)) s4 = (Inr (), u1)" and
    u: "tabs u = tabs u1"
    unfolding create_package_def by (auto simp: ok_simps Let_def elim!: transaction_Inr)
  have "definitions (tabs s2) = definitions (tabs s1) @ [d]"
    using execute_Inr [OF w] d
    by (auto simp: insert_definition_def new_definition_def split: if_splits dest!: arg_cong [where f = definitions])
  moreover have "definitions (tabs u1) = definitions (tabs s2)"
    using sparesD [OF spares_definitions(1) a] sparesD [OF spares_definitions(2) l] reads_Inr [OF reads_entitlements e] by simp
  ultimately show ?thesis using u d by (simp add: stored_active_def)
qed

theorem inactive_package_created_active_witness:
  "kr_active unpublished = Some False \<and> pd_active (fst (answer publishing closed_shop))"
proof -
  have "succeeds publishing closed_shop" using evaluated_catalogue by blast
  then have "publishing closed_shop = (Inr (fst (answer publishing closed_shop), snd (answer publishing closed_shop)),
      after publishing closed_shop)" by (simp add: succeeds_run)
  from inactive_package_created_active [OF this] show ?thesis by (simp add: unpublished_def)
qed

end
