(* ===== verification/Directory.thy ===== *)
theory Directory
  imports Store
begin

text \<open>
  The directory of contacts: \<^verbatim>\<open>internal/contactutil/contactutil.go\<close>, and of \<^verbatim>\<open>internal/handlers/customer_workspace.go\<close>
  the family of a contact and the redirects that \<^verbatim>\<open>MergeContact\<close> writes. A merged contact stays as a deleted row that
  points to the contact it became. Permissions, the collisions a merge is refused for and the rows of other tables it
  moves are not modelled. The order of identifiers is that of their texts.
\<close>

section \<open>Rows\<close>

record person_row =
  pn_id :: uuid
  pn_org :: uuid
  pn_phone :: string
  pn_name :: string
  pn_metadata :: jsonb
  pn_merged :: "uuid option"
  pn_merged_at :: "time option"
  pn_merged_by :: "uuid option"
  pn_deleted :: bool

type_synonym people = "person_row list"

definition m_merge_cycle :: string where "m_merge_cycle = ''contact merge redirect contains a cycle''"
definition m_merge_depth :: string where "m_merge_depth = ''contact merge redirect exceeds maximum depth''"
definition m_canonical_changed :: string where "m_canonical_changed = ''canonical contact changed while acquiring locks''"
definition m_empty_phone :: string where "m_empty_phone = ''contact phone number is empty''"

text \<open>Queries without the filter on deleted rows, as the code makes them with \<open>Unscoped\<close>.\<close>

definition person_by_id :: "uuid \<Rightarrow> uuid \<Rightarrow> people \<Rightarrow> person_row option" where
  "person_by_id org i rows = first_in (by_key pn_id) (filter (\<lambda>c. pn_id c = i \<and> pn_org c = org) rows)"

definition person_with_phone :: "uuid \<Rightarrow> string \<Rightarrow> people \<Rightarrow> person_row option" where
  "person_with_phone org phone rows = first_in (by_key pn_id) (filter (\<lambda>c. pn_org c = org \<and> pn_phone c = phone) rows)"

definition live_with_phone :: "uuid \<Rightarrow> string \<Rightarrow> people \<Rightarrow> person_row option" where
  "live_with_phone org phone rows =
     first_in (by_key pn_id) (filter (\<lambda>c. pn_org c = org \<and> pn_phone c = phone \<and> \<not> pn_deleted c) rows)"

section \<open>Following redirects\<close>

definition max_depth :: nat where "max_depth = 16"

text \<open>The body of the loop once a row is found: the canonical contact, or the identifier to go on with.\<close>

fun resolve_from :: "nat \<Rightarrow> uuid list \<Rightarrow> uuid \<Rightarrow> uuid \<Rightarrow> (people, person_row) tx" where
  "resolve_from 0 visited org i = fail (OtherError m_merge_depth)"
| "resolve_from (Suc n) visited org i =
     (if i \<in> set visited then fail (OtherError m_merge_cycle)
      else and_then (first (person_by_id org i)) (\<lambda>c.
        case pn_merged c of
          None \<Rightarrow> if pn_deleted c then fail RecordNotFound else ret c
        | Some j \<Rightarrow> resolve_from n (i # visited) org j))"

definition resolve_contact :: "uuid \<Rightarrow> uuid \<Rightarrow> (people, person_row) tx" where
  "resolve_contact org i = resolve_from max_depth [] org i"

fun path_from :: "nat \<Rightarrow> uuid list \<Rightarrow> uuid \<Rightarrow> uuid \<Rightarrow> (people, person_row list) tx" where
  "path_from 0 visited org i = fail (OtherError m_merge_depth)"
| "path_from (Suc n) visited org i =
     (if i \<in> set visited then fail (OtherError m_merge_cycle)
      else and_then (first (person_by_id org i)) (\<lambda>c.
        case pn_merged c of
          None \<Rightarrow> if pn_deleted c then fail RecordNotFound else ret [c]
        | Some j \<Rightarrow> and_then (path_from n (i # visited) org j) (\<lambda>cs. ret (c # cs))))"

definition merge_path :: "uuid \<Rightarrow> uuid \<Rightarrow> (people, person_row list) tx" where
  "merge_path org i = path_from max_depth [] org i"

text \<open>The second walk, over the locked rows.\<close>

fun walk_locked :: "nat \<Rightarrow> uuid list \<Rightarrow> (uuid \<rightharpoonup> person_row) \<Rightarrow> uuid \<Rightarrow> (err, person_row) result" where
  "walk_locked 0 visited rows i = Inl (OtherError m_merge_depth)"
| "walk_locked (Suc n) visited rows i =
     (if i \<in> set visited then Inl (OtherError m_merge_cycle)
      else case rows i of
        None \<Rightarrow> Inl (OtherError m_canonical_changed)
      | Some c \<Rightarrow>
          (case pn_merged c of
             None \<Rightarrow> if pn_deleted c then Inl RecordNotFound else Inr c
           | Some j \<Rightarrow> if rows j = None then Inl (OtherError m_canonical_changed)
               else walk_locked n (i # visited) rows j))"

definition with_ids :: "uuid \<Rightarrow> uuid list \<Rightarrow> people \<Rightarrow> person_row list" where
  "with_ids org ids rows = filter (\<lambda>c. pn_org c = org \<and> pn_id c \<in> set ids) rows"

definition resolve_for_update :: "uuid \<Rightarrow> uuid \<Rightarrow> (people, person_row) tx" where
  "resolve_for_update org i =
     and_then (merge_path org i) (\<lambda>path.
     and_then (query (with_ids org (map pn_id path))) (\<lambda>locked.
     if length locked \<noteq> length path then fail (OtherError m_canonical_changed)
     else lift_res (walk_locked max_depth [] (map_of (map (\<lambda>c. (pn_id c, c)) locked)) i)))"

section \<open>Where a display name comes from\<close>

definition name_source_key :: string where "name_source_key = ''name_source''"
definition source_manual :: string where "source_manual = ''manual''"
definition source_business :: string where "source_business = ''wa_business''"
definition source_profile :: string where "source_profile = ''wa_profile''"
definition profile_name_key :: string where "profile_name_key = ''wa_profile_name''"
definition saved_name_key :: string where "saved_name_key = ''wa_business_saved_name''"
definition saved_at_key :: string where "saved_at_key = ''wa_business_saved_name_at''"
definition saved_removed_key :: string where "saved_removed_key = ''wa_business_saved_name_removed_at''"

definition text_in :: "jsonb \<Rightarrow> string \<Rightarrow> string" where
  "text_in m k = (case map_of m k of Some (Str s) \<Rightarrow> s | _ \<Rightarrow> [])"

definition name_source :: "jsonb \<Rightarrow> string" where "name_source m = text_in m name_source_key"

definition name_protected :: "jsonb \<Rightarrow> bool" where
  "name_protected m \<longleftrightarrow> name_source m = source_manual \<or> name_source m = source_business"

text \<open>
  \<open>ApplyContactProfileName\<close> and \<open>ApplyManualContactName\<close>: the display name to store, the metadata, were they changed?
  None is a nil map.
\<close>

definition apply_profile_name :: "string \<Rightarrow> jsonb option \<Rightarrow> string \<Rightarrow> string \<times> jsonb option \<times> bool" where
  "apply_profile_name display md raw =
     (let name = trim_space raw in
      case md of
        None \<Rightarrow> (display, None, False)
      | Some m \<Rightarrow>
          if name = [] then (display, Some m, False)
          else let seen = text_in m profile_name_key \<noteq> name;
                   m1 = (if seen then AList.update profile_name_key (Str name) m else m) in
            if name_protected m1 then (display, Some m1, seen)
            else if name_source m1 \<noteq> source_profile
            then (name, Some (AList.update name_source_key (Str source_profile) m1), True)
            else (name, Some m1, seen))"

definition apply_manual_name :: "string \<Rightarrow> jsonb option \<Rightarrow> string \<Rightarrow> string \<times> jsonb option \<times> bool" where
  "apply_manual_name display md raw =
     (let name = trim_space raw in
      case md of
        None \<Rightarrow> (display, None, False)
      | Some m \<Rightarrow>
          if name \<noteq> [] then
            (if name = display then (display, Some m, False)
             else (name, Some (AList.update name_source_key (Str source_manual) m), True))
          else if trim_space (text_in m saved_name_key) \<noteq> [] then
            (trim_space (text_in m saved_name_key), Some (AList.update name_source_key (Str source_business) m), True)
          else if trim_space (text_in m profile_name_key) \<noteq> [] then
            (trim_space (text_in m profile_name_key), Some (AList.update name_source_key (Str source_profile) m), True)
          else ([], Some (AList.delete name_source_key m), map_of m name_source_key \<noteq> None))"

text \<open>\<open>ObserveContactProfileName\<close>: the columns to write, and the row as it will be.\<close>

definition observe_profile_name :: "person_row \<Rightarrow> string \<Rightarrow> (string option \<times> jsonb option) option \<times> person_row" where
  "observe_profile_name c name =
     (if trim_space name = [] then (None, c)
      else case apply_profile_name (pn_name c) (Some (pn_metadata c)) name of
        (display, md, changed) \<Rightarrow>
          let named = (if display \<noteq> pn_name c then Some display else None);
              marked = (if changed then md else None);
              d = c\<lparr>pn_name := display, pn_metadata := (case marked of None \<Rightarrow> pn_metadata c | Some m \<Rightarrow> m)\<rparr> in
          (if named = None \<and> marked = None then None else Some (named, marked), d))"

section \<open>Finding and creating\<close>

definition strip_plus :: "string \<Rightarrow> string" where
  "strip_plus p = (case p of [] \<Rightarrow> [] | c # r \<Rightarrow> if c = CHR ''+'' then r else p)"

definition is_empty_phone :: "string \<Rightarrow> bool" where
  "is_empty_phone p \<longleftrightarrow> trim_space (strip_plus (trim_space p)) = []"

text \<open>A test of \<^verbatim>\<open>err == nil\<close> that takes every error for an absent row.\<close>

definition attempt :: "('t, 'r) tx \<Rightarrow> ('t, 'r option) tx" where
  "attempt m s = (case m s of (Inl _, t) \<Rightarrow> (Inr None, t) | (Inr a, t) \<Rightarrow> (Inr (Some a), t))"

definition on_error :: "('t, 'a) tx \<Rightarrow> (err \<Rightarrow> ('t, 'a) tx) \<Rightarrow> ('t, 'a) tx" where
  "on_error m h s = (case m s of (Inl e, t) \<Rightarrow> h e t | (Inr a, t) \<Rightarrow> (Inr a, t))"

definition rename_unprotected :: "uuid \<Rightarrow> uuid \<Rightarrow> string \<Rightarrow> people \<Rightarrow> err + nat \<times> people" where
  "rename_unprotected org i name rows =
     (let p = (\<lambda>c. pn_org c = org \<and> pn_id c = i \<and> \<not> name_protected (pn_metadata c) \<and> \<not> pn_deleted c) in
      if 255 < rune_count name \<and> 0 < rows_affected p rows then Inl (DriverError ''value too long for type character varying(255)'')
      else Inr (rows_affected p rows, update_where p (\<lambda>c. c\<lparr>pn_name := name\<rparr>) rows))"

definition update_unprotected_name :: "person_row \<Rightarrow> string \<Rightarrow> (people, person_row) tx" where
  "update_unprotected_name c name =
     (if name = [] \<or> pn_name c = name \<or> name_protected (pn_metadata c) then ret c
      else and_then (execute (rename_unprotected (pn_org c) (pn_id c) name)) (\<lambda>n.
        ret (if n = 1 then c\<lparr>pn_name := name\<rparr> else c)))"

definition restore_row :: "uuid \<Rightarrow> people \<Rightarrow> err + nat \<times> people" where
  "restore_row i rows =
     (let p = (\<lambda>c. pn_id c = i) in Inr (rows_affected p rows, update_where p (\<lambda>c. c\<lparr>pn_deleted := False\<rparr>) rows))"

text \<open>A row that was found: its canonical contact if it was merged, and restored if it was deleted.\<close>

definition take_over :: "uuid \<Rightarrow> (person_row \<Rightarrow> (people, person_row) tx) \<Rightarrow> person_row \<Rightarrow> (people, person_row) tx" where
  "take_over org name c =
     (if \<not> pn_deleted c then name c
      else if pn_merged c \<noteq> None then and_then (resolve_contact org (pn_id c)) name
      else and_then (execute (restore_row (pn_id c))) (\<lambda>_. name (c\<lparr>pn_deleted := False\<rparr>)))"

definition new_person :: "uuid \<Rightarrow> uuid \<Rightarrow> string \<Rightarrow> string \<Rightarrow> person_row" where
  "new_person i org phone name =
     \<lparr>pn_id = i, pn_org = org, pn_phone = phone, pn_name = name, pn_metadata = [], pn_merged = None, pn_merged_at = None,
      pn_merged_by = None, pn_deleted = False\<rparr>"

definition insert_person :: "person_row \<Rightarrow> people \<Rightarrow> err + unit \<times> people" where
  "insert_person c rows =
     (if 255 < rune_count (pn_name c) \<or> 50 < rune_count (pn_phone c) then Inl (DriverError ''value too long for type character varying'')
      else if \<exists>d\<in>set rows. pn_id d = pn_id c \<or> pn_org d = pn_org c \<and> pn_phone d = pn_phone c
      then Inl (DriverError ''duplicate key: contacts'')
      else Inr ((), rows @ [c]))"

text \<open>
  The look-up after a failed insert goes into the variable that holds the new contact; GORM adds the identifier it
  finds there to the query.
\<close>

definition own_person :: "uuid \<Rightarrow> string \<Rightarrow> uuid \<Rightarrow> people \<Rightarrow> person_row option" where
  "own_person org phone i rows =
     first_in (by_key pn_id) (filter (\<lambda>c. pn_org c = org \<and> pn_phone c = phone \<and> pn_id c = i) rows)"

definition create_person :: "(nat \<Rightarrow> uuid) \<Rightarrow> uuid \<Rightarrow> string \<Rightarrow> string \<Rightarrow> (people, person_row \<times> bool) tx" where
  "create_person fresh org phone name =
     and_then (mint fresh) (\<lambda>i.
     on_error (and_then (execute (insert_person (new_person i org phone name))) (\<lambda>_. ret (new_person i org phone name, True)))
       (\<lambda>e. and_then (attempt (first (own_person org phone i))) (\<lambda>found.
          case found of
            Some c \<Rightarrow> and_then (take_over org ret c) (\<lambda>d. ret (d, False))
          | None \<Rightarrow> fail e)))"

definition get_or_create :: "(nat \<Rightarrow> uuid) \<Rightarrow> uuid \<Rightarrow> string \<Rightarrow> string \<Rightarrow> (people, person_row \<times> bool) tx" where
  "get_or_create fresh org raw name =
     (let phone = strip_plus raw; known = take_over org (\<lambda>c. update_unprotected_name c name) in
      if is_empty_phone phone then fail (OtherError m_empty_phone)
      else and_then (attempt (first (person_with_phone org phone))) (\<lambda>found.
        case found of
          Some c \<Rightarrow> and_then (known c) (\<lambda>d. ret (d, False))
        | None \<Rightarrow> and_then (attempt (first (person_with_phone org (CHR ''+'' # phone)))) (\<lambda>found2.
            case found2 of
              Some c \<Rightarrow> and_then (known c) (\<lambda>d. ret (d, False))
            | None \<Rightarrow> create_person fresh org phone name)))"

definition find_contact :: "uuid \<Rightarrow> string \<Rightarrow> (people, person_row) tx" where
  "find_contact org raw =
     (let phone = strip_plus raw in
      and_then (attempt (first (live_with_phone org phone))) (\<lambda>found.
      case found of
        Some c \<Rightarrow> ret c
      | None \<Rightarrow> and_then (attempt (first (live_with_phone org (CHR ''+'' # phone)))) (\<lambda>found2.
          case found2 of Some c \<Rightarrow> ret c | None \<Rightarrow> fail RecordNotFound)))"

section \<open>Merging\<close>

definition m_family_limit :: string where "m_family_limit = ''contact merge family exceeds safety limit''"
definition m_not_canonical :: string where "m_not_canonical = ''Target contact is not canonical''"
definition m_merged_already :: string where
  "m_merged_already = ''Source contact is already merged; the idempotency key does not match the original merge''"
definition m_merged_elsewhere :: string where "m_merged_elsewhere = ''Source contact is already merged elsewhere''"

definition family_limit :: int where "family_limit = 10000"

text \<open>One round of the breadth-first search: the members so far and the new ones.\<close>

fun add_children :: "uuid list \<Rightarrow> uuid list \<Rightarrow> uuid list \<Rightarrow> (err, uuid list \<times> uuid list) result" where
  "add_children found fresh [] = Inr (found, fresh)"
| "add_children found fresh (i # is) =
     (if i \<in> set found then add_children found fresh is
      else if family_limit < int (length found) + 1 then Inl (OtherError m_family_limit)
      else add_children (found @ [i]) (fresh @ [i]) is)"

definition children_of :: "uuid \<Rightarrow> uuid list \<Rightarrow> people \<Rightarrow> uuid list" where
  "children_of org ids rows =
     map pn_id (filter (\<lambda>c. pn_org c = org \<and> (case pn_merged c of None \<Rightarrow> False | Some j \<Rightarrow> j \<in> set ids)) rows)"

text \<open>
  The search. Every round but the last adds a member and a family of more than \<open>family_limit\<close> is an error, so the given
  number of rounds is never used up.
\<close>

function family_rounds :: "int \<Rightarrow> uuid \<Rightarrow> uuid list \<Rightarrow> uuid list \<Rightarrow> (people, uuid list) tx" where
  "family_rounds n org found frontier =
     (if frontier = [] then ret found
      else if n \<le> 0 then fail (OtherError m_family_limit)
      else and_then (query (children_of org frontier)) (\<lambda>children.
        and_then (lift_res (add_children found [] children)) (\<lambda>(all, fresh). family_rounds (n - 1) org all fresh)))"
  by pat_completeness auto
termination by (relation "measure (\<lambda>(n, _). nat n)") auto

declare family_rounds.simps [simp del]

definition contact_family :: "uuid \<Rightarrow> uuid \<Rightarrow> (people, uuid list) tx" where
  "contact_family org i = and_then (family_rounds (family_limit + 1) org [i] [i]) (\<lambda>found. ret (sort found))"

text \<open>The name and the metadata a merge keeps.\<close>

definition first_non_empty :: "string \<Rightarrow> string \<Rightarrow> string" where
  "first_non_empty primary fallback = (if trim_space primary \<noteq> [] then primary else fallback)"

definition merge_metadata :: "jsonb \<Rightarrow> jsonb \<Rightarrow> jsonb" where
  "merge_metadata primary fallback = foldl (\<lambda>m (k, v). AList.update k v m) fallback primary"

definition name_keys :: "string list" where
  "name_keys = [name_source_key, profile_name_key, saved_name_key, saved_at_key, saved_removed_key]"

definition keep_provenance :: "jsonb \<Rightarrow> jsonb \<Rightarrow> jsonb" where
  "keep_provenance merged owner =
     foldl (\<lambda>m k. let d = AList.delete k m in case map_of owner k of None \<Rightarrow> d | Some v \<Rightarrow> AList.update k v d) merged name_keys"

definition merged_target :: "person_row \<Rightarrow> person_row \<Rightarrow> person_row" where
  "merged_target target source =
     (let name = first_non_empty (pn_name target) (pn_name source);
          owner = (if name \<noteq> pn_name target then pn_metadata source else pn_metadata target) in
      target\<lparr>pn_name := name, pn_metadata := keep_provenance (merge_metadata (pn_metadata target) (pn_metadata source)) owner\<rparr>)"

definition write_target :: "uuid \<Rightarrow> person_row \<Rightarrow> people \<Rightarrow> err + nat \<times> people" where
  "write_target org d rows =
     (let p = (\<lambda>c. pn_id c = pn_id d \<and> pn_org c = org \<and> \<not> pn_deleted c) in
      Inr (rows_affected p rows, update_where p (\<lambda>c. c\<lparr>pn_name := pn_name d, pn_metadata := pn_metadata d\<rparr>) rows))"

definition redirect_aliases :: "uuid \<Rightarrow> uuid list \<Rightarrow> uuid \<Rightarrow> people \<Rightarrow> err + nat \<times> people" where
  "redirect_aliases org ids target rows =
     (let p = (\<lambda>c. pn_org c = org \<and> pn_id c \<in> set ids) in
      Inr (rows_affected p rows, update_where p (\<lambda>c. c\<lparr>pn_merged := Some target\<rparr>) rows))"

definition redirect_source :: "uuid \<Rightarrow> uuid \<Rightarrow> uuid \<Rightarrow> uuid \<Rightarrow> time \<Rightarrow> people \<Rightarrow> err + nat \<times> people" where
  "redirect_source org source target user now rows =
     (let p = (\<lambda>c. pn_id c = source \<and> pn_org c = org) in
      Inr (rows_affected p rows, update_where p (\<lambda>c. c\<lparr>pn_merged := Some target, pn_merged_at := Some now,
        pn_merged_by := Some user, pn_deleted := True\<rparr>) rows))"

definition check_merge :: "uuid \<Rightarrow> person_row \<Rightarrow> person_row \<Rightarrow> (people, unit) tx" where
  "check_merge target t s =
     (if pn_deleted t \<or> pn_merged t \<noteq> None then fail (ClientError conflict_status m_not_canonical)
      else case pn_merged s of
        Some j \<Rightarrow> fail (ClientError conflict_status (if j = target then m_merged_already else m_merged_elsewhere))
      | None \<Rightarrow> if pn_deleted s then fail RecordNotFound else ret ())"

text \<open>What a merge does with the rows it locked, and the merge.\<close>

definition merge_locked :: "uuid \<Rightarrow> uuid \<Rightarrow> uuid \<Rightarrow> uuid \<Rightarrow> time \<Rightarrow> uuid list \<Rightarrow> people \<Rightarrow> (people, unit) tx" where
  "merge_locked org user target source now sources locked =
     (case (find (\<lambda>c. pn_id c = target) locked, find (\<lambda>c. pn_id c = source) locked) of
       (Some t, Some s) \<Rightarrow>
         and_then (check_merge target t s) (\<lambda>_.
         and_then (execute (write_target org (merged_target t s))) (\<lambda>_.
         let aliases = filter (\<lambda>i. i \<noteq> source \<and> i \<noteq> target) sources in
         and_then (if aliases = [] then ret 0 else execute (redirect_aliases org aliases target)) (\<lambda>_.
         and_then (execute (redirect_source org source target user now)) (\<lambda>_. ret ()))))
     | _ \<Rightarrow> fail RecordNotFound)"

definition merge_redirects :: "uuid \<Rightarrow> uuid \<Rightarrow> uuid \<Rightarrow> uuid \<Rightarrow> time \<Rightarrow> (people, unit) tx" where
  "merge_redirects org user target source now =
     and_then (contact_family org target) (\<lambda>targets.
     and_then (contact_family org source) (\<lambda>sources.
     and_then (query (with_ids org (targets @ sources @ [target, source]))) (\<lambda>locked.
     merge_locked org user target source now sources locked)))"

definition delete_contact :: "uuid \<Rightarrow> uuid \<Rightarrow> (people, nat) tx" where
  "delete_contact org i =
     and_then (first (\<lambda>rows. first_in (by_key pn_id) (filter (\<lambda>c. pn_id c = i \<and> pn_org c = org \<and> \<not> pn_deleted c) rows))) (\<lambda>c.
     execute (\<lambda>rows. let p = (\<lambda>d. pn_id d = pn_id c \<and> \<not> pn_deleted d) in
       Inr (rows_affected p rows, update_where p (\<lambda>d. d\<lparr>pn_deleted := True\<rparr>) rows)))"

end
