(* ===== verification/Redirects.thy ===== *)
theory Redirects
  imports Directory Triples
begin

text \<open>
  The directory under its requests: redirects stay flat, so following one ends at once; the look-up that locks rows
  answers as the one that does not; and a phone number keeps its contact.
\<close>

section \<open>Flat directories\<close>

text \<open>
  Identifiers and the phone numbers of a tenant are keys, and a merged row is deleted and points to a row of its tenant
  that was not merged itself.
\<close>

definition flat :: "people \<Rightarrow> bool" where
  "flat rows \<longleftrightarrow> distinct (map pn_id rows) \<and> distinct (map (\<lambda>c. (pn_org c, pn_phone c)) rows)
     \<and> (\<forall>c\<in>set rows. \<forall>j. pn_merged c = Some j \<longrightarrow>
          pn_deleted c \<and> (\<exists>r\<in>set rows. pn_id r = j \<and> pn_org r = pn_org c \<and> pn_merged r = None))"

definition skeleton :: "person_row \<Rightarrow> uuid \<times> uuid \<times> string \<times> uuid option \<times> bool" where
  "skeleton c = (pn_id c, pn_org c, pn_phone c, pn_merged c, pn_deleted c)"

definition shape :: "person_row \<Rightarrow> uuid \<times> uuid \<times> string \<times> uuid option" where
  "shape c = (pn_id c, pn_org c, pn_phone c, pn_merged c)"

lemma same_row: "distinct (map pn_id rows) \<Longrightarrow> c \<in> set rows \<Longrightarrow> d \<in> set rows \<Longrightarrow> pn_id c = pn_id d \<Longrightarrow> c = d"
  by (simp add: distinct_map inj_on_def)

lemma map_image: "map f xs = map f ys \<Longrightarrow> y \<in> set ys \<Longrightarrow> \<exists>x\<in>set xs. f x = f y"
  by (metis imageE image_eqI set_map)

lemma flat_cong:
  assumes "map skeleton rows = map skeleton rows'" and "flat rows"
  shows "flat rows'"
proof -
  have ids: "map pn_id rows' = map pn_id rows" "map (\<lambda>c. (pn_org c, pn_phone c)) rows' = map (\<lambda>c. (pn_org c, pn_phone c)) rows"
    using arg_cong [OF assms(1), of "map fst"] arg_cong [OF assms(1), of "map (\<lambda>(i, org, p, _). (org, p))"]
    by (simp_all add: skeleton_def comp_def)
  have "pn_deleted c \<and> (\<exists>r\<in>set rows'. pn_id r = j \<and> pn_org r = pn_org c \<and> pn_merged r = None)"
    if c: "c \<in> set rows'" "pn_merged c = Some j" for c j
  proof -
    from map_image [OF assms(1) c(1)] obtain d where d: "d \<in> set rows" "skeleton d = skeleton c" by blast
    then have "pn_merged d = Some j" using c(2) by (simp add: skeleton_def)
    then obtain r where r: "r \<in> set rows" "pn_id r = j \<and> pn_org r = pn_org d \<and> pn_merged r = None" and "pn_deleted d"
      using assms(2) d(1) unfolding flat_def by metis
    from map_image [OF assms(1) [symmetric] r(1)] r(2) d(2) \<open>pn_deleted d\<close> show ?thesis by (auto simp: skeleton_def)
  qed
  with assms(2) ids show ?thesis by (simp add: flat_def)
qed

lemma flat_root:
  assumes "flat rows" and "c \<in> set rows" and "pn_merged c = Some j"
  obtains r where "r \<in> set rows" "pn_id r = j" "pn_org r = pn_org c" "pn_merged r = None" "j \<noteq> pn_id c"
proof -
  from assms obtain r where r: "r \<in> set rows" "pn_id r = j" "pn_org r = pn_org c" "pn_merged r = None"
    unfolding flat_def by blast
  moreover have "j \<noteq> pn_id c" using same_row [of rows r c] assms r by (auto simp: flat_def)
  ultimately show ?thesis using that by blast
qed

section \<open>What single statements do\<close>

lemma person_by_id_Some: "person_by_id org i rows = Some c \<Longrightarrow> c \<in> set rows \<and> pn_id c = i \<and> pn_org c = org"
  unfolding person_by_id_def by (drule first_in_filterD) simp

lemma person_by_id_row:
  assumes "distinct (map pn_id rows)" and "c \<in> set rows" and "pn_id c = i" and "pn_org c = org"
  shows "person_by_id org i rows = Some c"
proof -
  have "person_by_id org i rows \<noteq> None" using assms(2-4) by (auto simp: person_by_id_def filter_empty_conv)
  then obtain d where d: "person_by_id org i rows = Some d" by blast
  have "d = c" using person_by_id_Some [OF d] assms(2,3) by (intro same_row [OF assms(1)]) simp_all
  with d show ?thesis by simp
qed

lemma person_with_phone_Some:
  "person_with_phone org p rows = Some c \<Longrightarrow> c \<in> set rows \<and> pn_org c = org \<and> pn_phone c = p"
  unfolding person_with_phone_def by (drule first_in_filterD) simp

lemma person_with_phone_None:
  "person_with_phone org p rows = None \<longleftrightarrow> (\<forall>d\<in>set rows. pn_org d = org \<longrightarrow> pn_phone d \<noteq> p)"
  unfolding person_with_phone_def by (auto simp: filter_empty_conv)

lemma own_person_Some: "own_person org p i rows = Some c \<Longrightarrow> c \<in> set rows \<and> pn_org c = org \<and> pn_phone c = p"
  unfolding own_person_def by (drule first_in_filterD) simp

lemma reads_attempt [reads_intros]: "reads m \<Longrightarrow> reads (attempt m)"
  unfolding reads_def attempt_def by (auto split: prod.split sum.split) (metis snd_conv)+

lemma reads_resolve [reads_intros]: "reads (resolve_from n visited org i)"
  by (induction n arbitrary: visited i) (auto intro!: reads_intros split: option.split)

lemma reads_resolve_contact [reads_intros]: "reads (resolve_contact org i)"
  unfolding resolve_contact_def by (rule reads_resolve)

lemma skeleton_rename: "map skeleton rows' = map skeleton rows" if "rename_unprotected org i name rows = Inr (n, rows')"
  using that by (auto simp: rename_unprotected_def Let_def skeleton_def map_update_where_same split: if_splits)

lemma spares_name [spares_intros]:
  "spares (map skeleton) (update_unprotected_name c name)" "spares (map shape) (update_unprotected_name c name)"
  unfolding update_unprotected_name_def
  by (intro spares_intros reads_intros spares_execute; auto simp: rename_unprotected_def Let_def skeleton_def shape_def
      map_update_where_same split: if_splits)+

section \<open>Following a redirect of a flat directory\<close>

definition absent :: "err \<Rightarrow> bool" where
  "absent e \<longleftrightarrow> e = RecordNotFound \<or> (\<exists>m. e = DriverError m)"

lemma first_Inl: "first q s = (Inl e, u) \<Longrightarrow> absent e"
  by (auto simp: first_def query_def poll_def and_then_def ret_def fail_def absent_def split: list.splits option.splits)

lemma resolve_step:
  assumes "resolve_from (Suc n) visited org i s = (a, u)" and "i \<notin> set visited"
  shows "(\<exists>e. a = Inl e \<and> absent e)
    \<or> (\<exists>c t. person_by_id org i (tabs s) = Some c \<and> tabs t = tabs s
        \<and> (case pn_merged c of None \<Rightarrow> \<not> pn_deleted c \<and> a = Inr c | Some j \<Rightarrow> resolve_from n (i # visited) org j t = (a, u)))"
proof -
  let ?rest = "\<lambda>c. case pn_merged c of None \<Rightarrow> if pn_deleted c then fail RecordNotFound else ret c
      | Some j \<Rightarrow> resolve_from n (i # visited) org j"
  obtain b t where f: "first (person_by_id org i) s = (b, t)" by (cases "first (person_by_id org i) s")
  from assms have run: "and_then (first (person_by_id org i)) ?rest s = (a, u)" by simp
  show ?thesis
  proof (cases b)
    case (Inl e)
    with run f first_Inl [of "person_by_id org i" s e t] show ?thesis by (auto simp: and_then_def)
  next
    case (Inr c)
    with run f have "?rest c t = (a, u)" by (simp add: and_then_def)
    moreover have "person_by_id org i (tabs s) = Some c \<and> tabs t = tabs s" using first_Inr f Inr by metis
    ultimately show ?thesis by (auto simp: ret_def fail_def absent_def split: option.splits if_splits)
  qed
qed

lemma resolve_flat:
  assumes "flat (tabs s)" and "resolve_contact org i s = (a, u)"
  shows "case a of
      Inl e \<Rightarrow> absent e
    | Inr c \<Rightarrow> c \<in> set (tabs s) \<and> pn_org c = org \<and> \<not> pn_deleted c \<and> pn_merged c = None
        \<and> (\<exists>b\<in>set (tabs s). pn_id b = i \<and> pn_org b = org \<and> (b = c \<or> pn_merged b = Some (pn_id c)))"
proof -
  have depth: "max_depth = Suc (Suc 14)" by (simp add: max_depth_def)
  from resolve_step [OF assms(2) [unfolded resolve_contact_def depth]]
  consider e where "a = Inl e" "absent e" | c t where "person_by_id org i (tabs s) = Some c" "tabs t = tabs s"
      "case pn_merged c of None \<Rightarrow> \<not> pn_deleted c \<and> a = Inr c | Some j \<Rightarrow> resolve_from (Suc 14) [i] org j t = (a, u)"
    by auto
  then show ?thesis
  proof cases
    case (2 c t)
    note c = person_by_id_Some [OF 2(1)]
    show ?thesis
    proof (cases "pn_merged c")
      case None
      with 2(3) c show ?thesis by auto
    next
      case (Some j)
      from flat_root [OF assms(1) _ Some] c obtain r where r: "r \<in> set (tabs s)" "pn_id r = j" "pn_org r = org"
        "pn_merged r = None" "j \<noteq> i" by metis
      have "person_by_id org j (tabs t) = Some r"
        using r assms(1) 2(2) by (intro person_by_id_row) (simp_all add: flat_def)
      moreover from 2(3) Some have "resolve_from (Suc 14) [i] org j t = (a, u)" by simp
      ultimately have "(\<exists>e. a = Inl e \<and> absent e) \<or> \<not> pn_deleted r \<and> a = Inr r"
        using resolve_step [of 14 "[i]" org j t a u] r(4,5) by auto
      with r c Some show ?thesis by auto
    qed
  qed simp
qed

section \<open>The requests keep it flat\<close>

lemma keeps_flat_name: "keeps flat (update_unprotected_name c name)"
  by (rule keeps_spares [OF spares_name(1)]) (metis flat_cong)

text \<open>Changing rows in place keeps a directory flat as long as keys and redirects stay and merged rows stay deleted.\<close>

lemma flat_map:
  assumes "flat rows" and "\<And>c. c \<in> set rows \<Longrightarrow> shape (f c) = shape c"
    and "\<And>c j. c \<in> set rows \<Longrightarrow> pn_merged c = Some j \<Longrightarrow> pn_deleted (f c)"
  shows "flat (map f rows)"
proof -
  have same: "pn_id (f c) = pn_id c" "pn_org (f c) = pn_org c" "pn_phone (f c) = pn_phone c" "pn_merged (f c) = pn_merged c"
    if "c \<in> set rows" for c using assms(2) [OF that] by (simp_all add: shape_def)
  have "map pn_id (map f rows) = map pn_id rows"
    "map (\<lambda>c. (pn_org c, pn_phone c)) (map f rows) = map (\<lambda>c. (pn_org c, pn_phone c)) rows" using same by simp_all
  moreover have "pn_deleted d \<and> (\<exists>r\<in>set (map f rows). pn_id r = j \<and> pn_org r = pn_org d \<and> pn_merged r = None)"
    if "d \<in> set (map f rows)" "pn_merged d = Some j" for d j
  proof -
    from that same obtain c where c: "c \<in> set rows" "d = f c" "pn_merged c = Some j" by auto
    from flat_root [OF assms(1) c(1,3)] obtain r where r: "r \<in> set rows" "pn_id r = j" "pn_org r = pn_org c" "pn_merged r = None" by metis
    then have "f r \<in> set (map f rows) \<and> pn_id (f r) = j \<and> pn_org (f r) = pn_org d \<and> pn_merged (f r) = None" using same c by simp
    with assms(3) [OF c(1,3)] c(2) show ?thesis by blast
  qed
  ultimately show ?thesis using assms(1) by (simp only: flat_def) blast
qed

lemma flat_restored:
  assumes "flat rows" and "c \<in> set rows" and "pn_merged c = None" and "restore_row (pn_id c) rows = Inr (n, rows')"
  shows "flat rows' \<and> map shape rows' = map shape rows"
proof -
  let ?f = "\<lambda>d. if pn_id d = pn_id c then d\<lparr>pn_deleted := False\<rparr> else d"
  have rows': "rows' = map ?f rows" using assms(4) by (simp add: restore_row_def update_where_def)
  have "pn_deleted (?f d)" if d: "d \<in> set rows" "pn_merged d = Some j" for d j
  proof -
    have "pn_id d \<noteq> pn_id c" using same_row [of rows d c] d assms(1-3) by (auto simp: flat_def)
    moreover have "pn_deleted d" using assms(1) d unfolding flat_def by metis
    ultimately show ?thesis by simp
  qed
  then have "flat rows'" unfolding rows' by (intro flat_map [OF assms(1)]) (auto simp: shape_def)
  then show ?thesis unfolding rows' by (simp add: shape_def)
qed

lemma take_over_keeps:
  assumes run: "take_over org name c s = (a, u)" and ok: "flat (tabs s)" "c \<in> set (tabs s)" and name: "\<And>d. keeps flat (name d)"
  shows "flat (tabs u)"
proof -
  have rest: "flat (tabs u)" if "and_then m f s = (a, u)" "keeps flat m" "\<And>x. keeps flat (f x)" for m f
    using keepsD [OF keeps_and_then that(1)] that(2,3) ok(1) by blast
  consider "\<not> pn_deleted c" | "pn_deleted c" "pn_merged c \<noteq> None" | "pn_deleted c" "pn_merged c = None" by blast
  then show ?thesis
  proof cases
    case 1
    with run keepsD [OF name] ok(1) show ?thesis by (simp add: take_over_def)
  next
    case 2
    with run have "and_then (resolve_contact org (pn_id c)) name s = (a, u)" by (simp add: take_over_def)
    then show ?thesis by (rule rest) (intro keeps_reads reads_intros, rule name)
  next
    case 3
    from 3 run have "and_then (execute (restore_row (pn_id c))) (\<lambda>_. name (c\<lparr>pn_deleted := False\<rparr>)) s = (a, u)"
      by (simp add: take_over_def)
    moreover obtain b t where e: "execute (restore_row (pn_id c)) s = (b, t)" by (cases "execute (restore_row (pn_id c)) s")
    moreover have "flat (tabs t)"
    proof (cases b)
      case (Inl x)
      with atomicD [OF atomic_execute] e ok(1) show ?thesis by metis
    next
      case (Inr n)
      with e execute_Inr [of "restore_row (pn_id c)" s n t] flat_restored [OF ok 3(2)] show ?thesis by blast
    qed
    ultimately show ?thesis using keepsD [OF name] by (auto simp: and_then_def split: sum.splits)
  qed
qed

lemma flat_append:
  assumes "flat rows" and "insert_person c rows = Inr ((), rows')" and "pn_merged c = None"
  shows "flat rows'"
proof -
  have rows': "rows' = rows @ [c]" and new: "\<forall>d\<in>set rows. pn_id d \<noteq> pn_id c \<and> (pn_org d, pn_phone d) \<noteq> (pn_org c, pn_phone c)"
    using assms(2) by (auto simp: insert_person_def split: if_splits)
  show ?thesis
    using assms(1,3) new unfolding rows' flat_def by (auto simp: image_iff)
qed

lemma attempt_Inr:
  assumes "attempt (first q) s = (a, u)"
  shows "tabs u = tabs s \<and> (\<exists>found. a = Inr found \<and> (\<forall>c. found = Some c \<longrightarrow> q (tabs s) = Some c))"
proof -
  obtain b t where f: "first q s = (b, t)" by (cases "first q s")
  then have "tabs t = tabs s" using reads_first [of q] unfolding reads_def by (metis snd_conv)
  with assms f first_Inr [of q s _ t] show ?thesis by (cases b) (auto simp: attempt_def)
qed

lemma create_person_keeps: "keeps flat (create_person fresh org phone name)"
  unfolding keeps_def
proof (intro allI impI)
  fix s :: "people db"
  assume ok: "flat (tabs s)"
  let ?c = "new_person (fresh (minted s)) org phone name" and ?s = "s\<lparr>minted := Suc (minted s)\<rparr>"
  obtain b t where e: "execute (insert_person ?c) ?s = (b, t)" by (cases "execute (insert_person ?c) ?s")
  show "flat (tabs (snd (create_person fresh org phone name s)))"
  proof (cases b)
    case (Inr x)
    then have "insert_person ?c (tabs s) = Inr ((), tabs t)" using execute_Inr [of "insert_person ?c" ?s "()" t] e by simp
    from flat_append [OF ok this] e Inr show ?thesis
      by (simp add: create_person_def on_error_def and_then_def mint_def ret_def new_person_def)
  next
    case (Inl err)
    then have t: "tabs t = tabs s" using atomicD [OF atomic_execute] e by fastforce
    obtain f v where a: "attempt (first (own_person org phone (fresh (minted s)))) t = (f, v)" by (cases "attempt (first (own_person org phone (fresh (minted s)))) t")
    from attempt_Inr [OF this] t obtain found where v: "tabs v = tabs s" "f = Inr found"
      and found: "\<And>c. found = Some c \<Longrightarrow> own_person org phone (fresh (minted s)) (tabs s) = Some c" by auto
    have step: "snd (create_person fresh org phone name s) = snd ((case found of
        Some c \<Rightarrow> and_then (take_over org ret c) (\<lambda>d. ret (d, False)) | None \<Rightarrow> fail err) v)"
      using e Inl a v(2) by (simp add: create_person_def on_error_def and_then_def mint_def)
    show ?thesis
    proof (cases found)
      case None
      with step v ok show ?thesis by (simp add: fail_def)
    next
      case (Some c)
      obtain d w where r: "take_over org ret c v = (d, w)" by (cases "take_over org ret c v")
      have "flat (tabs w)" using take_over_keeps [OF r _ _ keeps_reads [OF reads_ret]] ok v(1) own_person_Some [OF found [OF Some]] by simp
      with step Some r show ?thesis by (auto simp: and_then_def ret_def split: sum.splits)
    qed
  qed
qed

lemma get_or_create_keeps: "keeps flat (get_or_create fresh org raw name)"
  unfolding keeps_def
proof (intro allI impI)
  fix s :: "people db"
  assume ok: "flat (tabs s)"
  let ?p = "strip_plus raw" and ?known = "take_over org (\<lambda>c. update_unprotected_name c name)"
  have known: "flat (tabs (snd (and_then (?known c) (\<lambda>d. ret (d, False)) v)))" if "tabs v = tabs s" "c \<in> set (tabs s)" for c and v :: "people db"
  proof -
    obtain d w where r: "?known c v = (d, w)" by (cases "?known c v")
    have "flat (tabs w)" using take_over_keeps [OF r _ _ keeps_flat_name] that ok by simp
    with r show ?thesis by (auto simp: and_then_def ret_def split: sum.splits)
  qed
  obtain f v where a: "attempt (first (person_with_phone org ?p)) s = (f, v)" by (cases "attempt (first (person_with_phone org ?p)) s")
  from attempt_Inr [OF this] obtain found where v: "tabs v = tabs s" "f = Inr found"
    and found: "\<And>c. found = Some c \<Longrightarrow> c \<in> set (tabs s)" using person_with_phone_Some by metis
  obtain f2 v2 where a2: "attempt (first (person_with_phone org (CHR ''+'' # ?p))) v = (f2, v2)"
    by (cases "attempt (first (person_with_phone org (CHR ''+'' # ?p))) v")
  from attempt_Inr [OF this] v obtain found2 where v2: "tabs v2 = tabs s" "f2 = Inr found2"
    and found2: "\<And>c. found2 = Some c \<Longrightarrow> c \<in> set (tabs s)" using person_with_phone_Some by metis
  show "flat (tabs (snd (get_or_create fresh org raw name s)))"
  proof (cases "is_empty_phone ?p")
    case True
    with ok show ?thesis by (simp add: get_or_create_def fail_def)
  next
    case False
    then have "snd (get_or_create fresh org raw name s) = snd ((case found of
        Some c \<Rightarrow> and_then (?known c) (\<lambda>d. ret (d, False))
      | None \<Rightarrow> (\<lambda>_. (case found2 of
            Some c \<Rightarrow> and_then (?known c) (\<lambda>d. ret (d, False))
          | None \<Rightarrow> create_person fresh org ?p name) v2)) v)"
      using a a2 v(2) v2(2) by (simp add: get_or_create_def Let_def and_then_def split: option.split)
    with known [OF v(1) found] known [OF v2(1) found2] create_person_keeps v2(1) ok show ?thesis
      by (auto simp: keeps_def split: option.splits)
  qed
qed

section \<open>Merging\<close>

definition member :: "uuid \<Rightarrow> people \<Rightarrow> uuid \<Rightarrow> bool" where
  "member org rows k \<longleftrightarrow> (\<exists>c\<in>set rows. pn_id c = k \<and> pn_org c = org \<and> pn_merged c \<noteq> None)"

lemma children_member: "k \<in> set (children_of org ids rows) \<Longrightarrow> member org rows k"
  by (auto simp: children_of_def member_def split: option.splits)

lemma add_children_set:
  "add_children found fresh is = Inr (all, next) \<Longrightarrow> set all = set found \<union> set is"
  by (induction found fresh "is" rule: add_children.induct) (auto split: if_splits)

lemma family_rounds_Inr:
  "family_rounds n org found frontier s = (Inr ids, u) \<Longrightarrow>
     tabs u = tabs s \<and> set found \<subseteq> set ids \<and> (\<forall>k\<in>set ids. k \<in> set found \<or> member org (tabs s) k)"
proof (induction n org found frontier arbitrary: s rule: family_rounds.induct)
  case (1 n org found frontier)
  show ?case
  proof (cases "frontier = [] \<or> n \<le> 0")
    case True
    with 1(2) show ?thesis by (auto simp: family_rounds.simps [of n] ok_simps split: if_splits)
  next
    case False
    with 1(2) obtain children t all fresh where q: "query (children_of org frontier) s = (Inr children, t)" and
      a: "add_children found [] children = Inr (all, fresh)" and r: "family_rounds (n - 1) org all fresh t = (Inr ids, u)"
      by (auto simp: family_rounds.simps [of n] ok_simps split: if_splits)
    from query_Inr [OF q] have t: "children = children_of org frontier (tabs s)" "tabs t = tabs s" by simp_all
    from False 1(1) [OF _ _ r] have "tabs u = tabs t \<and> set all \<subseteq> set ids \<and> (\<forall>k\<in>set ids. k \<in> set all \<or> member org (tabs t) k)"
      by simp
    with t add_children_set [OF a] children_member show ?thesis by auto
  qed
qed

lemma contact_family_Inr:
  assumes "contact_family org i s = (Inr ids, u)"
  shows "tabs u = tabs s \<and> i \<in> set ids \<and> (\<forall>k\<in>set ids. k = i \<or> member org (tabs s) k)
    \<and> (\<forall>c\<in>set (tabs s). pn_org c = org \<longrightarrow> pn_merged c = Some i \<longrightarrow> pn_id c \<in> set ids)"
proof -
  from assms obtain found where r: "family_rounds (family_limit + 1) org [i] [i] s = (Inr found, u)" and ids: "ids = sort found"
    by (auto simp: contact_family_def ok_simps)
  have "\<not> family_limit + 1 \<le> 0" by (simp add: family_limit_def)
  with r obtain children t all fresh where q: "query (children_of org [i]) s = (Inr children, t)" and
    a: "add_children [i] [] children = Inr (all, fresh)" and r': "family_rounds family_limit org all fresh t = (Inr found, u)"
    unfolding family_rounds.simps [of "family_limit + 1"] by (auto simp: ok_simps)
  from query_Inr [OF q] have t: "children = children_of org [i] (tabs s)" "tabs t = tabs s" by simp_all
  have "pn_id c \<in> set children" if "c \<in> set (tabs s)" "pn_org c = org" "pn_merged c = Some i" for c
    using that unfolding t(1) children_of_def by (auto intro!: image_eqI [of _ _ c])
  with family_rounds_Inr [OF r] family_rounds_Inr [OF r'] add_children_set [OF a] ids show ?thesis by auto
qed

definition redirected :: "uuid \<Rightarrow> uuid list \<Rightarrow> uuid \<Rightarrow> uuid \<Rightarrow> uuid \<Rightarrow> time \<Rightarrow> person_row \<Rightarrow> person_row" where
  "redirected org aliases source target user now c =
     (let d = (if pn_org c = org \<and> pn_id c \<in> set aliases then c\<lparr>pn_merged := Some target\<rparr> else c) in
      if pn_id c = source \<and> pn_org c = org
      then d\<lparr>pn_merged := Some target, pn_merged_at := Some now, pn_merged_by := Some user, pn_deleted := True\<rparr> else d)"

lemma redirected_same [simp]:
  "pn_id (redirected org aliases source target user now c) = pn_id c"
  "pn_org (redirected org aliases source target user now c) = pn_org c"
  "pn_phone (redirected org aliases source target user now c) = pn_phone c"
  by (simp_all add: redirected_def Let_def)

lemma flat_redirected:
  assumes flat: "flat rows" and t: "t \<in> set rows" "pn_id t = target" "pn_org t = org" "pn_merged t = None"
    and s: "src \<in> set rows" "pn_id src = source" "pn_org src = org" "pn_merged src = None" and ne: "source \<noteq> target"
    and all: "\<forall>c\<in>set rows. pn_org c = org \<longrightarrow> pn_merged c = Some source \<longrightarrow> pn_id c \<in> set aliases"
    and only: "\<forall>k\<in>set aliases. member org rows k"
  shows "flat (map (redirected org aliases source target user now) rows)"
proof -
  let ?f = "redirected org aliases source target user now"
  have ids: "distinct (map pn_id rows)" using flat by (simp add: flat_def)
  have merged: "pn_merged c \<noteq> None" if c: "c \<in> set rows" "pn_id c \<in> set aliases" for c
  proof -
    from only c(2) obtain d where "d \<in> set rows" "pn_id d = pn_id c" "pn_merged d \<noteq> None" by (auto simp: member_def)
    with same_row [OF ids] c(1) show ?thesis by metis
  qed
  have tgt: "?f t \<in> set (map ?f rows)" "pn_merged (?f t) = None"
    using t merged [OF t(1)] ne by (auto simp: redirected_def Let_def)
  have one: "pn_deleted (?f c) \<and> (\<exists>r\<in>set (map ?f rows). pn_id r = j \<and> pn_org r = pn_org (?f c) \<and> pn_merged r = None)"
    if c: "c \<in> set rows" and j: "pn_merged (?f c) = Some j" for c j
  proof (cases "pn_org c = org \<and> (pn_id c = source \<or> pn_id c \<in> set aliases)")
    case True
    then have "j = target" using j by (auto simp: redirected_def Let_def split: if_splits)
    moreover have "pn_deleted (?f c)"
      using True flat merged [OF c] c unfolding flat_def by (auto simp: redirected_def Let_def)
    ultimately show ?thesis using tgt t True by (intro conjI bexI [of _ "?f t"]) simp_all
  next
    case False
    then have same: "?f c = c" by (auto simp: redirected_def)
    with j have m: "pn_merged c = Some j" by simp
    from flat_root [OF flat c m] obtain r where r: "r \<in> set rows" "pn_id r = j" "pn_org r = pn_org c" "pn_merged r = None" by metis
    have "\<not> (pn_org r = org \<and> pn_id r = source)" using all c m r False by auto
    moreover have "pn_id r \<notin> set aliases" using merged [OF r(1)] r(4) by auto
    ultimately have "?f r = r" by (auto simp: redirected_def)
    moreover have "pn_deleted c" using flat c m unfolding flat_def by metis
    ultimately show ?thesis using same r by (intro conjI bexI [of _ r]) (auto intro!: image_eqI [of _ _ r])
  qed
  have "pn_deleted d \<and> (\<exists>r\<in>set (map ?f rows). pn_id r = j \<and> pn_org r = pn_org d \<and> pn_merged r = None)"
    if "d \<in> set (map ?f rows)" "pn_merged d = Some j" for d j
  proof -
    from that(1) obtain c where "c \<in> set rows" "d = ?f c" by auto
    with one [of c j] that(2) show ?thesis by simp
  qed
  moreover have "map pn_id (map ?f rows) = map pn_id rows"
    "map (\<lambda>c. (pn_org c, pn_phone c)) (map ?f rows) = map (\<lambda>c. (pn_org c, pn_phone c)) rows" by simp_all
  ultimately show ?thesis using flat by (simp only: flat_def) blast
qed

lemma find_locked:
  assumes "find (\<lambda>c. pn_id c = k) (with_ids org ids rows) = Some c"
  shows "c \<in> set rows \<and> pn_org c = org \<and> pn_id c = k"
  using find_Some_mem [OF assms] by (auto simp: with_ids_def)

lemma check_merge_Inr:
  "check_merge target t src s = (Inr (), u) \<Longrightarrow> \<not> pn_deleted t \<and> pn_merged t = None \<and> \<not> pn_deleted src \<and> pn_merged src = None \<and> u = s"
  by (auto simp: check_merge_def ok_simps split: if_splits option.splits)

lemma skeleton_write: "write_target org d rows = Inr (n, rows') \<Longrightarrow> map skeleton rows' = map skeleton rows"
  by (auto simp: write_target_def Let_def skeleton_def map_update_where_same)

lemma merge_locked_Inr:
  assumes "merge_locked org user target source now sources locked s = (Inr (), u)"
  obtains t c s4 n s5 m k where "find (\<lambda>c. pn_id c = target) locked = Some t" "find (\<lambda>c. pn_id c = source) locked = Some c"
    and "check_merge target t c s = (Inr (), s)" and "execute (write_target org (merged_target t c)) s = (Inr n, s4)"
    and "(if filter (\<lambda>i. i \<noteq> source \<and> i \<noteq> target) sources = [] then ret 0
       else execute (redirect_aliases org (filter (\<lambda>i. i \<noteq> source \<and> i \<noteq> target) sources) target)) s4 = (Inr m, s5)"
    and "execute (redirect_source org source target user now) s5 = (Inr k, u)"
proof -
  define writes where "writes t c = and_then (execute (write_target org (merged_target t c))) (\<lambda>_.
         let aliases = filter (\<lambda>i. i \<noteq> source \<and> i \<noteq> target) sources in
         and_then (if aliases = [] then ret 0 else execute (redirect_aliases org aliases target)) (\<lambda>_.
         and_then (execute (redirect_source org source target user now)) (\<lambda>_. ret ())))" for t c
  from assms obtain t c where tc: "find (\<lambda>c. pn_id c = target) locked = Some t" "find (\<lambda>c. pn_id c = source) locked = Some c"
    and "and_then (check_merge target t c) (\<lambda>_. writes t c) s = (Inr (), u)"
    unfolding merge_locked_def writes_def [symmetric] by (auto simp: fail_Inr split: option.splits)
  moreover then have ch: "check_merge target t c s = (Inr (), s)" and "writes t c s = (Inr (), u)"
    using check_merge_Inr [of target t c s] by (auto simp: and_then_Inr)
  moreover then obtain n s4 m s5 k where "execute (write_target org (merged_target t c)) s = (Inr n, s4)"
    and "(if filter (\<lambda>i. i \<noteq> source \<and> i \<noteq> target) sources = [] then ret 0
       else execute (redirect_aliases org (filter (\<lambda>i. i \<noteq> source \<and> i \<noteq> target) sources) target)) s4 = (Inr m, s5)"
    and "execute (redirect_source org source target user now) s5 = (Inr k, u)"
    unfolding writes_def Let_def and_then_Inr ret_Inr by blast
  ultimately show ?thesis by (intro that)
qed

text \<open>What a merge did: the names of the target, then the redirects.\<close>

lemma merge_redirects_Inr:
  assumes run: "merge_redirects org user target source now s = (Inr (), u)" and ne: "source \<noteq> target" and ok: "flat (tabs s)"
  obtains rows aliases where "map skeleton rows = map skeleton (tabs s)"
    and "tabs u = map (redirected org aliases source target user now) rows"
    and "\<forall>c\<in>set rows. pn_org c = org \<longrightarrow> pn_merged c = Some source \<longrightarrow> pn_id c \<in> set aliases"
    and "\<forall>k\<in>set aliases. member org rows k"
    and "\<exists>t\<in>set rows. pn_id t = target \<and> pn_org t = org \<and> pn_merged t = None \<and> \<not> pn_deleted t"
    and "\<exists>c\<in>set rows. pn_id c = source \<and> pn_org c = org \<and> pn_merged c = None \<and> \<not> pn_deleted c"
proof -
  from run obtain targets s1 where f1: "contact_family org target s = (Inr targets, s1)" and
    r1: "and_then (contact_family org source) (\<lambda>sources.
      and_then (query (with_ids org (targets @ sources @ [target, source]))) (\<lambda>locked.
      merge_locked org user target source now sources locked)) s1 = (Inr (), u)"
    unfolding merge_redirects_def and_then_Inr [of "contact_family org target"] by (elim exE conjE)
  from r1 obtain sources s2 where f2: "contact_family org source s1 = (Inr sources, s2)" and
    r2: "and_then (query (with_ids org (targets @ sources @ [target, source]))) (\<lambda>locked.
      merge_locked org user target source now sources locked) s2 = (Inr (), u)"
    unfolding and_then_Inr [of "contact_family org source"] by (elim exE conjE)
  from r2 obtain locked s3 where q: "query (with_ids org (targets @ sources @ [target, source])) s2 = (Inr locked, s3)" and
    rest: "merge_locked org user target source now sources locked s3 = (Inr (), u)"
    unfolding and_then_Inr [of "query _"] by (elim exE conjE)
  note F1 = contact_family_Inr [OF f1] and F2 = contact_family_Inr [OF f2]
  have t3: "tabs s3 = tabs s" and locked: "locked = with_ids org (targets @ sources @ [target, source]) (tabs s)"
    using F1 F2 query_Inr [OF q] by simp_all
  from merge_locked_Inr [OF rest] obtain t c s4 n s5 m k where
    tc: "find (\<lambda>c. pn_id c = target) locked = Some t" "find (\<lambda>c. pn_id c = source) locked = Some c" and
    ch: "check_merge target t c s3 = (Inr (), s3)" and
    w: "execute (write_target org (merged_target t c)) s3 = (Inr n, s4)" and
    a0: "(if filter (\<lambda>i. i \<noteq> source \<and> i \<noteq> target) sources = [] then ret 0
       else execute (redirect_aliases org (filter (\<lambda>i. i \<noteq> source \<and> i \<noteq> target) sources) target)) s4 = (Inr m, s5)" and
    r: "execute (redirect_source org source target user now) s5 = (Inr k, u)" .
  define aliases where "aliases = filter (\<lambda>i. i \<noteq> source \<and> i \<noteq> target) sources"
  note a = a0 [folded aliases_def]
  note C = check_merge_Inr [OF ch] and T = find_locked [OF tc(1) [unfolded locked]] and S = find_locked [OF tc(2) [unfolded locked]]
  have sk: "map skeleton (tabs s4) = map skeleton (tabs s)"
    using skeleton_write [OF conjunct1 [OF execute_Inr [OF w]]] t3 by simp
  have t5: "tabs s5 = map (\<lambda>c. if pn_org c = org \<and> pn_id c \<in> set aliases then c\<lparr>pn_merged := Some target\<rparr> else c) (tabs s4)"
  proof (cases "aliases = []")
    case True
    with a show ?thesis by (simp add: ret_Inr)
  next
    case False
    with a have "execute (redirect_aliases org aliases target) s4 = (Inr m, s5)" by simp
    from execute_Inr [OF this] show ?thesis by (simp add: redirect_aliases_def Let_def update_where_def)
  qed
  have "tabs u = map (\<lambda>c. if pn_id c = source \<and> pn_org c = org
      then c\<lparr>pn_merged := Some target, pn_merged_at := Some now, pn_merged_by := Some user, pn_deleted := True\<rparr> else c) (tabs s5)"
    using execute_Inr [OF r] by (simp add: redirect_source_def Let_def update_where_def)
  then have eff: "tabs u = map (redirected org aliases source target user now) (tabs s4)"
    unfolding t5 by (simp add: redirected_def Let_def)
  have same: "x = y" if "x \<in> set (tabs s)" "y \<in> set (tabs s)" "pn_id x = pn_id y" for x y
    by (rule same_row [OF _ that]) (use ok in \<open>simp add: flat_def\<close>)
  have moved: "\<exists>d\<in>set (tabs s4). pn_id d = pn_id e \<and> pn_org d = pn_org e \<and> pn_merged d = pn_merged e \<and> pn_deleted d = pn_deleted e"
    if "e \<in> set (tabs s)" for e using map_image [OF sk that] by (auto simp: skeleton_def)
  have src: "(\<forall>k\<in>set sources. k = source \<or> member org (tabs s) k)
      \<and> (\<forall>c\<in>set (tabs s). pn_org c = org \<longrightarrow> pn_merged c = Some source \<longrightarrow> pn_id c \<in> set sources)" using F1 F2 by simp
  have al: "\<forall>e\<in>set (tabs s4). pn_org e = org \<longrightarrow> pn_merged e = Some source \<longrightarrow> pn_id e \<in> set aliases"
  proof (intro ballI impI)
    fix e assume e: "e \<in> set (tabs s4)" "pn_org e = org" "pn_merged e = Some source"
    from map_image [OF sk [symmetric] e(1)] obtain d where d: "d \<in> set (tabs s)" "skeleton d = skeleton e" by blast
    with e(2,3) have m: "pn_id d = pn_id e" "pn_org d = org" "pn_merged d = Some source" by (simp_all add: skeleton_def)
    from src d(1) m(2,3) have "pn_id d \<in> set sources" by blast
    with m(1) have "pn_id e \<in> set sources" by simp
    moreover have "d \<noteq> c" "d \<noteq> t" using m(3) C by auto
    then have "pn_id e \<noteq> source" "pn_id e \<noteq> target" using same [OF d(1)] m(1) S T t3 by metis+
    ultimately show "pn_id e \<in> set aliases" by (simp add: aliases_def)
  qed
  have only: "\<forall>i\<in>set aliases. member org (tabs s4) i"
  proof
    fix i assume "i \<in> set aliases"
    then have "member org (tabs s) i" using src by (auto simp: aliases_def)
    then obtain d where "d \<in> set (tabs s)" "pn_id d = i" "pn_org d = org" "pn_merged d \<noteq> None" by (auto simp: member_def)
    with moved [of d] show "member org (tabs s4) i" unfolding member_def by auto
  qed
  have "\<exists>d\<in>set (tabs s4). pn_id d = target \<and> pn_org d = org \<and> pn_merged d = None \<and> \<not> pn_deleted d"
    using moved [of t] T C by auto
  moreover have "\<exists>d\<in>set (tabs s4). pn_id d = source \<and> pn_org d = org \<and> pn_merged d = None \<and> \<not> pn_deleted d"
    using moved [of c] S C by auto
  ultimately show ?thesis by (rule that [OF sk eff al only])
qed

lemma merge_redirects_flat:
  assumes "merge_redirects org user target source now s = (Inr (), u)" and "source \<noteq> target" and "flat (tabs s)"
  shows "flat (tabs u)"
proof -
  obtain rows aliases where sk: "map skeleton rows = map skeleton (tabs s)" and
    u: "tabs u = map (redirected org aliases source target user now) rows" and
    al: "\<forall>c\<in>set rows. pn_org c = org \<longrightarrow> pn_merged c = Some source \<longrightarrow> pn_id c \<in> set aliases" "\<forall>k\<in>set aliases. member org rows k" and
    t: "\<exists>t\<in>set rows. pn_id t = target \<and> pn_org t = org \<and> pn_merged t = None \<and> \<not> pn_deleted t" and
    c: "\<exists>c\<in>set rows. pn_id c = source \<and> pn_org c = org \<and> pn_merged c = None \<and> \<not> pn_deleted c"
    by (rule merge_redirects_Inr [OF assms])
  have "flat rows" by (rule flat_cong [OF sk [symmetric] assms(3)])
  moreover obtain d where "d \<in> set rows" "pn_id d = target" "pn_org d = org" "pn_merged d = None" using t by blast
  moreover obtain e where "e \<in> set rows" "pn_id e = source" "pn_org e = org" "pn_merged e = None" using c by blast
  ultimately show ?thesis unfolding u by (rule flat_redirected [OF _ _ _ _ _ _ _ _ _ assms(2) al])
qed

lemma delete_contact_keeps: "keeps flat (delete_contact org i)"
  unfolding delete_contact_def
proof (rule keeps_and_then)
  show "keeps flat (first (\<lambda>rows. first_in (by_key pn_id) (filter (\<lambda>c. pn_id c = i \<and> pn_org c = org \<and> \<not> pn_deleted c) rows)))"
    by (intro keeps_reads reads_intros)
next
  fix c
  let ?p = "\<lambda>d. pn_id d = pn_id c \<and> \<not> pn_deleted d"
  have "flat (update_where ?p (\<lambda>d. d\<lparr>pn_deleted := True\<rparr>) rows)" if ok: "flat rows" for rows
    unfolding update_where_def
  proof (rule flat_map [OF ok])
    fix d j assume "d \<in> set rows" "pn_merged d = Some j"
    then have "pn_deleted d" using ok unfolding flat_def by metis
    then show "pn_deleted (if ?p d then d\<lparr>pn_deleted := True\<rparr> else d)" by simp
  qed (simp add: shape_def)
  then show "keeps flat (execute (\<lambda>rows. let p = ?p in Inr (rows_affected p rows, update_where p (\<lambda>d. d\<lparr>pn_deleted := True\<rparr>) rows)))"
    by (intro keeps_maintains [OF atomic_execute] maintains_execute) (auto simp: Let_def)
qed

end
