(* ===== verification/RedirectRuns.thy ===== *)
theory RedirectRuns
  imports Redirects
begin

text \<open>
  The directory under its requests: following a redirect ends, a merge unites, locking a contact finds the contact that
  reading it finds, and a phone number keeps its contact.
\<close>

section \<open>Requests\<close>

text \<open>
  Requests follow each other in any order, with any faults. Other code edits names and metadata, and adds contacts. The
  handler refuses to merge a contact into itself.
\<close>

inductive directory_step :: "people db \<Rightarrow> people db \<Rightarrow> bool" where
  asked: "directory_step s (snd (get_or_create fresh org raw name s))"
| united: "source \<noteq> target \<Longrightarrow> directory_step s (snd (transaction (merge_redirects org user target source now) s))"
| removed: "directory_step s (snd (transaction (delete_contact org i) s))"
| edited: "map skeleton rows = map skeleton (tabs s) \<Longrightarrow> directory_step s (s\<lparr>tabs := rows\<rparr>)"
| added: "insert_person c (tabs s) = Inr ((), rows) \<Longrightarrow> pn_merged c = None \<Longrightarrow> directory_step s (s\<lparr>tabs := rows\<rparr>)"
| disturbed: "directory_step s (s\<lparr>faults := fs, minted := k\<rparr>)"

inductive directory_reachable :: "people db \<Rightarrow> bool" where
  empty: "tabs s = [] \<Longrightarrow> directory_reachable s"
| step: "directory_reachable s \<Longrightarrow> directory_step s t \<Longrightarrow> directory_reachable t"

lemma directory_step_flat: "directory_step s t \<Longrightarrow> flat (tabs s) \<Longrightarrow> flat (tabs t)"
proof (induction rule: directory_step.induct)
  case (asked s fresh org raw name)
  then show ?case using get_or_create_keeps unfolding keeps_def by blast
next
  case (united source target s org user now)
  show ?case
  proof (rule transaction_invariant [where I = flat, OF _ united(2)])
    fix s1 a u1 assume run: "merge_redirects org user target source now s1 = (Inr a, u1)" and ok: "flat (tabs s1)"
    then have "merge_redirects org user target source now s1 = (Inr (), u1)" by simp
    then show "flat (tabs u1)" using united(1) ok by (rule merge_redirects_flat)
  qed
next
  case (removed s org i)
  show ?case by (rule transaction_invariant [where I = flat, OF _ removed]) (rule keepsD [OF delete_contact_keeps])
next
  case (edited rows s)
  then show ?case using flat_cong [OF sym] by simp
next
  case (added c s rows)
  then show ?case using flat_append by simp
qed simp

lemma flat_empty: "flat []"
  by (simp add: flat_def)

lemma directory_flat: "directory_reachable s \<Longrightarrow> flat (tabs s)"
  by (induction rule: directory_reachable.induct) (simp_all add: flat_empty directory_step_flat)

text \<open>
  C20: Following a redirect ends.
\<close>
theorem resolving_ends:
  assumes "directory_reachable s" and "resolve_contact org i s = (Inl e, u)"
  shows "e = RecordNotFound \<or> (\<exists>m. e = DriverError m)"
  using resolve_flat [OF directory_flat [OF assms(1)] assms(2)] by (simp add: absent_def)

section \<open>A merge unites two contacts\<close>

lemma resolve_from_more:
  "0 < n \<Longrightarrow> resolve_from n visited org i =
     (if i \<in> set visited then fail (OtherError m_merge_cycle)
      else and_then (first (person_by_id org i)) (\<lambda>c.
        case pn_merged c of
          None \<Rightarrow> if pn_deleted c then fail RecordNotFound else ret c
        | Some j \<Rightarrow> resolve_from (n - 1) (i # visited) org j))"
  by (cases n) (simp, simp only: resolve_from.simps diff_Suc_1)

lemma resolve_known:
  assumes "flat (tabs s)" and "faults s = []" and "b \<in> set (tabs s)" "pn_id b = i" "pn_org b = org"
    and "c \<in> set (tabs s)" "pn_merged c = None" "\<not> pn_deleted c" and "b = c \<or> pn_merged b = Some (pn_id c)"
  shows "resolve_contact org i s = (Inr c, s)"
proof -
  have b: "person_by_id org i (tabs s) = Some b" using assms by (intro person_by_id_row) (simp_all add: flat_def)
  show ?thesis
  proof (cases "b = c")
    case True
    with b assms show ?thesis by (simp add: resolve_contact_def max_depth_def resolve_from_more and_then_def first_calm ret_def)
  next
    case False
    with assms have m: "pn_merged b = Some (pn_id c)" by simp
    from flat_root [OF assms(1,3) m] obtain r where r: "r \<in> set (tabs s)" "pn_id r = pn_id c" "pn_org r = org" "pn_id c \<noteq> i"
      using assms(4,5) by metis
    have "r = c" using same_row [of "tabs s" r c] assms(1,6) r by (simp add: flat_def)
    then have "person_by_id org (pn_id c) (tabs s) = Some c"
      using r assms(1) by (intro person_by_id_row) (simp_all add: flat_def)
    with b m r(4) assms show ?thesis by (simp add: resolve_contact_def max_depth_def resolve_from_more and_then_def first_calm ret_def)
  qed
qed

text \<open>An action that leaves no fault behind when none was there.\<close>

definition quiet :: "('t, 'a) tx \<Rightarrow> bool" where
  "quiet m \<longleftrightarrow> (\<forall>s. faults s = [] \<longrightarrow> faults (snd (m s)) = [])"

named_theorems quiet_intros

lemma quietD: "quiet m \<Longrightarrow> m s = (a, u) \<Longrightarrow> faults s = [] \<Longrightarrow> faults u = []"
  unfolding quiet_def by (metis snd_conv)

lemma quiet_ret [quiet_intros]: "quiet (ret a)"
  by (simp add: quiet_def ret_def)

lemma quiet_fail [quiet_intros]: "quiet (fail e)"
  by (simp add: quiet_def fail_def)

lemma quiet_lift_res [quiet_intros]: "quiet (lift_res r)"
  by (simp add: quiet_def lift_res_def)

lemma quiet_poll [quiet_intros]: "quiet poll"
  by (simp add: quiet_def poll_def)

lemma quiet_and_then [quiet_intros]: "quiet m \<Longrightarrow> (\<And>a. quiet (f a)) \<Longrightarrow> quiet (and_then m f)"
  unfolding quiet_def and_then_def by (auto split: prod.split sum.split)

lemma quiet_query [quiet_intros]: "quiet (query q)"
  by (simp add: quiet_def query_calm)

lemma quiet_execute [quiet_intros]: "quiet (execute f)"
  by (simp add: quiet_def execute_calm split: sum.split)

lemma quiet_first [quiet_intros]: "quiet (first q)"
  unfolding first_def by (intro quiet_intros) (auto intro: quiet_intros split: option.split)

lemma quiet_transaction [quiet_intros]:
  assumes "quiet m"
  shows "quiet (transaction m)"
proof -
  have "quiet (and_then poll (\<lambda>_. and_then m (\<lambda>a. and_then poll (\<lambda>_. ret a))))" by (intro quiet_intros assms)
  then show ?thesis unfolding quiet_def transaction_def by (auto split: prod.split sum.split)
qed

lemma quiet_family_rounds [quiet_intros]: "quiet (family_rounds n org found frontier)"
proof (induction n org found frontier rule: family_rounds.induct)
  case (1 n org found frontier)
  show ?case
  proof (cases "frontier = [] \<or> n \<le> 0")
    case True
    then show ?thesis by (auto simp: family_rounds.simps [of n] intro: quiet_intros)
  next
    case False
    then have "family_rounds n org found frontier = and_then (query (children_of org frontier)) (\<lambda>children.
        and_then (lift_res (add_children found [] children)) (\<lambda>(all, fresh). family_rounds (n - 1) org all fresh))"
      by (simp add: family_rounds.simps [of n])
    then show ?thesis using 1 False by (auto intro!: quiet_intros)
  qed
qed

lemma quiet_merge [quiet_intros]: "quiet (merge_redirects org user target source now)"
  unfolding merge_redirects_def contact_family_def merge_locked_def check_merge_def Let_def
  by (auto intro!: quiet_intros split: option.split)

text \<open>
  C10: A merge unites two contacts: what led to either of them leads to the target.
\<close>
theorem merge_unites:
  assumes "directory_reachable s" and "faults s = []" and "source \<noteq> target"
    and "transaction (merge_redirects org user target source now) s = (Inr (), u)"
    and "resolve_contact org i s = (Inr c, s)" and "pn_id c = source \<or> pn_id c = target"
  shows "\<exists>d. resolve_contact org i u = (Inr d, u) \<and> pn_id d = target"
proof -
  note ok = directory_flat [OF assms(1)]
  from transaction_Inr [OF assms(4)] obtain s1 u1 where run: "merge_redirects org user target source now s1 = (Inr (), u1)"
    and same: "tabs s1 = tabs s" "tabs u = tabs u1" by metis
  have ok1: "flat (tabs s1)" using ok same by simp
  have fl: "flat (tabs u)" using merge_redirects_flat [OF run assms(3) ok1] same by simp
  have calm: "faults u = []" by (rule quietD [OF quiet_transaction [OF quiet_merge] assms(4,2)])
  from merge_redirects_Inr [OF run assms(3) ok1] obtain rows aliases where
    sk: "map skeleton rows = map skeleton (tabs s)" and
    u: "tabs u = map (redirected org aliases source target user now) rows" and
    al: "\<forall>c\<in>set rows. pn_org c = org \<longrightarrow> pn_merged c = Some source \<longrightarrow> pn_id c \<in> set aliases" "\<forall>k\<in>set aliases. member org rows k" and
    t: "\<exists>t\<in>set rows. pn_id t = target \<and> pn_org t = org \<and> pn_merged t = None \<and> \<not> pn_deleted t"
    using same by metis
  have flr: "flat rows" by (rule flat_cong [OF sk [symmetric] ok])
  from t obtain t where t: "t \<in> set rows" "pn_id t = target" "pn_org t = org" "pn_merged t = None" "\<not> pn_deleted t" by blast
  have nt: "target \<notin> set aliases"
  proof
    assume "target \<in> set aliases"
    with al(2) obtain d where "d \<in> set rows" "pn_id d = target" "pn_merged d \<noteq> None" by (auto simp: member_def)
    with same_row [of rows d t] t flr show False by (auto simp: flat_def)
  qed
  then have t': "redirected org aliases source target user now t = t" using t assms(3) by (auto simp: redirected_def)
  then have tu: "t \<in> set (tabs u)" using t(1) u by (metis image_eqI set_map)
  from resolve_flat [OF ok assms(5)] obtain b where b: "b \<in> set (tabs s)" "pn_id b = i" "pn_org b = org"
    "b = c \<or> pn_merged b = Some (pn_id c)" and c: "c \<in> set (tabs s)" "pn_merged c = None" by auto
  from map_image [OF sk b(1)] obtain b' where b': "b' \<in> set rows" "skeleton b' = skeleton b" by blast
  let ?b = "redirected org aliases source target user now b'"
  have "?b \<in> set (tabs u)" "pn_id ?b = i" "pn_org ?b = org" using b b' u by (auto simp: skeleton_def)
  moreover have "?b = t \<or> pn_merged ?b = Some (pn_id t)"
  proof (cases "b = c")
    case True
    then have id: "pn_id b' = pn_id c" "pn_org b' = org" using b b' by (auto simp: skeleton_def)
    from assms(6) show ?thesis
    proof
      assume "pn_id c = target"
      then have "b' = t" using same_row [of rows b' t] flr b'(1) t id by (simp add: flat_def)
      with t' show ?thesis by simp
    qed (use id t in \<open>simp add: redirected_def\<close>)
  next
    case False
    then have m: "pn_merged b' = Some (pn_id c)" "pn_org b' = org" using b b' by (auto simp: skeleton_def)
    with assms(6) al(1) b'(1) t show ?thesis by (auto simp: redirected_def Let_def)
  qed
  ultimately have "resolve_contact org i u = (Inr t, u)" by (rule resolve_known [OF fl calm _ _ _ tu t(4,5)])
  with t(2) show ?thesis by blast
qed

section \<open>Locking a contact finds what reading it finds\<close>

text \<open>The redirects followed without a session.\<close>

fun trace :: "nat \<Rightarrow> uuid list \<Rightarrow> uuid \<Rightarrow> (uuid \<rightharpoonup> person_row) \<Rightarrow> err + person_row list" where
  "trace 0 visited i get = Inl (OtherError m_merge_depth)"
| "trace (Suc n) visited i get =
     (if i \<in> set visited then Inl (OtherError m_merge_cycle)
      else case get i of
        None \<Rightarrow> Inl RecordNotFound
      | Some c \<Rightarrow> (case pn_merged c of
          None \<Rightarrow> if pn_deleted c then Inl RecordNotFound else Inr [c]
        | Some j \<Rightarrow> map_sum id ((#) c) (trace n (i # visited) j get)))"

lemma path_trace:
  "faults s = [] \<Longrightarrow> path_from n visited org i s = (trace n visited i (\<lambda>k. person_by_id org k (tabs s)), s)"
  by (induction n arbitrary: visited i) (auto simp: and_then_def first_calm fail_def ret_def split: option.split sum.split)

lemma trace_nonempty: "trace n visited i get = Inr cs \<Longrightarrow> cs \<noteq> []"
  by (cases n) (auto split: if_splits option.splits sum.splits simp: map_sum_def)

lemma last_traced: "map_sum id last (map_sum id ((#) c) (trace n visited i get)) = map_sum id last (trace n visited i get)"
  using trace_nonempty [of n visited i get] by (cases "trace n visited i get") auto

lemma resolve_trace:
  "faults s = [] \<Longrightarrow> resolve_from n visited org i s =
     (map_sum id last (trace n visited i (\<lambda>k. person_by_id org k (tabs s))), s)"
  by (induction n arbitrary: visited i)
    (auto simp: and_then_def first_calm fail_def ret_def last_traced split: option.split)

lemma trace_Inr:
  assumes "\<And>k c. get k = Some c \<Longrightarrow> pn_id c = k" and "trace n visited i get = Inr cs"
  shows "distinct (map pn_id cs) \<and> set (map pn_id cs) \<inter> set visited = {} \<and> (\<forall>c\<in>set cs. get (pn_id c) = Some c) \<and> pn_id (hd cs) = i"
  using assms(2)
proof (induction n arbitrary: visited i cs)
  case (Suc n)
  then obtain c where i: "i \<notin> set visited" and c: "get i = Some c" by (auto split: if_splits option.splits)
  note id = assms(1) [OF c]
  show ?case
  proof (cases "pn_merged c")
    case None
    with Suc.prems i c id show ?thesis by (auto split: if_splits)
  next
    case (Some j)
    with Suc.prems i c obtain ds where ds: "trace n (i # visited) j get = Inr ds" "cs = c # ds"
      by (cases "trace n (i # visited) j get") auto
    from Suc.IH [OF ds(1)] i c id ds(2) show ?thesis by auto
  qed
qed simp

lemma walk_trace:
  assumes "\<And>k c. get k = Some c \<Longrightarrow> pn_id c = k" and "trace n visited i get = Inr cs" and "\<forall>c\<in>set cs. rows (pn_id c) = Some c"
  shows "walk_locked n visited rows i = Inr (last cs)"
  using assms(2,3)
proof (induction n arbitrary: visited i cs)
  case (Suc n)
  then obtain c where i: "i \<notin> set visited" and c: "get i = Some c" by (auto split: if_splits option.splits)
  show ?case
  proof (cases "pn_merged c")
    case None
    with Suc.prems i c assms(1) [OF c] show ?thesis by (auto split: if_splits)
  next
    case (Some j)
    with Suc.prems i c obtain ds where ds: "trace n (i # visited) j get = Inr ds" "cs = c # ds"
      by (cases "trace n (i # visited) j get") auto
    have ne: "ds \<noteq> []" by (rule trace_nonempty [OF ds(1)])
    then have "rows j = Some (hd ds)" using trace_Inr [OF assms(1) ds(1)] Suc.prems(2) ds(2) by (metis hd_in_set list.set_intros(2))
    moreover have "walk_locked n (i # visited) rows j = Inr (last ds)" using Suc.IH [OF ds(1)] Suc.prems(2) ds(2) by simp
    ultimately show ?thesis using i c Some ds(2) ne Suc.prems(2) assms(1) [OF c] by auto
  qed
qed simp

text \<open>The rows with the identifiers of a list of rows.\<close>

lemma with_ids_of:
  assumes "distinct (map pn_id rows)" and "distinct (map pn_id cs)" and "\<forall>c\<in>set cs. c \<in> set rows \<and> pn_org c = org"
  shows "set (with_ids org (map pn_id cs) rows) = set cs" and "length (with_ids org (map pn_id cs) rows) = length cs"
proof -
  show eq: "set (with_ids org (map pn_id cs) rows) = set cs"
  proof
    show "set (with_ids org (map pn_id cs) rows) \<subseteq> set cs"
    proof
      fix d assume "d \<in> set (with_ids org (map pn_id cs) rows)"
      then obtain c where "d \<in> set rows" "c \<in> set cs" "pn_id d = pn_id c" by (auto simp: with_ids_def)
      with same_row [OF assms(1), of d c] assms(3) show "d \<in> set cs" by simp
    qed
    show "set cs \<subseteq> set (with_ids org (map pn_id cs) rows)" using assms(3) by (auto simp: with_ids_def)
  qed
  have "distinct (with_ids org (map pn_id cs) rows)" "distinct cs"
    using assms(1,2) by (simp_all add: with_ids_def distinct_map)
  with eq show "length (with_ids org (map pn_id cs) rows) = length cs" by (metis distinct_card)
qed

lemma map_of_ids: "distinct (map pn_id xs) \<Longrightarrow> c \<in> set xs \<Longrightarrow> map_of (map (\<lambda>c. (pn_id c, c)) xs) (pn_id c) = Some c"
  by (intro map_of_is_SomeI) (auto simp: comp_def)

text \<open>
  C19: Locking a contact finds what reading it finds.
\<close>
theorem locking_finds_the_same:
  assumes "distinct (map pn_id (tabs s))" and "faults s = []"
  shows "resolve_for_update org i s = resolve_contact org i s"
proof -
  let ?get = "\<lambda>k. person_by_id org k (tabs s)"
  have keys: "pn_id c = k" if "?get k = Some c" for k c using person_by_id_Some [OF that] by simp
  have path: "merge_path org i s = (trace max_depth [] i ?get, s)" using path_trace [OF assms(2)] by (simp add: merge_path_def)
  have read: "resolve_contact org i s = (map_sum id last (trace max_depth [] i ?get), s)"
    using resolve_trace [OF assms(2)] by (simp add: resolve_contact_def)
  show ?thesis
  proof (cases "trace max_depth [] i ?get")
    case (Inl e)
    with path read show ?thesis by (simp add: resolve_for_update_def and_then_def)
  next
    case (Inr cs)
    let ?locked = "with_ids org (map pn_id cs) (tabs s)"
    note T = trace_Inr [OF keys Inr]
    have mem: "\<forall>c\<in>set cs. c \<in> set (tabs s) \<and> pn_org c = org" using T person_by_id_Some by blast
    from T have d: "distinct (map pn_id cs)" by blast
    note W = with_ids_of [OF assms(1) d mem]
    have "distinct (map pn_id ?locked)" using assms(1) by (simp add: with_ids_def distinct_map_filter)
    then have "\<forall>c\<in>set cs. map_of (map (\<lambda>c. (pn_id c, c)) ?locked) (pn_id c) = Some c" using map_of_ids W(1) by blast
    from walk_trace [OF keys Inr this] path read Inr W(2) assms(2) show ?thesis
      by (simp add: resolve_for_update_def and_then_def query_calm lift_res_def)
  qed
qed

end
