(* ===== verification/PhoneContacts.thy ===== *)
theory PhoneContacts
  imports RedirectRuns
begin

text \<open>
  \<open>GetOrCreateContact\<close>: a phone number, however spelled, keeps its contact; two ways in which the code does not do what
  its comments say; and instances of the properties of the directory.
\<close>

section \<open>A phone number keeps its contact\<close>

definition known_row :: "uuid \<Rightarrow> string \<Rightarrow> people \<Rightarrow> person_row option" where
  "known_row org p rows =
     (case person_with_phone org p rows of Some c \<Rightarrow> Some c | None \<Rightarrow> person_with_phone org (CHR ''+'' # p) rows)"

definition root :: "person_row \<Rightarrow> uuid" where
  "root c = (case pn_merged c of None \<Rightarrow> pn_id c | Some j \<Rightarrow> j)"

lemma attempt_calm: "faults s = [] \<Longrightarrow> attempt (first q) s = (Inr (q (tabs s)), s)"
  by (simp add: attempt_def first_calm split: option.split)

lemma get_or_create_calm:
  assumes "faults s = []" and "\<not> is_empty_phone (strip_plus raw)"
  shows "get_or_create fresh org raw name s = (case known_row org (strip_plus raw) (tabs s) of
      Some c \<Rightarrow> and_then (take_over org (\<lambda>c. update_unprotected_name c name) c) (\<lambda>d. ret (d, False)) s
    | None \<Rightarrow> create_person fresh org (strip_plus raw) name s)"
  using assms by (simp add: get_or_create_def known_row_def Let_def and_then_def attempt_calm split: option.split)

lemma known_row_Some: "known_row org p rows = Some c \<Longrightarrow> c \<in> set rows \<and> pn_org c = org"
  using person_with_phone_Some by (auto simp: known_row_def split: option.splits)

lemma known_row_None:
  "known_row org p rows = None \<longleftrightarrow> (\<forall>d\<in>set rows. pn_org d = org \<longrightarrow> pn_phone d \<noteq> p \<and> pn_phone d \<noteq> CHR ''+'' # p)"
  by (auto simp: known_row_def person_with_phone_None split: option.splits) (metis option.distinct(1) person_with_phone_None)

lemma same_phone:
  "flat rows \<Longrightarrow> c \<in> set rows \<Longrightarrow> d \<in> set rows \<Longrightarrow> pn_org c = pn_org d \<Longrightarrow> pn_phone c = pn_phone d \<Longrightarrow> c = d"
  by (simp add: flat_def distinct_map inj_on_def)

lemma person_with_phone_row:
  assumes "flat rows" and "c \<in> set rows" and "pn_org c = org" and "pn_phone c = p"
  shows "person_with_phone org p rows = Some c"
proof (cases "person_with_phone org p rows")
  case None
  with assms(2-4) show ?thesis by (simp add: person_with_phone_None)
next
  case (Some d)
  with person_with_phone_Some [OF Some] same_phone [OF assms(1), of d c] assms(2-4) show ?thesis by simp
qed

lemma phone_shape:
  assumes "map shape rows' = map shape rows" and "flat rows'" and "person_with_phone org p rows = Some c"
  obtains c' where "person_with_phone org p rows' = Some c'" "shape c' = shape c"
proof -
  note c = person_with_phone_Some [OF assms(3)]
  from map_image [OF assms(1) conjunct1 [OF c]] obtain d where d: "d \<in> set rows'" "shape d = shape c" by blast
  with c have "person_with_phone org p rows' = Some d" by (intro person_with_phone_row [OF assms(2)]) (simp_all add: shape_def)
  with d that show ?thesis by blast
qed

lemma phone_shape_None:
  assumes "map shape rows' = map shape rows" and "person_with_phone org p rows = None"
  shows "person_with_phone org p rows' = None"
  unfolding person_with_phone_None
proof (intro ballI impI)
  fix d assume "d \<in> set rows'" "pn_org d = org"
  moreover from map_image [OF assms(1) [symmetric] this(1)] obtain c where "c \<in> set rows" "shape c = shape d" by blast
  ultimately show "pn_phone d \<noteq> p" using assms(2) unfolding person_with_phone_None by (auto simp: shape_def)
qed

lemma known_shape:
  assumes "map shape rows' = map shape rows" and "flat rows'" and "known_row org p rows = Some c"
  obtains c' where "known_row org p rows' = Some c'" "shape c' = shape c"
proof (cases "person_with_phone org p rows")
  case None
  with assms(3) have "person_with_phone org (CHR ''+'' # p) rows = Some c" by (simp add: known_row_def)
  from phone_shape [OF assms(1,2) this] phone_shape_None [OF assms(1) None] that show ?thesis
    by (metis known_row_def option.simps(4))
next
  case (Some d)
  with assms(3) have "person_with_phone org p rows = Some c" by (simp add: known_row_def)
  from phone_shape [OF assms(1,2) this] that show ?thesis by (metis known_row_def option.simps(5))
qed

text \<open>What a rename and what taking over a row answer.\<close>

lemma name_calm:
  assumes "faults s = []" and "update_unprotected_name c name s = (a, u)"
  shows "faults u = [] \<and> map skeleton (tabs u) = map skeleton (tabs s) \<and> (\<forall>d. a = Inr d \<longrightarrow> pn_id d = pn_id c)
    \<and> (rune_count name \<le> 255 \<longrightarrow> (\<exists>d. a = Inr d))"
proof -
  have "quiet (update_unprotected_name c name)"
    unfolding update_unprotected_name_def by (auto intro!: quiet_intros)
  moreover have "map skeleton (tabs u) = map skeleton (tabs s)"
    using assms(2) by (metis spares_name(1) sparesD)
  moreover have "(\<forall>d. a = Inr d \<longrightarrow> pn_id d = pn_id c) \<and> (rune_count name \<le> 255 \<longrightarrow> (\<exists>d. a = Inr d))"
    using assms by (auto simp: update_unprotected_name_def and_then_def execute_calm rename_unprotected_def Let_def ret_def
        split: if_splits)
  ultimately show ?thesis using quietD assms by blast
qed

lemma flat_live_root: "flat rows \<Longrightarrow> c \<in> set rows \<Longrightarrow> \<not> pn_deleted c \<Longrightarrow> pn_merged c = None"
  unfolding flat_def by (metis not_None_eq)

lemma shape_of_skeleton: "map skeleton xs = map skeleton ys \<Longrightarrow> map shape xs = map shape ys"
  by (drule arg_cong [where f = "map (\<lambda>(i, org, p, m, _). (i, org, p, m))"])
    (simp add: skeleton_def shape_def [abs_def] comp_def)

definition live :: "uuid \<Rightarrow> people \<Rightarrow> bool" where
  "live i rows \<longleftrightarrow> (\<exists>r\<in>set rows. pn_id r = i \<and> \<not> pn_deleted r)"

lemma live_cong: "map skeleton rows' = map skeleton rows \<Longrightarrow> live i rows \<Longrightarrow> live i rows'"
  unfolding live_def by (drule sym, elim bexE, drule (1) map_image [OF sym]) (auto simp: skeleton_def)

lemma take_over_answers:
  assumes "flat (tabs s)" and "c \<in> set (tabs s)" and "pn_org c = org" and "faults s = []"
    and "take_over org (\<lambda>c. update_unprotected_name c name) c s = (Inr d, u)"
  shows "pn_id d = root c \<and> map shape (tabs u) = map shape (tabs s) \<and> faults u = [] \<and> live (root c) (tabs u)"
proof -
  have after: "pn_id d = pn_id e \<and> map shape (tabs u) = map shape (tabs t) \<and> faults u = [] \<and> live (pn_id e) (tabs u)"
    if t: "faults t = []" "update_unprotected_name e name t = (Inr d, u)" "live (pn_id e) (tabs t)" for e t
    using name_calm [OF t(1,2)] live_cong [of "tabs u" "tabs t"] shape_of_skeleton [of "tabs u" "tabs t"] t(3) by simp
  consider "\<not> pn_deleted c" | j where "pn_deleted c" "pn_merged c = Some j" | "pn_deleted c" "pn_merged c = None" by blast
  then show ?thesis
  proof cases
    case 1
    with flat_live_root [OF assms(1,2)] have "root c = pn_id c" by (simp add: root_def)
    moreover from 1 assms(2) have "live (pn_id c) (tabs s)" by (auto simp: live_def)
    ultimately show ?thesis using after [OF assms(4)] assms(5) 1 by (simp add: take_over_def)
  next
    case (2 j)
    with assms(5) obtain r t where r: "resolve_contact org (pn_id c) s = (Inr r, t)" and n: "update_unprotected_name r name t = (Inr d, u)"
      by (auto simp: take_over_def and_then_Inr)
    have t: "t = s" using r resolve_trace [OF assms(4)] by (simp add: resolve_contact_def)
    from resolve_flat [OF assms(1) r] obtain b where b: "b \<in> set (tabs s)" "pn_id b = pn_id c" "b = r \<or> pn_merged b = Some (pn_id r)"
      and r': "r \<in> set (tabs s)" "\<not> pn_deleted r" "pn_merged r = None" by auto
    have "b = c" using same_row [of "tabs s" b c] assms(1,2) b by (simp add: flat_def)
    with b 2 r' have "root c = pn_id r" by (auto simp: root_def)
    moreover have "live (pn_id r) (tabs s)" using r' by (auto simp: live_def)
    ultimately show ?thesis using after [OF assms(4)] n t by simp
  next
    case 3
    let ?e = "c\<lparr>pn_deleted := False\<rparr>"
    obtain rows where rows: "restore_row (pn_id c) (tabs s) = Inr (rows_affected (\<lambda>d. pn_id d = pn_id c) (tabs s), rows)"
      unfolding restore_row_def Let_def by blast
    note R = flat_restored [OF assms(1,2) 3(2) rows]
    from 3 assms(4,5) rows have n: "update_unprotected_name ?e name (s\<lparr>tabs := rows\<rparr>) = (Inr d, u)"
      by (simp add: take_over_def and_then_def execute_calm)
    have "?e \<in> set rows" using rows assms(2) by (auto simp: restore_row_def update_where_def Let_def intro!: image_eqI [of _ _ c])
    then have "live (pn_id ?e) rows" by (auto simp: live_def intro!: bexI [of _ ?e])
    with after [of "s\<lparr>tabs := rows\<rparr>" ?e] n R assms(4) 3 show ?thesis by (simp add: root_def)
  qed
qed

lemma take_over_known:
  assumes "flat (tabs s)" and "c \<in> set (tabs s)" and "pn_org c = org" and "faults s = []"
    and "live (root c) (tabs s)" and "rune_count name \<le> 255"
  shows "\<exists>d u. take_over org (\<lambda>c. update_unprotected_name c name) c s = (Inr d, u)"
proof (cases "pn_deleted c")
  case False
  with name_calm [OF assms(4)] assms(6) show ?thesis by (auto simp: take_over_def) (metis surj_pair)
next
  case True
  have "pn_merged c \<noteq> None"
  proof
    assume n: "pn_merged c = None"
    with assms(5) obtain r where "r \<in> set (tabs s)" "pn_id r = pn_id c" "\<not> pn_deleted r" by (auto simp: live_def root_def)
    with same_row [of "tabs s" r c] assms(1,2) True show False by (auto simp: flat_def)
  qed
  then obtain j where j: "pn_merged c = Some j" by blast
  from flat_root [OF assms(1,2) j] obtain r where r: "r \<in> set (tabs s)" "pn_id r = j" "pn_merged r = None" by metis
  from assms(5) j obtain e where "e \<in> set (tabs s)" "pn_id e = j" "\<not> pn_deleted e" by (auto simp: live_def root_def)
  with same_row [of "tabs s" e r] assms(1) r have "\<not> pn_deleted r" by (auto simp: flat_def)
  with r j assms(1-4) have "resolve_contact org (pn_id c) s = (Inr r, s)"
    by (intro resolve_known [of s c]) simp_all
  moreover obtain d u where "update_unprotected_name r name s = (Inr d, u)"
    using name_calm [OF assms(4)] assms(6) by (metis surj_pair)
  ultimately show ?thesis using True j by (simp add: take_over_def and_then_def)
qed

lemma create_person_calm:
  assumes "faults s = []" and "known_row org p (tabs s) = None"
  shows "create_person fresh org p name s =
    (let c = new_person (fresh (minted s)) org p name; t = s\<lparr>minted := Suc (minted s)\<rparr> in
     case insert_person c (tabs s) of Inl e \<Rightarrow> (Inl e, t) | Inr (_, rows) \<Rightarrow> (Inr (c, True), t\<lparr>tabs := rows\<rparr>))"
proof -
  have "own_person org p i (tabs s) = None" for i
    using assms(2) unfolding known_row_None own_person_def by (auto simp: filter_empty_conv)
  with assms(1) show ?thesis
    by (auto simp: create_person_def on_error_def and_then_def mint_def execute_calm attempt_calm ret_def fail_def Let_def
        split: sum.split)
qed

text \<open>
  C11: A contact is created exactly when the tenant has no row under either form of the number; asked again, in either
  spelling and under any name, the code answers the same contact and creates none.
\<close>
theorem contact_found_again:
  assumes "directory_reachable s" and "faults s = []" and "get_or_create fresh org raw name s = (Inr (c, made), u)"
    and "strip_plus raw' = strip_plus raw" and "rune_count name' \<le> 255"
  shows "(made \<longleftrightarrow> known_row org (strip_plus raw) (tabs s) = None)
    \<and> (\<exists>d v. get_or_create fresh org raw' name' u = (Inr (d, False), v) \<and> pn_id d = pn_id c
        \<and> map pn_id (tabs v) = map pn_id (tabs u))"
proof -
  let ?p = "strip_plus raw"
  note ok = directory_flat [OF assms(1)]
  have ok': "flat (tabs u)" using keepsD [OF get_or_create_keeps assms(3)] ok by simp
  have ne: "\<not> is_empty_phone ?p" using assms(3) by (auto simp: get_or_create_def Let_def fail_def)
  have again: "\<exists>d v. get_or_create fresh org raw' name' u = (Inr (d, False), v) \<and> pn_id d = root b \<and> map pn_id (tabs v) = map pn_id (tabs u)"
    if b: "known_row org ?p (tabs u) = Some b" "live (root b) (tabs u)" "faults u = []" for b
  proof -
    note m = known_row_Some [OF b(1)]
    from take_over_known [OF ok' _ _ b(3,2) assms(5)] m obtain d v where
      t: "take_over org (\<lambda>c. update_unprotected_name c name') b u = (Inr d, v)" by blast
    from take_over_answers [OF ok' _ _ b(3) t] m have A: "pn_id d = root b \<and> map shape (tabs v) = map shape (tabs u)" by simp
    then have "map pn_id (tabs v) = map pn_id (tabs u)"
      by (auto dest!: arg_cong [where f = "map fst"] simp: shape_def comp_def)
    with A t b(1,3) ne assms(4) show ?thesis by (auto simp: get_or_create_calm and_then_def ret_def)
  qed
  show ?thesis
  proof (cases "known_row org ?p (tabs s)")
    case None
    let ?c = "new_person (fresh (minted s)) org ?p name"
    from assms(3) None get_or_create_calm [OF assms(2) ne] create_person_calm [OF assms(2) None]
    have "made \<and> c = ?c \<and> faults u = [] \<and> insert_person ?c (tabs s) = Inr ((), tabs u)"
      using assms(2) by (auto simp: Let_def split: sum.splits)
    then have made: "made" "c = ?c" "faults u = []" "?c \<in> set (tabs u)"
      by (auto simp: insert_person_def split: if_splits) (metis in_set_conv_decomp)
    have "person_with_phone org ?p (tabs u) = Some ?c"
      by (rule person_with_phone_row [OF ok' made(4)]) (simp_all add: new_person_def)
    then have "known_row org ?p (tabs u) = Some ?c" by (simp add: known_row_def)
    moreover have "root ?c = pn_id c" "live (root ?c) (tabs u)"
      using made(2,4) by (auto simp: root_def new_person_def live_def intro!: bexI [of _ ?c])
    ultimately show ?thesis using again made None by metis
  next
    case (Some b)
    note m = known_row_Some [OF Some]
    from assms(3) Some get_or_create_calm [OF assms(2) ne]
    have t: "take_over org (\<lambda>c. update_unprotected_name c name) b s = (Inr c, u)" and "\<not> made"
      by (auto simp: and_then_Inr ret_Inr)
    from take_over_answers [OF ok _ _ assms(2) t] m have A: "pn_id c = root b" "map shape (tabs u) = map shape (tabs s)"
      "faults u = []" "live (root b) (tabs u)" by simp_all
    from known_shape [OF A(2) ok' Some] obtain b' where b': "known_row org ?p (tabs u) = Some b'" "shape b' = shape b" .
    from b'(2) have "root b' = root b" by (cases "pn_merged b") (simp_all add: shape_def root_def)
    with again [OF b'(1)] A Some \<open>\<not> made\<close> show ?thesis by simp
  qed
qed

section \<open>Instances\<close>

definition directory :: "people \<Rightarrow> people db" where
  "directory rows = \<lparr>tabs = rows, faults = [], minted = 10\<rparr>"

definition anna :: person_row where "anna = new_person 1 7 ''4917'' ''Anna''"
definition ben :: person_row where "ben = new_person 2 7 ''4918'' ''Ben''"

lemma reachable_two: "directory_reachable (directory [anna, ben])"
proof -
  have rows: "insert_person anna [] = Inr ((), [anna])" "insert_person ben [anna] = Inr ((), [anna, ben])"
    "pn_merged anna = None" "pn_merged ben = None" by code_simp+
  have "directory_reachable (directory [])" by (rule directory_reachable.empty) (simp add: directory_def)
  from directory_reachable.step [OF this directory_step.added [of anna _ "[anna]"]] rows
  have "directory_reachable (directory [anna])" by (simp add: directory_def)
  from directory_reachable.step [OF this directory_step.added [of ben _ "[anna, ben]"]] rows
  show ?thesis by (simp add: directory_def)
qed

theorem resolving_ends_witness:
  "\<exists>e u. resolve_contact 7 5 (directory [anna, ben]) = (Inl e, u) \<and> (e = RecordNotFound \<or> (\<exists>m. e = DriverError m))"
proof -
  have "fst (resolve_contact 7 5 (directory [anna, ben])) = Inl RecordNotFound" by code_simp
  then obtain u where "resolve_contact 7 5 (directory [anna, ben]) = (Inl RecordNotFound, u)" by (metis prod.collapse)
  with resolving_ends [OF reachable_two this] show ?thesis by blast
qed

theorem merge_unites_witness:
  "\<exists>u d. transaction (merge_redirects 7 3 1 2 100) (directory [anna, ben]) = (Inr (), u)
     \<and> resolve_contact 7 2 u = (Inr d, u) \<and> pn_id d = 1"
proof -
  have "fst (transaction (merge_redirects 7 3 1 2 100) (directory [anna, ben])) = Inr ()" by code_simp
  then obtain u where "transaction (merge_redirects 7 3 1 2 100) (directory [anna, ben]) = (Inr (), u)" by (metis prod.collapse)
  moreover have "resolve_contact 7 2 (directory [anna, ben]) = (Inr ben, directory [anna, ben])" "pn_id ben = 2" by code_simp+
  ultimately show ?thesis
    using merge_unites [OF reachable_two, of 2 1 7 3 100 u 2 ben] by (simp add: directory_def)
qed

theorem locking_finds_the_same_witness:
  "resolve_for_update 7 2 (directory [anna, ben]) = resolve_contact 7 2 (directory [anna, ben])"
  by (rule locking_finds_the_same) (simp_all add: directory_def anna_def ben_def new_person_def)

theorem contact_found_again_witness:
  "\<exists>c u d v. get_or_create (\<lambda>n. word_of_nat n + 50) 7 ''+4917'' ''Anna'' (directory [anna, ben]) = (Inr (c, False), u)
     \<and> get_or_create (\<lambda>n. word_of_nat n + 50) 7 ''4917'' ''Annie'' u = (Inr (d, False), v) \<and> pn_id d = pn_id c"
proof -
  have "map_sum id snd (fst (get_or_create (\<lambda>n. word_of_nat n + 50) 7 ''+4917'' ''Anna'' (directory [anna, ben]))) = Inr False" by code_simp
  then obtain c u where "get_or_create (\<lambda>n. word_of_nat n + 50) 7 ''+4917'' ''Anna'' (directory [anna, ben]) = (Inr (c, False), u)"
    by (cases "get_or_create (\<lambda>n. word_of_nat n + 50) 7 ''+4917'' ''Anna'' (directory [anna, ben])") (auto simp: map_sum_def split: sum.splits)
  moreover have "strip_plus ''4917'' = strip_plus ''+4917''" "rune_count ''Annie'' \<le> 255" "faults (directory [anna, ben]) = []"
    by code_simp+
  ultimately show ?thesis using contact_found_again [OF reachable_two, of "\<lambda>n. word_of_nat n + 50" 7 "''+4917''" "''Anna''" c False u "''4917''" "''Annie''"]
    by blast
qed

section \<open>Where the code falls short of its comments\<close>

text \<open>
  The comment says that a creation that loses a race answers the row of the winner; the look-up asks for the identifier
  of the loser, so it finds none and the error stands.
\<close>

lemma raced_contact_fails:
  "fst (create_person (\<lambda>n. word_of_nat n + 50) 7 ''4917'' ''Anna'' (directory [anna])) = Inl (DriverError ''duplicate key: contacts'')"
  by code_simp

text \<open>A look-up that fails is taken for an absent row: the number gets a second contact.\<close>

lemma failed_lookup_duplicates:
  "case get_or_create (\<lambda>n. word_of_nat n + 50) 7 ''4917'' ''Anna'' ((directory [anna\<lparr>pn_phone := ''+4917''\<rparr>])\<lparr>faults := [None, Some ''timeout'']\<rparr>) of
     (a, u) \<Rightarrow> map_sum id snd a = Inr True \<and> map pn_phone (tabs u) = [''+4917'', ''4917'']"
  by code_simp

end
