(* ===== verification/Spec2Isabelle.thy ===== *)
theory Spec2Isabelle
  imports FlowGraph AutomationTotal BookingGaps OfferRuns ShopWitnesses PhoneContacts
begin

text \<open>
  Verification of the core of Whatomate, a multi-tenant messaging and customer platform written in Go.

  \<^bold>\<open>The program.\<close> The server answers HTTP requests (\<^verbatim>\<open>internal/handlers\<close>) over one PostgreSQL database. The development
  models the parts that decide about places, credits and money, and about automation:

  \<^item> the booking calendar: services, resources, opening rules, time off, events and bookings
    (\<^verbatim>\<open>internal/booking/booking.go\<close>, \<^verbatim>\<open>internal/handlers/booking_availability.go\<close> and the first half of
    \<^verbatim>\<open>internal/handlers/product_booking_commerce.go\<close>);
  \<^item> the shop: package definitions, packages of contacts with their credits, invoices, payment intents and manual
    payments (the second half of \<^verbatim>\<open>product_booking_commerce.go\<close>);
  \<^item> the AI booking conversation: reading the answer of a language model, listing slots, offering them and
    confirming one (\<^verbatim>\<open>internal/booking/booking.go\<close>);
  \<^item> automation policies: validation and evaluation of their graphs (\<^verbatim>\<open>internal/handlers/automation_graph.go\<close>), and
    the graph of chatbot flows (\<^verbatim>\<open>internal/flowgraph/flowgraph.go\<close>);
  \<^item> the directory of contacts: finding and creating them by phone number, where their names come from, merging them and
    following the redirects a merge leaves (\<^verbatim>\<open>internal/contactutil/contactutil.go\<close>, parts of
    \<^verbatim>\<open>internal/handlers/customer_workspace.go\<close>);
  \<^item> what all of them call: the entitlement gate, the customer timeline with its webhook outbox, the audit log
    (\<^verbatim>\<open>internal/customeractivity\<close>, \<^verbatim>\<open>internal/audit\<close>, \<^verbatim>\<open>product_commercial.go\<close>).

  Calendar and shop meet in the tables: a booking may draw a credit of a package, a package gets its credits when its
  invoice is paid, an invoice may bill a booking or a package, and deleting a service asks all of them.
\<close>

section \<open>How the code is modelled\<close>

text \<open>
  \<^bold>\<open>Foundations.\<close> \<open>Prelude\<close> holds results, actions that pass a state and may fail, and the collections of rules the
  component proofs use (\<open>reads_intros\<close>, \<open>spares_intros\<close>, \<open>ok_simps\<close> and the like). \<open>GoStd\<close> is what the code uses of
  Go: byte strings, UTF-8, trimming and case, 64-bit arithmetic written out with \<open>wrap64\<close>, JSON values, key folding.
  \<open>Store\<close> is the database session: every statement first polls a list of injected faults, so each \<^verbatim>\<open>if err != nil\<close>
  of the code is a branch that the theorems cover, and a transaction that ends with an error leaves the tables it
  began with. \<open>Records\<close> has one record per struct of \<^verbatim>\<open>internal/models\<close> with the columns the code reads or writes, the
  tables, and \<open>env\<close>, the parameters: identifiers drawn, texts of identifiers and times, time zones, the JSON of rows
  and its digest, and the \<^verbatim>\<open>LOWER\<close> of the database. They are arbitrary in every theorem; where one is needed (fresh identifiers
  are not the nil one, say) it is a named hypothesis, and \<open>Scenario\<close> instantiates all of them.

  \<^bold>\<open>Theories of the code,\<close> one group of definitions per component in the order of the source:

  \<^item> \<open>FlowGraph\<close>: \<^verbatim>\<open>flowgraph.go\<close> and \<^verbatim>\<open>chatbot_graph_types.go\<close>;
  \<^item> \<open>AutomationConfig\<close>, \<open>AutomationValidate\<close>, \<open>AutomationEvaluate\<close>: \<^verbatim>\<open>automation_graph.go\<close>;
  \<^item> \<open>Entitlement\<close>: \<^verbatim>\<open>HasEntitlementTx\<close> and \<^verbatim>\<open>EvaluateProductEntitlement\<close>;
  \<^item> \<open>Timeline\<close>: \<^verbatim>\<open>RecordTx\<close>, \<^verbatim>\<open>OutboxPayload\<close>, \<^verbatim>\<open>LogAudit\<close>;
  \<^item> \<open>BookingCore\<close>: \<^verbatim>\<open>LockEvent\<close>, \<^verbatim>\<open>EnsureNotStarted\<close>, \<^verbatim>\<open>ReserveTx\<close>; \<open>Credits\<close>: grant, reserve, release and consume;
    \<open>BookingHandlers\<close>: \<^verbatim>\<open>CreateBooking\<close>, \<^verbatim>\<open>TransitionBooking\<close>;
  \<^item> \<open>Calendar\<close>, \<open>Schedule\<close>: opening rules and time off; \<open>EventHandlers\<close>: \<^verbatim>\<open>CreateBookingEvent\<close>, \<^verbatim>\<open>UpdateBookingEvent\<close>;
  \<^item> \<open>Encoding\<close>, \<open>Offers\<close>, \<open>Slots\<close>: the conversation;
  \<^item> \<open>Catalogue\<close>: creating and replacing services and resources; \<open>Retirement\<close>: \<^verbatim>\<open>deleteBookingDefinition\<close>;
  \<^item> \<open>Packages\<close>: \<^verbatim>\<open>CreatePackage\<close>, \<^verbatim>\<open>UpdatePackage\<close>; \<open>Invoices\<close>: \<^verbatim>\<open>CreateCommerceInvoice\<close>; \<open>Payments\<close>:
    \<^verbatim>\<open>CreateInvoicePaymentIntent\<close>, \<^verbatim>\<open>RecordManualInvoicePayment\<close>; \<open>Sales\<close>: \<^verbatim>\<open>CreateContactPackage\<close>, \<^verbatim>\<open>SellContactPackage\<close>;
  \<^item> \<open>Directory\<close>: \<^verbatim>\<open>ResolveCanonicalContact\<close> with and without locks, \<^verbatim>\<open>GetOrCreateContact\<close>, names, \<^verbatim>\<open>MergeContact\<close> as far
    as contacts go, on a table of its own.

  A handler is the action from the decoded request to the value or error it answers with. A query is a filter of the
  table in which \<^verbatim>\<open>First\<close> takes the least identifier or the row of the stated order; an insert checks the keys and the check constraints of
  \<^verbatim>\<open>internal/database/product_integrity.go\<close>; the rows of soft-deleted records stay in the tables. An update in place is
  \<open>update_where\<close> and answers with the number of rows. \<open>stored_active\<close> is GORM's habit of replacing a false value by
  the default of the column on \<^verbatim>\<open>Create\<close>.
\<close>

section \<open>What is shown\<close>

text \<open>
  \<^bold>\<open>Automation.\<close> \<open>AutomationShape\<close> states the abstract specification of a graph that may be published and shows that
  validation accepts nothing else; \<open>RootedGraphs\<close> is the interface of a queue over a rooted graph, interpreted in
  \<open>AutomationRun\<close>; \<open>AutomationCorrect\<close> concludes that an accepted graph is a tree, its delays are bounded, and its
  evaluation never fails, runs no node twice and plans well-formed tasks; \<open>AutomationTotal\<close> that validation ends on
  every graph: the walk gets as much depth as there are nodes and edges, the delay loop as many turns as nodes, and both are
  enough. \<open>AutomationText\<close> and \<open>FlowGraph\<close> treat truncation of texts and the choice of edges.

  \<^bold>\<open>Calendar.\<close> \<open>Interfaces\<close> has three contracts as locales: \<open>metered\<close> (a sum over the rows of a table under insert and update),
  \<open>versioned\<close> (rows replaced under a version) and \<open>disjoint_slots\<close> (intervals that do not meet). They are interpreted
  on bookings, events and time off (\<open>BookingSafety\<close>, \<open>StaleWrites\<close>) and on payments and invoice lines (\<open>MoneySafety\<close>).
  \<open>BookingEffects\<close> says what each successful handler wrote; \<open>BookingSafety\<close> and \<open>EventSafety\<close> that every handler keeps
  the invariant; \<open>Atomicity\<close> that refused requests change nothing. \<open>BookingSystem\<close> composes the handlers, with
  requests of any tenant in any order, any driver errors, merges of contacts, which hand bookings without a package to
  another contact, and any other writes outside the booking tables, and proves for every reachable state that no event is
  overbooked, no calendar clashes and the ledger explains the balances. \<open>BookingProperties\<close>, \<open>CreditMoves\<close>, \<open>Guards\<close> and
  \<open>StaleWrites\<close> treat single requests: replays, the life of a booking, the credits a transition moves, the authority of the
  AI, opening hours, stale versions. \<open>SeatRefinement\<close> is a labelled refinement: it reads off each request the action it
  asks for (open, take, free, resize or none) and shows that the handlers perform exactly this on the places of events.

  \<^bold>\<open>Conversation.\<close> \<open>Offers\<close> and \<open>Slots\<close>: tokens survive encoding; a confirmation names exactly one choice of an unexpired offer; a listed, offered and confirmed slot
  can be booked.

  \<^bold>\<open>Shop.\<close> \<open>Triples\<close> has rules for successful runs. \<open>MoneySafety\<close> is the arithmetic of invoices, \<open>ShopSafety\<close> adds that
  packages follow payments; \<open>ShopHandlers\<close>, \<open>PaymentSafety\<close> and \<open>SaleSafety\<close> show that every handler keeps the
  invariant. \<open>ShopSystem\<close> composes calendar and shop into one machine. \<open>ShopProperties\<close> states what holds in every
  reachable state: invoices balance, credits follow payment, requests of the calendar act on the machine of seats as
  they do without a shop, and the shop writes no event, booking or time off. \<open>PaymentReplay\<close>, \<open>ShopAnswers\<close> and \<open>Deletions\<close> treat single requests: a
  payment is recorded once, refusals change nothing, checked money is exact, a deleted service was never used.

  \<^bold>\<open>Contacts.\<close> \<open>Redirects\<close> shows that look-ups, merges and deletions keep a directory in which a merged contact is deleted
  and points to one that was not merged, so no redirect leads to another. \<open>RedirectRuns\<close> and \<open>PhoneContacts\<close> conclude
  for every reachable directory that following redirects ends, far below the depth of sixteen; that a merge unites two
  contacts with all their aliases; that locking a contact finds what reading it finds; and that a phone number keeps its
  contact. The family of a contact gets \<open>family_limit + 1\<close> rounds: each but the last adds a member.

  \<^bold>\<open>Runs.\<close> \<open>Scenario\<close>, \<open>BookingRuns\<close>, \<open>BookingCases\<close>, \<open>OfferRuns\<close>, \<open>ShopRuns\<close> and \<open>ShopWitnesses\<close> evaluate the
  definitions on a sample tenant and apply every property to it. \<open>BookingGaps\<close> and the end of \<open>ShopWitnesses\<close> show runs in
  which the code does what it should not: a waitlisted booking that outlives its cancelled event, an event without
  status, a rule and a package stored active against the request, a booking that cannot be cancelled once its package
  expired, a package released by a forged invoice, and a sale that fails after a race. The end of \<open>PhoneContacts\<close> does so
  for contacts: a lost race that is not recovered, and a failed look-up that makes a second contact of one number.
\<close>

section \<open>Assumptions\<close>

text \<open>
  \<^item> Transactions are serial. The code locks the rows it decides on (\<^verbatim>\<open>SELECT ... FOR UPDATE\<close>), and the second look-up
    after a lock is modelled, but two transactions that really overlap are not.
  \<^item> Instants are whole nanoseconds; the microseconds of the driver are not rounded. \<open>clock n\<close> is the n-th reading of
    the clock in a handler.
  \<^item> The iteration order of a Go map is the order of a list, and an argument where the result may depend on it.
  \<^item> Every read and write may fail by \<open>faults\<close>; a read that found nothing is told from one that failed exactly where
    the code tells them apart.
  \<^item> Foreign keys hold because the handlers look up what they refer to; the constraint itself is modelled only where
    the code relies on it. Version counters are not wrapped: they would need \<open>2 ^ 63\<close> updates of one row.
  \<^item> \<^verbatim>\<open>EqualFold\<close>, \<^verbatim>\<open>ToLower\<close> and \<^verbatim>\<open>ToUpper\<close> fold ASCII letters and the few other runes that fold to ASCII letters.
\<close>

section \<open>Not modelled\<close>

text \<open>
  Authentication, permissions and decoding of requests happen before the modelled code, encoding of answers after it.
  The list and summary endpoints are paging over the modelled tables. \<^verbatim>\<open>normalizeBookingEventRequestTimes\<close>,
  \<^verbatim>\<open>OfferJSON\<close> and \<^verbatim>\<open>ParseOffer\<close> only convert representations. Of a merge, the preview, the collisions it is refused for
  and the rows of other tables it moves, bookings apart, are SQL over tables that are not modelled. Plans and billing, the CRM, the inbox with its channels,
  the chatbot runner, the automation processor, calls, campaigns, workers, relays and the migrations are other
  subsystems: most of what they do is traffic with services whose code is not in the repository (WhatsApp, Meta, Threads,
  Google, Redis, object storage), or SQL that PostgreSQL runs.
\<close>

end
